(* ===== verification/AF_Prelude.thy ===== *)
theory AF_Prelude
  imports Main "HOL-Library.Word" "HOL-Library.Char_ord" "HOL-Library.List_Lexorder"
    "HOL-Library.Product_Lexorder"
begin

text \<open>
  Shared vocabulary of the development: machine-integer type synonyms, the byte view of
  characters, decimal printing (\<open>std::to_string\<close> of an unsigned integer), the little-endian
  layout of words, and small lemmas on lists and words that several components use.
  The collections \<open>byte_simps\<close> (bytes, characters and word layout) and \<open>sep_simps\<close>
  (splitting a string at a separator) are filled here and by the components.
\<close>

unbundle bit_operations_syntax

named_theorems byte_simps "bytes, characters and the little-endian layout of words"
named_theorems sep_simps "characters that a printed field never contains"

type_synonym byte = "8 word"
type_synonym uint8_t = "8 word"
type_synonym uint16_t = "16 word"
type_synonym uint32_t = "32 word"
type_synonym uint64_t = "64 word"

lemma unat_8_less: "unat (b :: byte) < 256"
  using unsigned_less [where 'b = 8 and 'a = nat, of b] by simp

lemma unat_32_less: "unat (v :: uint32_t) < 2 ^ 32"
  using unsigned_less [where 'b = 32 and 'a = nat, of v] by simp

lemma unat_64_less: "unat (v :: uint64_t) < 2 ^ 64"
  using unsigned_less [where 'b = 64 and 'a = nat, of v] by simp

section \<open>Characters and bytes\<close>

text \<open>A \<open>char\<close> of the source is one byte; the codecs reinterpret strings as byte ranges.\<close>

definition byte_of_char :: "char \<Rightarrow> byte" where
  "byte_of_char c = word_of_nat (of_char c)"

definition char_of_byte :: "byte \<Rightarrow> char" where
  "char_of_byte b = char_of (unat b)"

lemma of_char_less_256: "(of_char c :: nat) < 256"
  by (metis char_of_eq_iff of_char_mod_256 mod_less_divisor zero_less_numeral)

lemma char_of_byte_of_char [simp, byte_simps]: "char_of_byte (byte_of_char c) = c"
  by (simp add: char_of_byte_def byte_of_char_def unat_of_nat of_char_less_256)

lemma byte_of_char_of_byte [simp, byte_simps]: "byte_of_char (char_of_byte b) = b"
proof -
  have "unat b < 256" by (rule unat_8_less)
  then show ?thesis by (simp add: char_of_byte_def byte_of_char_def of_char_of)
qed

lemma map_char_byte [simp, byte_simps]: "map char_of_byte (map byte_of_char s) = s"
  by (induction s) simp_all

lemma map_byte_char [simp, byte_simps]: "map byte_of_char (map char_of_byte bs) = bs"
  by (induction bs) simp_all

lemma map_char_byte_comp [simp]: "map (char_of_byte \<circ> byte_of_char) s = s"
  by (induction s) simp_all

lemma byte_of_char_inject [simp]: "byte_of_char c = byte_of_char d \<longleftrightarrow> c = d"
  by (metis char_of_byte_of_char)

section \<open>Decimal printing\<close>

definition dec_digit :: "nat \<Rightarrow> char" where
  "dec_digit n = char_of (48 + n)"

text \<open>\<open>std::to_string\<close> of an unsigned value: no leading zeros, \<open>0\<close> for zero.\<close>

fun dec_str :: "nat \<Rightarrow> string" where
  "dec_str n = (if n < 10 then [dec_digit n] else dec_str (n div 10) @ [dec_digit (n mod 10)])"

declare dec_str.simps [simp del]

definition dec_char :: "char \<Rightarrow> bool" where
  "dec_char c \<longleftrightarrow> (of_char c :: nat) \<in> {48..57}"

definition dec_val :: "string \<Rightarrow> nat" where
  "dec_val s = foldl (\<lambda>v c. 10 * v + (of_char c - 48)) 0 s"

lemma of_char_dec_digit: "n < 10 \<Longrightarrow> (of_char (dec_digit n) :: nat) = 48 + n"
  by (simp add: dec_digit_def of_char_of)

lemma dec_str_not_Nil [simp]: "dec_str n \<noteq> []"
  by (subst dec_str.simps) simp

lemma dec_str_chars: "c \<in> set (dec_str n) \<Longrightarrow> dec_char c"
proof (induction n rule: dec_str.induct)
  case (1 n)
  show ?case
  proof (cases "n < 10")
    case True
    with "1.prems" show ?thesis
      by (simp add: dec_str.simps [of n] dec_char_def of_char_dec_digit)
  next
    case False
    have "dec_char (dec_digit (n mod 10))"
      by (simp add: dec_char_def of_char_dec_digit)
    with False "1.prems" "1.IH" show ?thesis
      by (auto simp: dec_str.simps [of n])
  qed
qed

lemma dec_val_str [simp]: "dec_val (dec_str n) = n"
proof (induction n rule: dec_str.induct)
  case (1 n)
  show ?case
  proof (cases "n < 10")
    case True
    then show ?thesis
      by (simp add: dec_str.simps [of n] dec_val_def of_char_dec_digit)
  next
    case False
    then have "dec_val (dec_str (n div 10)) = n div 10" by (rule "1.IH")
    with False show ?thesis
      by (simp add: dec_str.simps [of n] dec_val_def of_char_dec_digit)
  qed
qed

lemma dec_str_inject [simp]: "dec_str m = dec_str n \<longleftrightarrow> m = n"
  by (metis dec_val_str)

lemma length_dec_str: "n < 10 ^ k \<Longrightarrow> 0 < k \<Longrightarrow> length (dec_str n) \<le> k"
proof (induction k arbitrary: n)
  case (Suc k)
  show ?case
  proof (cases "n < 10")
    case False
    then have "0 < k" using Suc.prems by (cases k) simp_all
    moreover have "n div 10 < 10 ^ k" using Suc.prems(1) by (simp add: less_mult_imp_div_less mult.commute)
    ultimately have "length (dec_str (n div 10)) \<le> k" using Suc.IH by blast
    then show ?thesis using False by (simp add: dec_str.simps [of n])
  qed (simp add: dec_str.simps [of n])
qed simp

section \<open>Splitting at a separator\<close>

text \<open>
  Two strings that agree and whose fields before the first separator do not contain it agree
  field by field: the step used to decode any separated text.
\<close>

lemma sep_cancel:
  assumes "xs @ c # r = ys @ c # r'" and "c \<notin> set xs" and "c \<notin> set ys"
  shows "xs = ys \<and> r = r'"
  using assms by (induction xs ys rule: list_induct2') auto

lemma dec_str_sep [sep_simps]:
  "CHR ''|'' \<notin> set (dec_str n)" "CHR '';'' \<notin> set (dec_str n)" "CHR ''@'' \<notin> set (dec_str n)"
  by (auto dest!: dec_str_chars simp: dec_char_def)

section \<open>Little-endian layout of words\<close>

text \<open>
  The byte \<open>i\<close> written for a word is \<open>(v >> 8 * i) & 0xFF\<close>; the word read back is the
  disjunction of \<open>byte << 8 * i\<close>. Every codec of the source uses these two loops.
\<close>

definition store_le :: "nat \<Rightarrow> 'w::len word \<Rightarrow> byte list" where
  "store_le n v = map (\<lambda>i. ucast (drop_bit (8 * i) v AND 0xFF)) [0..<n]"

definition load_le :: "nat \<Rightarrow> byte list \<Rightarrow> nat \<Rightarrow> 'w::len word" where
  "load_le n d p = foldl (\<lambda>v i. v OR push_bit (8 * i) (ucast (d ! (p + i)))) 0 [0..<n]"

lemma length_store_le [simp, byte_simps]: "length (store_le n v) = n"
  by (simp add: store_le_def)

lemma byte_mask: "x AND (0xFF :: 'w::len word) = take_bit 8 x"
  by (simp add: take_bit_eq_mask mask_eq_exp_minus_1)

lemma bit_store_le_nth:
  "i < n \<Longrightarrow> bit (store_le n v ! i) k \<longleftrightarrow> k < 8 \<and> bit (v :: 'w::len word) (8 * i + k)"
  using bit_imp_le_length [of v "8 * i + k"]
  by (auto simp: store_le_def bit_ucast_iff byte_mask bit_take_bit_iff bit_drop_bit_eq)

lemma bit_load_le:
  "bit (load_le n d p :: 'w::len word) k \<longleftrightarrow>
     k < LENGTH('w) \<and> k < 8 * n \<and> bit (d ! (p + k div 8)) (k mod 8)"
proof (induction n)
  case 0
  then show ?case by (simp add: load_le_def)
next
  case (Suc n)
  have step: "(load_le (Suc n) d p :: 'w word)
      = load_le n d p OR push_bit (8 * n) (ucast (d ! (p + n)))"
    by (simp add: load_le_def)
  have top: "bit (push_bit (8 * n) (ucast (d ! (p + n))) :: 'w word) k \<longleftrightarrow>
      k < LENGTH('w) \<and> 8 * n \<le> k \<and> k < 8 * Suc n \<and> bit (d ! (p + k div 8)) (k mod 8)"
  proof (cases "8 * n \<le> k \<and> k < 8 * Suc n")
    case True
    then have kd: "k div 8 = n" by (intro div_nat_eqI) auto
    then have km: "k mod 8 = k - 8 * n" by (simp add: minus_mult_div_eq_mod [symmetric])
    show ?thesis
      using True unfolding kd km
      by (auto simp: bit_push_bit_iff bit_ucast_iff)
  next
    case False
    then have "\<not> bit (d ! (p + n)) (k - 8 * n)" if "8 * n \<le> k"
      using that bit_imp_le_length [of "d ! (p + n)" "k - 8 * n"] by auto
    with False show ?thesis by (simp add: bit_push_bit_iff bit_ucast_iff) blast
  qed
  show ?case
    unfolding step bit_or_iff Suc.IH top by (cases "k < 8 * n") simp_all
qed

lemma load_store_le:
  assumes "LENGTH('w::len) = 8 * n"
  shows "load_le n (pre @ store_le n (v :: 'w word) @ suf) (length pre) = v"
proof (rule bit_word_eqI)
  fix k assume k: "k < LENGTH('w)"
  then have "k div 8 < n" using assms by simp
  then show "bit (load_le n (pre @ store_le n v @ suf) (length pre) :: 'w word) k = bit v k"
    using k assms by (simp add: bit_load_le nth_append bit_store_le_nth)
qed

lemma store_load_le:
  assumes "LENGTH('w::len) = 8 * n" and "p + n \<le> length d"
  shows "store_le n (load_le n d p :: 'w word) = take n (drop p d)"
proof (rule nth_equalityI)
  show "length (store_le n (load_le n d p :: 'w word)) = length (take n (drop p d))"
    using assms(2) by simp
next
  fix i assume "i < length (store_le n (load_le n d p :: 'w word))"
  then have i: "i < n" by simp
  show "store_le n (load_le n d p :: 'w word) ! i = take n (drop p d) ! i"
  proof (rule bit_word_eqI)
    fix k assume "k < LENGTH(8)"
    then have k: "k < 8" by simp
    then have "(8 * i + k) div 8 = i" "(8 * i + k) mod 8 = k" by simp_all
    then show "bit (store_le n (load_le n d p :: 'w word) ! i) k = bit (take n (drop p d) ! i) k"
      using i k assms by (simp add: bit_store_le_nth bit_load_le)
  qed
qed

lemma store_le_inject:
  assumes "LENGTH('w::len) = 8 * n" and "store_le n (v :: 'w word) = store_le n w"
  shows "v = w"
  using load_store_le [OF assms(1), of "[]" v "[]"] load_store_le [OF assms(1), of "[]" w "[]"]
    assms(2) by simp

section \<open>Invertible operations on words\<close>

lemma odd_mult_inj:
  fixes m :: "'w::len word"
  assumes "m' * m = 1"
  shows "m * x = m * y \<longleftrightarrow> x = y"
proof
  assume "m * x = m * y"
  then have "m' * (m * x) = m' * (m * y)" by simp
  then show "x = y" by (simp add: assms mult.assoc [symmetric])
qed simp

lemma xor_inj: "(x :: 'w::len word) XOR a = y XOR a \<longleftrightarrow> x = y"
  by (metis xor.assoc xor_self_eq xor.right_neutral)

text \<open>A right xor-shift keeps the top bits, so every bit can be recovered from the left.\<close>

lemma xorshift_inj:
  fixes x y :: "'w::len word"
  assumes "0 < k" and eq: "x XOR drop_bit k x = y XOR drop_bit k y"
  shows "x = y"
proof (rule bit_word_eqI)
  fix n assume "n < LENGTH('w)"
  then show "bit x n = bit y n"
  proof (induction "LENGTH('w) - n" arbitrary: n rule: less_induct)
    case less
    have "bit x (k + n) = bit y (k + n)"
    proof (cases "k + n < LENGTH('w)")
      case True
      then show ?thesis using less \<open>0 < k\<close> by simp
    next
      case False
      then show ?thesis by (auto dest: bit_imp_le_length)
    qed
    moreover have "bit (x XOR drop_bit k x) n = bit (y XOR drop_bit k y) n"
      using eq by simp
    ultimately show ?case by (auto simp: bit_xor_iff bit_drop_bit_eq)
  qed
qed

section \<open>Results\<close>

text \<open>Sequencing of computations that may throw: the error of the first one wins.\<close>

definition bindE :: "'e + 'a \<Rightarrow> ('a \<Rightarrow> 'e + 'b) \<Rightarrow> 'e + 'b" where
  "bindE m f = (case m of Inl e \<Rightarrow> Inl e | Inr x \<Rightarrow> f x)"

lemma bindE_simps [simp]: "bindE (Inl e) f = Inl e" "bindE (Inr x) f = f x"
  by (simp_all add: bindE_def)

lemma bindE_Inr_iff: "bindE m f = Inr y \<longleftrightarrow> (\<exists>x. m = Inr x \<and> f x = Inr y)"
  by (cases m) simp_all

end
