(* ===== verification/AF_Error.thy ===== *)
theory AF_Error
  imports AF_Prelude
begin

text \<open>
  The error model (\<open>error.hpp\<close>, \<open>error.cpp\<close>). A thrown \<open>Error\<close> is the left
  summand of a result; the enumerators carry the prefix \<open>EC_\<close>. \<open>AF_THROW\<close> and the
  \<open>throw Error(code, message)\<close> statements leave the context string empty.
\<close>

datatype (plugins only: code) ErrorCode =
    EC_ok
  | EC_invalid_identity
  | EC_invalid_generation
  | EC_invalid_state_transition
  | EC_incompatibility
  | EC_invalid_composition
  | EC_capacity_overcommit
  | EC_capacity_underflow
  | EC_double_reservation
  | EC_double_release
  | EC_not_found
  | EC_already_exists
  | EC_checksum_mismatch
  | EC_malformed
  | EC_truncation
  | EC_duplicate
  | EC_invalid_enum
  | EC_invalid_generation_value
  | EC_integer_overflow
  | EC_trailing_garbage
  | EC_unsupported_version
  | EC_corrupt
  | EC_stale_authority
  | EC_stale_worker
  | EC_stale_boot
  | EC_stale_attempt
  | EC_stale_generation
  | EC_invalid_activation
  | EC_eviction_denied
  | EC_invalid_migration
  | EC_invalid_invalidation
  | EC_io_error
  | EC_protocol_error
  | EC_transport_error
  | EC_resource_unavailable
  | EC_not_available
  | EC_invalid_argument
  | EC_precondition_error
  | EC_authority_conflict
  | EC_internal_error

record Error =
  err_code :: ErrorCode
  err_what :: string
  err_context :: string

definition throw :: "ErrorCode \<Rightarrow> string \<Rightarrow> Error + 'a" where
  "throw code message = Inl \<lparr>err_code = code, err_what = message, err_context = []\<rparr>"

lemma throw_simps [simp]:
  "throw c m \<noteq> Inr x" "Inr x \<noteq> throw c m"
  "(throw c m = (throw c' m' :: Error + 'a)) \<longleftrightarrow> c = c' \<and> m = m'"
  "bindE (throw c m) f = throw c m"
  by (auto simp: throw_def)

primrec ErrorCode_to_string :: "ErrorCode \<Rightarrow> string" where
  "ErrorCode_to_string EC_ok = ''ok''"
| "ErrorCode_to_string EC_invalid_identity = ''invalid_identity''"
| "ErrorCode_to_string EC_invalid_generation = ''invalid_generation''"
| "ErrorCode_to_string EC_invalid_state_transition = ''invalid_state_transition''"
| "ErrorCode_to_string EC_incompatibility = ''incompatibility''"
| "ErrorCode_to_string EC_invalid_composition = ''invalid_composition''"
| "ErrorCode_to_string EC_capacity_overcommit = ''capacity_overcommit''"
| "ErrorCode_to_string EC_capacity_underflow = ''capacity_underflow''"
| "ErrorCode_to_string EC_double_reservation = ''double_reservation''"
| "ErrorCode_to_string EC_double_release = ''double_release''"
| "ErrorCode_to_string EC_not_found = ''not_found''"
| "ErrorCode_to_string EC_already_exists = ''already_exists''"
| "ErrorCode_to_string EC_checksum_mismatch = ''checksum_mismatch''"
| "ErrorCode_to_string EC_malformed = ''malformed''"
| "ErrorCode_to_string EC_truncation = ''truncation''"
| "ErrorCode_to_string EC_duplicate = ''duplicate''"
| "ErrorCode_to_string EC_invalid_enum = ''invalid_enum''"
| "ErrorCode_to_string EC_invalid_generation_value = ''invalid_generation_value''"
| "ErrorCode_to_string EC_integer_overflow = ''integer_overflow''"
| "ErrorCode_to_string EC_trailing_garbage = ''trailing_garbage''"
| "ErrorCode_to_string EC_unsupported_version = ''unsupported_version''"
| "ErrorCode_to_string EC_corrupt = ''corrupt''"
| "ErrorCode_to_string EC_stale_authority = ''stale_authority''"
| "ErrorCode_to_string EC_stale_worker = ''stale_worker''"
| "ErrorCode_to_string EC_stale_boot = ''stale_boot''"
| "ErrorCode_to_string EC_stale_attempt = ''stale_attempt''"
| "ErrorCode_to_string EC_stale_generation = ''stale_generation''"
| "ErrorCode_to_string EC_invalid_activation = ''invalid_activation''"
| "ErrorCode_to_string EC_eviction_denied = ''eviction_denied''"
| "ErrorCode_to_string EC_invalid_migration = ''invalid_migration''"
| "ErrorCode_to_string EC_invalid_invalidation = ''invalid_invalidation''"
| "ErrorCode_to_string EC_io_error = ''io_error''"
| "ErrorCode_to_string EC_protocol_error = ''protocol_error''"
| "ErrorCode_to_string EC_transport_error = ''transport_error''"
| "ErrorCode_to_string EC_resource_unavailable = ''resource_unavailable''"
| "ErrorCode_to_string EC_not_available = ''not_available''"
| "ErrorCode_to_string EC_invalid_argument = ''invalid_argument''"
| "ErrorCode_to_string EC_precondition_error = ''precondition_error''"
| "ErrorCode_to_string EC_authority_conflict = ''authority_conflict''"
| "ErrorCode_to_string EC_internal_error = ''internal_error''"

end
