(* ===== verification/AF_Identity.thy ===== *)
theory AF_Identity
  imports AF_Error
begin

text \<open>
  Identities and generations (\<open>rng.hpp\<close>, \<open>uuid.hpp\<close>, \<open>uuid.cpp\<close>,
  \<open>identity.hpp\<close>, \<open>generation.hpp\<close>): the splitmix64 generator as explicit state, the
  128-bit UUID as a type of exactly 16 bytes, identities that carry their tag in the type, and saturating 64-bit generations.
  The process-wide generator \<open>Rng::instance()\<close> is passed as an argument wherever the
  source draws from it. Words are laid out little-endian, as on the x86-64 target of the build.
\<close>

section \<open>splitmix64\<close>

record Rng =
  rng_state :: uint64_t

definition rng_instance_seed :: uint64_t where
  "rng_instance_seed = 0x9E3779B97F4A7C15"

text \<open>The generator \<open>Rng::instance()\<close> every process starts from.\<close>

definition rng_instance :: Rng where
  "rng_instance = \<lparr>rng_state = rng_instance_seed\<rparr>"

definition splitmix :: "uint64_t \<Rightarrow> uint64_t" where
  "splitmix z0 =
     (let z1 = (z0 XOR drop_bit 30 z0) * 0xBF58476D1CE4E5B9;
          z2 = (z1 XOR drop_bit 27 z1) * 0x94D049BB133111EB
      in z2 XOR drop_bit 31 z2)"

definition rng_next :: "Rng \<Rightarrow> uint64_t \<times> Rng" where
  "rng_next r =
     (let z = rng_state r + 0x9E3779B97F4A7C15
      in (splitmix z, r\<lparr>rng_state := z\<rparr>))"

text \<open>
  \<open>fill\<close>: each round draws one word and copies its first \<open>min (n - i) 8\<close> bytes.
\<close>

function rng_fill :: "nat \<Rightarrow> Rng \<Rightarrow> byte list \<times> Rng" where
  "rng_fill n r =
     (if n = 0 then ([], r)
      else let (v, r1) = rng_next r;
               k = min n 8;
               (rest, r2) = rng_fill (n - k) r1
           in (take k (store_le 8 v) @ rest, r2))"
  by pat_completeness auto
termination
  by (relation "measure (\<lambda>(n, r). n)") auto

declare rng_fill.simps [simp del]

lemma length_rng_fill: "length (fst (rng_fill n r)) = n"
proof (induction n r rule: rng_fill.induct)
  case (1 n r)
  show ?case
  proof (cases "n = 0")
    case True
    then show ?thesis by (simp add: rng_fill.simps)
  next
    case False
    obtain v r1 where v: "rng_next r = (v, r1)" by fastforce
    have "length (fst (rng_fill (n - min n 8) r1)) = n - min n 8"
      using False v by (intro "1.IH") auto
    then show ?thesis
      using False v by (simp add: rng_fill.simps [of n r] case_prod_beta Let_def)
  qed
qed

subsection \<open>No output repeats within \<open>2^64\<close> draws\<close>

lemma splitmix_inj: "splitmix x = splitmix y \<longleftrightarrow> x = y"
proof
  have m1: "(10871156337175269513 :: uint64_t) * 0xBF58476D1CE4E5B9 = 1" by simp
  have m2: "(3573116690164977347 :: uint64_t) * 0x94D049BB133111EB = 1" by simp
  assume "splitmix x = splitmix y"
  then have "(let z1 = (x XOR drop_bit 30 x) * 0xBF58476D1CE4E5B9
       in (z1 XOR drop_bit 27 z1) * 0x94D049BB133111EB)
     = (let z1 = (y XOR drop_bit 30 y) * 0xBF58476D1CE4E5B9
       in (z1 XOR drop_bit 27 z1) * 0x94D049BB133111EB)"
    unfolding splitmix_def Let_def by (rule xorshift_inj [rotated]) simp
  then have "(x XOR drop_bit 30 x) * 0xBF58476D1CE4E5B9
     = (y XOR drop_bit 30 y) * 0xBF58476D1CE4E5B9"
    unfolding Let_def mult.commute [of _ "0x94D049BB133111EB"] odd_mult_inj [OF m2]
    by (rule xorshift_inj [rotated]) simp
  then have "x XOR drop_bit 30 x = y XOR drop_bit 30 y"
    unfolding mult.commute [of _ "0xBF58476D1CE4E5B9"] odd_mult_inj [OF m1] .
  then show "x = y" by (rule xorshift_inj [rotated]) simp
qed simp

primrec rng_after :: "nat \<Rightarrow> Rng \<Rightarrow> Rng" where
  "rng_after 0 r = r"
| "rng_after (Suc n) r = rng_after n (snd (rng_next r))"

lemma rng_state_after:
  "rng_state (rng_after n r) = rng_state r + of_nat n * 0x9E3779B97F4A7C15"
  by (induction n arbitrary: r) (simp_all add: rng_next_def Let_def algebra_simps)

text \<open>
  Two draws of one generator agree exactly when their distance is a multiple of \<open>2^64\<close>: the
  generator has full period and repeats no draw before.
\<close>

theorem rng_period:
  "fst (rng_next (rng_after i r)) = fst (rng_next (rng_after j r)) \<longleftrightarrow>
     i mod 2 ^ 64 = j mod 2 ^ 64"
proof -
  have odd: "(17428512612931826493 :: uint64_t) * 0x9E3779B97F4A7C15 = 1" by simp
  have "fst (rng_next (rng_after i r)) = fst (rng_next (rng_after j r)) \<longleftrightarrow>
      of_nat i * 0x9E3779B97F4A7C15 = (of_nat j * 0x9E3779B97F4A7C15 :: uint64_t)"
    by (simp add: rng_next_def Let_def splitmix_inj rng_state_after)
  also have "\<dots> \<longleftrightarrow> (of_nat i :: uint64_t) = of_nat j"
    unfolding mult.commute [of _ "0x9E3779B97F4A7C15"] odd_mult_inj [OF odd] ..
  also have "\<dots> \<longleftrightarrow> i mod 2 ^ 64 = j mod 2 ^ 64"
    by (simp add: word_of_nat_eq_iff take_bit_eq_mod)
  finally show ?thesis .
qed

section \<open>UUIDs\<close>

text \<open>\<open>std::array<std::uint8_t, 16>\<close>: the type of lists of exactly 16 bytes.\<close>

typedef Uuid = "{bs :: byte list. length bs = 16}" morphisms bytes Abs_Uuid
  by (rule exI [of _ "replicate 16 0"]) simp

setup_lifting type_definition_Uuid

lift_definition Uuid_of :: "byte list \<Rightarrow> Uuid" is
  "\<lambda>bs :: byte list. if length bs = 16 then bs else replicate 16 0"
  by simp

lemma length_bytes [simp]: "length (bytes u) = 16"
  by transfer simp

lemma bytes_Uuid_of: "bytes (Uuid_of bs) = (if length bs = 16 then bs else replicate 16 0)"
  by transfer simp

lemma bytes_of_16 [simp]: "length bs = 16 \<Longrightarrow> bytes (Uuid_of bs) = bs"
  by (simp add: bytes_Uuid_of)

lemma Uuid_of_bytes [simp]: "Uuid_of (bytes u) = u"
  by (metis bytes_inject bytes_of_16 length_bytes)

lemma Uuid_eq_iff: "u = v \<longleftrightarrow> bytes u = bytes v"
  by (simp add: bytes_inject)

lemma Uuid_of_inject: "length a = 16 \<Longrightarrow> length b = 16 \<Longrightarrow> Uuid_of a = Uuid_of b \<longleftrightarrow> a = b"
  by (simp add: Uuid_eq_iff)

instantiation Uuid :: equal
begin

definition equal_Uuid :: "Uuid \<Rightarrow> Uuid \<Rightarrow> bool" where
  "equal_Uuid u v \<longleftrightarrow> bytes u = bytes v"

instance
  by standard (simp add: equal_Uuid_def Uuid_eq_iff)

end

text \<open>\<open>operator<\<close> compares the arrays lexicographically.\<close>

definition Uuid_before :: "Uuid \<Rightarrow> Uuid \<Rightarrow> bool" where
  "Uuid_before u v \<longleftrightarrow> bytes u < bytes v"

instantiation Uuid :: linorder
begin

definition less_eq_Uuid :: "Uuid \<Rightarrow> Uuid \<Rightarrow> bool" where
  "less_eq_Uuid u v \<longleftrightarrow> u = v \<or> Uuid_before u v"

definition less_Uuid :: "Uuid \<Rightarrow> Uuid \<Rightarrow> bool" where
  "less_Uuid u v \<longleftrightarrow> Uuid_before u v"

instance
  by standard (auto simp: less_eq_Uuid_def less_Uuid_def Uuid_before_def Uuid_eq_iff)

end

definition Uuid_nil :: Uuid where
  "Uuid_nil = Uuid_of (replicate 16 0)"

definition Uuid_is_nil :: "Uuid \<Rightarrow> bool" where
  "Uuid_is_nil u \<longleftrightarrow> (\<forall>b \<in> set (bytes u). b = 0)"

lemma Uuid_is_nil_iff: "Uuid_is_nil u \<longleftrightarrow> u = Uuid_nil"
proof
  assume "Uuid_is_nil u"
  then have "bytes u = replicate 16 0"
    by (intro nth_equalityI) (auto simp: Uuid_is_nil_def)
  then show "u = Uuid_nil" by (simp add: Uuid_eq_iff Uuid_nil_def)
qed (simp add: Uuid_is_nil_def Uuid_nil_def)

subsection \<open>Generation\<close>

definition Uuid_generate :: "Rng \<Rightarrow> Uuid \<times> Rng" where
  "Uuid_generate rng =
     (let (b, rng') = rng_fill 16 rng;
          b1 = b[6 := (b ! 6 AND 0x0F) OR 0x40];
          b2 = b1[8 := (b1 ! 8 AND 0x3F) OR 0x80]
      in (Uuid_of b2, rng'))"

text \<open>A generated identity carries the version 4 and variant bits, so it is never null.\<close>

lemma Uuid_generate_version:
  "bytes (fst (Uuid_generate r)) ! 6 AND 0xF0 = 0x40"
  "bytes (fst (Uuid_generate r)) ! 8 AND 0xC0 = 0x80"
proof -
  have v: "((b AND 0x0F) OR 0x40) AND 0xF0 = (0x40 :: byte)" for b
    by (simp add: bit.conj_disj_distrib2 and.assoc)
  have w: "((b AND 0x3F) OR 0x80) AND 0xC0 = (0x80 :: byte)" for b
    by (simp add: bit.conj_disj_distrib2 and.assoc)
  show "bytes (fst (Uuid_generate r)) ! 6 AND 0xF0 = 0x40"
    using v length_rng_fill [of 16 r]
    by (simp add: Uuid_generate_def case_prod_beta Let_def)
  show "bytes (fst (Uuid_generate r)) ! 8 AND 0xC0 = 0x80"
    using w length_rng_fill [of 16 r]
    by (simp add: Uuid_generate_def case_prod_beta Let_def)
qed

lemma Uuid_generate_not_nil: "\<not> Uuid_is_nil (fst (Uuid_generate r))"
proof
  assume "Uuid_is_nil (fst (Uuid_generate r))"
  then have "bytes (fst (Uuid_generate r)) ! 6 = 0"
    by (simp add: Uuid_is_nil_def)
  then show False using Uuid_generate_version(1) [of r] by simp
qed

text \<open>
  C37: Whatever the state of the generator, a generated identity is not the nil identity and
  carries the version 4 and variant 1 bits of RFC 4122.
\<close>

theorem Uuid_generate_stamped:
  "\<not> Uuid_is_nil (fst (Uuid_generate r)) \<and>
   bytes (fst (Uuid_generate r)) ! 6 AND 0xF0 = 0x40 \<and>
   bytes (fst (Uuid_generate r)) ! 8 AND 0xC0 = 0x80"
  using Uuid_generate_not_nil Uuid_generate_version by blast

end
