(* ===== verification/AF_UuidText.thy ===== *)
theory AF_UuidText
  imports AF_Identity
begin

text \<open>
  The canonical text of a UUID (\<open>Uuid::str\<close>, 8-4-4-4-12 lowercase hex) and its strict parser
  (\<open>Uuid::parse\<close>, \<open>uuid.cpp\<close>). The lemmas show that parsing inverts printing, which
  texts are accepted, that accepting is case-insensitive and canonicalising, and that no index of
  the loop leaves the text or the output array.
\<close>

section \<open>Canonical text\<close>

definition hex_table :: string where
  "hex_table = ''0123456789abcdef''"

definition hex_hi :: "byte \<Rightarrow> char" where
  "hex_hi b = hex_table ! unat (drop_bit 4 b)"

definition hex_lo :: "byte \<Rightarrow> char" where
  "hex_lo b = hex_table ! unat (b AND 0x0F)"

definition Uuid_str :: "Uuid \<Rightarrow> string" where
  "Uuid_str u = concat (map (\<lambda>k.
      (if k = 4 \<or> k = 6 \<or> k = 8 \<or> k = 10 then [CHR ''-''] else [])
      @ [hex_hi (bytes u ! k), hex_lo (bytes u ! k)]) [0..<16])"

definition nibble :: "char \<Rightarrow> int" where
  "nibble c =
     (if CHR ''0'' \<le> c \<and> c \<le> CHR ''9'' then of_char c - 48
      else if CHR ''a'' \<le> c \<and> c \<le> CHR ''f'' then of_char c - 97 + 10
      else if CHR ''A'' \<le> c \<and> c \<le> CHR ''F'' then of_char c - 65 + 10
      else -1)"

text \<open>
  The parser's loop: \<open>i\<close> indexes the text, \<open>di\<close> the output array. A step reads
  \<open>s[i]\<close> and, off the dash positions, \<open>s[i + 1]\<close>, and writes \<open>out[di]\<close>;
  \<open>Uuid_parse_touches\<close> lists the indices the loop can read and write.
\<close>

function Uuid_parse_loop :: "string \<Rightarrow> nat \<Rightarrow> nat \<Rightarrow> byte list \<Rightarrow> string + byte list" where
  "Uuid_parse_loop s i di out =
     (if i < length s then
        if i = 8 \<or> i = 13 \<or> i = 18 \<or> i = 23 then
          if s ! i \<noteq> CHR ''-'' then Inl (''expected a dash at position '' @ dec_str i)
          else Uuid_parse_loop s (i + 1) di out
        else
          let hi = nibble (s ! i); lo = nibble (s ! (i + 1))
          in if hi < 0 \<or> lo < 0 then Inl ''invalid hex digit''
             else Uuid_parse_loop s (i + 2) (di + 1)
                    (out[di := word_of_int (push_bit 4 hi OR lo)])
      else Inr out)"
  by pat_completeness auto
termination
  by (relation "measure (\<lambda>(s, i, di, out). length s - i)") auto

declare Uuid_parse_loop.simps [simp del]

definition Uuid_parse :: "string \<Rightarrow> string + Uuid" where
  "Uuid_parse s =
     (if length s \<noteq> 36 then Inl ''expected a 36-character UUID''
      else bindE (Uuid_parse_loop s 0 0 (replicate 16 0)) (\<lambda>out. Inr (Uuid_of out)))"

function Uuid_parse_touches :: "nat \<Rightarrow> nat \<Rightarrow> nat \<Rightarrow> nat list \<times> nat list" where
  "Uuid_parse_touches n i di =
     (if i < n then
        if i = 8 \<or> i = 13 \<or> i = 18 \<or> i = 23 then
          let (rs, ws) = Uuid_parse_touches n (i + 1) di in (i # rs, ws)
        else let (rs, ws) = Uuid_parse_touches n (i + 2) (di + 1) in (i # (i + 1) # rs, di # ws)
      else ([], []))"
  by pat_completeness auto
termination
  by (relation "measure (\<lambda>(n, i, di). n - i)") auto

declare Uuid_parse_touches.simps [simp del]

section \<open>Hex digits\<close>

lemma all_less_16:
    "(\<forall>i<16. P i) \<longleftrightarrow> P (15 :: nat) \<and> P (14 :: nat) \<and> P (13 ::
      nat) \<and> P (12 :: nat) \<and> P (11 :: nat) \<and> P (10 :: nat) \<and> P (9 :: nat)
      \<and> P (8 :: nat) \<and> P (7 :: nat) \<and> P (6 :: nat) \<and> P (5 :: nat) \<and> P (4
      :: nat) \<and> P (3 :: nat) \<and> P (2 :: nat) \<and> P (1 :: nat) \<and> P (0 :: nat)"
  by (simp add: All_less_Suc eval_nat_numeral)

lemma nibble_hex_table: "i < 16 \<Longrightarrow> nibble (hex_table ! i) = int i"
proof -
  have "\<forall>i<16. nibble (hex_table ! i) = int i"
    unfolding all_less_16 by (simp add: nibble_def hex_table_def less_eq_char_def)
  then show "i < 16 \<Longrightarrow> ?thesis" by blast
qed

lemma low_nibble: "b AND 0x0F = take_bit 4 (b :: byte)"
  by (simp add: take_bit_eq_mask mask_eq_exp_minus_1)

lemma hi_bound: "unat (drop_bit 4 (b :: byte)) < 16"
proof -
  have "unat b < 256" by (rule unat_8_less)
  then show ?thesis by (simp add: unsigned_drop_bit_eq drop_bit_eq_div unat_div)
qed

lemma lo_bound: "unat (b AND 0x0F :: byte) < 16"
  by (simp add: low_nibble take_bit_eq_mod unat_mod)

lemma nibble_hex [simp]:
  "nibble (hex_hi b) = uint (drop_bit 4 b)" "nibble (hex_lo b) = uint (b AND 0x0F)"
    by (simp_all only: hex_hi_def hex_lo_def nibble_hex_table [OF hi_bound] nibble_hex_table [OF
      lo_bound] uint_nat)

lemma join_nibbles: "word_of_int (push_bit 4 (uint (drop_bit 4 b)) OR uint (b AND 0x0F)) = (b ::
    byte)"
proof (rule bit_word_eqI)
  fix n assume n: "n < LENGTH(8)"
    show "bit (word_of_int (push_bit 4 (uint (drop_bit 4 b)) OR uint (b AND 0x0F)) :: byte) n =
      bit b n"
    unfolding low_nibble using n
        by (cases "n < 4") (auto simp: bit_word_of_int_iff bit_or_iff bit_push_bit_iff
        bit_uint_iff bit_drop_bit_eq bit_take_bit_iff)
qed
lemma hex_not_dash: "hex_table ! i \<noteq> CHR ''-''" if "i < 16"
proof -
  have "nibble (hex_table ! i) \<noteq> nibble (CHR ''-'')"
    unfolding nibble_hex_table [OF that] by (simp add: nibble_def less_eq_char_def)
  then show ?thesis by metis
qed

lemma length_16E:
  assumes "length xs = 16"
  obtains a0 a1 a2 a3 a4 a5 a6 a7 a8 a9 a10 a11 a12 a13 a14 a15
  where "xs = [a0, a1, a2, a3, a4, a5, a6, a7, a8, a9, a10, a11, a12, a13, a14, a15]"
  using assms by (auto simp: eval_nat_numeral length_Suc_conv)

lemma Uuid_parse_str: "Uuid_parse (Uuid_str u) = Inr u"
proof -
  obtain a0 a1 a2 a3 a4 a5 a6 a7 a8 a9 a10 a11 a12 a13 a14 a15
    where b: "bytes u = [a0, a1, a2, a3, a4, a5, a6, a7, a8, a9, a10, a11, a12, a13, a14, a15]"
    using length_16E [OF length_bytes] by blast
  have u: "u = Uuid_of [a0, a1, a2, a3, a4, a5, a6, a7, a8, a9, a10, a11, a12, a13, a14, a15]"
    by (simp add: b [symmetric])
  have r: "replicate 16 (0::byte) = [0,0,0,0,0,0,0,0,0,0,0,0,0,0,0,0]"
    by (simp add: eval_nat_numeral)
  have l: "[0..<16] = [0,1,2,3,4,5,6,7,8,9,10,11,12,13,14,15]" by (simp add: upt_rec)
  show ?thesis
    unfolding Uuid_parse_def Uuid_str_def b l r
    by (simp add: Uuid_parse_loop.simps join_nibbles u)
qed

definition hex_canon :: "char \<Rightarrow> char" where
  "hex_canon c = (if c = CHR ''-'' then c else hex_table ! nat (nibble c))"

definition uuid_text :: "string \<Rightarrow> bool" where
  "uuid_text s \<longleftrightarrow> length s = 36 \<and>
          (\<forall>i < 36. if i \<in> {8, 13, 18, 23} then s ! i = CHR ''-'' else 0 \<le> nibble
         (s ! i))"

lemma nibble_range: "nibble c < 16"
  unfolding nibble_def less_eq_char_def of_nat_of_char [where 'a = int, symmetric]
  by (auto simp del: of_nat_of_char)

lemma nibble_take_bit: "0 \<le> nibble c \<Longrightarrow> take_bit 4 (nibble c) = nibble c"
  using nibble_range [of c] by (simp add: take_bit_int_eq_self_iff)

lemma nibble_bits: "0 \<le> nibble c \<Longrightarrow> bit (nibble c) n \<Longrightarrow> n < 4"
  by (metis bit_take_bit_iff nibble_take_bit)

lemma unat_nibble: "0 \<le> nibble c \<Longrightarrow> unat (word_of_int (nibble c) :: byte) = nat
    (nibble c)"
  using nibble_range [of c] by (simp add: unsigned_of_int take_bit_int_eq_self)

lemma split_nibbles:
  assumes "0 \<le> nibble c" and "0 \<le> nibble d"
    shows "drop_bit 4 (word_of_int (push_bit 4 (nibble c) OR nibble d) :: byte) = word_of_int
      (nibble c)"
        and "(word_of_int (push_bit 4 (nibble c) OR nibble d) AND 0x0F :: byte) = word_of_int
        (nibble d)"
  unfolding low_nibble
  by (rule bit_word_eqI; use nibble_bits [OF assms(1)] nibble_bits [OF assms(2)] in
            \<open>auto simp: bit_drop_bit_eq bit_take_bit_iff bit_word_of_int_iff bit_or_iff
          bit_push_bit_iff\<close>)+

lemma hex_join:
  assumes "0 \<le> nibble c" and "0 \<le> nibble d"
  shows "hex_hi (word_of_int (push_bit 4 (nibble c) OR nibble d)) = hex_table ! nat (nibble c)"
    and "hex_lo (word_of_int (push_bit 4 (nibble c) OR nibble d)) = hex_table ! nat (nibble d)"
  by (simp_all add: hex_hi_def hex_lo_def split_nibbles [OF assms] unat_nibble assms
      del: drop_bit_numeral_bit0)

lemma length_36E:
  assumes "length xs = 36"
    obtains c0 c1 c2 c3 c4 c5 c6 c7 c8 c9 c10 c11 c12 c13 c14 c15 c16 c17 c18 c19 c20 c21 c22 c23
      c24 c25 c26 c27 c28 c29 c30 c31 c32 c33 c34 c35 where "xs = [c0, c1, c2, c3, c4, c5, c6, c7,
      c8, c9, c10, c11, c12, c13, c14, c15, c16, c17, c18, c19, c20, c21, c22, c23, c24, c25, c26,
      c27, c28, c29, c30, c31, c32, c33, c34, c35]"
  using assms by (auto simp: eval_nat_numeral length_Suc_conv)


lemma all_less_36:
    "(\<forall>i<36. P i) \<longleftrightarrow> P (35 :: nat) \<and> P (34 :: nat) \<and> P (33 ::
      nat) \<and> P (32 :: nat) \<and> P (31 :: nat) \<and> P (30 :: nat) \<and> P (29 :: nat)
      \<and> P (28 :: nat) \<and> P (27 :: nat) \<and> P (26 :: nat) \<and> P (25 :: nat) \<and> P
      (24 :: nat) \<and> P (23 :: nat) \<and> P (22 :: nat) \<and> P (21 :: nat) \<and> P (20 ::
      nat) \<and> P (19 :: nat) \<and> P (18 :: nat) \<and> P (17 :: nat) \<and> P (16 :: nat)
      \<and> P (15 :: nat) \<and> P (14 :: nat) \<and> P (13 :: nat) \<and> P (12 :: nat) \<and> P
      (11 :: nat) \<and> P (10 :: nat) \<and> P (9 :: nat) \<and> P (8 :: nat) \<and> P (7 :: nat)
      \<and> P (6 :: nat) \<and> P (5 :: nat) \<and> P (4 :: nat) \<and> P (3 :: nat) \<and> P (2
      :: nat) \<and> P (1 :: nat) \<and> P (0 :: nat)"
  by (simp add: All_less_Suc eval_nat_numeral)

lemma uuid_text_list:
    "uuid_text [c0, c1, c2, c3, c4, c5, c6, c7, c8, c9, c10, c11, c12, c13, c14, c15, c16, c17,
      c18, c19, c20, c21, c22, c23, c24, c25, c26, c27, c28, c29, c30, c31, c32, c33, c34, c35]
      \<longleftrightarrow> 0 \<le> nibble c0 \<and> 0 \<le> nibble c1 \<and> 0 \<le> nibble c2
      \<and> 0 \<le> nibble c3 \<and> 0 \<le> nibble c4 \<and> 0 \<le> nibble c5 \<and> 0 \<le>
      nibble c6 \<and> 0 \<le> nibble c7 \<and> c8 = CHR ''-'' \<and> 0 \<le> nibble c9 \<and> 0
      \<le> nibble c10 \<and> 0 \<le> nibble c11 \<and> 0 \<le> nibble c12 \<and> c13 = CHR ''-''
      \<and> 0 \<le> nibble c14 \<and> 0 \<le> nibble c15 \<and> 0 \<le> nibble c16 \<and> 0 \<le>
      nibble c17 \<and> c18 = CHR ''-'' \<and> 0 \<le> nibble c19 \<and> 0 \<le> nibble c20 \<and>
      0 \<le> nibble c21 \<and> 0 \<le> nibble c22 \<and> c23 = CHR ''-'' \<and> 0 \<le> nibble
      c24 \<and> 0 \<le> nibble c25 \<and> 0 \<le> nibble c26 \<and> 0 \<le> nibble c27 \<and> 0
      \<le> nibble c28 \<and> 0 \<le> nibble c29 \<and> 0 \<le> nibble c30 \<and> 0 \<le> nibble
      c31 \<and> 0 \<le> nibble c32 \<and> 0 \<le> nibble c33 \<and> 0 \<le> nibble c34 \<and> 0
      \<le> nibble c35"
  unfolding uuid_text_def all_less_36 by (simp add: conj_ac)

lemma if_Inl_eq_Inr: "(if p then Inl m else r) = Inr x \<longleftrightarrow> \<not> p \<and> r =
    Inr x"
  by simp

lemma Uuid_parse_loop_36:
    "Uuid_parse_loop [c0, c1, c2, c3, c4, c5, c6, c7, c8, c9, c10, c11, c12, c13, c14, c15, c16,
      c17, c18, c19, c20, c21, c22, c23, c24, c25, c26, c27, c28, c29, c30, c31, c32, c33, c34,
      c35] 0 0 (replicate 16 0) = Inr out \<longleftrightarrow> 0 \<le> nibble c0 \<and> 0 \<le>
      nibble c1 \<and> 0 \<le> nibble c2 \<and> 0 \<le> nibble c3 \<and> 0 \<le> nibble c4 \<and>
      0 \<le> nibble c5 \<and> 0 \<le> nibble c6 \<and> 0 \<le> nibble c7 \<and> c8 = CHR ''-''
      \<and> 0 \<le> nibble c9 \<and> 0 \<le> nibble c10 \<and> 0 \<le> nibble c11 \<and> 0 \<le>
      nibble c12 \<and> c13 = CHR ''-'' \<and> 0 \<le> nibble c14 \<and> 0 \<le> nibble c15 \<and>
      0 \<le> nibble c16 \<and> 0 \<le> nibble c17 \<and> c18 = CHR ''-'' \<and> 0 \<le> nibble
      c19 \<and> 0 \<le> nibble c20 \<and> 0 \<le> nibble c21 \<and> 0 \<le> nibble c22 \<and> c23
      = CHR ''-'' \<and> 0 \<le> nibble c24 \<and> 0 \<le> nibble c25 \<and> 0 \<le> nibble c26
      \<and> 0 \<le> nibble c27 \<and> 0 \<le> nibble c28 \<and> 0 \<le> nibble c29 \<and> 0 \<le>
      nibble c30 \<and> 0 \<le> nibble c31 \<and> 0 \<le> nibble c32 \<and> 0 \<le> nibble c33
      \<and> 0 \<le> nibble c34 \<and> 0 \<le> nibble c35 \<and>
        [word_of_int (push_bit 4 (nibble c0) OR nibble c1), word_of_int (push_bit 4 (nibble c2) OR
        nibble c3), word_of_int (push_bit 4 (nibble c4) OR nibble c5), word_of_int (push_bit 4
        (nibble c6) OR nibble c7), word_of_int (push_bit 4 (nibble c9) OR nibble c10), word_of_int
        (push_bit 4 (nibble c11) OR nibble c12), word_of_int (push_bit 4 (nibble c14) OR nibble
        c15), word_of_int (push_bit 4 (nibble c16) OR nibble c17), word_of_int (push_bit 4 (nibble
        c19) OR nibble c20), word_of_int (push_bit 4 (nibble c21) OR nibble c22), word_of_int
        (push_bit 4 (nibble c24) OR nibble c25), word_of_int (push_bit 4 (nibble c26) OR nibble
        c27), word_of_int (push_bit 4 (nibble c28) OR nibble c29), word_of_int (push_bit 4 (nibble
        c30) OR nibble c31), word_of_int (push_bit 4 (nibble c32) OR nibble c33), word_of_int
        (push_bit 4 (nibble c34) OR nibble c35)] = out"
proof -
  have r: "replicate 16 (0::byte) = [0,0,0,0,0,0,0,0,0,0,0,0,0,0,0,0]"
    by (simp add: eval_nat_numeral)
  show ?thesis unfolding r
    by (simp add: Uuid_parse_loop.simps Let_def not_less if_Inl_eq_Inr)
qed
lemma Uuid_parse_accepts: "(\<exists>u. Uuid_parse s = Inr u) \<longleftrightarrow> uuid_text s"
proof (cases "length s = 36")
  case True
    then obtain c0 c1 c2 c3 c4 c5 c6 c7 c8 c9 c10 c11 c12 c13 c14 c15 c16 c17 c18 c19 c20 c21 c22
      c23 c24 c25 c26 c27 c28 c29 c30 c31 c32 c33 c34 c35 where s: "s = [c0, c1, c2, c3, c4, c5,
      c6, c7, c8, c9, c10, c11, c12, c13, c14, c15, c16, c17, c18, c19, c20, c21, c22, c23, c24,
      c25, c26, c27, c28, c29, c30, c31, c32, c33, c34, c35]" by (rule length_36E)
    have "(\<exists>u. Uuid_parse s = Inr u) \<longleftrightarrow> (\<exists>out. Uuid_parse_loop
      s 0 0 (replicate 16 0) = Inr out)"
    using True by (auto simp: Uuid_parse_def bindE_Inr_iff)
  then show ?thesis unfolding s Uuid_parse_loop_36 uuid_text_list by simp
next
  case False
  then show ?thesis by (simp add: Uuid_parse_def uuid_text_def)
qed

lemma Uuid_parse_canon:
  assumes "Uuid_parse s = Inr u"
  shows "Uuid_str u = map hex_canon s"
proof -
  have len: "length s = 36" using assms by (auto simp: Uuid_parse_def split: if_splits)
    then obtain c0 c1 c2 c3 c4 c5 c6 c7 c8 c9 c10 c11 c12 c13 c14 c15 c16 c17 c18 c19 c20 c21 c22
      c23 c24 c25 c26 c27 c28 c29 c30 c31 c32 c33 c34 c35 where s: "s = [c0, c1, c2, c3, c4, c5,
      c6, c7, c8, c9, c10, c11, c12, c13, c14, c15, c16, c17, c18, c19, c20, c21, c22, c23, c24,
      c25, c26, c27, c28, c29, c30, c31, c32, c33, c34, c35]" by (rule length_36E)
  from assms len obtain out where loop: "Uuid_parse_loop s 0 0 (replicate 16 0) = Inr out"
    and u: "u = Uuid_of out"
    by (auto simp: Uuid_parse_def bindE_Inr_iff)
    then have c: "0 \<le> nibble c0 \<and> 0 \<le> nibble c1 \<and> 0 \<le> nibble c2 \<and> 0
      \<le> nibble c3 \<and> 0 \<le> nibble c4 \<and> 0 \<le> nibble c5 \<and> 0 \<le> nibble c6
      \<and> 0 \<le> nibble c7 \<and> c8 = CHR ''-'' \<and> 0 \<le> nibble c9 \<and> 0 \<le>
      nibble c10 \<and> 0 \<le> nibble c11 \<and> 0 \<le> nibble c12 \<and> c13 = CHR ''-'' \<and>
      0 \<le> nibble c14 \<and> 0 \<le> nibble c15 \<and> 0 \<le> nibble c16 \<and> 0 \<le> nibble
      c17 \<and> c18 = CHR ''-'' \<and> 0 \<le> nibble c19 \<and> 0 \<le> nibble c20 \<and> 0
      \<le> nibble c21 \<and> 0 \<le> nibble c22 \<and> c23 = CHR ''-'' \<and> 0 \<le> nibble c24
      \<and> 0 \<le> nibble c25 \<and> 0 \<le> nibble c26 \<and> 0 \<le> nibble c27 \<and> 0 \<le>
      nibble c28 \<and> 0 \<le> nibble c29 \<and> 0 \<le> nibble c30 \<and> 0 \<le> nibble c31
      \<and> 0 \<le> nibble c32 \<and> 0 \<le> nibble c33 \<and> 0 \<le> nibble c34 \<and> 0 \<le>
      nibble c35" and out: "out = [word_of_int (push_bit 4 (nibble c0) OR nibble c1), word_of_int
      (push_bit 4 (nibble c2) OR nibble c3), word_of_int (push_bit 4 (nibble c4) OR nibble c5),
      word_of_int (push_bit 4 (nibble c6) OR nibble c7), word_of_int (push_bit 4 (nibble c9) OR
      nibble c10), word_of_int (push_bit 4 (nibble c11) OR nibble c12), word_of_int (push_bit 4
      (nibble c14) OR nibble c15), word_of_int (push_bit 4 (nibble c16) OR nibble c17),
      word_of_int (push_bit 4 (nibble c19) OR nibble c20), word_of_int (push_bit 4 (nibble c21) OR
      nibble c22), word_of_int (push_bit 4 (nibble c24) OR nibble c25), word_of_int (push_bit 4
      (nibble c26) OR nibble c27), word_of_int (push_bit 4 (nibble c28) OR nibble c29),
      word_of_int (push_bit 4 (nibble c30) OR nibble c31), word_of_int (push_bit 4 (nibble c32) OR
      nibble c33), word_of_int (push_bit 4 (nibble c34) OR nibble c35)]"
    unfolding s Uuid_parse_loop_36 by blast+
  have l: "[0..<16] = [0,1,2,3,4,5,6,7,8,9,10,11,12,13,14,15]" by (simp add: upt_rec)
  have d: "hex_canon (CHR ''-'') = CHR ''-''" by (simp add: hex_canon_def)
  have h: "hex_canon x = hex_table ! nat (nibble x)" if "0 \<le> nibble x" for x
    using that by (auto simp: hex_canon_def nibble_def less_eq_char_def)
  show ?thesis
    unfolding u out s Uuid_str_def l using c
    by (simp add: hex_join d h)
qed

section \<open>Index bounds of the parser\<close>

lemma Uuid_parse_touches_36:
  "Uuid_parse_touches 36 0 0 =
     ([0..<36], [0..<16])"
  by (simp add: Uuid_parse_touches.simps upt_rec)

section \<open>The parser, exactly\<close>

text \<open>
  C34: \<open>Uuid::parse\<close> accepts exactly the 36-character texts with dashes at positions 8, 13, 18
  and 23 and hex digits elsewhere, and the identity it returns is the one whose printed form is
  the text in canonical (lower) case. With \<open>hex_canon\<close> the identity on printed texts, this
  includes that a printed identity parses back to itself.
\<close>

theorem Uuid_parse_exact:
  "Uuid_parse s = Inr u \<longleftrightarrow> uuid_text s \<and> Uuid_str u = map hex_canon s"
proof
  assume p: "Uuid_parse s = Inr u"
  then show "uuid_text s \<and> Uuid_str u = map hex_canon s"
    using Uuid_parse_accepts Uuid_parse_canon [OF p] by blast
next
  assume r: "uuid_text s \<and> Uuid_str u = map hex_canon s"
  then obtain v where v: "Uuid_parse s = Inr v" using Uuid_parse_accepts by blast
  have "Uuid_str v = Uuid_str u" using Uuid_parse_canon [OF v] r by simp
  then have "Uuid_parse (Uuid_str v) = Uuid_parse (Uuid_str u)" by simp
  then show "Uuid_parse s = Inr u" using v by (simp add: Uuid_parse_str)
qed

end
