(* ===== verification/AF_Ids.thy ===== *)
theory AF_Ids
  imports AF_UuidText
begin

text \<open>
  Strongly typed identities (\<open>Id<Tag>\<close>, \<open>identity.hpp\<close>) and generations
  (\<open>Generation<Tag>\<close>, \<open>generation.hpp\<close>). The tag is a phantom type parameter, so an
  \<open>AdapterId\<close> is no \<open>CompositionId\<close> in the model either. A generation is a 64-bit
  counter that saturates instead of wrapping; zero is the explicit \<open>none\<close>.
\<close>

section \<open>Identities\<close>

datatype 'tag Id = Id (uuid: Uuid)

datatype adapter_id = Tag_adapter_id
datatype adapter_revision_id = Tag_adapter_revision_id
datatype adapter_artifact_id = Tag_adapter_artifact_id
datatype adapter_instance_id = Tag_adapter_instance_id
datatype adapter_set_id = Tag_adapter_set_id
datatype composition_id = Tag_composition_id
datatype base_model_id = Tag_base_model_id
datatype model_revision_id = Tag_model_revision_id
datatype worker_id = Tag_worker_id
datatype worker_boot_id = Tag_worker_boot_id
datatype node_id = Tag_node_id
datatype device_id = Tag_device_id
datatype attempt_id = Tag_attempt_id

type_synonym AdapterId = "adapter_id Id"
type_synonym AdapterRevisionId = "adapter_revision_id Id"
type_synonym AdapterArtifactId = "adapter_artifact_id Id"
type_synonym AdapterInstanceId = "adapter_instance_id Id"
type_synonym AdapterSetId = "adapter_set_id Id"
type_synonym CompositionId = "composition_id Id"
type_synonym BaseModelId = "base_model_id Id"
type_synonym ModelRevisionId = "model_revision_id Id"
type_synonym WorkerId = "worker_id Id"
type_synonym WorkerBootId = "worker_boot_id Id"
type_synonym NodeId = "node_id Id"
type_synonym DeviceId = "device_id Id"
type_synonym AttemptId = "attempt_id Id"

definition Id_nil :: "'tag Id" where
  "Id_nil = Id Uuid_nil"

definition Id_is_nil :: "'tag Id \<Rightarrow> bool" where
  "Id_is_nil i \<longleftrightarrow> Uuid_is_nil (uuid i)"

definition Id_str :: "'tag Id \<Rightarrow> string" where
  "Id_str i = Uuid_str (uuid i)"

definition Id_parse :: "string \<Rightarrow> string + 'tag Id" where
  "Id_parse s = (case Uuid_parse s of Inl m \<Rightarrow> Inl m | Inr u \<Rightarrow> Inr (Id u))"

definition Id_generate :: "Rng \<Rightarrow> 'tag Id \<times> Rng" where
  "Id_generate rng = (let (u, rng') = Uuid_generate rng in (Id u, rng'))"

definition Id_before :: "'tag Id \<Rightarrow> 'tag Id \<Rightarrow> bool" where
  "Id_before a b \<longleftrightarrow> uuid a < uuid b"

instantiation Id :: (type) linorder
begin

definition less_eq_Id :: "'a Id \<Rightarrow> 'a Id \<Rightarrow> bool" where
  "less_eq_Id a b \<longleftrightarrow> uuid a \<le> uuid b"

definition less_Id :: "'a Id \<Rightarrow> 'a Id \<Rightarrow> bool" where
  "less_Id a b \<longleftrightarrow> Id_before a b"

instance
  by standard (auto simp: less_eq_Id_def less_Id_def Id_before_def Id.expand)

end

lemma Uuid_str_inject [simp]: "Uuid_str u = Uuid_str v \<longleftrightarrow> u = v"
  by (metis Uuid_parse_str sum.inject(2))

lemma Id_str_inject [simp]: "Id_str i = Id_str j \<longleftrightarrow> i = j"
  by (auto simp: Id_str_def intro: Id.expand)

lemma Id_parse_str [simp]: "Id_parse (Id_str i) = Inr i"
  by (simp add: Id_parse_def Id_str_def Uuid_parse_str)

lemma Id_is_nil_iff: "Id_is_nil i \<longleftrightarrow> i = Id_nil"
  by (cases i) (simp add: Id_is_nil_def Id_nil_def Uuid_is_nil_iff)

lemma Id_is_nil_nil [simp]: "Id_is_nil Id_nil"
  by (simp add: Id_is_nil_iff)

lemma Id_generate_not_nil: "\<not> Id_is_nil (fst (Id_generate rng))"
  using Uuid_generate_not_nil [of rng]
  by (simp add: Id_generate_def Id_is_nil_def case_prod_beta Let_def)

text \<open>The characters of a printed identity: lowercase hex digits and dashes only.\<close>

lemma hex_table_set: "set hex_table = set ''0123456789abcdef''"
  by (simp add: hex_table_def)

lemma hex_chars: "hex_hi b \<in> set hex_table" "hex_lo b \<in> set hex_table"
proof -
  have l: "length hex_table = 16" by (simp add: hex_table_def)
  show "hex_hi b \<in> set hex_table"
    unfolding hex_hi_def by (rule nth_mem) (simp only: l hi_bound)
  show "hex_lo b \<in> set hex_table"
    unfolding hex_lo_def by (rule nth_mem) (simp only: l lo_bound)
qed

lemma Uuid_str_chars: "set (Uuid_str u) \<subseteq> insert (CHR ''-'') (set hex_table)"
  using hex_chars by (auto simp: Uuid_str_def split: if_splits)

lemma Id_str_sep [sep_simps]:
  "CHR ''|'' \<notin> set (Id_str i)" "CHR '';'' \<notin> set (Id_str i)" "CHR ''@'' \<notin> set (Id_str i)"
  using Uuid_str_chars [of "uuid i"] by (auto simp: Id_str_def hex_table_def)

lemma length_Uuid_str [simp]: "length (Uuid_str u) = 36"
  by (simp add: Uuid_str_def upt_rec)

lemma length_Id_str [simp]: "length (Id_str i) = 36"
  by (simp add: Id_str_def)

lemma Id_str_not_Nil [simp]: "Id_str i \<noteq> []"
  using length_Id_str [of i] by (metis length_0_conv zero_neq_numeral)

section \<open>Generations\<close>

datatype 'tag Generation = Generation (gen_value: uint64_t)

datatype gen_adapter = Gen_adapter
datatype gen_residency = Gen_residency
datatype gen_composition = Gen_composition
datatype gen_artifact = Gen_artifact
datatype gen_authority = Gen_authority
datatype gen_coordinator_epoch = Gen_coordinator_epoch
datatype gen_policy = Gen_policy

type_synonym AdapterGeneration = "gen_adapter Generation"
type_synonym ResidencyGeneration = "gen_residency Generation"
type_synonym CompositionGeneration = "gen_composition Generation"
type_synonym ArtifactGeneration = "gen_artifact Generation"
type_synonym AuthorityGeneration = "gen_authority Generation"
type_synonym CoordinatorEpoch = "gen_coordinator_epoch Generation"
type_synonym PolicyGeneration = "gen_policy Generation"

definition gen_none :: "'tag Generation" where
  "gen_none = Generation 0"

definition gen_is_none :: "'tag Generation \<Rightarrow> bool" where
  "gen_is_none g \<longleftrightarrow> gen_value g = 0"

text \<open>\<open>std::numeric_limits<std::uint64_t>::max()\<close>.\<close>

definition uint64_max :: uint64_t where
  "uint64_max = 0xFFFFFFFFFFFFFFFF"

definition gen_next :: "'tag Generation \<Rightarrow> 'tag Generation" where
  "gen_next g =
     (let v = (if gen_value g = uint64_max then gen_value g else gen_value g + 1)
      in Generation (if v = 0 then 1 else v))"

text \<open>The comparisons of generations; the other four are written with these.\<close>

definition gen_less :: "'tag Generation \<Rightarrow> 'tag Generation \<Rightarrow> bool" where
  "gen_less a b \<longleftrightarrow> gen_value a < gen_value b"

definition gen_less_eq :: "'tag Generation \<Rightarrow> 'tag Generation \<Rightarrow> bool" where
  "gen_less_eq a b \<longleftrightarrow> gen_value a \<le> gen_value b"

instantiation Generation :: (type) linorder
begin

definition less_eq_Generation :: "'a Generation \<Rightarrow> 'a Generation \<Rightarrow> bool" where
  "less_eq_Generation a b \<longleftrightarrow> gen_less_eq a b"

definition less_Generation :: "'a Generation \<Rightarrow> 'a Generation \<Rightarrow> bool" where
  "less_Generation a b \<longleftrightarrow> gen_less a b"

instance
  by standard (auto simp: less_eq_Generation_def less_Generation_def gen_less_def gen_less_eq_def Generation.expand)

end

lemma uint64_max_greatest: "v \<le> uint64_max"
  using unat_64_less [of v] by (simp add: uint64_max_def word_le_nat_alt)

lemma gen_next_value: "unat (gen_value (gen_next g)) = min (unat (gen_value g) + 1) (2 ^ 64 - 1)"
proof (cases "gen_value g = uint64_max")
  case True
  then show ?thesis by (simp add: gen_next_def uint64_max_def)
next
  case False
  then have "unat (gen_value g) < unat uint64_max"
    using uint64_max_greatest [of "gen_value g"] by (simp add: word_less_nat_alt [symmetric])
  then have b: "unat (gen_value g) < 2 ^ 64 - 1" by (simp add: uint64_max_def)
  then have "unat (gen_value g + 1) = unat (gen_value g) + 1"
    by (simp add: unat_word_ariths)
  moreover from this have "gen_value g + 1 \<noteq> 0" by auto
  ultimately show ?thesis using False b by (simp add: gen_next_def Let_def)
qed

lemma gen_next_not_none [simp]: "\<not> gen_is_none (gen_next g)"
  using gen_next_value [of g] by (auto simp: gen_is_none_def)

lemma gen_next_greater: "gen_value g \<noteq> uint64_max \<Longrightarrow> g < gen_next g"
proof -
  assume "gen_value g \<noteq> uint64_max"
  then have "unat (gen_value g) < unat uint64_max"
    using uint64_max_greatest [of "gen_value g"] by (simp add: word_less_nat_alt [symmetric])
  then show ?thesis
    using gen_next_value [of g]
    by (simp add: less_Generation_def gen_less_def word_less_nat_alt uint64_max_def)
qed

lemma gen_next_mono: "g \<le> gen_next g"
  using gen_next_value [of g] unat_64_less [of "gen_value g"]
  by (simp add: less_eq_Generation_def gen_less_eq_def word_le_nat_alt)

text \<open>
  \<open>next\<close> counts up by one until the largest 64-bit value and stays there: it never wraps to
  the reserved value 0 (none), and it gives a strictly greater generation below that bound.
\<close>

theorem gen_next_saturates:
  "unat (gen_value (gen_next g)) = min (unat (gen_value g) + 1) (2 ^ 64 - 1) \<and>
   \<not> gen_is_none (gen_next g) \<and> (g < gen_next g \<longleftrightarrow> gen_value g \<noteq> uint64_max)"
proof (intro conjI)
  show "g < gen_next g \<longleftrightarrow> gen_value g \<noteq> uint64_max"
    using gen_next_greater [of g] by (auto simp: less_Generation_def gen_less_def gen_next_def uint64_max_def)
qed (simp_all add: gen_next_value)

end
