(* ===== verification/AF_Checksum.thy ===== *)
theory AF_Checksum
  imports AF_Ids
begin

text \<open>
  Checksums and digests (\<open>checksum.hpp\<close>, \<open>checksum.cpp\<close>, \<open>UuidHash\<close> of
  \<open>uuid.hpp\<close>): the FNV-1a fold, lowercase hex encoding and the content digest. The prime is
  odd, so a fold step is injective in the running hash and in the byte: two byte ranges that
  differ in exactly one position never have the same checksum.
\<close>

definition fnv_prime :: uint64_t where
  "fnv_prime = 1099511628211"

definition fnv_basis :: uint64_t where
  "fnv_basis = 1469598103934665603"

definition fnv_step :: "uint64_t \<Rightarrow> byte \<Rightarrow> uint64_t" where
  "fnv_step hash p = (hash XOR ucast p) * fnv_prime"

definition fnv1a_64 :: "uint64_t \<Rightarrow> byte list \<Rightarrow> uint64_t" where
  "fnv1a_64 hash data = foldl fnv_step hash data"

definition fnv1a_64_sv :: "string \<Rightarrow> uint64_t" where
  "fnv1a_64_sv s = fnv1a_64 fnv_basis (map byte_of_char s)"

definition hex_encode :: "byte list \<Rightarrow> string" where
  "hex_encode data = concat (map (\<lambda>b. [hex_hi b, hex_lo b]) data)"

definition hex_encode_sv :: "string \<Rightarrow> string" where
  "hex_encode_sv s = hex_encode (map byte_of_char s)"

text \<open>The eight digest characters are the bytes \<open>(h >> 8 * i) & 0xFF\<close>.\<close>

definition content_digest :: "string \<Rightarrow> string" where
  "content_digest s =
     (let h = fnv1a_64_sv s; out = map char_of_byte (store_le 8 h) in hex_encode_sv out)"

definition UuidHash :: "Uuid \<Rightarrow> uint64_t" where
  "UuidHash u = foldl (\<lambda>h x. (h XOR ucast x) * 1099511628211) 1469598103934665603 (bytes u)"

text \<open>The specialisations of \<open>std::hash\<close> for UUIDs and for identities.\<close>

definition hash_Uuid :: "Uuid \<Rightarrow> uint64_t" where
  "hash_Uuid u = UuidHash u"

definition hash_Id :: "'tag Id \<Rightarrow> uint64_t" where
  "hash_Id i = UuidHash (uuid i)"

section \<open>The fold is injective in every argument\<close>

lemma fnv_prime_inverse: "14886173955864302971 * fnv_prime = 1"
  by (simp add: fnv_prime_def)

lemma fnv_step_hash: "fnv_step h b = fnv_step h' b \<longleftrightarrow> h = h'"
  unfolding fnv_step_def mult.commute [of _ fnv_prime] odd_mult_inj [OF fnv_prime_inverse]
  by (rule xor_inj)

lemma ucast_byte_inj: "(ucast (a :: byte) :: uint64_t) = ucast b \<longleftrightarrow> a = b"
proof
  assume eq: "(ucast a :: uint64_t) = ucast b"
  show "a = b"
  proof (rule bit_word_eqI)
    fix n assume "n < LENGTH(8)"
    moreover have "bit (ucast a :: uint64_t) n = bit (ucast b :: uint64_t) n" by (simp add: eq)
    ultimately show "bit a n = bit b n" by (simp add: bit_ucast_iff)
  qed
qed simp

lemma fnv_step_byte: "fnv_step h a = fnv_step h b \<longleftrightarrow> a = b"
  unfolding fnv_step_def mult.commute [of _ fnv_prime] odd_mult_inj [OF fnv_prime_inverse]
    xor.commute [of h] xor_inj by (rule ucast_byte_inj)

lemma fnv1a_Nil [simp]: "fnv1a_64 h [] = h"
  by (simp add: fnv1a_64_def)

lemma fnv1a_Cons: "fnv1a_64 h (b # bs) = fnv1a_64 (fnv_step h b) bs"
  by (simp add: fnv1a_64_def)

lemma fnv1a_append: "fnv1a_64 h (xs @ ys) = fnv1a_64 (fnv1a_64 h xs) ys"
  by (simp add: fnv1a_64_def)

lemma fnv1a_hash_inj: "fnv1a_64 h bs = fnv1a_64 h' bs \<longleftrightarrow> h = h'"
  by (induction bs arbitrary: h h') (simp_all add: fnv1a_Cons fnv_step_hash)

lemma fnv1a_single_byte: "fnv1a_64 h (pre @ a # suf) = fnv1a_64 h (pre @ b # suf) \<longleftrightarrow> a = b"
  by (simp add: fnv1a_append fnv1a_Cons fnv1a_hash_inj fnv_step_byte)

lemma fnv1a_list_update:
  assumes "i < length bs" and "x \<noteq> bs ! i"
  shows "fnv1a_64 h (bs[i := x]) \<noteq> fnv1a_64 h bs"
  using assms fnv1a_single_byte [of h "take i bs" x "drop (Suc i) bs" "bs ! i"]
  by (simp add: upd_conv_take_nth_drop id_take_nth_drop [symmetric])

section \<open>Hex encoding\<close>

lemma hex_byte_inject: "[hex_hi a, hex_lo a] = [hex_hi b, hex_lo b] \<Longrightarrow> a = b"
  by (metis join_nibbles list.inject nibble_hex)

lemma length_hex_encode [simp]: "length (hex_encode bs) = 2 * length bs"
  by (induction bs) (simp_all add: hex_encode_def)

lemma hex_encode_inject: "hex_encode a = hex_encode b \<Longrightarrow> a = b"
proof (induction a b rule: list_induct2')
  case (4 x xs y ys)
  then have "[hex_hi x, hex_lo x] = [hex_hi y, hex_lo y]" and "hex_encode xs = hex_encode ys"
    by (simp_all add: hex_encode_def)
  with "4.IH" show ?case by (simp add: hex_byte_inject)
qed (simp_all add: hex_encode_def)

lemma content_digest_eq_iff: "content_digest s = content_digest t \<longleftrightarrow> fnv1a_64_sv s = fnv1a_64_sv t"
proof
  assume "content_digest s = content_digest t"
  then have "store_le 8 (fnv1a_64_sv s) = store_le 8 (fnv1a_64_sv t)"
    unfolding content_digest_def Let_def hex_encode_sv_def map_byte_char
    by (rule hex_encode_inject)
  then show "fnv1a_64_sv s = fnv1a_64_sv t"
    by (rule store_le_inject [rotated]) simp
qed (simp add: content_digest_def)

lemma length_content_digest [simp]: "length (content_digest s) = 16"
  by (simp add: content_digest_def hex_encode_sv_def Let_def)

lemma UuidHash_fnv: "UuidHash u = fnv1a_64 fnv_basis (bytes u)"
  by (simp add: UuidHash_def fnv1a_64_def fnv_basis_def fnv_step_def fnv_prime_def [symmetric]
      cong: foldl_cong)

text \<open>
  The hash of an identity is the checksum of its bytes, so two identities that differ in a single
  byte never collide.
\<close>

lemma hash_Id_separates:
  fixes i j :: "'tag Id"
  assumes "bytes (uuid j) = (bytes (uuid i))[k := b]" and "i \<noteq> j"
  shows "hash_Id i \<noteq> hash_Id j"
proof -
  have ne: "(bytes (uuid i))[k := b] \<noteq> bytes (uuid i)"
    using assms by (metis Id.expand bytes_inject)
  then have "k < length (bytes (uuid i))" "b \<noteq> bytes (uuid i) ! k"
    by (metis linorder_not_less list_update_beyond) (metis ne list_update_id)
  from fnv1a_list_update [OF this, of fnv_basis] show ?thesis
    by (simp add: hash_Id_def UuidHash_fnv assms(1))
qed

end
