(* ===== verification/AF_StdMap.thy ===== *)
theory AF_StdMap
  imports AF_Prelude
begin

text \<open>
  \<open>std::map\<close>: an ordered associative container. The source iterates over its maps
  (\<open>snapshot\<close>, \<open>adapters\<close>, \<open>usage\<close>, the worker-restart loops), so the model keeps the
  entries in key order: \<open>smap\<close> is an association list, \<open>smap_set\<close> is
  \<open>m[k] = v\<close>, \<open>smap_erase\<close> is \<open>m.erase(k)\<close>, \<open>map_of\<close> is \<open>m.find(k)\<close> and
  \<open>smap_mapi\<close> is a range-for loop that updates every mapped value in place.
  The locale \<open>ordered_map\<close> is the contract the other components use; its laws hold for
  every list, its order facts for the lists that \<open>smap_ok\<close> accepts, which all operations keep.
\<close>

type_synonym ('k, 'v) smap = "('k \<times> 'v) list"

fun smap_set :: "'k::linorder \<Rightarrow> 'v \<Rightarrow> ('k, 'v) smap \<Rightarrow> ('k, 'v) smap" where
  "smap_set k v [] = [(k, v)]"
| "smap_set k v (e # m) =
     (if fst e < k then e # smap_set k v m
      else if fst e = k then (k, v) # m
      else (k, v) # e # m)"

definition smap_erase :: "'k::linorder \<Rightarrow> ('k, 'v) smap \<Rightarrow> ('k, 'v) smap" where
  "smap_erase k m = filter (\<lambda>e. fst e \<noteq> k) m"

text \<open>
  \<open>m[k]\<close> as a value inserts the default for an absent key; \<open>m.emplace(k, v)\<close> keeps a
  present one.
\<close>

definition smap_at :: "'v \<Rightarrow> 'k::linorder \<Rightarrow> ('k, 'v) smap \<Rightarrow> 'v \<times> ('k, 'v) smap" where
  "smap_at d k m = (case map_of m k of Some v \<Rightarrow> (v, m) | None \<Rightarrow> (d, smap_set k d m))"

definition smap_emplace :: "'k::linorder \<Rightarrow> 'v \<Rightarrow> ('k, 'v) smap \<Rightarrow> ('k, 'v) smap" where
  "smap_emplace k v m = (case map_of m k of Some _ \<Rightarrow> m | None \<Rightarrow> smap_set k v m)"

definition smap_values :: "('k, 'v) smap \<Rightarrow> 'v list" where
  "smap_values m = map snd m"

definition smap_mapi :: "('k \<Rightarrow> 'v \<Rightarrow> 'w) \<Rightarrow> ('k, 'v) smap \<Rightarrow> ('k, 'w) smap" where
  "smap_mapi f m = map (\<lambda>(k, v). (k, f k v)) m"

definition smap_ok :: "('k::linorder, 'v) smap \<Rightarrow> bool" where
  "smap_ok m \<longleftrightarrow> sorted_wrt (<) (map fst m)"

section \<open>Sorted association lists\<close>

lemma key_sorted_unique:
  fixes xs ys :: "('k::linorder \<times> 'v) list"
  assumes "sorted_wrt (<) (map fst xs)" and "sorted_wrt (<) (map fst ys)"
    and "map_of xs = map_of ys"
  shows "xs = ys"
proof (rule map_sorted_distinct_set_unique [of fst xs ys])
  show eq: "set xs = set ys"
    using assms by (simp add: map_of_inject_set strict_sorted_iff)
  show "inj_on fst (set xs \<union> set ys)"
    using assms(1) by (simp add: eq [symmetric] strict_sorted_iff distinct_map)
qed (use assms in \<open>simp_all add: strict_sorted_iff\<close>)

lemma map_of_rev_distinct: "distinct (map fst xs) \<Longrightarrow> map_of (rev xs) = map_of xs"
  by (rule map_of_inject_set [THEN iffD2]) (simp_all add: rev_map [symmetric])

section \<open>The container contract\<close>

locale ordered_map =
  fixes find :: "'m \<Rightarrow> 'k::linorder \<Rightarrow> 'v option"
    and put :: "'k \<Rightarrow> 'v \<Rightarrow> 'm \<Rightarrow> 'm"
    and erase :: "'k \<Rightarrow> 'm \<Rightarrow> 'm"
    and entries :: "'m \<Rightarrow> ('k \<times> 'v) list"
    and empty :: "'m"
    and ok :: "'m \<Rightarrow> bool"
  assumes find_put: "find (put k v m) k' = (if k' = k then Some v else find m k')"
    and find_erase: "find (erase k m) k' = (if k' = k then None else find m k')"
    and find_entries: "find m = map_of (entries m)"
    and entries_empty: "entries empty = []"
    and ok_empty: "ok empty"
    and ok_put: "ok m \<Longrightarrow> ok (put k v m)"
    and ok_erase: "ok m \<Longrightarrow> ok (erase k m)"
    and ok_sorted: "ok m \<Longrightarrow> sorted_wrt (<) (map fst (entries m))"
    and ok_ext: "ok m \<Longrightarrow> ok m' \<Longrightarrow> entries m = entries m' \<Longrightarrow> m = m'"
begin

lemma find_put_same [simp]: "find (put k v m) k = Some v"
  by (simp add: find_put)

lemma find_put_other: "k' \<noteq> k \<Longrightarrow> find (put k v m) k' = find m k'"
  by (simp add: find_put)

text \<open>Two well-formed maps with the same lookups are the same map: entry order is determined.\<close>

lemma ok_distinct: "ok m \<Longrightarrow> distinct (map fst (entries m))"
  using ok_sorted by (simp add: strict_sorted_iff)

lemma find_eqI: "ok m \<Longrightarrow> ok m' \<Longrightarrow> find m = find m' \<Longrightarrow> m = m'"
  by (rule ok_ext) (auto simp: find_entries intro!: key_sorted_unique ok_sorted)

text \<open>Inserting a list of entries into an empty map: the last entry of a key wins.\<close>

lemma find_fold_put:
  "find (foldl (\<lambda>m e. put (fst e) (snd e) m) m0 es) k
     = (case map_of (rev es) k of None \<Rightarrow> find m0 k | Some v \<Rightarrow> Some v)"
  by (induction es rule: rev_induct) (simp_all add: find_put split: option.splits)

lemma ok_fold_put: "ok m0 \<Longrightarrow> ok (foldl (\<lambda>m e. put (fst e) (snd e) m) m0 es)"
  by (induction es arbitrary: m0) (simp_all add: ok_put)

text \<open>Copying a map entry by entry gives the map back.\<close>

lemma rebuild:
  assumes "ok m"
  shows "foldl (\<lambda>m e. put (fst e) (snd e) m) empty (entries m) = m"
proof (rule find_eqI [OF ok_fold_put [OF ok_empty] assms], rule ext)
  fix k
  have "map_of (rev (entries m)) k = find m k"
    using ok_distinct [OF assms] by (simp add: find_entries map_of_rev_distinct)
  then show "find (foldl (\<lambda>m e. put (fst e) (snd e) m) empty (entries m)) k = find m k"
    using find_fold_put [of empty "entries m" k]
    by (simp add: find_entries [of empty] entries_empty split: option.splits)
qed

end

section \<open>The association list implements it\<close>

lemma map_of_smap_set: "map_of (smap_set k v m) k' = (if k' = k then Some v else map_of m k')"
  by (induction m) auto

lemma map_of_smap_erase: "map_of (smap_erase k m) k' = (if k' = k then None else map_of m k')"
  by (induction m) (auto simp: smap_erase_def)

lemma set_keys_smap_set: "fst ` set (smap_set k v m) = insert k (fst ` set m)"
  by (induction m) auto

lemma smap_ok_set: "smap_ok m \<Longrightarrow> smap_ok (smap_set k v m)"
  by (induction m) (auto simp: smap_ok_def set_keys_smap_set [unfolded image_set, simplified])

lemma smap_ok_erase: "smap_ok m \<Longrightarrow> smap_ok (smap_erase k m)"
  by (induction m) (auto simp: smap_ok_def smap_erase_def)

interpretation sm: ordered_map map_of smap_set smap_erase "\<lambda>m. m" "[]" smap_ok
  by unfold_locales
    (simp_all add: map_of_smap_set map_of_smap_erase smap_ok_set smap_ok_erase,
     simp_all add: smap_ok_def)

declare sm.find_put [simp] sm.find_erase [simp]

lemma smap_at_simps [simp]:
  "fst (smap_at d k m) = (case map_of m k of Some v \<Rightarrow> v | None \<Rightarrow> d)"
  "map_of (snd (smap_at d k m)) k' = (if k' = k \<and> map_of m k = None then Some d else map_of m k')"
  "smap_ok m \<Longrightarrow> smap_ok (snd (smap_at d k m))"
  by (auto simp: smap_at_def smap_ok_set split: option.splits)

lemma smap_emplace_simps [simp]:
  "map_of (smap_emplace k v m) k'
     = (if k' = k \<and> map_of m k = None then Some v else map_of m k')"
  "smap_ok m \<Longrightarrow> smap_ok (smap_emplace k v m)"
  by (auto simp: smap_emplace_def smap_ok_set split: option.splits)

section \<open>Loops over a map\<close>

lemma map_of_smap_mapi [simp]: "map_of (smap_mapi f m) k = map_option (f k) (map_of m k)"
  by (induction m) (auto simp: smap_mapi_def)

lemma smap_ok_mapi [simp]: "smap_ok (smap_mapi f m) \<longleftrightarrow> smap_ok m"
  by (simp add: smap_ok_def smap_mapi_def case_prod_beta comp_def)

lemma map_of_values: "map_of m k = Some v \<Longrightarrow> v \<in> set (smap_values m)"
  by (force simp: smap_values_def dest: map_of_SomeD)

text \<open>
  Maps whose keys are computed from the stored value (\<open>m[x.id.str()] = x\<close>): copying the
  values, as \<open>snapshot\<close> does, and inserting them again, as \<open>recover\<close> does, gives the
  map back.
\<close>

definition keyed_by :: "('v \<Rightarrow> 'k) \<Rightarrow> ('k, 'v) smap \<Rightarrow> bool" where
  "keyed_by key m \<longleftrightarrow> (\<forall>e \<in> set m. fst e = key (snd e))"

lemma keyed_by_set: "keyed_by key m \<Longrightarrow> k = key v \<Longrightarrow> keyed_by key (smap_set k v m)"
  by (induction m) (auto simp: keyed_by_def)

lemma keyed_by_fold:
  "keyed_by key m0 \<Longrightarrow> keyed_by key (foldl (\<lambda>m v. smap_set (key v) v m) m0 vs)"
  by (induction vs arbitrary: m0) (simp_all add: keyed_by_set)

lemma smap_ok_fold:
  "smap_ok m0 \<Longrightarrow> smap_ok (foldl (\<lambda>m v. smap_set (key v) v m) m0 vs)"
  by (induction vs arbitrary: m0) (simp_all add: smap_ok_set)

lemma foldl_entries_values:
  "keyed_by key m \<Longrightarrow>
    foldl (\<lambda>a v. smap_set (key v) v a) m0 (smap_values m)
      = foldl (\<lambda>a e. smap_set (fst e) (snd e) a) m0 m"
  by (induction m arbitrary: m0) (simp_all add: keyed_by_def smap_values_def)

lemma rebuild_values:
  assumes "smap_ok m" and "keyed_by key m"
  shows "foldl (\<lambda>a v. smap_set (key v) v a) [] (smap_values m) = m"
  using sm.rebuild [OF assms(1)] foldl_entries_values [OF assms(2), of "[]"] by simp

text \<open>What the loops and single updates keep of the keys and of the stored values.\<close>

lemma keyed_by_Nil [simp]: "keyed_by key []"
  by (simp add: keyed_by_def)

lemma keyed_by_erase: "keyed_by key m \<Longrightarrow> keyed_by key (smap_erase k m)"
  by (simp add: keyed_by_def smap_erase_def)

lemma keyed_by_mapi:
  "keyed_by key m \<Longrightarrow> (\<And>k v. key (f k v) = key v) \<Longrightarrow> keyed_by key (smap_mapi f m)"
  by (auto simp: keyed_by_def smap_mapi_def)

lemma keyed_by_lookup: "keyed_by key m \<Longrightarrow> map_of m k = Some v \<Longrightarrow> key v = k"
  by (force simp: keyed_by_def dest: map_of_SomeD)

lemma smap_ok_Nil [simp]: "smap_ok []"
  by (simp add: smap_ok_def)

lemma smap_values_set: "set (smap_values (smap_set k v m)) \<subseteq> insert v (set (smap_values m))"
  by (induction m) (auto simp: smap_values_def)

lemma smap_values_fold:
  "set (smap_values (foldl (\<lambda>m v. smap_set (key v) v m) m0 vs)) \<subseteq> set (smap_values m0) \<union> set vs"
proof (induction vs arbitrary: m0)
  case (Cons v vs)
  then show ?case using smap_values_set [of "key v" v m0] by fastforce
qed simp

lemma smap_values_Nil [simp]: "smap_values [] = []"
  by (simp add: smap_values_def)

lemma distinct_values:
  assumes "smap_ok m" and "keyed_by key m"
  shows "distinct (map key (smap_values m))"
proof -
  have "map key (smap_values m) = map fst m"
    using assms(2) by (auto simp: smap_values_def keyed_by_def)
  then show ?thesis using assms(1) by (simp add: smap_ok_def strict_sorted_iff)
qed

end
