(* ===== verification/AF_Adapter.thy ===== *)
theory AF_Adapter
  imports AF_Checksum AF_StdMap
begin

text \<open>
  The adapter domain model (\<open>adapter.hpp\<close>, \<open>adapter.cpp\<close>) and the worker inventory
  (\<open>inventory.hpp\<close>). \<open>AdapterKind\<close>, \<open>DType\<close> and \<open>ValidationState\<close> are scoped
  enumerations over \<open>std::uint8_t\<close>, and the codecs build them with \<open>static_cast\<close> from
  any byte, so their values are bytes and the enumerators are names of some of them.
\<close>

section \<open>Enumerations over a byte\<close>

datatype AdapterKind = AdapterKind (kind_byte: uint8_t)

abbreviation "AK_generic \<equiv> AdapterKind 0"
abbreviation "AK_lora \<equiv> AdapterKind 1"
abbreviation "AK_full_finetune \<equiv> AdapterKind 2"
abbreviation "AK_prefix_tuning \<equiv> AdapterKind 3"
abbreviation "AK_custom \<equiv> AdapterKind 255"

definition AdapterKind_to_string :: "AdapterKind \<Rightarrow> string" where
  "AdapterKind_to_string k =
     (if k = AK_generic then ''generic''
      else if k = AK_lora then ''lora''
      else if k = AK_full_finetune then ''full_finetune''
      else if k = AK_prefix_tuning then ''prefix_tuning''
      else if k = AK_custom then ''custom''
      else ''unknown'')"

datatype DType = DType (dtype_byte: uint8_t)

abbreviation "DT_unknown \<equiv> DType 0"
abbreviation "DT_f32 \<equiv> DType 1"
abbreviation "DT_f16 \<equiv> DType 2"
abbreviation "DT_bf16 \<equiv> DType 3"
abbreviation "DT_f8_e4m3 \<equiv> DType 4"
abbreviation "DT_f8_e5m2 \<equiv> DType 5"
abbreviation "DT_int8 \<equiv> DType 6"
abbreviation "DT_int4 \<equiv> DType 7"

definition DType_to_string :: "DType \<Rightarrow> string" where
  "DType_to_string t =
     (if t = DT_unknown then ''unknown''
      else if t = DT_f32 then ''f32''
      else if t = DT_f16 then ''f16''
      else if t = DT_bf16 then ''bf16''
      else if t = DT_f8_e4m3 then ''f8_e4m3''
      else if t = DT_f8_e5m2 then ''f8_e5m2''
      else if t = DT_int8 then ''int8''
      else if t = DT_int4 then ''int4''
      else ''unknown'')"

definition dtype_bytes :: "DType \<Rightarrow> nat" where
  "dtype_bytes t =
     (if t = DT_unknown then 0
      else if t = DT_f32 then 4
      else if t = DT_f16 then 2
      else if t = DT_bf16 then 2
      else if t = DT_f8_e4m3 then 1
      else if t = DT_f8_e5m2 then 1
      else if t = DT_int8 then 1
      else if t = DT_int4 then 1
      else 0)"

datatype ValidationState = ValidationState (validation_byte: uint8_t)

abbreviation "VS_none \<equiv> ValidationState 0"
abbreviation "VS_validating \<equiv> ValidationState 1"
abbreviation "VS_valid \<equiv> ValidationState 2"
abbreviation "VS_invalid \<equiv> ValidationState 3"

definition ValidationState_to_string :: "ValidationState \<Rightarrow> string" where
  "ValidationState_to_string v =
     (if v = VS_none then ''none''
      else if v = VS_validating then ''validating''
      else if v = VS_valid then ''valid''
      else if v = VS_invalid then ''invalid''
      else ''unknown'')"

section \<open>Descriptor\<close>

record TargetModule =
  tm_name :: string
  tm_in_features :: uint32_t
  tm_out_features :: uint32_t
  tm_shape :: "uint32_t list"

record Dependency =
  dep_name :: string
  dep_version :: string
  dep_requirement :: string

record RuntimeCapability =
  cap_name :: string
  cap_value :: string
  cap_required :: bool

record ExecutionConstraint =
  ec_key :: string
  ec_value :: string

record Provenance =
  pv_source :: string
  pv_author :: string
  pv_timestamp :: string
  pv_origin_digest :: string
  pv_notes :: string

record AdapterDescriptor =
  ad_id :: AdapterId
  ad_revision :: AdapterRevisionId
  ad_artifact :: AdapterArtifactId
  ad_artifact_digest :: string
  ad_kind :: AdapterKind
  ad_name :: string
  ad_base_model :: BaseModelId
  ad_base_model_revision :: ModelRevisionId
  ad_targets :: "TargetModule list"
  ad_rank :: uint32_t
  ad_dtype :: DType
  ad_param_count :: uint64_t
  ad_param_bytes :: uint64_t
  ad_memory_bytes :: uint64_t
  ad_format :: string
  ad_format_version :: uint32_t
  ad_dependencies :: "Dependency list"
  ad_capabilities :: "RuntimeCapability list"
  ad_constraints :: "ExecutionConstraint list"
  ad_provenance :: Provenance
  ad_generation :: AdapterGeneration
  ad_policy_generation :: PolicyGeneration
  ad_validation :: ValidationState

text \<open>The key of an instance on a worker; the source declares it and uses it nowhere.\<close>

record AdapterInstance =
  ai_id :: AdapterInstanceId
  ai_adapter_id :: AdapterId
  ai_revision :: AdapterRevisionId
  ai_generation :: AdapterGeneration
  ai_worker :: WorkerId
  ai_boot :: WorkerBootId
  ai_device :: DeviceId
  ai_memory_bytes :: uint64_t

section \<open>Workers\<close>

record WorkerCapability =
  wc_name :: string
  wc_value :: string

record WorkerRecord =
  wr_id :: WorkerId
  wr_boot :: WorkerBootId
  wr_address :: string
  wr_node :: NodeId
  wr_device :: DeviceId
  wr_connected :: bool
  wr_epoch :: CoordinatorEpoch
  wr_capabilities :: "WorkerCapability list"
  wr_device_memory_bytes :: uint64_t
  wr_local_adapters :: "AdapterId list"

end
