(* ===== verification/AF_Capacity.thy ===== *)
theory AF_Capacity
  imports AF_Adapter "HOL-Library.Multiset"
begin

text \<open>
  Residency records and exact capacity accounting (\<open>residency.hpp\<close>, \<open>residency.cpp\<close>,
  \<open>capacity.hpp\<close>, \<open>capacity.cpp\<close>). The accountant keeps three ordered maps: bytes used
  and limits per location, bytes held per (location, owner). Arithmetic is on 64-bit words, so the
  unsigned difference \<open>limit(loc) - used(loc)\<close> wraps when the usage exceeds the limit.
  Operations return their error together with the state, because \<open>held_[{loc, owner}]\<close>
  inserts a zero entry even when the operation throws.
\<close>

section \<open>Locations and residency records\<close>

datatype ResidencyLocation =
    LOC_device_memory
  | LOC_pinned_host
  | LOC_pageable_host
  | LOC_process_local
  | LOC_node_local
  | LOC_persistent_storage

primrec ResidencyLocation_index :: "ResidencyLocation \<Rightarrow> nat" where
  "ResidencyLocation_index LOC_device_memory = 0"
| "ResidencyLocation_index LOC_pinned_host = 1"
| "ResidencyLocation_index LOC_pageable_host = 2"
| "ResidencyLocation_index LOC_process_local = 3"
| "ResidencyLocation_index LOC_node_local = 4"
| "ResidencyLocation_index LOC_persistent_storage = 5"

lemma ResidencyLocation_index_inject [simp]:
  "ResidencyLocation_index a = ResidencyLocation_index b \<longleftrightarrow> a = b"
  by (cases a; cases b) simp_all

instantiation ResidencyLocation :: linorder
begin

definition less_eq_ResidencyLocation :: "ResidencyLocation \<Rightarrow> ResidencyLocation \<Rightarrow> bool" where
  "less_eq_ResidencyLocation a b \<longleftrightarrow> ResidencyLocation_index a \<le> ResidencyLocation_index b"

definition less_ResidencyLocation :: "ResidencyLocation \<Rightarrow> ResidencyLocation \<Rightarrow> bool" where
  "less_ResidencyLocation a b \<longleftrightarrow> ResidencyLocation_index a < ResidencyLocation_index b"

instance
  by standard (auto simp: less_eq_ResidencyLocation_def less_ResidencyLocation_def)

end

primrec ResidencyLocation_to_string :: "ResidencyLocation \<Rightarrow> string" where
  "ResidencyLocation_to_string LOC_device_memory = ''device_memory''"
| "ResidencyLocation_to_string LOC_pinned_host = ''pinned_host''"
| "ResidencyLocation_to_string LOC_pageable_host = ''pageable_host''"
| "ResidencyLocation_to_string LOC_process_local = ''process_local''"
| "ResidencyLocation_to_string LOC_node_local = ''node_local''"
| "ResidencyLocation_to_string LOC_persistent_storage = ''persistent_storage''"

datatype MigrationState =
    MS_none
  | MS_target_reserved
  | MS_transferring
  | MS_verifying
  | MS_dest_ready
  | MS_migrating
  | MS_source_retiring
  | MS_source_released

primrec MigrationState_to_string :: "MigrationState \<Rightarrow> string" where
  "MigrationState_to_string MS_none = ''none''"
| "MigrationState_to_string MS_target_reserved = ''target_reserved''"
| "MigrationState_to_string MS_transferring = ''transferring''"
| "MigrationState_to_string MS_verifying = ''verifying''"
| "MigrationState_to_string MS_dest_ready = ''dest_ready''"
| "MigrationState_to_string MS_migrating = ''migrating''"
| "MigrationState_to_string MS_source_retiring = ''source_retiring''"
| "MigrationState_to_string MS_source_released = ''source_released''"

record ResidencyRecord =
  rr_instance :: AdapterInstanceId
  rr_adapter_id :: AdapterId
  rr_adapter_generation :: AdapterGeneration
  rr_residency_generation :: ResidencyGeneration
  rr_location :: ResidencyLocation
  rr_bytes :: uint64_t
  rr_worker :: WorkerId
  rr_boot :: WorkerBootId
  rr_epoch :: CoordinatorEpoch
  rr_device :: DeviceId
  rr_ready :: bool
  rr_active_refs :: uint32_t
  rr_pin_count :: uint32_t
  rr_protected :: bool
  rr_migration :: MigrationState
  rr_freshness :: string
  rr_compat_summary :: string
  rr_has_compat_evidence :: bool

section \<open>The accountant\<close>

record CapacityAccountant =
  ca_used :: "(ResidencyLocation, uint64_t) smap"
  ca_limits :: "(ResidencyLocation, uint64_t) smap"
  ca_held :: "(ResidencyLocation \<times> string, uint64_t) smap"

definition all_locations :: "ResidencyLocation list" where
  "all_locations = [LOC_device_memory, LOC_pinned_host, LOC_pageable_host, LOC_process_local,
     LOC_node_local, LOC_persistent_storage]"

definition CapacityAccountant_default :: CapacityAccountant where
  "CapacityAccountant_default = \<lparr>ca_used = [], ca_limits = [], ca_held = []\<rparr>"

definition CapacityAccountant_new :: "(ResidencyLocation, uint64_t) smap \<Rightarrow> CapacityAccountant" where
  "CapacityAccountant_new limits =
     foldl (\<lambda>c loc. c\<lparr>ca_used := smap_emplace loc 0 (ca_used c),
                      ca_limits := smap_emplace loc 0 (ca_limits c)\<rparr>)
       \<lparr>ca_used = [], ca_limits = limits, ca_held = []\<rparr> all_locations"

definition used :: "CapacityAccountant \<Rightarrow> ResidencyLocation \<Rightarrow> uint64_t" where
  "used c loc = (case map_of (ca_used c) loc of None \<Rightarrow> 0 | Some v \<Rightarrow> v)"

definition limit :: "CapacityAccountant \<Rightarrow> ResidencyLocation \<Rightarrow> uint64_t" where
  "limit c loc = (case map_of (ca_limits c) loc of None \<Rightarrow> 0 | Some v \<Rightarrow> v)"

definition free :: "CapacityAccountant \<Rightarrow> ResidencyLocation \<Rightarrow> uint64_t" where
  "free c loc = (if limit c loc > used c loc then limit c loc - used c loc else 0)"

definition over_limit :: "CapacityAccountant \<Rightarrow> ResidencyLocation \<Rightarrow> bool" where
  "over_limit c loc \<longleftrightarrow> used c loc > limit c loc"

definition is_clean :: "CapacityAccountant \<Rightarrow> bool" where
  "is_clean c \<longleftrightarrow> (\<forall>v \<in> set (smap_values (ca_used c)). v = 0)"

definition usage :: "CapacityAccountant \<Rightarrow> (ResidencyLocation, uint64_t) smap" where
  "usage c = ca_used c"

definition set_limit ::
    "ResidencyLocation \<Rightarrow> uint64_t \<Rightarrow> CapacityAccountant \<Rightarrow> CapacityAccountant" where
  "set_limit loc n c = c\<lparr>ca_limits := smap_set loc n (ca_limits c)\<rparr>"

definition reserve ::
    "ResidencyLocation \<Rightarrow> uint64_t \<Rightarrow> string \<Rightarrow> CapacityAccountant \<Rightarrow>
     (Error + unit) \<times> CapacityAccountant" where
  "reserve loc n owner c =
     (let (held, h1) = smap_at 0 (loc, owner) (ca_held c); c1 = c\<lparr>ca_held := h1\<rparr> in
      if held \<noteq> 0 then
        (throw EC_double_reservation (''double reservation for '' @ owner @ '' in ''
           @ ResidencyLocation_to_string loc), c1)
      else if n > limit c1 loc - used c1 loc then
        (throw EC_capacity_overcommit (''overcommit in '' @ ResidencyLocation_to_string loc), c1)
      else
        (Inr (), c1\<lparr>ca_held := smap_set (loc, owner) n (ca_held c1),
                    ca_used := (let (u, u1) = smap_at 0 loc (ca_used c1) in smap_set loc (u + n) u1)\<rparr>))"

definition release ::
    "ResidencyLocation \<Rightarrow> uint64_t \<Rightarrow> string \<Rightarrow> CapacityAccountant \<Rightarrow>
     (Error + unit) \<times> CapacityAccountant" where
  "release loc n owner c =
     (let (held, h1) = smap_at 0 (loc, owner) (ca_held c); c1 = c\<lparr>ca_held := h1\<rparr> in
      if held = 0 then
        (throw EC_double_release (''double release for '' @ owner @ '' in ''
           @ ResidencyLocation_to_string loc), c1)
      else if n > held then
        (throw EC_capacity_underflow (''release exceeds reservation for '' @ owner @ '' in ''
           @ ResidencyLocation_to_string loc), c1)
      else
        (Inr (), c1\<lparr>ca_held := smap_set (loc, owner) (held - n) (ca_held c1),
                    ca_used := (let (u, u1) = smap_at 0 loc (ca_used c1) in smap_set loc (u - n) u1)\<rparr>))"

text \<open>
  \<open>delta\<close> is the two's complement pattern of a \<open>std::int64_t\<close>; its negation is taken on the
  pattern (for \<open>INT64_MIN\<close>, where the source's negation overflows, that is \<open>2^63\<close>).
\<close>

definition adjust ::
    "ResidencyLocation \<Rightarrow> uint64_t \<Rightarrow> string \<Rightarrow> CapacityAccountant \<Rightarrow>
     (Error + unit) \<times> CapacityAccountant" where
  "adjust loc delta owner c =
     (if sint delta \<ge> 0 then reserve loc delta owner c else release loc (- delta) owner c)"

section \<open>What the operations do\<close>

definition held :: "CapacityAccountant \<Rightarrow> ResidencyLocation \<Rightarrow> string \<Rightarrow> uint64_t" where
  "held c loc owner = (case map_of (ca_held c) (loc, owner) of None \<Rightarrow> 0 | Some v \<Rightarrow> v)"

text \<open>Equality of everything the accountant can be observed to hold.\<close>

definition same_accounts :: "CapacityAccountant \<Rightarrow> CapacityAccountant \<Rightarrow> bool" where
  "same_accounts c c' \<longleftrightarrow> used c = used c' \<and> limit c = limit c' \<and> held c = held c'"

lemma reserve_cases:
  obtains (double) m c' where "held c loc owner \<noteq> 0"
      "reserve loc n owner c = (throw EC_double_reservation m, c')" "same_accounts c c'"
  | (over) m c' where "held c loc owner = 0" "n > limit c loc - used c loc"
      "reserve loc n owner c = (throw EC_capacity_overcommit m, c')" "same_accounts c c'"
  | (booked) c' where "held c loc owner = 0" "n \<le> limit c loc - used c loc"
      "reserve loc n owner c = (Inr (), c')" "limit c' = limit c"
      "used c' = (used c)(loc := used c loc + n)"
      "held c' = (\<lambda>l o'. if l = loc \<and> o' = owner then n else held c l o')"
proof -
  let ?at = "smap_at 0 (loc, owner) (ca_held c)"
  let ?c1 = "c\<lparr>ca_held := snd ?at\<rparr>"
  have at: "fst ?at = held c loc owner" by (simp add: held_def)
  have same: "same_accounts c ?c1"
    by (auto simp: same_accounts_def used_def limit_def held_def fun_eq_iff split: option.splits)
  have cap: "limit ?c1 loc - used ?c1 loc = limit c loc - used c loc"
    by (simp add: limit_def used_def)
  show thesis
  proof (cases "held c loc owner \<noteq> 0")
    case True
    with at same show ?thesis
      by (intro double) (simp_all add: reserve_def case_prod_beta Let_def)
  next
    case False
    show ?thesis
    proof (cases "n > limit c loc - used c loc")
      case True
      with False at same cap show ?thesis
        by (intro over) (simp_all add: reserve_def case_prod_beta Let_def)
    next
      case le: False
      let ?u = "smap_at 0 loc (ca_used ?c1)"
      let ?c2 = "?c1\<lparr>ca_held := smap_set (loc, owner) n (ca_held ?c1),
          ca_used := smap_set loc (fst ?u + n) (snd ?u)\<rparr>"
      have "reserve loc n owner c = (Inr (), ?c2)"
        using False le at cap by (simp add: reserve_def case_prod_beta Let_def)
      moreover have "limit ?c2 = limit c" by (simp add: limit_def fun_eq_iff)
      moreover have "used ?c2 = (used c)(loc := used c loc + n)"
        by (auto simp: used_def fun_eq_iff split: option.splits)
      moreover have "held ?c2 = (\<lambda>l o'. if l = loc \<and> o' = owner then n else held c l o')"
        by (auto simp: held_def fun_eq_iff split: option.splits)
      ultimately show ?thesis using False le by (intro booked) simp_all
    qed
  qed
qed

lemma release_cases:
  obtains (double) m c' where "held c loc owner = 0"
      "release loc n owner c = (throw EC_double_release m, c')" "same_accounts c c'"
  | (under) m c' where "held c loc owner \<noteq> 0" "n > held c loc owner"
      "release loc n owner c = (throw EC_capacity_underflow m, c')" "same_accounts c c'"
  | (booked) c' where "held c loc owner \<noteq> 0" "n \<le> held c loc owner"
      "release loc n owner c = (Inr (), c')" "limit c' = limit c"
      "used c' = (used c)(loc := used c loc - n)"
      "held c' = (\<lambda>l o'. if l = loc \<and> o' = owner then held c loc owner - n else held c l o')"
proof -
  let ?at = "smap_at 0 (loc, owner) (ca_held c)"
  let ?c1 = "c\<lparr>ca_held := snd ?at\<rparr>"
  have at: "fst ?at = held c loc owner" by (simp add: held_def)
  have same: "same_accounts c ?c1"
    by (auto simp: same_accounts_def used_def limit_def held_def fun_eq_iff split: option.splits)
  show thesis
  proof (cases "held c loc owner = 0")
    case True
    with at same show ?thesis
      by (intro double) (simp_all add: release_def case_prod_beta Let_def)
  next
    case False
    show ?thesis
    proof (cases "n > held c loc owner")
      case True
      with False at same show ?thesis
        by (intro under) (simp_all add: release_def case_prod_beta Let_def)
    next
      case le: False
      let ?u = "smap_at 0 loc (ca_used ?c1)"
      let ?c2 = "?c1\<lparr>ca_held := smap_set (loc, owner) (held c loc owner - n) (ca_held ?c1),
          ca_used := smap_set loc (fst ?u - n) (snd ?u)\<rparr>"
      have "release loc n owner c = (Inr (), ?c2)"
        using False le at by (simp add: release_def case_prod_beta Let_def)
      moreover have "limit ?c2 = limit c" by (simp add: limit_def fun_eq_iff)
      moreover have "used ?c2 = (used c)(loc := used c loc - n)"
        by (auto simp: used_def fun_eq_iff split: option.splits)
      moreover have "held ?c2 = (\<lambda>l o'. if l = loc \<and> o' = owner then held c loc owner - n
          else held c l o')"
        by (auto simp: held_def fun_eq_iff split: option.splits)
      ultimately show ?thesis using False le by (intro booked) simp_all
    qed
  qed
qed

section \<open>The ledger contract\<close>

text \<open>
  What a client may rely on: a granted reservation and a granted release change exactly one held
  entry and one usage counter by the same amount, and limits stay. From this alone, releasing
  what was reserved, in any order, gives the accounts back.
\<close>

locale ledger =
  fixes used :: "'c \<Rightarrow> 'l \<Rightarrow> 'w::len word"
    and limit :: "'c \<Rightarrow> 'l \<Rightarrow> 'w word"
    and held :: "'c \<Rightarrow> 'l \<Rightarrow> 'ow \<Rightarrow> 'w word"
    and reserve :: "'l \<Rightarrow> 'w word \<Rightarrow> 'ow \<Rightarrow> 'c \<Rightarrow> ('e + unit) \<times> 'c"
    and release :: "'l \<Rightarrow> 'w word \<Rightarrow> 'ow \<Rightarrow> 'c \<Rightarrow> ('e + unit) \<times> 'c"
  assumes reserve_granted: "reserve l n ow c = (Inr (), c') \<Longrightarrow>
      held c l ow = 0 \<and> limit c' = limit c \<and> used c' = (used c)(l := used c l + n) \<and>
      held c' = (\<lambda>l' o'. if l' = l \<and> o' = ow then n else held c l' o')"
    and release_granted: "n \<noteq> 0 \<Longrightarrow> held c l ow = n \<Longrightarrow> \<exists>c'. release l n ow c = (Inr (), c') \<and>
      limit c' = limit c \<and> used c' = (used c)(l := used c l - n) \<and>
      held c' = (\<lambda>l' o'. if l' = l \<and> o' = ow then 0 else held c l' o')"
begin

fun reserve_all :: "('l \<times> 'w word \<times> 'ow) list \<Rightarrow> 'c \<Rightarrow> ('e + unit) \<times> 'c" where
  "reserve_all [] c = (Inr (), c)"
| "reserve_all ((l, n, ow) # es) c =
     (case reserve l n ow c of (Inl e, c') \<Rightarrow> (Inl e, c') | (Inr _, c') \<Rightarrow> reserve_all es c')"

fun release_all :: "('l \<times> 'w word \<times> 'ow) list \<Rightarrow> 'c \<Rightarrow> ('e + unit) \<times> 'c" where
  "release_all [] c = (Inr (), c)"
| "release_all ((l, n, ow) # es) c =
     (case release l n ow c of (Inl e, c') \<Rightarrow> (Inl e, c') | (Inr _, c') \<Rightarrow> release_all es c')"

definition bytes_in :: "'l \<Rightarrow> ('l \<times> 'w word \<times> 'ow) list \<Rightarrow> 'w word" where
  "bytes_in l es = sum_list (map (\<lambda>(l', n, ow). if l' = l then n else 0) es)"

definition keys :: "('l \<times> 'w word \<times> 'ow) list \<Rightarrow> ('l \<times> 'ow) list" where
  "keys es = map (\<lambda>(l, n, ow). (l, ow)) es"

lemma batch_simps [simp]:
  "bytes_in l [] = 0"
  "bytes_in l ((l', n, ow) # es) = (if l' = l then n else 0) + bytes_in l es"
  "keys [] = []" "keys ((l', n, ow) # es) = (l', ow) # keys es"
  by (simp_all add: bytes_in_def keys_def)

lemma reserve_all_granted:
  assumes "reserve_all es c = (Inr (), c')" and "\<forall>(l, n, ow) \<in> set es. n \<noteq> 0"
  shows "distinct (keys es) \<and> limit c' = limit c \<and>
     (\<forall>(l, n, ow) \<in> set es. held c' l ow = n) \<and>
     (\<forall>l ow. (l, ow) \<in> set (keys es) \<longrightarrow> held c l ow = 0) \<and>
     (\<forall>l ow. (l, ow) \<notin> set (keys es) \<longrightarrow> held c' l ow = held c l ow) \<and>
     (\<forall>l. used c' l = used c l + bytes_in l es)"
  using assms
proof (induction es arbitrary: c)
  case Nil
  then show ?case by simp
next
  case (Cons e es)
  obtain l n o' where e: "e = (l, n, o')" by (cases e)
  from Cons.prems e obtain c1 where r: "reserve l n o' c = (Inr (), c1)"
    and all: "reserve_all es c1 = (Inr (), c')" and nz: "n \<noteq> 0"
    by (auto split: prod.splits sum.splits)
  note g = reserve_granted [OF r]
  note IH = Cons.IH [OF all]
  have nz': "\<forall>(l, n, ow) \<in> set es. n \<noteq> 0" using Cons.prems by simp
  have notin: "(l, o') \<notin> set (keys es)"
  proof
    assume "(l, o') \<in> set (keys es)"
    then have "held c1 l o' = 0" using IH [OF nz'] by blast
    with g nz show False by simp
  qed
  show ?case
    using IH [OF nz'] g e notin by (auto split: if_splits)
qed

lemma release_all_granted:
  assumes "distinct (keys es)" and "\<forall>(l, n, ow) \<in> set es. n \<noteq> 0 \<and> held c l ow = n"
  shows "\<exists>c'. release_all es c = (Inr (), c') \<and> limit c' = limit c \<and>
     (\<forall>l ow. held c' l ow = (if (l, ow) \<in> set (keys es) then 0 else held c l ow)) \<and>
     (\<forall>l. used c' l = used c l - bytes_in l es)"
  using assms
proof (induction es arbitrary: c)
  case Nil
  then show ?case by simp
next
  case (Cons e es)
  obtain l n o' where e: "e = (l, n, o')" by (cases e)
  with Cons.prems have n: "n \<noteq> 0" "held c l o' = n" by auto
  from release_granted [OF n] obtain c1 where c1: "release l n o' c = (Inr (), c1)"
    "limit c1 = limit c" "used c1 = (used c)(l := used c l - n)"
    "held c1 = (\<lambda>l' o''. if l' = l \<and> o'' = o' then 0 else held c l' o'')" by blast
  have notin: "(l, o') \<notin> set (keys es)" and dist: "distinct (keys es)"
    using Cons.prems(1) e by simp_all
  have still: "\<forall>(l, n, ow) \<in> set es. n \<noteq> 0 \<and> held c1 l ow = n"
  proof clarify
    fix a m p assume m: "(a, m, p) \<in> set es"
    then have "(a, p) \<in> set (keys es)" by (force simp: keys_def)
    with notin m Cons.prems(2) show "m \<noteq> 0 \<and> held c1 a p = m" by (auto simp: c1(4))
  qed
  from Cons.IH [OF dist still] c1 e show ?case
    by (auto split: if_splits)
qed

text \<open>Exact return to baseline: reserve a batch, release it in any order.\<close>

lemma batch_baseline:
  assumes "reserve_all es c = (Inr (), c1)" and "\<forall>(l, n, ow) \<in> set es. n \<noteq> 0"
    and "mset es' = mset es"
  shows "\<exists>c2. release_all es' c1 = (Inr (), c2) \<and>
     used c2 = used c \<and> limit c2 = limit c \<and> held c2 = held c"
proof -
  note r = reserve_all_granted [OF assms(1,2)]
  have set: "set es' = set es" using assms(3) by (rule mset_eq_setD)
  have keys': "set (keys es') = set (keys es)" by (simp add: keys_def set)
  have "mset (keys es') = mset (keys es)" by (simp add: keys_def assms(3) mset_map)
  then have dist: "distinct (keys es')" using r by (metis mset_eq_imp_distinct_iff)
  have bytes: "bytes_in l es' = bytes_in l es" for l
    unfolding bytes_in_def sum_mset_sum_list [symmetric] mset_map assms(3) ..
  have "\<forall>(l, n, ow) \<in> set es'. n \<noteq> 0 \<and> held c1 l ow = n"
    using r assms(2) set by fastforce
  from release_all_granted [OF dist this] obtain c2 where c2:
    "release_all es' c1 = (Inr (), c2)" "limit c2 = limit c1"
    "\<forall>l ow. held c2 l ow = (if (l, ow) \<in> set (keys es') then 0 else held c1 l ow)"
    "\<forall>l. used c2 l = used c1 l - bytes_in l es'" by blast
  have "held c2 = held c" using c2(3) r keys' by (auto simp: fun_eq_iff)
  moreover have "used c2 = used c" using c2(4) r bytes by (simp add: fun_eq_iff)
  ultimately show ?thesis using c2 r by auto
qed

end

interpretation acct: ledger used limit held reserve release
proof unfold_locales
  fix l n o' c c'
  assume "reserve l n o' c = (Inr (), c')"
  then show "held c l o' = 0 \<and> limit c' = limit c \<and> used c' = (used c)(l := used c l + n) \<and>
      held c' = (\<lambda>l' o''. if l' = l \<and> o'' = o' then n else held c l' o'')"
    by (cases rule: reserve_cases [of c l o' n]) (auto simp: throw_def)
next
  fix n c l o'
  assume "n \<noteq> 0" and "held c l o' = n"
  then show "\<exists>c'. release l n o' c = (Inr (), c') \<and> limit c' = limit c \<and>
      used c' = (used c)(l := used c l - n) \<and>
      held c' = (\<lambda>l' o''. if l' = l \<and> o'' = o' then 0 else held c l' o'')"
    by (cases rule: release_cases [of c l o' n]) (auto simp: fun_eq_iff)
qed

section \<open>The accounting invariant\<close>

text \<open>
  The bytes held in a location by all owners together, as a natural number: no wrap-around can
  hide in it.
\<close>

definition total_held :: "CapacityAccountant \<Rightarrow> ResidencyLocation \<Rightarrow> nat" where
  "total_held c loc = (\<Sum>ow | held c loc ow \<noteq> 0. unat (held c loc ow))"

definition capacity_inv :: "CapacityAccountant \<Rightarrow> bool" where
  "capacity_inv c \<longleftrightarrow> smap_ok (ca_used c) \<and>
     (\<forall>loc. unat (used c loc) = total_held c loc \<and> used c loc \<le> limit c loc)"

lemma capacity_invD:
  assumes "capacity_inv c"
  shows "unat (used c loc) = total_held c loc" and "unat (used c loc) \<le> unat (limit c loc)"
  using assms unfolding capacity_inv_def word_le_nat_alt by blast+

lemma capacity_invI:
  assumes "smap_ok (ca_used c)"
    and "\<And>loc. unat (used c loc) = total_held c loc \<and> unat (used c loc) \<le> unat (limit c loc)"
  shows "capacity_inv c"
  using assms unfolding capacity_inv_def word_le_nat_alt by blast

lemma finite_owners: "finite {ow. held c loc ow \<noteq> 0}"
proof (rule finite_subset)
  show "{ow. held c loc ow \<noteq> 0} \<subseteq> snd ` fst ` set (ca_held c)"
    by (force simp: held_def split: option.splits dest: map_of_SomeD)
qed simp

lemma support_sum_upd:
  fixes f :: "'a \<Rightarrow> 'w::len word"
  assumes "finite {x. f x \<noteq> 0}"
  shows "(\<Sum>x | (f(a := v)) x \<noteq> 0. unat ((f(a := v)) x)) + unat (f a)
       = (\<Sum>x | f x \<noteq> 0. unat (f x)) + unat v"
proof -
  let ?S = "insert a {x. f x \<noteq> 0}"
  have fin: "finite ?S" using assms by simp
  have over: "(\<Sum>x | g x \<noteq> 0. unat (g x)) = (\<Sum>x \<in> ?S. unat (g x))"
    if "{x. g x \<noteq> 0} \<subseteq> ?S" for g :: "'a \<Rightarrow> 'w word"
    using fin that by (intro sum.mono_neutral_left) auto
  have "(\<Sum>x \<in> ?S. unat (g x)) = unat (g a) + (\<Sum>x \<in> ?S - {a}. unat (g x))"
    for g :: "'a \<Rightarrow> 'w word"
    by (rule sum.remove [OF fin]) simp
  moreover have "(\<Sum>x \<in> ?S - {a}. unat ((f(a := v)) x)) = (\<Sum>x \<in> ?S - {a}. unat (f x))"
    by (rule sum.cong) auto
  moreover have "{x. (f(a := v)) x \<noteq> 0} \<subseteq> ?S" "{x. f x \<noteq> 0} \<subseteq> ?S" by auto
  note this [THEN over]
  ultimately show ?thesis by (simp only: fun_upd_same)
qed

lemma total_held_upd:
  assumes "held c' = (\<lambda>l ow. if l = loc \<and> ow = owner then v else held c l ow)"
  shows "total_held c' loc + unat (held c loc owner) = total_held c loc + unat v"
    and "l \<noteq> loc \<Longrightarrow> total_held c' l = total_held c l"
proof -
  have "held c' loc = (held c loc)(owner := v)" using assms by (auto simp: fun_eq_iff)
  then show "total_held c' loc + unat (held c loc owner) = total_held c loc + unat v"
    unfolding total_held_def using support_sum_upd [OF finite_owners [of c loc], of owner v] by simp
  show "l \<noteq> loc \<Longrightarrow> total_held c' l = total_held c l"
    unfolding total_held_def using assms by simp
qed

lemma held_le_total: "unat (held c loc owner) \<le> total_held c loc"
proof (cases "held c loc owner = 0")
  case False
  then show ?thesis
    unfolding total_held_def
    using finite_owners [of c loc] by (intro member_le_sum) auto
qed simp

lemma smap_ok_used:
  "smap_ok (ca_used c) \<Longrightarrow> smap_ok (ca_used (snd (reserve loc n owner c)))"
  "smap_ok (ca_used c) \<Longrightarrow> smap_ok (ca_used (snd (release loc n owner c)))"
  by (simp_all add: reserve_def release_def case_prod_beta Let_def smap_ok_set)

lemma capacity_inv_same:
  "capacity_inv c \<Longrightarrow> same_accounts c c' \<Longrightarrow> smap_ok (ca_used c') \<Longrightarrow> capacity_inv c'"
  by (simp add: capacity_inv_def same_accounts_def total_held_def)

lemma reserve_inv: "capacity_inv c \<Longrightarrow> capacity_inv (snd (reserve loc n owner c))"
proof -
  assume inv: "capacity_inv c"
  have ok: "smap_ok (ca_used (snd (reserve loc n owner c)))"
    using inv by (simp add: smap_ok_used capacity_inv_def)
  show ?thesis
  proof (cases rule: reserve_cases [of c loc owner n])
    case (booked c')
    have le: "unat (used c loc) \<le> unat (limit c loc)"
      by (rule capacity_invD(2) [OF inv])
    with booked(2) have n: "unat n + unat (used c loc) \<le> unat (limit c loc)"
      by (simp add: word_le_nat_alt unat_sub_if_size)
    then have plus: "unat (used c loc + n) = unat (used c loc) + unat n"
      using unat_64_less [of "limit c loc"] by (simp add: unat_word_ariths)
    have "unat (used c' l) = total_held c' l \<and> unat (used c' l) \<le> unat (limit c' l)" for l
      using capacity_invD [OF inv, of l] booked(1,4,5) plus n
        total_held_upd(1) [OF booked(6)] total_held_upd(2) [OF booked(6), of l]
      by (cases "l = loc") simp_all
    then have "capacity_inv c'" by (rule capacity_invI [rotated]) (use ok booked(3) in simp)
    then show ?thesis by (simp add: booked(3))
  qed (use inv ok in \<open>auto intro: capacity_inv_same\<close>)
qed

lemma release_inv: "capacity_inv c \<Longrightarrow> capacity_inv (snd (release loc n owner c))"
proof -
  assume inv: "capacity_inv c"
  have ok: "smap_ok (ca_used (snd (release loc n owner c)))"
    using inv by (simp add: smap_ok_used capacity_inv_def)
  show ?thesis
  proof (cases rule: release_cases [of c loc owner n])
    case (booked c')
    have n: "unat n \<le> unat (held c loc owner)" "unat n \<le> unat (used c loc)"
      using booked(2) held_le_total [of c loc owner] inv
      by (simp_all add: capacity_inv_def word_le_nat_alt)
    then have minus: "unat (used c loc - n) = unat (used c loc) - unat n"
        "unat (held c loc owner - n) = unat (held c loc owner) - unat n"
      by (simp_all add: unat_sub_if_size)
    have "unat (used c' l) = total_held c' l \<and> unat (used c' l) \<le> unat (limit c' l)" for l
      using capacity_invD [OF inv, of l] booked(4,5) minus n
        total_held_upd(1) [OF booked(6)] total_held_upd(2) [OF booked(6), of l]
      by (cases "l = loc"; simp; arith)
    then have "capacity_inv c'" by (rule capacity_invI [rotated]) (use ok booked(3) in simp)
    then show ?thesis by (simp add: booked(3))
  qed (use inv ok in \<open>auto intro: capacity_inv_same\<close>)
qed

section \<open>Every history of the accountant\<close>

datatype CapacityOp =
    Op_reserve ResidencyLocation uint64_t string
  | Op_release ResidencyLocation uint64_t string
  | Op_adjust ResidencyLocation uint64_t string
  | Op_set_limit ResidencyLocation uint64_t

fun capacity_exec :: "CapacityOp \<Rightarrow> CapacityAccountant \<Rightarrow> CapacityAccountant" where
  "capacity_exec (Op_reserve loc n owner) c = snd (reserve loc n owner c)"
| "capacity_exec (Op_release loc n owner) c = snd (release loc n owner c)"
| "capacity_exec (Op_adjust loc delta owner) c = snd (adjust loc delta owner c)"
| "capacity_exec (Op_set_limit loc n) c = set_limit loc n c"

text \<open>A limit change is benign when it does not cut below what is in use.\<close>

fun capacity_op_ok :: "CapacityAccountant \<Rightarrow> CapacityOp \<Rightarrow> bool" where
  "capacity_op_ok c (Op_set_limit loc n) = (used c loc \<le> n)"
| "capacity_op_ok c _ = True"

inductive capacity_reachable :: "CapacityAccountant \<Rightarrow> bool" where
  cap_default: "capacity_reachable CapacityAccountant_default"
| cap_new: "capacity_reachable (CapacityAccountant_new limits)"
| cap_step: "capacity_reachable c \<Longrightarrow> capacity_op_ok c op \<Longrightarrow> capacity_reachable (capacity_exec op c)"

lemma capacity_inv_default: "capacity_inv CapacityAccountant_default"
  by (simp add: capacity_inv_def CapacityAccountant_default_def used_def limit_def held_def
      total_held_def smap_ok_def)

lemma capacity_new_simps:
  "used (CapacityAccountant_new limits) loc = 0" "held (CapacityAccountant_new limits) loc ow = 0"
  "smap_ok (ca_used (CapacityAccountant_new limits))"
proof -
  have "smap_ok (ca_used c) \<and> (\<forall>l. used c l = 0) \<and> ca_held c = [] \<Longrightarrow>
      let c' = foldl (\<lambda>c loc. c\<lparr>ca_used := smap_emplace loc 0 (ca_used c),
          ca_limits := smap_emplace loc 0 (ca_limits c)\<rparr>) c locs
      in smap_ok (ca_used c') \<and> (\<forall>l. used c' l = 0) \<and> ca_held c' = []" for c locs
    by (induction locs arbitrary: c) (simp_all add: used_def)
  from this [of "\<lparr>ca_used = [], ca_limits = limits, ca_held = []\<rparr>" all_locations]
  show "used (CapacityAccountant_new limits) loc = 0"
    "held (CapacityAccountant_new limits) loc ow = 0"
    "smap_ok (ca_used (CapacityAccountant_new limits))"
    by (simp_all add: CapacityAccountant_new_def Let_def used_def held_def smap_ok_def)
qed

lemma capacity_inv_new: "capacity_inv (CapacityAccountant_new limits)"
  by (simp add: capacity_inv_def capacity_new_simps total_held_def)

lemma capacity_exec_inv: "capacity_inv c \<Longrightarrow> capacity_op_ok c op \<Longrightarrow> capacity_inv (capacity_exec op c)"
proof (cases op)
  case (Op_set_limit loc n)
  assume "capacity_inv c" and "capacity_op_ok c op"
  with Op_set_limit show ?thesis
    by (auto simp: capacity_inv_def set_limit_def used_def limit_def held_def total_held_def)
qed (simp_all add: reserve_inv release_inv adjust_def)

lemma capacity_invariant: "capacity_reachable c \<Longrightarrow> capacity_inv c"
  by (induction rule: capacity_reachable.induct)
    (simp_all add: capacity_inv_default capacity_inv_new capacity_exec_inv)

lemma is_clean_held:
  assumes "capacity_inv c"
  shows "is_clean c \<longleftrightarrow> (\<forall>loc owner. held c loc owner = 0)"
proof -
  have "is_clean c \<longleftrightarrow> (\<forall>loc. used c loc = 0)"
  proof
    assume "is_clean c"
    then show "\<forall>loc. used c loc = 0"
      by (auto simp: is_clean_def used_def split: option.splits dest: map_of_values)
  next
    assume zero: "\<forall>loc. used c loc = 0"
    have "v = 0" if "(loc, v) \<in> set (ca_used c)" for loc v
    proof -
      have "map_of (ca_used c) loc = Some v"
        using that assms by (intro map_of_is_SomeI) (simp_all add: capacity_inv_def smap_ok_def
            strict_sorted_iff)
      with zero show ?thesis by (metis option.simps(5) used_def)
    qed
    then show "is_clean c" by (auto simp: is_clean_def smap_values_def)
  qed
  also have "\<dots> \<longleftrightarrow> (\<forall>loc. total_held c loc = 0)"
    using assms by (simp add: capacity_inv_def flip: unat_eq_zero)
  also have "\<dots> \<longleftrightarrow> (\<forall>loc owner. held c loc owner = 0)"
    using held_le_total by (auto simp: total_held_def unat_eq_zero) (metis le_zero_eq unat_eq_zero)
  finally show ?thesis .
qed

section \<open>The accountant's contract\<close>

text \<open>Every history, limits cut below what is in use included.\<close>

inductive capacity_history :: "CapacityAccountant \<Rightarrow> bool" where
  hist_default: "capacity_history CapacityAccountant_default"
| hist_new: "capacity_history (CapacityAccountant_new limits)"
| hist_step: "capacity_history c \<Longrightarrow> capacity_history (capacity_exec op c)"

lemma capacity_reachable_history: "capacity_reachable c \<Longrightarrow> capacity_history c"
  by (induction rule: capacity_reachable.induct) (auto intro: capacity_history.intros)

definition sums_modulo :: "CapacityAccountant \<Rightarrow> bool" where
  "sums_modulo c \<longleftrightarrow> (\<forall>loc. used c loc = of_nat (total_held c loc))"

lemma sums_modulo_upd:
  assumes "sums_modulo c" and "held c' = (\<lambda>l ow. if l = loc \<and> ow = owner then v else held c l ow)"
    and "used c' loc = used c loc + v - held c loc owner" and "\<And>l. l \<noteq> loc \<Longrightarrow> used c' l = used c l"
  shows "sums_modulo c'"
  unfolding sums_modulo_def
proof
  fix l
  have "(of_nat (total_held c' loc + unat (held c loc owner)) :: uint64_t) =
      of_nat (total_held c loc + unat v)"
    using total_held_upd(1) [OF assms(2)] by simp
  then have "of_nat (total_held c' loc) = used c loc + v - held c loc owner"
    using assms(1) by (simp add: sums_modulo_def eq_diff_eq)
  then show "used c' l = of_nat (total_held c' l)"
    using assms total_held_upd(2) [OF assms(2), of l] by (cases "l = loc") (simp_all add: sums_modulo_def)
qed

lemma sums_modulo_same: "sums_modulo c \<Longrightarrow> same_accounts c c' \<Longrightarrow> sums_modulo c'"
  by (simp add: sums_modulo_def same_accounts_def total_held_def)

lemma sums_modulo_reserve: "sums_modulo c \<Longrightarrow> sums_modulo (snd (reserve loc n owner c))"
proof -
  assume sums: "sums_modulo c"
  show ?thesis
  proof (cases rule: reserve_cases [of c loc owner n])
    case (booked c')
    have "sums_modulo c'"
      by (rule sums_modulo_upd [OF sums booked(6)]) (simp_all add: booked(1,5))
    then show ?thesis by (simp add: booked(3))
  qed (use sums in \<open>auto intro: sums_modulo_same\<close>)
qed

lemma sums_modulo_release: "sums_modulo c \<Longrightarrow> sums_modulo (snd (release loc n owner c))"
proof -
  assume sums: "sums_modulo c"
  show ?thesis
  proof (cases rule: release_cases [of c loc owner n])
    case (booked c')
    have "sums_modulo c'"
      by (rule sums_modulo_upd [OF sums booked(6)]) (simp_all add: booked(5))
    then show ?thesis by (simp add: booked(3))
  qed (use sums in \<open>auto intro: sums_modulo_same\<close>)
qed

lemma sums_modulo_history: "capacity_history c \<Longrightarrow> sums_modulo c"
proof (induction rule: capacity_history.induct)
  case hist_default
  show ?case by (simp add: sums_modulo_def CapacityAccountant_default_def used_def held_def total_held_def)
next
  case (hist_new limits)
  show ?case by (simp add: sums_modulo_def capacity_new_simps total_held_def)
next
  case (hist_step c op)
  then show ?case
  proof (cases op)
    case (Op_set_limit loc n)
    with hist_step show ?thesis
      by (simp add: sums_modulo_def set_limit_def used_def held_def [abs_def] total_held_def)
  qed (simp_all add: sums_modulo_reserve sums_modulo_release adjust_def)
qed

text \<open>
  C17: After every history of reservations, releases, adjustments and limit changes the usage
  recorded for a location is the sum of what its owners hold, modulo \<open>2 ^ 64\<close>. After every history
  in which no limit is cut below what is in use, it is that sum as a natural number, so nothing has
  wrapped, and it is within the limit. (A limit that is cut below the usage breaks the second part:
  \<open>set_limit_overcommit\<close>.)
\<close>

theorem capacity_reachable_inv:
  assumes "capacity_history c"
  shows "(\<forall>loc. used c loc = of_nat (total_held c loc)) \<and>
    (capacity_reachable c \<longrightarrow>
      (\<forall>loc. unat (used c loc) = total_held c loc \<and> used c loc \<le> limit c loc))"
  using sums_modulo_history [OF assms] capacity_invariant [of c]
  unfolding sums_modulo_def capacity_inv_def by blast

definition booked_accountant :: CapacityAccountant where
  "booked_accountant =
     capacity_exec (Op_reserve LOC_device_memory 80 ''b'')
       (capacity_exec (Op_reserve LOC_device_memory 20 ''a'')
         (CapacityAccountant_new [(LOC_device_memory, 100)]))"

lemma booked_accountant_reachable: "capacity_reachable booked_accountant"
  unfolding booked_accountant_def by (intro cap_step cap_new) simp_all

theorem capacity_reachable_inv_witness:
  "unat (used booked_accountant LOC_device_memory) = total_held booked_accountant LOC_device_memory \<and>
   used booked_accountant LOC_device_memory \<le> limit booked_accountant LOC_device_memory \<and>
   used booked_accountant LOC_device_memory = 100"
proof -
  have "used booked_accountant LOC_device_memory = 100" by code_simp
  with capacity_reachable_inv [OF capacity_reachable_history [OF booked_accountant_reachable]]
    booked_accountant_reachable show ?thesis by blast
qed

text \<open>
  C18: Exact return to baseline: when a batch of non-empty reservations was granted, releasing the
  same entries in any order is granted too and gives back the usage, limits and holdings there
  were before the batch.
\<close>

theorem batch_returns_to_baseline:
  assumes "acct.reserve_all es c = (Inr (), c1)" and "\<forall>(l, n, ow) \<in> set es. n \<noteq> 0"
    and "mset es' = mset es"
  shows "\<exists>c2. acct.release_all es' c1 = (Inr (), c2) \<and>
     used c2 = used c \<and> limit c2 = limit c \<and> held c2 = held c"
  by (rule acct.batch_baseline [OF assms])

theorem batch_returns_to_baseline_witness:
  "\<exists>c2. acct.release_all [(LOC_device_memory, 20, ''a''), (LOC_device_memory, 80, ''b'')]
       (snd (acct.reserve_all [(LOC_device_memory, 80, ''b''), (LOC_device_memory, 20, ''a'')]
          (CapacityAccountant_new [(LOC_device_memory, 100)]))) = (Inr (), c2) \<and>
     used c2 = used (CapacityAccountant_new [(LOC_device_memory, 100)]) \<and>
     limit c2 = limit (CapacityAccountant_new [(LOC_device_memory, 100)]) \<and>
     held c2 = held (CapacityAccountant_new [(LOC_device_memory, 100)])"
proof (rule batch_returns_to_baseline [of "[(LOC_device_memory, 80, ''b''), (LOC_device_memory, 20, ''a'')]"])
  have "fst (acct.reserve_all [(LOC_device_memory, 80, ''b''), (LOC_device_memory, 20, ''a'')]
      (CapacityAccountant_new [(LOC_device_memory, 100)])) = Inr ()"
    by (simp only: acct.reserve_all.simps) code_simp
  then show "acct.reserve_all [(LOC_device_memory, 80, ''b''), (LOC_device_memory, 20, ''a'')]
      (CapacityAccountant_new [(LOC_device_memory, 100)]) =
    (Inr (), snd (acct.reserve_all [(LOC_device_memory, 80, ''b''), (LOC_device_memory, 20, ''a'')]
      (CapacityAccountant_new [(LOC_device_memory, 100)])))"
    by (simp add: prod_eq_iff)
qed simp_all

text \<open>
  \<open>is_clean\<close>, which looks at the usage counters only, is true after a history exactly when no
  owner holds anything in any location.
\<close>

theorem is_clean_iff:
  "capacity_reachable c \<Longrightarrow> is_clean c \<longleftrightarrow> (\<forall>loc owner. held c loc owner = 0)"
  by (rule is_clean_held [OF capacity_invariant])

theorem is_clean_iff_witness:
  "is_clean booked_accountant \<longleftrightarrow> (\<forall>loc owner. held booked_accountant loc owner = 0)"
  by (rule is_clean_iff [OF booked_accountant_reachable])

text \<open>
  The side condition on limit changes is needed: after a limit was set below the usage, the
  head room \<open>limit - used\<close> wraps around, and reservations far above the limit are granted.
\<close>

theorem set_limit_overcommit:
  assumes "n < used c loc" and "held c loc owner = 0" and "m \<le> n - used c loc"
  shows "\<exists>c'. reserve loc m owner (set_limit loc n c) = (Inr (), c') \<and>
     limit c' loc = n \<and> used c' loc = used c loc + m"
proof -
  have c: "used (set_limit loc n c) = used c" "limit (set_limit loc n c) loc = n"
    "held (set_limit loc n c) = held c"
    by (simp_all add: set_limit_def used_def limit_def held_def fun_eq_iff)
  show ?thesis
    by (cases rule: reserve_cases [of "set_limit loc n c" loc owner m])
      (use assms in \<open>simp_all add: c not_less [symmetric]\<close>)
qed

theorem set_limit_overcommit_witness:
  "\<exists>c'. reserve LOC_device_memory 1000000 ''c'' (set_limit LOC_device_memory 50 booked_accountant)
       = (Inr (), c') \<and> limit c' LOC_device_memory = 50 \<and>
     used c' LOC_device_memory = used booked_accountant LOC_device_memory + 1000000"
  by (rule set_limit_overcommit) code_simp+

end
