(* ===== verification/AF_Authority.thy ===== *)
theory AF_Authority
  imports AF_Ids
begin

text \<open>
  Activation fences (\<open>authority.hpp\<close>, \<open>authority.cpp\<close>): the thirteen values an
  activation binds to, and the validation of a candidate fence against the reference fence held
  by the authority record of an adapter.
\<close>

record AuthorityFence =
  f_adapter :: AdapterId
  f_composition :: CompositionId
  f_adapter_generation :: AdapterGeneration
  f_composition_generation :: CompositionGeneration
  f_residency_generation :: ResidencyGeneration
  f_artifact_generation :: ArtifactGeneration
  f_base_model_revision :: ModelRevisionId
  f_epoch :: CoordinatorEpoch
  f_worker :: WorkerId
  f_boot :: WorkerBootId
  f_attempt :: AttemptId
  f_device :: DeviceId
  f_node :: NodeId

datatype AuthorityVerdict =
    AV_authorized
  | AV_stale_worker
  | AV_stale_boot
  | AV_stale_attempt
  | AV_stale_adapter_generation
  | AV_stale_composition_generation
  | AV_stale_residency_generation
  | AV_stale_artifact_generation
  | AV_stale_base_model
  | AV_stale_epoch
  | AV_unknown

primrec AuthorityVerdict_to_string :: "AuthorityVerdict \<Rightarrow> string" where
  "AuthorityVerdict_to_string AV_authorized = ''authorized''"
| "AuthorityVerdict_to_string AV_stale_worker = ''stale_worker''"
| "AuthorityVerdict_to_string AV_stale_boot = ''stale_boot''"
| "AuthorityVerdict_to_string AV_stale_attempt = ''stale_attempt''"
| "AuthorityVerdict_to_string AV_stale_adapter_generation = ''stale_adapter_generation''"
| "AuthorityVerdict_to_string AV_stale_composition_generation = ''stale_composition_generation''"
| "AuthorityVerdict_to_string AV_stale_residency_generation = ''stale_residency_generation''"
| "AuthorityVerdict_to_string AV_stale_artifact_generation = ''stale_artifact_generation''"
| "AuthorityVerdict_to_string AV_stale_base_model = ''stale_base_model''"
| "AuthorityVerdict_to_string AV_stale_epoch = ''stale_epoch''"
| "AuthorityVerdict_to_string AV_unknown = ''unknown''"

record AuthorityCheck =
  ac_verdict :: AuthorityVerdict
  ac_reason :: string

definition authorized :: "AuthorityCheck \<Rightarrow> bool" where
  "authorized r \<longleftrightarrow> ac_verdict r = AV_authorized"

definition authority_reject :: "AuthorityVerdict \<Rightarrow> string \<Rightarrow> AuthorityCheck" where
  "authority_reject v what = \<lparr>ac_verdict = v, ac_reason = ''stale '' @ what\<rparr>"

definition validate_authority :: "AuthorityFence \<Rightarrow> AuthorityFence \<Rightarrow> AuthorityCheck" where
  "validate_authority c ref =
    (if f_worker c \<noteq> f_worker ref then authority_reject AV_stale_worker ''worker''
     else if f_boot c \<noteq> f_boot ref then authority_reject AV_stale_boot ''worker boot''
     else if f_attempt c \<noteq> f_attempt ref then authority_reject AV_stale_attempt ''attempt''
     else if f_adapter_generation c \<noteq> f_adapter_generation ref
       then authority_reject AV_stale_adapter_generation ''adapter generation''
     else if f_composition_generation c \<noteq> f_composition_generation ref
       then authority_reject AV_stale_composition_generation ''composition generation''
     else if f_residency_generation c \<noteq> f_residency_generation ref
       then authority_reject AV_stale_residency_generation ''residency generation''
     else if f_artifact_generation c \<noteq> f_artifact_generation ref
       then authority_reject AV_stale_artifact_generation ''artifact generation''
     else if f_base_model_revision c \<noteq> f_base_model_revision ref
       then authority_reject AV_stale_base_model ''base model revision''
     else if f_epoch c \<noteq> f_epoch ref then authority_reject AV_stale_epoch ''coordinator epoch''
     else \<lparr>ac_verdict = AV_authorized, ac_reason = ''all authority factors current''\<rparr>)"

section \<open>Specification\<close>

text \<open>
  The factors in the order of their priority, with the verdict each one gives when it is stale.
\<close>

definition authority_factors ::
    "(AuthorityVerdict \<times> (AuthorityFence \<Rightarrow> AuthorityFence \<Rightarrow> bool)) list" where
  "authority_factors =
    [(AV_stale_worker, \<lambda>c r. f_worker c = f_worker r),
     (AV_stale_boot, \<lambda>c r. f_boot c = f_boot r),
     (AV_stale_attempt, \<lambda>c r. f_attempt c = f_attempt r),
     (AV_stale_adapter_generation, \<lambda>c r. f_adapter_generation c = f_adapter_generation r),
     (AV_stale_composition_generation,
        \<lambda>c r. f_composition_generation c = f_composition_generation r),
     (AV_stale_residency_generation, \<lambda>c r. f_residency_generation c = f_residency_generation r),
     (AV_stale_artifact_generation, \<lambda>c r. f_artifact_generation c = f_artifact_generation r),
     (AV_stale_base_model, \<lambda>c r. f_base_model_revision c = f_base_model_revision r),
     (AV_stale_epoch, \<lambda>c r. f_epoch c = f_epoch r)]"

definition all_factors_current :: "AuthorityFence \<Rightarrow> AuthorityFence \<Rightarrow> bool" where
  "all_factors_current c r \<longleftrightarrow> (\<forall>(v, current) \<in> set authority_factors. current c r)"

text \<open>
  The comparison of a fence with a reference reports the first stale factor of the fixed order
  worker, boot, attempt, adapter, composition, residency and artifact generation, base model
  revision, epoch, and it authorizes only a fence with no stale factor among these nine.
\<close>

theorem validate_authority_first_stale:
  "ac_verdict (validate_authority c r)
     = (case find (\<lambda>(v, current). \<not> current c r) authority_factors of
          None \<Rightarrow> AV_authorized | Some (v, _) \<Rightarrow> v)"
  by (simp add: validate_authority_def authority_factors_def authority_reject_def)

lemma authorized_iff: "authorized (validate_authority c r) \<longleftrightarrow> all_factors_current c r"
  by (simp add: validate_authority_def authority_reject_def authorized_def all_factors_current_def
      authority_factors_def)

text \<open>
  What the check leaves out: the device, the node, the adapter and the composition identities of
  the two fences may differ.
\<close>

lemma unchecked_factors:
  "authorized (validate_authority
     (r\<lparr>f_adapter := a, f_composition := co, f_device := d, f_node := n\<rparr>) r)"
  by (simp add: authorized_iff all_factors_current_def authority_factors_def)

lemma validate_authority_refl [simp]: "authorized (validate_authority r r)"
  by (simp add: authorized_iff all_factors_current_def authority_factors_def)

lemma stale_boot_rejected:
  "f_boot c \<noteq> f_boot r \<Longrightarrow> \<not> authorized (validate_authority c r)"
  by (simp add: authorized_iff all_factors_current_def authority_factors_def)

lemma stale_attempt_rejected:
  "f_attempt c \<noteq> f_attempt r \<Longrightarrow> \<not> authorized (validate_authority c r)"
  by (simp add: authorized_iff all_factors_current_def authority_factors_def)

end
