(* ===== verification/AF_Compat.thy ===== *)
theory AF_Compat
  imports AF_Adapter
begin

text \<open>
  Deterministic, explainable compatibility (\<open>compatibility.hpp\<close>, \<open>compatibility.cpp\<close>).
  The evaluation appends one group of factors per check, in the code's order; \<open>push_back\<close> on
  the report is list append. The specification \<open>compatible_spec\<close> states the accepting
  condition without the report, and the lemmas show that the evaluation decides exactly it.
\<close>

datatype FactorStatus = FS_accepted | FS_rejected | FS_missing

primrec FactorStatus_to_string :: "FactorStatus \<Rightarrow> string" where
  "FactorStatus_to_string FS_accepted = ''accepted''"
| "FactorStatus_to_string FS_rejected = ''rejected''"
| "FactorStatus_to_string FS_missing = ''missing''"

record CompatibilityFactor =
  cf_name :: string
  cf_status :: FactorStatus
  cf_detail :: string
  cf_reason :: string

record CompatibilityTarget =
  ct_base_model :: BaseModelId
  ct_base_model_revision :: ModelRevisionId
  ct_architecture :: string
  ct_device_arch :: string
  ct_device :: DeviceId
  ct_runtime_capabilities :: "(string, string) smap"
  ct_policy :: "(string, string) smap"
  ct_policy_generation :: PolicyGeneration

record CompatibilityReport =
  cr_compatible :: bool
  cr_factors :: "CompatibilityFactor list"
  cr_adapter_generation :: AdapterGeneration
  cr_policy_generation :: PolicyGeneration
  cr_base_model_revision :: ModelRevisionId
  cr_summary :: string

fun has_rejections :: "CompatibilityFactor list \<Rightarrow> bool" where
  "has_rejections [] = False"
| "has_rejections (f # fs) = (if cf_status f = FS_rejected then True else has_rejections fs)"

fun first_rejection_reason :: "CompatibilityFactor list \<Rightarrow> string" where
  "first_rejection_reason [] = []"
| "first_rejection_reason (f # fs) =
     (if cf_status f = FS_rejected then cf_reason f else first_rejection_reason fs)"

section \<open>Evaluation\<close>

definition acc :: "string \<Rightarrow> string \<Rightarrow> CompatibilityFactor" where
  "acc name detail = \<lparr>cf_name = name, cf_status = FS_accepted, cf_detail = detail, cf_reason = []\<rparr>"

definition rej :: "string \<Rightarrow> string \<Rightarrow> string \<Rightarrow> CompatibilityFactor" where
  "rej name detail reason =
     \<lparr>cf_name = name, cf_status = FS_rejected, cf_detail = detail, cf_reason = reason\<rparr>"

definition miss :: "string \<Rightarrow> string \<Rightarrow> CompatibilityFactor" where
  "miss name detail = \<lparr>cf_name = name, cf_status = FS_missing, cf_detail = detail, cf_reason = []\<rparr>"

definition base_model_factor :: "AdapterDescriptor \<Rightarrow> CompatibilityTarget \<Rightarrow> CompatibilityFactor" where
  "base_model_factor a t =
     (if ad_base_model a = ct_base_model t \<and> \<not> Id_is_nil (ad_base_model a) then
        acc ''base_model'' ''adapter base model matches target''
      else if Id_is_nil (ad_base_model a) then
        rej ''base_model'' ''adapter declares no base model'' ''nil base model identity''
      else
        rej ''base_model'' ''base model ids differ'' ''adapter targets a different base model'')"

definition base_model_revision_factor ::
    "AdapterDescriptor \<Rightarrow> CompatibilityTarget \<Rightarrow> CompatibilityFactor" where
  "base_model_revision_factor a t =
     (if ad_base_model_revision a = ct_base_model_revision t \<and>
         \<not> Id_is_nil (ad_base_model_revision a) then
        acc ''base_model_revision'' ''adapter revision matches target''
      else if Id_is_nil (ad_base_model_revision a) then
        rej ''base_model_revision'' ''adapter declares no model revision''
          ''nil model revision identity''
      else
        rej ''base_model_revision'' ''model revisions differ''
          ''adapter is pinned to a different model revision'')"

definition targets_factor :: "AdapterDescriptor \<Rightarrow> CompatibilityFactor" where
  "targets_factor a =
     (if ad_targets a = [] then
        rej ''targets'' ''adapter declares no target modules'' ''no target modules''
      else
        let bad = (\<exists>x \<in> set (ad_targets a). tm_in_features x = 0 \<or> tm_out_features x = 0)
        in if bad then
             rej ''targets'' ''a target has zero in/out features'' ''invalid target dimensions''
           else acc ''targets'' (''adapter declares '' @ dec_str (length (ad_targets a))
             @ '' target module(s)''))"

definition rank_factor :: "AdapterDescriptor \<Rightarrow> CompatibilityFactor" where
  "rank_factor a =
     (if ad_kind a = AK_lora \<or> ad_kind a = AK_generic then
        if ad_rank a > 0 then
          acc ''rank'' (''adapter rank '' @ dec_str (unat (ad_rank a)) @ ''>0'')
        else rej ''rank'' ''adapter rank is zero'' ''zero rank is not a valid low-rank adapter''
      else acc ''rank'' ''non-low-rank adapter; rank not applicable'')"

definition dtype_factor :: "AdapterDescriptor \<Rightarrow> CompatibilityTarget \<Rightarrow> CompatibilityFactor" where
  "dtype_factor a t =
     (if ad_dtype a = DT_unknown then
        rej ''dtype'' ''adapter dtype unknown'' ''no dtype declared''
      else
        let half = (map_of (ct_runtime_capabilities t) ''fp16'' = Some ''supported'')
        in if ad_dtype a = DT_f16 \<or> ad_dtype a = DT_bf16 then
             if half then acc ''dtype'' ''half precision supported by target''
             else rej ''dtype'' ''half dtype requested''
               ''target does not declare fp16/bf16 support''
           else if ad_dtype a = DT_f32 then acc ''dtype'' ''f32 dtype always accepted''
           else rej ''dtype'' ''dtype not covered by backend''
             ''unsupported dtype for this target'')"

definition capability_factor ::
    "CompatibilityTarget \<Rightarrow> RuntimeCapability \<Rightarrow> CompatibilityFactor" where
  "capability_factor t c =
     (case map_of (ct_runtime_capabilities t) (cap_name c) of
        None \<Rightarrow>
          if cap_required c then
            rej ''device_capability'' (''missing capability '' @ cap_name c)
              ''required capability not present on target''
          else acc ''device_capability'' (''optional capability '' @ cap_name c @ '' absent'')
      | Some v \<Rightarrow>
          if v = cap_value c then
            acc ''device_capability'' (''capability '' @ cap_name c @ '' satisfied'')
          else rej ''device_capability'' (''capability mismatch '' @ cap_name c)
            ''target differs from required'')"

definition capability_factors ::
    "AdapterDescriptor \<Rightarrow> CompatibilityTarget \<Rightarrow> CompatibilityFactor list" where
  "capability_factors a t =
     (if ad_capabilities a = [] then
        [miss ''device_capability'' ''adapter declares no runtime capabilities'']
      else map (capability_factor t) (ad_capabilities a))"

definition dependency_factor :: "Dependency \<Rightarrow> CompatibilityFactor" where
  "dependency_factor d =
     (if dep_version d \<noteq> [] then
        acc ''dependency'' (''dependency '' @ dep_name d @ '' declared'')
      else rej ''dependency'' (''dependency '' @ dep_name d @ '' has no version'')
        ''unversioned dependency'')"

definition dependency_factors :: "AdapterDescriptor \<Rightarrow> CompatibilityFactor list" where
  "dependency_factors a =
     (if ad_dependencies a = [] then [acc ''dependencies'' ''no dependencies declared'']
      else map dependency_factor (ad_dependencies a))"

definition artifact_factor :: "AdapterDescriptor \<Rightarrow> CompatibilityFactor" where
  "artifact_factor a =
     (if ad_artifact_digest a = [] then
        rej ''artifact'' ''adapter has no artifact digest'' ''missing digest''
      else acc ''artifact'' ''artifact digest present'')"

definition validation_factor :: "AdapterDescriptor \<Rightarrow> CompatibilityFactor" where
  "validation_factor a =
     (if ad_validation a \<noteq> VS_valid then
        miss ''validation'' ''adapter not yet validated; revalidate before load''
      else acc ''validation'' ''adapter artifact validated'')"

definition compat_factors :: "AdapterDescriptor \<Rightarrow> CompatibilityTarget \<Rightarrow> CompatibilityFactor list" where
  "compat_factors a t =
     [base_model_factor a t, base_model_revision_factor a t, targets_factor a, rank_factor a,
      dtype_factor a t]
     @ capability_factors a t @ dependency_factors a
     @ [artifact_factor a, validation_factor a]"

definition evaluate_compatibility ::
    "AdapterDescriptor \<Rightarrow> CompatibilityTarget \<Rightarrow> CompatibilityReport" where
  "evaluate_compatibility a t =
     (let fs = compat_factors a t; ok = \<not> has_rejections fs
      in \<lparr>cr_compatible = ok, cr_factors = fs,
          cr_adapter_generation = ad_generation a,
          cr_policy_generation = ct_policy_generation t,
          cr_base_model_revision = ct_base_model_revision t,
          cr_summary = (if ok then ''compatible''
            else ''incompatible: '' @ first_rejection_reason fs)\<rparr>)"

section \<open>Specification\<close>

definition dtype_supported :: "DType \<Rightarrow> CompatibilityTarget \<Rightarrow> bool" where
  "dtype_supported d t \<longleftrightarrow>
     d = DT_f32 \<or>
     (d \<in> {DT_f16, DT_bf16} \<and> map_of (ct_runtime_capabilities t) ''fp16'' = Some ''supported'')"

definition capability_supported :: "CompatibilityTarget \<Rightarrow> RuntimeCapability \<Rightarrow> bool" where
  "capability_supported t c \<longleftrightarrow>
     map_of (ct_runtime_capabilities t) (cap_name c) = Some (cap_value c) \<or>
     (map_of (ct_runtime_capabilities t) (cap_name c) = None \<and> \<not> cap_required c)"

definition compatible_spec :: "AdapterDescriptor \<Rightarrow> CompatibilityTarget \<Rightarrow> bool" where
  "compatible_spec a t \<longleftrightarrow>
     ad_base_model a = ct_base_model t \<and> \<not> Id_is_nil (ad_base_model a) \<and>
     ad_base_model_revision a = ct_base_model_revision t \<and>
     \<not> Id_is_nil (ad_base_model_revision a) \<and>
     ad_targets a \<noteq> [] \<and>
     (\<forall>x \<in> set (ad_targets a). tm_in_features x \<noteq> 0 \<and> tm_out_features x \<noteq> 0) \<and>
     (ad_kind a \<in> {AK_lora, AK_generic} \<longrightarrow> ad_rank a \<noteq> 0) \<and>
     dtype_supported (ad_dtype a) t \<and>
     (\<forall>c \<in> set (ad_capabilities a). capability_supported t c) \<and>
     (\<forall>d \<in> set (ad_dependencies a). dep_version d \<noteq> []) \<and>
     ad_artifact_digest a \<noteq> []"

section \<open>The evaluation decides the specification\<close>

lemma has_rejections_iff: "has_rejections fs \<longleftrightarrow> (\<exists>f \<in> set fs. cf_status f = FS_rejected)"
  by (induction fs) auto

lemma cf_status_simps [simp]:
  "cf_status (acc n d) = FS_accepted" "cf_status (rej n d r) = FS_rejected"
  "cf_status (miss n d) = FS_missing" "cf_reason (rej n d r) = r"
  by (simp_all add: acc_def rej_def miss_def)

named_theorems factor_status "when a factor of the report is a rejection"

lemma base_model_status [factor_status]:
  "cf_status (base_model_factor a t) = FS_rejected \<longleftrightarrow>
     \<not> (ad_base_model a = ct_base_model t \<and> \<not> Id_is_nil (ad_base_model a))"
  by (auto simp: base_model_factor_def)

lemma base_model_revision_status [factor_status]:
  "cf_status (base_model_revision_factor a t) = FS_rejected \<longleftrightarrow>
     \<not> (ad_base_model_revision a = ct_base_model_revision t \<and>
        \<not> Id_is_nil (ad_base_model_revision a))"
  by (auto simp: base_model_revision_factor_def)

lemma targets_status [factor_status]:
  "cf_status (targets_factor a) = FS_rejected \<longleftrightarrow>
     \<not> (ad_targets a \<noteq> [] \<and>
        (\<forall>x \<in> set (ad_targets a). tm_in_features x \<noteq> 0 \<and> tm_out_features x \<noteq> 0))"
  by (auto simp: targets_factor_def Let_def)

lemma rank_status [factor_status]:
  "cf_status (rank_factor a) = FS_rejected \<longleftrightarrow>
     \<not> (ad_kind a \<in> {AK_lora, AK_generic} \<longrightarrow> ad_rank a \<noteq> 0)"
  by (auto simp: rank_factor_def word_neq_0_conv)

lemma dtype_status [factor_status]:
  "cf_status (dtype_factor a t) = FS_rejected \<longleftrightarrow> \<not> dtype_supported (ad_dtype a) t"
  by (auto simp: dtype_factor_def dtype_supported_def Let_def)

lemma capability_status [factor_status]:
  "cf_status (capability_factor t c) = FS_rejected \<longleftrightarrow> \<not> capability_supported t c"
  by (auto simp: capability_factor_def capability_supported_def split: option.splits)

lemma capabilities_status [factor_status]:
  "(\<exists>f \<in> set (capability_factors a t). cf_status f = FS_rejected) \<longleftrightarrow>
     \<not> (\<forall>c \<in> set (ad_capabilities a). capability_supported t c)"
  by (auto simp: capability_factors_def capability_status)

lemma dependency_status [factor_status]:
  "cf_status (dependency_factor d) = FS_rejected \<longleftrightarrow> dep_version d = []"
  by (simp add: dependency_factor_def)

lemma dependencies_status [factor_status]:
  "(\<exists>f \<in> set (dependency_factors a). cf_status f = FS_rejected) \<longleftrightarrow>
     \<not> (\<forall>d \<in> set (ad_dependencies a). dep_version d \<noteq> [])"
  by (auto simp: dependency_factors_def dependency_status)

lemma artifact_status [factor_status]:
  "cf_status (artifact_factor a) = FS_rejected \<longleftrightarrow> ad_artifact_digest a = []"
  by (simp add: artifact_factor_def)

lemma validation_status [factor_status]: "cf_status (validation_factor a) \<noteq> FS_rejected"
  by (simp add: validation_factor_def)

lemma compat_factors_spec: "has_rejections (compat_factors a t) \<longleftrightarrow> \<not> compatible_spec a t"
  unfolding has_rejections_iff compat_factors_def compatible_spec_def
  by (simp add: bex_Un factor_status) blast

text \<open>
  C22: The evaluation that collects factors and reports whether none is rejected is exact: an
  adapter is reported compatible with a target exactly when the declarative specification
  \<open>compatible_spec\<close> (base model and revision match and are not nil, target modules with non-zero
  features, a rank where the kind needs one, a dtype the runtime supports, every capability
  supported, dependencies with versions, an artifact digest) holds.
\<close>

theorem evaluate_sound_complete: "cr_compatible (evaluate_compatibility a t) \<longleftrightarrow> compatible_spec a t"
  by (simp add: evaluate_compatibility_def Let_def compat_factors_spec)

lemma first_rejection_of_rejected:
  "has_rejections fs \<Longrightarrow>
     \<exists>pre f suf. fs = pre @ f # suf \<and> cf_status f = FS_rejected \<and> \<not> has_rejections pre \<and>
       first_rejection_reason fs = cf_reason f"
proof (induction fs)
  case (Cons g fs)
  show ?case
  proof (cases "cf_status g = FS_rejected")
    case True
    then show ?thesis by (intro exI [of _ "[]"] exI [of _ g] exI [of _ fs]) simp
  next
    case False
    with Cons obtain pre f suf where "fs = pre @ f # suf" "cf_status f = FS_rejected"
      "\<not> has_rejections pre" "first_rejection_reason fs = cf_reason f" by auto
    with False show ?thesis
      by (intro exI [of _ "g # pre"] exI [of _ f] exI [of _ suf]) simp
  qed
qed simp

end
