(* ===== verification/AF_Lifecycle.thy ===== *)
theory AF_Lifecycle
  imports AF_Error
begin

text \<open>
  The guarded lifecycle (\<open>lifecycle.hpp\<close>, \<open>lifecycle.cpp\<close>): the allow-list of
  transitions, the throwing validator, and the \<open>Lifecycle\<close> object whose guarded
  \<open>transition_to\<close> leaves the state alone when it throws. Runs of guarded transitions are the
  inductive relation \<open>lifecycle_path\<close>, which records the states visited.
\<close>

datatype LifecycleState =
    L_declared
  | L_validating
  | L_valid
  | L_loading
  | L_loaded
  | L_ready
  | L_active
  | L_deactivating
  | L_migrating
  | L_stale
  | L_invalidated
  | L_evicting
  | L_evicted
  | L_failed
  | L_retired

primrec LifecycleState_to_string :: "LifecycleState \<Rightarrow> string" where
  "LifecycleState_to_string L_declared = ''declared''"
| "LifecycleState_to_string L_validating = ''validating''"
| "LifecycleState_to_string L_valid = ''valid''"
| "LifecycleState_to_string L_loading = ''loading''"
| "LifecycleState_to_string L_loaded = ''loaded''"
| "LifecycleState_to_string L_ready = ''ready''"
| "LifecycleState_to_string L_active = ''active''"
| "LifecycleState_to_string L_deactivating = ''deactivating''"
| "LifecycleState_to_string L_migrating = ''migrating''"
| "LifecycleState_to_string L_stale = ''stale''"
| "LifecycleState_to_string L_invalidated = ''invalidated''"
| "LifecycleState_to_string L_evicting = ''evicting''"
| "LifecycleState_to_string L_evicted = ''evicted''"
| "LifecycleState_to_string L_failed = ''failed''"
| "LifecycleState_to_string L_retired = ''retired''"

primrec lifecycle_allowed :: "LifecycleState \<Rightarrow> LifecycleState \<Rightarrow> bool" where
  "lifecycle_allowed L_declared to \<longleftrightarrow>
     to = L_declared \<or> to = L_validating \<or> to = L_evicting \<or>
     to = L_invalidated \<or> to = L_retired \<or> to = L_failed"
| "lifecycle_allowed L_validating to \<longleftrightarrow>
     to = L_valid \<or> to = L_declared \<or> to = L_stale \<or>
     to = L_invalidated \<or> to = L_retired \<or> to = L_failed"
| "lifecycle_allowed L_valid to \<longleftrightarrow>
     to = L_valid \<or> to = L_validating \<or> to = L_loading \<or>
     to = L_stale \<or> to = L_invalidated \<or> to = L_evicting \<or>
     to = L_evicted \<or> to = L_retired \<or> to = L_failed"
| "lifecycle_allowed L_loading to \<longleftrightarrow>
     to = L_loaded \<or> to = L_ready \<or> to = L_stale \<or>
     to = L_invalidated \<or> to = L_evicting \<or> to = L_failed \<or>
     to = L_evicted"
| "lifecycle_allowed L_loaded to \<longleftrightarrow>
     to = L_ready \<or> to = L_loaded \<or> to = L_loading \<or>
     to = L_stale \<or> to = L_invalidated \<or> to = L_evicting \<or>
     to = L_failed"
| "lifecycle_allowed L_ready to \<longleftrightarrow>
     to = L_active \<or> to = L_ready \<or> to = L_loaded \<or>
     to = L_migrating \<or> to = L_stale \<or> to = L_invalidated \<or>
     to = L_evicting \<or> to = L_failed"
| "lifecycle_allowed L_active to \<longleftrightarrow>
     to = L_deactivating \<or> to = L_migrating \<or> to = L_stale \<or>
     to = L_invalidated \<or> to = L_failed \<or> to = L_evicting"
| "lifecycle_allowed L_deactivating to \<longleftrightarrow>
     to = L_ready \<or> to = L_active \<or> to = L_stale \<or>
     to = L_invalidated \<or> to = L_evicting \<or> to = L_failed"
| "lifecycle_allowed L_migrating to \<longleftrightarrow>
     to = L_ready \<or> to = L_active \<or> to = L_stale \<or>
     to = L_invalidated \<or> to = L_evicting \<or> to = L_failed"
| "lifecycle_allowed L_stale to \<longleftrightarrow>
     to = L_validating \<or> to = L_loading \<or> to = L_evicting \<or>
     to = L_invalidated \<or> to = L_failed \<or> to = L_retired"
| "lifecycle_allowed L_invalidated to \<longleftrightarrow>
     to = L_declared \<or> to = L_loading \<or> to = L_evicting \<or>
     to = L_retired \<or> to = L_failed"
| "lifecycle_allowed L_evicting to \<longleftrightarrow>
     to = L_evicted \<or> to = L_invalidated \<or> to = L_failed \<or>
     to = L_retired"
| "lifecycle_allowed L_evicted to \<longleftrightarrow>
     to = L_declared \<or> to = L_retired \<or> to = L_failed"
| "lifecycle_allowed L_failed to \<longleftrightarrow>
     to = L_declared \<or> to = L_validating \<or> to = L_retired \<or>
     to = L_evicting \<or> to = L_invalidated"
| "lifecycle_allowed L_retired to \<longleftrightarrow> to = L_retired"

definition lifecycle_can_transition :: "LifecycleState \<Rightarrow> LifecycleState \<Rightarrow> bool" where
  "lifecycle_can_transition from to = lifecycle_allowed from to"

definition lifecycle_validate_transition :: "LifecycleState \<Rightarrow> LifecycleState \<Rightarrow> Error + unit" where
  "lifecycle_validate_transition from to =
     (if \<not> lifecycle_allowed from to then
        throw EC_invalid_state_transition
          (''invalid lifecycle transition '' @ LifecycleState_to_string from @ '' -> ''
           @ LifecycleState_to_string to)
      else Inr ())"

record Lifecycle =
  lc_state :: LifecycleState

definition Lifecycle_init :: Lifecycle where
  "Lifecycle_init = \<lparr>lc_state = L_declared\<rparr>"

definition Lifecycle_of :: "LifecycleState \<Rightarrow> Lifecycle" where
  "Lifecycle_of s = \<lparr>lc_state = s\<rparr>"

definition transition_to :: "LifecycleState \<Rightarrow> Lifecycle \<Rightarrow> (Error + unit) \<times> Lifecycle" where
  "transition_to to lc =
     (case lifecycle_validate_transition (lc_state lc) to of
        Inl e \<Rightarrow> (Inl e, lc)
      | Inr _ \<Rightarrow> (Inr (), lc\<lparr>lc_state := to\<rparr>))"

definition lifecycle_is_terminal :: "Lifecycle \<Rightarrow> bool" where
  "lifecycle_is_terminal lc \<longleftrightarrow>
     lc_state lc = L_evicted \<or> lc_state lc = L_retired \<or> lc_state lc = L_failed"

definition set_state :: "LifecycleState \<Rightarrow> Lifecycle \<Rightarrow> Lifecycle" where
  "set_state s lc = lc\<lparr>lc_state := s\<rparr>"

lemma lc_state_simps [simp]:
  "lc_state (Lifecycle_of s) = s" "lc_state (set_state s lc) = s"
  by (simp_all add: Lifecycle_of_def set_state_def)

section \<open>The guarded transition\<close>

lemma transition_to_ok:
  "lifecycle_can_transition (lc_state lc) to \<Longrightarrow> transition_to to lc = (Inr (), lc\<lparr>lc_state := to\<rparr>)"
  by (simp add: transition_to_def lifecycle_validate_transition_def lifecycle_can_transition_def)

lemma transition_to_rejected:
  assumes "\<not> lifecycle_can_transition (lc_state lc) to"
  shows "\<exists>m. transition_to to lc = (throw EC_invalid_state_transition m, lc)"
  using assms
  by (simp add: transition_to_def lifecycle_validate_transition_def lifecycle_can_transition_def
      throw_def)

section \<open>Guarded runs\<close>

text \<open>\<open>lifecycle_path a vs b\<close>: guarded transitions lead from \<open>a\<close> through \<open>vs\<close> to \<open>b\<close>.\<close>

inductive lifecycle_path :: "LifecycleState \<Rightarrow> LifecycleState list \<Rightarrow> LifecycleState \<Rightarrow> bool" where
  path_here: "lifecycle_path a [] a"
| path_step: "lifecycle_path a vs b \<Longrightarrow> lifecycle_can_transition b c \<Longrightarrow>
     lifecycle_path a (vs @ [b]) c"

inductive_cases path_NilE: "lifecycle_path a [] b"

text \<open>The states in which the adapter's bytes are resident on a worker.\<close>

definition lifecycle_resident :: "LifecycleState \<Rightarrow> bool" where
  "lifecycle_resident s \<longleftrightarrow> s \<in> {L_loaded, L_ready, L_active, L_deactivating, L_migrating}"

lemma resident_entry:
  "lifecycle_can_transition b c \<Longrightarrow> lifecycle_resident c \<Longrightarrow> lifecycle_resident b \<or> b = L_loading"
  by (cases b) (auto simp: lifecycle_can_transition_def lifecycle_resident_def)

lemma active_entry:
  "lifecycle_can_transition b L_active \<longleftrightarrow> b \<in> {L_ready, L_deactivating, L_migrating}"
  by (cases b) (simp_all add: lifecycle_can_transition_def)

lemma ready_before_use:
  "lifecycle_can_transition b c \<Longrightarrow> c \<in> {L_active, L_deactivating, L_migrating} \<Longrightarrow>
     b \<in> {L_ready, L_active, L_deactivating, L_migrating}"
  by (cases b) (auto simp: lifecycle_can_transition_def)

lemma path_through_loading:
  "lifecycle_path a vs b \<Longrightarrow> \<not> lifecycle_resident a \<Longrightarrow> lifecycle_resident b \<Longrightarrow> L_loading \<in> set vs"
proof (induction rule: lifecycle_path.induct)
  case (path_step a vs b c)
  then show ?case using resident_entry [of b c] by auto
qed simp

text \<open>A run of explicit steps, for witnesses.\<close>

fun lifecycle_run_ok :: "LifecycleState \<Rightarrow> LifecycleState list \<Rightarrow> bool" where
  "lifecycle_run_ok a [] = True"
| "lifecycle_run_ok a (b # bs) = (lifecycle_can_transition a b \<and> lifecycle_run_ok b bs)"

lemma path_of_run:
  "lifecycle_path a0 vs a \<Longrightarrow> lifecycle_run_ok a bs \<Longrightarrow>
     lifecycle_path a0 (vs @ butlast (a # bs)) (last (a # bs))"
proof (induction bs arbitrary: vs a)
  case (Cons b bs)
  from Cons.prems have "lifecycle_path a0 (vs @ [a]) b"
    by (auto intro: path_step)
  from Cons.IH [OF this] Cons.prems show ?case by simp
qed simp

lemma path_of_run0: "lifecycle_run_ok a bs \<Longrightarrow> lifecycle_path a (butlast (a # bs)) (last (a # bs))"
  using path_of_run [OF path_here] by simp

text \<open>
  C33: Guarded transitions take an adapter that is not resident to \<open>active\<close>, \<open>deactivating\<close> or
  \<open>migrating\<close> only through \<open>loading\<close> and, after it, \<open>ready\<close>.
\<close>

theorem use_after_loading:
  "lifecycle_path a vs b \<Longrightarrow> \<not> lifecycle_resident a \<Longrightarrow>
     b \<in> {L_active, L_deactivating, L_migrating} \<Longrightarrow>
     \<exists>before_load after_load. vs = before_load @ L_loading # after_load \<and> L_ready \<in> set after_load"
proof (induction rule: lifecycle_path.induct)
  case (path_step a vs b c)
  show ?case
  proof (cases "b = L_ready")
    case True
    then have "L_loading \<in> set vs"
      using path_through_loading [OF path_step(1,4)] by (simp add: lifecycle_resident_def)
    then obtain xs ys where "vs = xs @ L_loading # ys" by (auto dest: split_list)
    with True show ?thesis by (intro exI [of _ xs] exI [of _ "ys @ [b]"]) simp
  next
    case False
    then obtain xs ys where "vs = xs @ L_loading # ys" "L_ready \<in> set ys"
      using path_step ready_before_use [of b c] by blast
    then show ?thesis by (intro exI [of _ xs] exI [of _ "ys @ [b]"]) simp
  qed
qed (auto simp: lifecycle_resident_def)

text \<open>
  The guards do not ask for a validation: an adapter that is invalidated before it was ever
  validated may be loaded directly.
\<close>

lemma unvalidated_to_active:
  "lifecycle_run_ok L_declared [L_invalidated, L_loading, L_ready, L_active]"
  by (simp add: lifecycle_can_transition_def)

lemma retired_absorbing: "lifecycle_path L_retired vs b \<Longrightarrow> b = L_retired \<and> set vs \<subseteq> {L_retired}"
  by (induction L_retired vs b rule: lifecycle_path.induct)
    (auto simp: lifecycle_can_transition_def)

theorem use_after_loading_witness:
  "\<exists>before_load after_load. [L_declared, L_validating, L_valid, L_loading, L_loaded, L_ready]
     = before_load @ L_loading # after_load \<and> L_ready \<in> set after_load"
proof -
  have "lifecycle_run_ok L_declared [L_validating, L_valid, L_loading, L_loaded, L_ready, L_active]"
    by (simp add: lifecycle_can_transition_def)
  from path_of_run0 [OF this]
  have "lifecycle_path L_declared [L_declared, L_validating, L_valid, L_loading, L_loaded, L_ready]
      L_active" by simp
  then show ?thesis by (rule use_after_loading) (simp_all add: lifecycle_resident_def)
qed

text \<open>
  From every lifecycle state guarded transitions lead to \<open>retired\<close>: no state is a dead end.
\<close>

theorem retire_reachable: "\<exists>vs. lifecycle_path a vs L_retired"
proof (cases "lifecycle_can_transition a L_retired")
  case True
  then show ?thesis using path_step [OF path_here] by blast
next
  case False
  then have "lifecycle_run_ok a [L_invalidated, L_retired]"
    by (cases a) (simp_all add: lifecycle_can_transition_def)
  from path_of_run0 [OF this] show ?thesis by auto
qed

end
