(* ===== verification/AF_Migration.thy ===== *)
theory AF_Migration
  imports AF_Ids
begin

text \<open>
  The migration state machine (\<open>migration.hpp\<close>, \<open>migration.cpp\<close>) and the records of explicit
  invalidation (\<open>invalidation.hpp\<close>, \<open>invalidation.cpp\<close>). The lemmas say what an execution of
  the machine has gone through when it reaches a phase: every phase that precedes it in a staged
  migration, in their order, but for the readiness of the destination in a destructive one.
\<close>

datatype MigrationPhase =
    P_not_started
  | P_source_validated
  | P_destination_reserved
  | P_transferring
  | P_verifying
  | P_destination_ready
  | P_authority_promoted
  | P_source_retired
  | P_source_released
  | P_aborted

primrec MigrationPhase_to_string :: "MigrationPhase \<Rightarrow> string" where
  "MigrationPhase_to_string P_not_started = ''not_started''"
| "MigrationPhase_to_string P_source_validated = ''source_validated''"
| "MigrationPhase_to_string P_destination_reserved = ''destination_reserved''"
| "MigrationPhase_to_string P_transferring = ''transferring''"
| "MigrationPhase_to_string P_verifying = ''verifying''"
| "MigrationPhase_to_string P_destination_ready = ''destination_ready''"
| "MigrationPhase_to_string P_authority_promoted = ''authority_promoted''"
| "MigrationPhase_to_string P_source_retired = ''source_retired''"
| "MigrationPhase_to_string P_source_released = ''source_released''"
| "MigrationPhase_to_string P_aborted = ''aborted''"

record MigrationPlan =
  mp_instance :: AdapterInstanceId
  mp_adapter :: AdapterId
  mp_source_worker :: WorkerId
  mp_source_boot :: WorkerBootId
  mp_dest_worker :: WorkerId
  mp_dest_boot :: WorkerBootId
  mp_dest_device :: DeviceId
  mp_bytes :: uint64_t
  mp_adapter_generation :: AdapterGeneration
  mp_residency_generation :: ResidencyGeneration
  mp_epoch :: CoordinatorEpoch

record MigrationStateMachine =
  ms_phase :: MigrationPhase
  ms_destructive :: bool

definition MigrationStateMachine_new :: "bool \<Rightarrow> MigrationStateMachine" where
  "MigrationStateMachine_new destructive =
     \<lparr>ms_phase = P_not_started, ms_destructive = destructive\<rparr>"

definition phase_terminal :: "MigrationPhase \<Rightarrow> bool" where
  "phase_terminal p \<longleftrightarrow> p = P_aborted \<or> p = P_source_released"

definition can_advance :: "MigrationStateMachine \<Rightarrow> MigrationPhase \<Rightarrow> bool" where
  "can_advance m nxt \<longleftrightarrow>
    (if phase_terminal (ms_phase m) then False
     else case ms_phase m of
       P_not_started \<Rightarrow> nxt = P_source_validated \<or> nxt = P_aborted
     | P_source_validated \<Rightarrow> nxt = P_destination_reserved \<or> nxt = P_aborted
     | P_destination_reserved \<Rightarrow> nxt = P_transferring \<or> nxt = P_aborted
     | P_transferring \<Rightarrow> nxt = P_verifying \<or> nxt = P_aborted
     | P_verifying \<Rightarrow> nxt = P_destination_ready \<or> nxt = P_aborted \<or>
         (ms_destructive m \<and> nxt = P_authority_promoted)
     | P_destination_ready \<Rightarrow> nxt = P_authority_promoted \<or> nxt = P_aborted
     | P_authority_promoted \<Rightarrow> nxt = P_source_retired \<or> nxt = P_aborted
     | P_source_retired \<Rightarrow> nxt = P_source_released \<or> nxt = P_aborted
     | P_aborted \<Rightarrow> False
     | P_source_released \<Rightarrow> False)"

definition advance :: "MigrationPhase \<Rightarrow> MigrationStateMachine \<Rightarrow> bool \<times> MigrationStateMachine" where
  "advance nxt m = (if \<not> can_advance m nxt then (False, m) else (True, m\<lparr>ms_phase := nxt\<rparr>))"

definition migration_reset :: "MigrationStateMachine \<Rightarrow> MigrationStateMachine" where
  "migration_reset m = m\<lparr>ms_phase := P_not_started\<rparr>"

datatype InvalidationTrigger =
    IT_adapter_revision_change
  | IT_artifact_digest_change
  | IT_base_model_revision_change
  | IT_compatibility_policy_change
  | IT_dependency_change
  | IT_worker_restart
  | IT_device_loss
  | IT_residency_generation_roll
  | IT_composition_change
  | IT_authority_epoch_roll
  | IT_corruption
  | IT_manual

primrec InvalidationTrigger_to_string :: "InvalidationTrigger \<Rightarrow> string" where
  "InvalidationTrigger_to_string IT_adapter_revision_change = ''adapter_revision_change''"
| "InvalidationTrigger_to_string IT_artifact_digest_change = ''artifact_digest_change''"
| "InvalidationTrigger_to_string IT_base_model_revision_change = ''base_model_revision_change''"
| "InvalidationTrigger_to_string IT_compatibility_policy_change = ''compatibility_policy_change''"
| "InvalidationTrigger_to_string IT_dependency_change = ''dependency_change''"
| "InvalidationTrigger_to_string IT_worker_restart = ''worker_restart''"
| "InvalidationTrigger_to_string IT_device_loss = ''device_loss''"
| "InvalidationTrigger_to_string IT_residency_generation_roll = ''residency_generation_roll''"
| "InvalidationTrigger_to_string IT_composition_change = ''composition_change''"
| "InvalidationTrigger_to_string IT_authority_epoch_roll = ''authority_epoch_roll''"
| "InvalidationTrigger_to_string IT_corruption = ''corruption''"
| "InvalidationTrigger_to_string IT_manual = ''manual''"

record InvalidationRecord =
  iv_trigger :: InvalidationTrigger
  iv_adapter :: AdapterId
  iv_reason :: string
  iv_epoch :: CoordinatorEpoch
  iv_prior_generation :: AdapterGeneration
  iv_detail :: string

section \<open>Executions of the machine\<close>

text \<open>
  \<open>migration_run m ps\<close>: \<open>m\<close> is a constructed machine on which \<open>advance\<close> and \<open>reset\<close> were called any
  number of times, in any order, and that was in the phases \<open>ps\<close>, latest first. Refused calls of
  \<open>advance\<close> leave the machine as it is; \<open>reset\<close> begins a new migration in any phase.
\<close>

inductive migration_run :: "MigrationStateMachine \<Rightarrow> MigrationPhase list \<Rightarrow> bool" where
  run_start: "migration_run (MigrationStateMachine_new d) [P_not_started]"
| run_advance: "migration_run m ps \<Longrightarrow> advance nxt m = (True, m') \<Longrightarrow> migration_run m' (nxt # ps)"
| run_refused: "migration_run m ps \<Longrightarrow> advance nxt m = (False, m') \<Longrightarrow> migration_run m' ps"
| run_reset: "migration_run m ps \<Longrightarrow> migration_run (migration_reset m) (P_not_started # ps)"

lemma advance_iff:
  "advance nxt m = (True, m') \<longleftrightarrow> can_advance m nxt \<and> m' = m\<lparr>ms_phase := nxt\<rparr>"
  "advance nxt m = (False, m') \<longleftrightarrow> \<not> can_advance m nxt \<and> m' = m"
  by (auto simp: advance_def)

lemma advance_cases:
  obtains "can_advance m nxt" "advance nxt m = (True, m\<lparr>ms_phase := nxt\<rparr>)"
  | "\<not> can_advance m nxt" "advance nxt m = (False, m)"
  by (cases "can_advance m nxt") (simp_all add: advance_def)

lemma can_abort: "can_advance m P_aborted \<longleftrightarrow> \<not> phase_terminal (ms_phase m)"
  by (auto simp: can_advance_def phase_terminal_def split: MigrationPhase.splits)

text \<open>
  The phases of a staged migration in their order, and those a machine goes through before it comes
  to a phase; a destructive migration may leave out the readiness of the destination.
\<close>

definition staged_path :: "MigrationPhase list" where
  "staged_path = [P_not_started, P_source_validated, P_destination_reserved, P_transferring, P_verifying,
     P_destination_ready, P_authority_promoted, P_source_retired, P_source_released]"

definition way_to :: "bool \<Rightarrow> MigrationPhase \<Rightarrow> MigrationPhase list \<Rightarrow> bool" where
  "way_to destructive p older \<longleftrightarrow>
     (let way = takeWhile (\<lambda>q. q \<noteq> p) staged_path in
      older = rev way \<or> destructive \<and> older = rev (filter (\<lambda>q. q \<noteq> P_destination_ready) way))"

text \<open>
  An invariant over the whole history: every phase but the aborted one has its way before it, every
  abort comes from a phase that has, and before that begin the earlier migrations of the machine.
\<close>

primrec history_ok :: "bool \<Rightarrow> MigrationPhase list \<Rightarrow> bool" where
  "history_ok d [] \<longleftrightarrow> True"
| "history_ok d (p # older) \<longleftrightarrow> history_ok d older \<and>
     (if p = P_aborted then older \<noteq> [] \<and> \<not> phase_terminal (hd older)
      else \<exists>way earlier. older = way @ earlier \<and> way_to d p way)"

lemma history_ok_append: "history_ok d (newer @ older) \<Longrightarrow> history_ok d older"
  by (induction newer) (simp_all split: if_splits)

text \<open>A permitted advance extends the way.\<close>

lemma way_to_advance:
  assumes "can_advance m nxt" and "nxt \<noteq> P_aborted" and "way_to (ms_destructive m) (ms_phase m) way"
  shows "way_to (ms_destructive m) nxt (ms_phase m # way)"
  using assms
  by (cases "ms_phase m"; cases nxt) (auto simp: can_advance_def phase_terminal_def way_to_def staged_path_def Let_def)

lemma way_to_start: "way_to d P_not_started []"
  by (simp add: way_to_def staged_path_def)

lemma migration_run_history:
  "migration_run m ps \<Longrightarrow> ps \<noteq> [] \<and> ms_phase m = hd ps \<and> history_ok (ms_destructive m) ps"
proof (induction rule: migration_run.induct)
  case (run_start d)
  then show ?case by (simp add: MigrationStateMachine_new_def way_to_start)
next
  case (run_advance m ps nxt m')
  then obtain p qs where can: "can_advance m nxt" and m': "m' = m\<lparr>ms_phase := nxt\<rparr>"
    and ps: "ps = p # qs" "ms_phase m = p" "history_ok (ms_destructive m) ps"
    by (cases ps) (auto simp: advance_iff)
  show ?case
  proof (cases "nxt = P_aborted")
    case True
    with can m' ps show ?thesis by (simp add: can_abort split: if_splits)
  next
    case False
    have "p \<noteq> P_aborted" using can ps by (auto simp: can_advance_def phase_terminal_def)
    with ps obtain way earlier where "qs = way @ earlier" "way_to (ms_destructive m) p way"
      by (auto split: if_splits)
    with way_to_advance [OF can False] ps(2) have "ps = (p # way) @ earlier" "way_to (ms_destructive m) nxt (p # way)"
      by (simp_all add: ps(1))
    then have "\<exists>way earlier. ps = way @ earlier \<and> way_to (ms_destructive m) nxt way" by blast
    with False m' ps(3) show ?thesis by simp
  qed
next
  case (run_refused m ps nxt m')
  then show ?case by (simp add: advance_iff)
next
  case (run_reset m ps)
  then show ?case by (simp add: migration_reset_def) (metis append_Nil way_to_start)
qed

text \<open>
  C32: The order of a migration. Whenever a machine comes to a phase other than the aborted one,
  whatever was asked of it and however often it was reset, then the phases just before were all
  the phases that precede it in a staged migration, in their order and none twice: source
  validated, destination reserved, transfer, verification, readiness, promotion of the authority,
  retirement and release of the source. A destructive migration may leave out the readiness, and
  only that. The history is newest first; what is older belongs to the migrations before a reset.
\<close>

theorem promotion_after_verification:
  assumes "migration_run m ps" and "ps = newer @ p # older" and "p \<noteq> P_aborted"
  shows "\<exists>way earlier. older = way @ earlier \<and> way_to (ms_destructive m) p way"
proof -
  from migration_run_history [OF assms(1)] assms(2) have "history_ok (ms_destructive m) (p # older)"
    using history_ok_append by blast
  with assms(3) show ?thesis by simp
qed

text \<open>Between two resets a migration accepts at most nine advances.\<close>

theorem migration_run_bounded:
  assumes "migration_run m ps" shows "length (takeWhile (\<lambda>p. p \<noteq> P_not_started) ps) \<le> 9"
proof -
  have way: "length (takeWhile (\<lambda>p. p \<noteq> P_not_started) (q # qs)) \<le> 8"
    if "history_ok d (q # qs)" "q \<noteq> P_aborted" for d q qs
    using that by (cases q) (auto simp: way_to_def staged_path_def Let_def)
  from migration_run_history [OF assms] obtain p qs where ps: "ps = p # qs" "history_ok (ms_destructive m) ps"
    by (cases ps) auto
  show ?thesis
  proof (cases "p = P_aborted")
    case True
    with ps obtain r rs where "qs = r # rs" "r \<noteq> P_aborted" "history_ok (ms_destructive m) (r # rs)"
      by (cases qs) (auto simp: phase_terminal_def split: if_splits)
    with way [of "ms_destructive m" r rs] True ps(1) show ?thesis by simp
  next
    case False
    with way ps show ?thesis by (metis le_SucI eval_nat_numeral(3))
  qed
qed

text \<open>The complete run of a staged migration.\<close>

definition staged_run :: "MigrationPhase list" where
  "staged_run = [P_source_released, P_source_retired, P_authority_promoted, P_destination_ready,
     P_verifying, P_transferring, P_destination_reserved, P_source_validated,
     P_not_started]"

lemma migration_run_next:
  "migration_run \<lparr>ms_phase = p, ms_destructive = d\<rparr> (p # ps) \<Longrightarrow>
     can_advance \<lparr>ms_phase = p, ms_destructive = d\<rparr> nxt \<Longrightarrow>
     migration_run \<lparr>ms_phase = nxt, ms_destructive = d\<rparr> (nxt # p # ps)"
  by (erule run_advance) (simp add: advance_iff)

lemma staged_run_reached: "migration_run \<lparr>ms_phase = P_source_released, ms_destructive = False\<rparr> staged_run"
  unfolding staged_run_def
  by (intro migration_run_next run_start [of False, unfolded MigrationStateMachine_new_def])
    (simp_all add: can_advance_def phase_terminal_def)

theorem promotion_after_verification_witness:
  "\<exists>way earlier. [P_destination_ready, P_verifying, P_transferring, P_destination_reserved,
       P_source_validated, P_not_started] = way @ earlier \<and>
     way_to (ms_destructive \<lparr>ms_phase = P_source_released, ms_destructive = False\<rparr>) P_authority_promoted way"
  by (rule promotion_after_verification [OF staged_run_reached, of "[P_source_released, P_source_retired]"])
    (simp_all add: staged_run_def)

theorem migration_run_bounded_witness: "length (takeWhile (\<lambda>p. p \<noteq> P_not_started) staged_run) \<le> 9"
  by (rule migration_run_bounded [OF staged_run_reached])

end
