(* ===== verification/AF_Codec.thy ===== *)
theory AF_Codec
  imports AF_Checksum AF_Error AF_Ids
begin

text \<open>
  The binary codec of \<open>persistence.hpp\<close> and \<open>persistence.cpp\<close>: a writer that appends
  little-endian fields, a reader that checks the checksum of the whole input when it is
  constructed and the bounds of every read, and the codecs of identities and generations.
  A reader operation maps a reader to an error or to the value read with the advanced reader;
  \<open>rbind\<close> sequences two of them.

  The locale \<open>codec\<close> is the contract between a pair of write and read operations that the
  larger codecs rely on: writing appends, a well-formed value is read back whatever follows it,
  and everything the reader accepts is well-formed. The locale \<open>strict_codec\<close> adds that the
  bytes consumed are exactly the bytes the writer produces. Floating-point fields are kept as
  their bit patterns: the reader rejects exactly the patterns with all exponent bits set.
\<close>

named_theorems codec_reads "what the readers of the codecs return"
named_theorems codec_exact "what the readers of the strict codecs consume"

section \<open>Writer\<close>

record BinWriter =
  bw_buf :: "byte list"

definition BinWriter_empty :: BinWriter where
  "BinWriter_empty = \<lparr>bw_buf = []\<rparr>"

definition w_bytes :: "byte list \<Rightarrow> BinWriter \<Rightarrow> BinWriter" where
  "w_bytes p w = w\<lparr>bw_buf := bw_buf w @ p\<rparr>"

definition w_u8 :: "uint8_t \<Rightarrow> BinWriter \<Rightarrow> BinWriter" where
  "w_u8 v w = w\<lparr>bw_buf := bw_buf w @ [v]\<rparr>"

definition w_u16 :: "uint16_t \<Rightarrow> BinWriter \<Rightarrow> BinWriter" where
  "w_u16 v w = w\<lparr>bw_buf := bw_buf w @ store_le 2 v\<rparr>"

definition w_u32 :: "uint32_t \<Rightarrow> BinWriter \<Rightarrow> BinWriter" where
  "w_u32 v w = w\<lparr>bw_buf := bw_buf w @ store_le 4 v\<rparr>"

definition w_u64 :: "uint64_t \<Rightarrow> BinWriter \<Rightarrow> BinWriter" where
  "w_u64 v w = w\<lparr>bw_buf := bw_buf w @ store_le 8 v\<rparr>"

definition w_i64 :: "uint64_t \<Rightarrow> BinWriter \<Rightarrow> BinWriter" where
  "w_i64 v = w_u64 v"

definition w_f32 :: "uint32_t \<Rightarrow> BinWriter \<Rightarrow> BinWriter" where
  "w_f32 v = w_u32 v"

definition w_f64 :: "uint64_t \<Rightarrow> BinWriter \<Rightarrow> BinWriter" where
  "w_f64 v = w_u64 v"

text \<open>Writes in sequence.\<close>

fun w_seq :: "(BinWriter \<Rightarrow> BinWriter) list \<Rightarrow> BinWriter \<Rightarrow> BinWriter" where
  "w_seq [] w = w"
| "w_seq (f # fs) w = w_seq fs (f w)"

definition w_string :: "string \<Rightarrow> BinWriter \<Rightarrow> BinWriter" where
  "w_string s = w_seq [w_u32 (of_nat (length s)), w_bytes (map byte_of_char s)]"

definition w_finish :: "BinWriter \<Rightarrow> byte list" where
  "w_finish w = bw_buf (w_u64 (fnv1a_64 1469598103934665603 (bw_buf w)) w)"

section \<open>Reader\<close>

record BinReader =
  rd_data :: "byte list"
  rd_pos :: nat
  rd_payload_end :: nat

type_synonym 'a reader = "BinReader \<Rightarrow> Error + ('a \<times> BinReader)"

definition rbind :: "'a reader \<Rightarrow> ('a \<Rightarrow> 'b reader) \<Rightarrow> 'b reader" where
  "rbind m f r = (case m r of Inl e \<Rightarrow> Inl e | Inr (x, r') \<Rightarrow> f x r')"

definition rreturn :: "'a \<Rightarrow> 'a reader" where
  "rreturn x r = Inr (x, r)"

definition rfail :: "ErrorCode \<Rightarrow> string \<Rightarrow> 'a reader" where
  "rfail code what r = throw code what"

definition BinReader_new :: "byte list \<Rightarrow> Error + BinReader" where
  "BinReader_new data =
    (if length data < 8 then throw EC_malformed ''payload too small''
     else let stored = load_le 8 data (length data - 8);
              payload_end = length data - 8;
              computed = fnv1a_64 1469598103934665603 (take payload_end data)
          in if computed \<noteq> stored then throw EC_checksum_mismatch ''checksum mismatch''
             else Inr \<lparr>rd_data = data, rd_pos = 0, rd_payload_end = payload_end\<rparr>)"

definition r_check :: "nat \<Rightarrow> unit reader" where
  "r_check n r =
    (if rd_pos r > rd_payload_end r \<or> n > rd_payload_end r - rd_pos r
     then throw EC_truncation ''read past payload'' else Inr ((), r))"

definition r_u8 :: "uint8_t reader" where
  "r_u8 = rbind (r_check 1) (\<lambda>_ r. Inr (rd_data r ! rd_pos r, r\<lparr>rd_pos := rd_pos r + 1\<rparr>))"

definition r_u16 :: "uint16_t reader" where
  "r_u16 = rbind (r_check 2)
     (\<lambda>_ r. Inr (load_le 2 (rd_data r) (rd_pos r), r\<lparr>rd_pos := rd_pos r + 2\<rparr>))"

definition r_u32 :: "uint32_t reader" where
  "r_u32 = rbind (r_check 4)
     (\<lambda>_ r. Inr (load_le 4 (rd_data r) (rd_pos r), r\<lparr>rd_pos := rd_pos r + 4\<rparr>))"

definition r_u64 :: "uint64_t reader" where
  "r_u64 = rbind (r_check 8)
     (\<lambda>_ r. Inr (load_le 8 (rd_data r) (rd_pos r), r\<lparr>rd_pos := rd_pos r + 8\<rparr>))"

definition r_i64 :: "uint64_t reader" where
  "r_i64 = r_u64"

definition finite_f32 :: "uint32_t \<Rightarrow> bool" where
  "finite_f32 b \<longleftrightarrow> b AND 0x7F800000 \<noteq> 0x7F800000"

definition finite_f64 :: "uint64_t \<Rightarrow> bool" where
  "finite_f64 b \<longleftrightarrow> b AND 0x7FF0000000000000 \<noteq> 0x7FF0000000000000"

definition r_f32 :: "uint32_t reader" where
  "r_f32 = rbind r_u32 (\<lambda>v.
     if \<not> finite_f32 v then rfail EC_malformed ''non-finite float'' else rreturn v)"

definition r_f64 :: "uint64_t reader" where
  "r_f64 = rbind r_u64 (\<lambda>v.
     if \<not> finite_f64 v then rfail EC_malformed ''non-finite double'' else rreturn v)"

definition r_chars :: "nat \<Rightarrow> string reader" where
  "r_chars n r =
    (if n > rd_payload_end r - rd_pos r
     then throw EC_malformed ''string length exceeds payload''
     else Inr (map char_of_byte (take n (drop (rd_pos r) (rd_data r))),
               r\<lparr>rd_pos := rd_pos r + n\<rparr>))"

definition r_string :: "string reader" where
  "r_string = rbind r_u32 (\<lambda>n. r_chars (unat n))"

definition r_bytes :: "nat \<Rightarrow> byte list reader" where
  "r_bytes n = rbind (r_check n)
     (\<lambda>_ r. Inr (take n (drop (rd_pos r) (rd_data r)), r\<lparr>rd_pos := rd_pos r + n\<rparr>))"

definition r_expect_end :: "nat \<Rightarrow> unit reader" where
  "r_expect_end expected r =
    (if rd_pos r \<noteq> expected then throw EC_trailing_garbage ''trailing garbage in payload''
     else Inr ((), r))"

section \<open>Identities, generations, booleans and vectors\<close>

definition w_id :: "'tag Id \<Rightarrow> BinWriter \<Rightarrow> BinWriter" where
  "w_id i = w_bytes (bytes (uuid i))"

definition r_id :: "'tag Id reader" where
  "r_id = rbind (r_bytes 16) (\<lambda>b. rreturn (Id (Uuid_of b)))"

definition w_gen :: "'tag Generation \<Rightarrow> BinWriter \<Rightarrow> BinWriter" where
  "w_gen g = w_u64 (gen_value g)"

definition r_gen :: "'tag Generation reader" where
  "r_gen = rbind r_u64 (\<lambda>v. rreturn (Generation v))"

definition w_bool :: "bool \<Rightarrow> BinWriter \<Rightarrow> BinWriter" where
  "w_bool b = w_u8 (if b then 1 else 0)"

definition r_bool :: "bool reader" where
  "r_bool = rbind r_u8 (\<lambda>v. rreturn (v \<noteq> 0))"

text \<open>A counted list: the writer's range-for and the reader's bounded for loop.\<close>

definition w_vec :: "('a \<Rightarrow> BinWriter \<Rightarrow> BinWriter) \<Rightarrow> 'a list \<Rightarrow> BinWriter \<Rightarrow> BinWriter" where
  "w_vec put xs = w_seq [w_u32 (of_nat (length xs)), fold put xs]"

fun r_loop :: "'a reader \<Rightarrow> nat \<Rightarrow> 'a list reader" where
  "r_loop get 0 = rreturn []"
| "r_loop get (Suc n) = rbind get (\<lambda>x. rbind (r_loop get n) (\<lambda>xs. rreturn (x # xs)))"

definition r_vec :: "nat \<Rightarrow> string \<Rightarrow> 'a reader \<Rightarrow> 'a list reader" where
  "r_vec most what get = rbind r_u32 (\<lambda>n.
     if unat n > most then rfail EC_malformed what else r_loop get (unat n))"

section \<open>Readers over the remaining payload\<close>

text \<open>
  \<open>Rd pre bs tail\<close> is the reader that has consumed \<open>pre\<close> and has the payload bytes \<open>bs\<close>
  before it; \<open>tail\<close> is the stored checksum. \<open>reads R get\<close>: whatever \<open>get\<close> returns, it has
  consumed a prefix \<open>c\<close> of the remaining payload, changed nothing else, and \<open>R x c\<close> holds.
\<close>

definition Rd :: "byte list \<Rightarrow> byte list \<Rightarrow> byte list \<Rightarrow> BinReader" where
  "Rd pre bs tail =
     \<lparr>rd_data = pre @ bs @ tail, rd_pos = length pre, rd_payload_end = length pre + length bs\<rparr>"

definition reads :: "('a \<Rightarrow> byte list \<Rightarrow> bool) \<Rightarrow> 'a reader \<Rightarrow> bool" where
  "reads R get \<longleftrightarrow> (\<forall>pre bs tail x r'. get (Rd pre bs tail) = Inr (x, r') \<longrightarrow>
     (\<exists>c suf. bs = c @ suf \<and> r' = Rd (pre @ c) suf tail \<and> R x c))"

definition out :: "('a \<Rightarrow> BinWriter \<Rightarrow> BinWriter) \<Rightarrow> 'a \<Rightarrow> byte list" where
  "out put x = bw_buf (put x BinWriter_empty)"

lemma Rd_simps [simp]:
  "rd_pos (Rd pre bs tail) = length pre"
  "rd_payload_end (Rd pre bs tail) = length pre + length bs"
  "rd_data (Rd pre bs tail) = pre @ bs @ tail"
  by (simp_all add: Rd_def)

lemma Rd_advance: "(Rd pre (c @ suf) tail)\<lparr>rd_pos := length pre + length c\<rparr> = Rd (pre @ c) suf tail"
  by (simp add: Rd_def)

lemma rbind_simps [simp]:
  "m r = Inr (x, r') \<Longrightarrow> rbind m f r = f x r'"
  "m r = Inl e \<Longrightarrow> rbind m f r = Inl e"
  by (simp_all add: rbind_def)

lemma rbind_Inr_iff:
  "rbind m f r = Inr (y, r'') \<longleftrightarrow> (\<exists>x r'. m r = Inr (x, r') \<and> f x r' = Inr (y, r''))"
  by (auto simp: rbind_def split: sum.splits)

lemma readsI:
  assumes "\<And>pre bs tail x r'. get (Rd pre bs tail) = Inr (x, r') \<Longrightarrow>
    \<exists>c suf. bs = c @ suf \<and> r' = Rd (pre @ c) suf tail \<and> R x c"
  shows "reads R get"
  using assms by (simp add: reads_def)

lemma readsD:
  assumes "reads R get" and "get (Rd pre bs tail) = Inr (x, r')"
  obtains c suf where "bs = c @ suf" "r' = Rd (pre @ c) suf tail" "R x c"
  using assms unfolding reads_def by metis

lemma reads_weaken:
  assumes "reads R get" and "\<And>x c. R x c \<Longrightarrow> Q x c"
  shows "reads Q get"
proof (rule readsI)
  fix pre bs tail x r'
  assume "get (Rd pre bs tail) = Inr (x, r')"
  from readsD [OF assms(1) this] obtain c suf where
    "bs = c @ suf" "r' = Rd (pre @ c) suf tail" "R x c" by blast
  with assms(2) show "\<exists>c suf. bs = c @ suf \<and> r' = Rd (pre @ c) suf tail \<and> Q x c"
    by (intro exI [of _ c] exI [of _ suf]) simp
qed

lemma reads_bind:
  assumes "reads R m" and "\<And>x c. R x c \<Longrightarrow> reads (\<lambda>y d. Q y (c @ d)) (f x)"
  shows "reads Q (rbind m f)"
proof (rule readsI)
  fix pre bs tail y r'
  assume "rbind m f (Rd pre bs tail) = Inr (y, r')"
  then obtain x r1 where m: "m (Rd pre bs tail) = Inr (x, r1)" and f: "f x r1 = Inr (y, r')"
    unfolding rbind_Inr_iff by blast
  from readsD [OF assms(1) m] obtain c suf where c: "bs = c @ suf" "r1 = Rd (pre @ c) suf tail"
    and R: "R x c" by blast
  from readsD [OF assms(2) [OF R] f [unfolded c(2)]] obtain d suf' where
    "suf = d @ suf'" "r' = Rd ((pre @ c) @ d) suf' tail" "Q y (c @ d)" by blast
  with c show "\<exists>c suf. bs = c @ suf \<and> r' = Rd (pre @ c) suf tail \<and> Q y c"
    by (intro exI [of _ "c @ d"] exI [of _ suf']) simp
qed

lemma reads_return: "R x [] \<Longrightarrow> reads R (rreturn x)"
  by (rule readsI, rule exI [of _ "[]"]) (simp add: rreturn_def)

lemma reads_fail: "reads R (rfail code what)"
  by (auto simp: reads_def rfail_def throw_def)

lemma reads_if: "(b \<Longrightarrow> reads R f) \<Longrightarrow> (\<not> b \<Longrightarrow> reads R g) \<Longrightarrow> reads R (if b then f else g)"
  by simp

lemma rreturn_simps [simp]: "rreturn x r = Inr (x, r)"
  by (simp add: rreturn_def)

section \<open>The contract of a codec\<close>

locale codec =
  fixes put :: "'a \<Rightarrow> BinWriter \<Rightarrow> BinWriter"
    and get :: "'a reader"
    and ok :: "'a \<Rightarrow> bool"
  assumes put_append: "bw_buf (put x w) = bw_buf w @ out put x"
    and get_put: "ok x \<Longrightarrow>
      get (Rd pre (out put x @ suf) tail) = Inr (x, Rd (pre @ out put x) suf tail)"
    and get_reads: "reads (\<lambda>x c. ok x) get"
begin

lemma fold_put_append: "bw_buf (fold put xs w) = bw_buf w @ concat (map (out put) xs)"
  by (induction xs arbitrary: w) (simp_all add: put_append)

lemma loop_put:
  "\<forall>x \<in> set xs. ok x \<Longrightarrow>
     r_loop get (length xs) (Rd pre (concat (map (out put) xs) @ suf) tail)
       = Inr (xs, Rd (pre @ concat (map (out put) xs)) suf tail)"
  by (induction xs arbitrary: pre) (simp_all add: get_put)

lemma loop_reads: "reads (\<lambda>xs c. length xs = n \<and> (\<forall>x \<in> set xs. ok x)) (r_loop get n)"
proof (induction n)
  case (Suc n)
  show ?case
    unfolding r_loop.simps
    by (rule reads_bind [OF get_reads], rule reads_bind [OF Suc.IH], rule reads_return) simp
qed (unfold r_loop.simps, rule reads_return, simp)

text \<open>A value is determined by its bytes: two well-formed values never share an encoding.\<close>

lemma out_inject: "ok x \<Longrightarrow> ok y \<Longrightarrow> out put x = out put y \<Longrightarrow> x = y"
  using get_put [of x "[]" "[]" "[]"] get_put [of y "[]" "[]" "[]"] by simp

end

locale strict_codec = codec +
  assumes get_exact: "reads (\<lambda>x c. c = out put x) get"
begin

lemma get_strict: "reads (\<lambda>x c. ok x \<and> c = out put x) get"
proof (rule readsI)
  fix pre bs tail x r'
  assume g: "get (Rd pre bs tail) = Inr (x, r')"
  from readsD [OF get_exact g] readsD [OF get_reads g]
  show "\<exists>c suf. bs = c @ suf \<and> r' = Rd (pre @ c) suf tail \<and> ok x \<and> c = out put x"
    by metis
qed

lemma loop_exact: "reads (\<lambda>xs c. c = concat (map (out put) xs)) (r_loop get n)"
proof (induction n)
  case (Suc n)
  show ?case
    unfolding r_loop.simps
    by (rule reads_bind [OF get_exact], rule reads_bind [OF Suc.IH], rule reads_return) simp
qed (unfold r_loop.simps, rule reads_return, simp)

end

section \<open>The primitive codecs keep the contract\<close>

lemma out_prims [simp]:
  "out w_u8 v = [v]" "out w_u16 v2 = store_le 2 v2" "out w_u32 v4 = store_le 4 v4"
  "out w_u64 v8 = store_le 8 v8" "out w_bytes bs = bs"
  "out w_string s = store_le 4 (of_nat (length s) :: uint32_t) @ map byte_of_char s"
  "out w_id i = bytes (uuid i)" "out w_gen g = store_le 8 (gen_value g)"
  "out w_bool b = [if b then 1 else 0]"
  by (simp_all add: out_def BinWriter_empty_def w_u8_def w_u16_def w_u32_def w_u64_def w_bytes_def
      w_string_def w_id_def w_gen_def w_bool_def)

lemma check_iff:
  "r_check n (Rd pre bs tail) = Inr (x, r') \<longleftrightarrow> n \<le> length bs \<and> r' = Rd pre bs tail"
  by (auto simp: r_check_def throw_def)

lemma check_fail:
  "n > length bs \<Longrightarrow> r_check n (Rd pre bs tail) = throw EC_truncation ''read past payload''"
  by (auto simp: r_check_def)

text \<open>A read of \<open>n\<close> bytes: what the primitive readers have in common.\<close>

lemma chunk_reads:
  assumes get: "\<And>r. get r = rbind (r_check n) (\<lambda>_ r. Inr (val (rd_data r) (rd_pos r), r\<lparr>rd_pos := rd_pos r + n\<rparr>)) r"
    and val: "\<And>pre c suf. length c = n \<Longrightarrow> R (val (pre @ c @ suf) (length pre)) c"
  shows "reads R get"
proof (rule readsI)
  fix pre bs tail x r'
  assume "get (Rd pre bs tail) = Inr (x, r')"
  then have le: "n \<le> length bs" and x: "x = val (pre @ bs @ tail) (length pre)"
    and r': "r' = (Rd pre bs tail)\<lparr>rd_pos := length pre + n\<rparr>"
    unfolding get by (auto simp: rbind_Inr_iff check_iff)
  have bs: "bs = take n bs @ drop n bs" and len: "length (take n bs) = n" using le by simp_all
  have "R (val (pre @ take n bs @ drop n bs @ tail) (length pre)) (take n bs)"
    by (rule val) (rule len)
  then have "R x (take n bs)" unfolding x append_assoc [symmetric] by simp
  moreover have "r' = Rd (pre @ take n bs) (drop n bs) tail"
    using Rd_advance [of pre "take n bs" "drop n bs" tail] le by (simp add: r' min_absorb2)
  ultimately show "\<exists>c suf. bs = c @ suf \<and> r' = Rd (pre @ c) suf tail \<and> R x c"
    using bs by blast
qed

lemma chunk_get:
  assumes get: "\<And>r. get r = rbind (r_check n) (\<lambda>_ r. Inr (val (rd_data r) (rd_pos r), r\<lparr>rd_pos := rd_pos r + n\<rparr>)) r"
    and len: "length c = n"
  shows "get (Rd pre (c @ suf) tail) = Inr (val (pre @ c @ suf @ tail) (length pre), Rd (pre @ c) suf tail)"
proof -
  have "r_check n (Rd pre (c @ suf) tail) = Inr ((), Rd pre (c @ suf) tail)"
    using len by (simp add: check_iff)
  then show ?thesis unfolding get using len Rd_advance [of pre c suf tail] by simp
qed

lemma chunk_codec:
  assumes get: "\<And>r. get r = rbind (r_check n) (\<lambda>_ r. Inr (val (rd_data r) (rd_pos r), r\<lparr>rd_pos := rd_pos r + n\<rparr>)) r"
    and app: "\<And>x w. bw_buf (put x w) = bw_buf w @ out put x"
    and len: "\<And>x. length (out put x) = n"
    and val: "\<And>pre x suf. val (pre @ out put x @ suf) (length pre) = x"
    and inv: "\<And>pre c suf. length c = n \<Longrightarrow> out put (val (pre @ c @ suf) (length pre)) = c"
  shows "strict_codec put get (\<lambda>_. True)"
proof unfold_locales
  fix x pre suf tail
  show "get (Rd pre (out put x @ suf) tail) = Inr (x, Rd (pre @ out put x) suf tail)"
    using chunk_get [of get n val "out put x" pre suf tail] get len val by simp
next
  show "reads (\<lambda>x c. True) get"
    by (rule chunk_reads [of get n val]) (simp_all add: get)
  show "reads (\<lambda>x c. c = out put x) get"
    by (rule chunk_reads [of get n val]) (simp_all add: get inv)
qed (rule app)

interpretation u8: strict_codec w_u8 r_u8 "\<lambda>_. True"
  by (rule chunk_codec [where n = 1 and val = "\<lambda>d p. d ! p"])
    (auto simp: r_u8_def w_u8_def length_Suc_conv)

interpretation u16: strict_codec w_u16 r_u16 "\<lambda>_. True"
  by (rule chunk_codec [where n = 2 and val = "load_le 2"])
    (simp_all add: r_u16_def w_u16_def load_store_le store_load_le)

interpretation u32: strict_codec w_u32 r_u32 "\<lambda>_. True"
  by (rule chunk_codec [where n = 4 and val = "load_le 4"])
    (simp_all add: r_u32_def w_u32_def load_store_le store_load_le)

interpretation u64: strict_codec w_u64 r_u64 "\<lambda>_. True"
  by (rule chunk_codec [where n = 8 and val = "load_le 8"])
    (simp_all add: r_u64_def w_u64_def load_store_le store_load_le)

lemma r_bytes_chunk:
  "r_bytes n r = rbind (r_check n)
     (\<lambda>_ r. Inr ((\<lambda>d p. take n (drop p d)) (rd_data r) (rd_pos r), r\<lparr>rd_pos := rd_pos r + n\<rparr>)) r"
  by (simp add: r_bytes_def)

lemma r_bytes_get [simp]:
  "length c = n \<Longrightarrow> r_bytes n (Rd pre (c @ suf) tail) = Inr (c, Rd (pre @ c) suf tail)"
  using chunk_get [OF r_bytes_chunk, of c n pre suf tail] by simp

lemma r_bytes_reads: "reads (\<lambda>x c. x = c \<and> length c = n) (r_bytes n)"
  by (rule chunk_reads [OF r_bytes_chunk]) simp

lemma w_bytes_append [simp]: "bw_buf (w_bytes p w) = bw_buf w @ p"
  by (simp add: w_bytes_def)

declare u8.put_append [simp] u16.put_append [simp] u32.put_append [simp] u64.put_append [simp]

text \<open>Strings: the length is written in 32 bits, so the contract is for shorter ones.\<close>

definition string_ok :: "string \<Rightarrow> bool" where
  "string_ok s \<longleftrightarrow> length s < 2 ^ 32"

lemma r_chars_Rd:
  "r_chars n (Rd pre bs tail)
   = (if n > length bs then throw EC_malformed ''string length exceeds payload''
      else Inr (map char_of_byte (take n bs), Rd (pre @ take n bs) (drop n bs) tail))"
  using Rd_advance [of pre "take n bs" "drop n bs" tail]
  by (simp add: r_chars_def min_absorb2)

lemma r_chars_reads: "reads (\<lambda>s c. length s = n \<and> c = map byte_of_char s) (r_chars n)"
proof (rule readsI)
  fix pre bs tail s r'
  assume "r_chars n (Rd pre bs tail) = Inr (s, r')"
  then have "n \<le> length bs" "s = map char_of_byte (take n bs)"
      "r' = Rd (pre @ take n bs) (drop n bs) tail"
    unfolding r_chars_Rd by (auto simp: throw_def split: if_splits)
  then show "\<exists>c suf. bs = c @ suf \<and> r' = Rd (pre @ c) suf tail \<and>
      length s = n \<and> c = map byte_of_char s"
    by - (rule exI [of _ "take n bs"], rule exI [of _ "drop n bs"], simp add: comp_def)
qed

interpretation str: strict_codec w_string r_string string_ok
proof unfold_locales
  fix x w
  show "bw_buf (w_string x w) = bw_buf w @ out w_string x" by (simp add: w_string_def)
next
  fix x pre suf tail
  assume "string_ok x"
  then have n: "unat (of_nat (length x) :: uint32_t) = length x"
    by (simp add: string_ok_def unat_of_nat)
  have "r_u32 (Rd pre (store_le 4 (of_nat (length x) :: uint32_t) @ map byte_of_char x @ suf) tail)
      = Inr (of_nat (length x),
          Rd (pre @ store_le 4 (of_nat (length x) :: uint32_t)) (map byte_of_char x @ suf) tail)"
    using u32.get_put [where x = "of_nat (length x)" and suf = "map byte_of_char x @ suf"] by simp
  then show "r_string (Rd pre (out w_string x @ suf) tail) = Inr (x, Rd (pre @ out w_string x) suf tail)"
    unfolding r_string_def by (simp add: r_chars_Rd n)
next
  have both: "reads (\<lambda>s d. string_ok s \<and> d = out w_string s) r_string"
    unfolding r_string_def
  proof (rule reads_bind [OF u32.get_exact], rule reads_weaken [OF r_chars_reads])
    fix n c s d
    assume "c = out w_u32 n" and "length s = unat n \<and> d = map byte_of_char s"
    then show "string_ok s \<and> c @ d = out w_string s"
      using unat_32_less [of n] by (simp add: string_ok_def)
  qed
  show "reads (\<lambda>s d. string_ok s) r_string" "reads (\<lambda>s d. d = out w_string s) r_string"
    by (rule reads_weaken [OF both], simp)+
qed

declare str.put_append [simp]

text \<open>Codecs that wrap the value of another one.\<close>

context strict_codec
begin

lemma wrap:
  assumes put': "\<And>y. put' y = put (un y)" and get': "get' = rbind get (\<lambda>x. rreturn (mk x))"
    and mk: "\<And>y. mk (un y) = y" and un: "\<And>x. ok x \<Longrightarrow> un (mk x) = x" and ok': "\<And>y. ok (un y)"
  shows "strict_codec put' get' (\<lambda>_. True)"
proof -
  have out': "out put' y = out put (un y)" for y by (simp add: out_def put')
  have exact: "reads (\<lambda>y c. c = out put' y) get'"
    unfolding get' by (rule reads_bind [OF get_strict], rule reads_return) (simp add: out' un)
  show ?thesis
  proof unfold_locales
    fix y w show "bw_buf (put' y w) = bw_buf w @ out put' y"
      by (simp add: out' put' put_append)
  next
    fix y pre suf tail
    show "get' (Rd pre (out put' y @ suf) tail) = Inr (y, Rd (pre @ out put' y) suf tail)"
      by (simp add: get' out' get_put [OF ok'] mk)
  qed (rule reads_weaken [OF exact], simp, rule exact)
qed

end

interpretation bytes16: strict_codec w_bytes "r_bytes 16" "\<lambda>b. length b = 16"
  by unfold_locales
    (simp_all add: reads_weaken [OF r_bytes_reads])

interpretation idc: strict_codec w_id r_id "\<lambda>_. True"
  by (rule bytes16.wrap [where un = "\<lambda>i. bytes (uuid i)" and mk = "\<lambda>b. Id (Uuid_of b)"])
    (simp_all add: w_id_def r_id_def)

interpretation genc: strict_codec w_gen r_gen "\<lambda>_. True"
  by (rule u64.wrap [where un = gen_value and mk = Generation])
    (simp_all add: w_gen_def r_gen_def)

interpretation boolc: codec w_bool r_bool "\<lambda>_. True"
proof unfold_locales
  fix b pre suf tail
  show "r_bool (Rd pre (out w_bool b @ suf) tail) = Inr (b, Rd (pre @ out w_bool b) suf tail)"
    using u8.get_put [where x = "if b then 1 else 0" and pre = pre and suf = suf and tail = tail]
    by (cases b) (simp_all add: r_bool_def)
  show "reads (\<lambda>x c. True) r_bool"
    unfolding r_bool_def by (rule reads_bind [OF u8.get_reads], rule reads_return) simp
qed (simp add: w_bool_def)

declare idc.put_append [simp] genc.put_append [simp] boolc.put_append [simp]

declare u8.get_put [simp] u16.get_put [simp] u32.get_put [simp] u64.get_put [simp]
  str.get_put [simp] idc.get_put [simp] genc.get_put [simp] boolc.get_put [simp]
  out_prims [simp del]

lemmas prim_reads [codec_reads] =
  u8.get_reads u16.get_reads u32.get_reads u64.get_reads str.get_reads idc.get_reads
  genc.get_reads boolc.get_reads

lemmas prim_exact [codec_exact] =
  u8.get_exact u16.get_exact u32.get_exact u64.get_exact str.get_strict idc.get_exact genc.get_exact

section \<open>Counted lists\<close>

definition vec_ok :: "('a \<Rightarrow> bool) \<Rightarrow> nat \<Rightarrow> 'a list \<Rightarrow> bool" where
  "vec_ok ok most xs \<longleftrightarrow> length xs \<le> most \<and> (\<forall>x \<in> set xs. ok x)"

text \<open>A counted list whose elements must have distinct keys, checked after each element.\<close>

fun r_unique ::
    "('a \<Rightarrow> string) \<Rightarrow> string \<Rightarrow> 'a reader \<Rightarrow> nat \<Rightarrow> string set \<Rightarrow> 'a list reader" where
  "r_unique key what get 0 seen = rreturn []"
| "r_unique key what get (Suc n) seen = rbind get (\<lambda>x.
     if key x \<in> seen then rfail EC_duplicate what
     else rbind (r_unique key what get n (insert (key x) seen)) (\<lambda>xs. rreturn (x # xs)))"

definition r_unique_vec ::
    "nat \<Rightarrow> string \<Rightarrow> ('a \<Rightarrow> string) \<Rightarrow> string \<Rightarrow> 'a reader \<Rightarrow> 'a list reader" where
  "r_unique_vec most large key dup get = rbind r_u32 (\<lambda>n.
     if unat n > most then rfail EC_malformed large else r_unique key dup get (unat n) {})"

context codec
begin

lemma out_vec:
  "out (w_vec put) xs = out w_u32 (of_nat (length xs)) @ concat (map (out put) xs)"
  by (simp add: out_def [of "w_vec put"] w_vec_def fold_put_append, simp add: BinWriter_empty_def)

lemma vec_put_append: "bw_buf (w_vec put xs w) = bw_buf w @ out (w_vec put) xs"
  by (simp add: out_vec w_vec_def fold_put_append)

lemma vec_codec:
  assumes "most < 2 ^ 32"
  shows "codec (w_vec put) (r_vec most what get) (vec_ok ok most)"
proof unfold_locales
  fix xs pre suf tail
  assume ok: "vec_ok ok most xs"
  then have n: "unat (of_nat (length xs) :: uint32_t) = length xs"
    using assms by (simp add: vec_ok_def unat_of_nat)
  show "r_vec most what get (Rd pre (out (w_vec put) xs @ suf) tail)
      = Inr (xs, Rd (pre @ out (w_vec put) xs) suf tail)"
    using ok by (simp add: r_vec_def out_vec n vec_ok_def loop_put)
next
  show "reads (\<lambda>xs c. vec_ok ok most xs) (r_vec most what get)"
    unfolding r_vec_def
    by (rule reads_bind [OF u32.get_reads], rule reads_if, rule reads_fail,
        rule reads_weaken [OF loop_reads]) (simp add: vec_ok_def)
qed (rule vec_put_append)

lemma unique_put:
  "\<forall>x \<in> set xs. ok x \<Longrightarrow> distinct (map key xs) \<Longrightarrow> key ` set xs \<inter> seen = {} \<Longrightarrow>
     r_unique key what get (length xs) seen (Rd pre (concat (map (out put) xs) @ suf) tail)
       = Inr (xs, Rd (pre @ concat (map (out put) xs)) suf tail)"
  by (induction xs arbitrary: pre seen) (auto simp: get_put)

lemma unique_reads:
  "reads (\<lambda>xs c. length xs = n \<and> (\<forall>x \<in> set xs. ok x) \<and> distinct (map key xs)
      \<and> key ` set xs \<inter> seen = {}) (r_unique key what get n seen)"
proof (induction n arbitrary: seen)
  case (Suc n)
  show ?case
    unfolding r_unique.simps
    by (rule reads_bind [OF get_reads], rule reads_if, rule reads_fail,
        rule reads_bind [OF Suc.IH], rule reads_return) auto
qed (unfold r_unique.simps, rule reads_return, simp)

lemma unique_codec:
  assumes "most < 2 ^ 32"
  shows "codec (w_vec put) (r_unique_vec most large key dup get)
    (\<lambda>xs. vec_ok ok most xs \<and> distinct (map key xs))"
proof unfold_locales
  fix xs pre suf tail
  assume ok: "vec_ok ok most xs \<and> distinct (map key xs)"
  then have n: "unat (of_nat (length xs) :: uint32_t) = length xs"
    using assms by (simp add: vec_ok_def unat_of_nat)
  show "r_unique_vec most large key dup get (Rd pre (out (w_vec put) xs @ suf) tail)
      = Inr (xs, Rd (pre @ out (w_vec put) xs) suf tail)"
    using ok by (simp add: r_unique_vec_def out_vec n vec_ok_def unique_put)
next
  show "reads (\<lambda>xs c. vec_ok ok most xs \<and> distinct (map key xs))
      (r_unique_vec most large key dup get)"
    unfolding r_unique_vec_def
    by (rule reads_bind [OF u32.get_reads], rule reads_if, rule reads_fail,
        rule reads_weaken [OF unique_reads]) (simp add: vec_ok_def)
qed (rule vec_put_append)

end

section \<open>The checksum of a whole input\<close>

lemma finish_layout: "w_finish w = bw_buf w @ store_le 8 (fnv1a_64 fnv_basis (bw_buf w))"
  by (simp add: w_finish_def fnv_basis_def out_prims)

text \<open>What \<open>finish\<close> produced is accepted, and the reader starts on the payload.\<close>

lemma reader_of_finish:
  "BinReader_new (w_finish w)
     = Inr (Rd [] (bw_buf w) (store_le 8 (fnv1a_64 fnv_basis (bw_buf w))))"
  using load_store_le [where n = 8 and v = "fnv1a_64 fnv_basis (bw_buf w)" and pre = "bw_buf w"
      and suf = "[]"]
  by (simp add: BinReader_new_def finish_layout Let_def fnv_basis_def Rd_def)

lemma reader_new_cases:
  obtains (small) "length data < 8" "BinReader_new data = throw EC_malformed ''payload too small''"
  | (bad) "8 \<le> length data" "BinReader_new data = throw EC_checksum_mismatch ''checksum mismatch''"
  | (good) payload where "data = payload @ store_le 8 (fnv1a_64 fnv_basis payload)"
      "BinReader_new data = Inr (Rd [] payload (store_le 8 (fnv1a_64 fnv_basis payload)))"
proof (cases "length data < 8")
  case True
  then show ?thesis by (intro small) (simp_all add: BinReader_new_def)
next
  case False
  let ?n = "length data - 8"
  let ?h = "fnv1a_64 fnv_basis (take ?n data)"
  show ?thesis
  proof (cases "?h = load_le 8 data ?n")
    case True
    have "store_le 8 (load_le 8 data ?n :: uint64_t) = take 8 (drop ?n data)"
      using False by (intro store_load_le) simp_all
    then have "drop ?n data = store_le 8 ?h" using False by (simp add: True)
    then have d: "data = take ?n data @ store_le 8 ?h" by (metis append_take_drop_id)
    moreover have "BinReader_new data = Inr (Rd [] (take ?n data) (store_le 8 ?h))"
      using False True d by (simp add: BinReader_new_def Let_def fnv_basis_def Rd_def min_absorb2)
    ultimately show ?thesis by (rule good)
  next
    case h: False
    with False show ?thesis
      by (intro bad) (simp_all add: BinReader_new_def Let_def fnv_basis_def)
  qed
qed

text \<open>Changing any one byte of a finished buffer is detected.\<close>

lemma single_byte_corruption:
  assumes "i < length (w_finish w)" and "b \<noteq> w_finish w ! i"
  shows "BinReader_new ((w_finish w)[i := b]) = throw EC_checksum_mismatch ''checksum mismatch''"
proof (cases rule: reader_new_cases [of "(w_finish w)[i := b]"])
  case small
  then show ?thesis by (simp add: finish_layout)
next
  case (good payload)
  let ?p = "bw_buf w"
  let ?c = "store_le 8 (fnv1a_64 fnv_basis ?p)"
  have len: "length payload = length ?p"
    using arg_cong [OF good(1), of length] by (simp add: finish_layout)
  show ?thesis
  proof (cases "i < length ?p")
    case True
    then have "?p[i := b] @ ?c = payload @ store_le 8 (fnv1a_64 fnv_basis payload)"
      using good(1) by (simp add: finish_layout list_update_append)
    then have "payload = ?p[i := b]" and "?c = store_le 8 (fnv1a_64 fnv_basis payload)"
      using len by (simp_all add: append_eq_append_conv)
    moreover have "b \<noteq> ?p ! i" using assms True by (simp add: finish_layout nth_append)
    ultimately show ?thesis
      using fnv1a_list_update [OF True, of b fnv_basis]
        store_le_inject [where n = 8 and v = "fnv1a_64 fnv_basis ?p"
          and w = "fnv1a_64 fnv_basis payload"] by simp
  next
    case False
    then have "(w_finish w)[i := b] = ?p @ ?c[i - length ?p := b]"
      by (simp add: finish_layout list_update_append)
    then have "?p @ ?c[i - length ?p := b] = payload @ store_le 8 (fnv1a_64 fnv_basis payload)"
      by (rule trans [OF sym good(1)])
    then have both: "payload = ?p \<and> ?c[i - length ?p := b] = store_le 8 (fnv1a_64 fnv_basis payload)"
      using append_eq_append_conv [of ?p payload] len by metis
    have "payload = ?p" by (rule conjunct1 [OF both])
    note eq = conjunct2 [OF both]
    have "?c[i - length ?p := b] = ?c" by (rule eq [unfolded \<open>payload = ?p\<close>])
    moreover have "i - length ?p < length ?c" using assms(1) False by (simp add: finish_layout)
    ultimately have "?c ! (i - length ?p) = b" by (metis nth_list_update_eq)
    then show ?thesis using assms False by (simp add: finish_layout nth_append)
  qed
qed

section \<open>Whole documents\<close>

text \<open>
  A document is one value between the construction of the reader and \<open>expect_end\<close>: the shape of
  every \<open>serialize\<close>/\<open>deserialize\<close> and \<open>encode\<close>/\<open>decode\<close> pair of the source.
\<close>

definition write_document :: "('a \<Rightarrow> BinWriter \<Rightarrow> BinWriter) \<Rightarrow> 'a \<Rightarrow> byte list" where
  "write_document put x = w_finish (put x BinWriter_empty)"

definition read_document :: "'a reader \<Rightarrow> byte list \<Rightarrow> Error + 'a" where
  "read_document get data =
     bindE (BinReader_new data) (\<lambda>r.
     bindE (get r) (\<lambda>(x, r).
     bindE (r_expect_end (length (rd_data r) - 8) r) (\<lambda>_. Inr x)))"

lemma write_document_layout:
  "write_document put x = out put x @ store_le 8 (fnv1a_64 fnv_basis (out put x))"
  by (simp add: write_document_def finish_layout out_def)

lemma document_corruption:
  "i < length (write_document put x) \<Longrightarrow> b \<noteq> write_document put x ! i \<Longrightarrow>
     read_document get ((write_document put x)[i := b])
       = throw EC_checksum_mismatch ''checksum mismatch''"
  by (simp add: write_document_def read_document_def single_byte_corruption throw_def)

context codec
begin

lemma document_roundtrip: "ok x \<Longrightarrow> read_document get (write_document put x) = Inr x"
  using get_put [of x "[]" "[]"]
  by (simp add: read_document_def write_document_def reader_of_finish r_expect_end_def out_def)

lemma document_ok: "read_document get data = Inr x \<Longrightarrow> ok x"
proof (cases rule: reader_new_cases [of data])
  case (good payload)
  assume "read_document get data = Inr x"
  then obtain r where g: "get (Rd [] payload (store_le 8 (fnv1a_64 fnv_basis payload))) = Inr (x, r)"
    unfolding read_document_def good(2) by (auto simp: bindE_Inr_iff)
  show ?thesis using readsD [OF get_reads g] by blast
qed (auto simp: read_document_def throw_def)

lemma document_reencode:
  "read_document get data = Inr x \<Longrightarrow> read_document get (write_document put x) = Inr x"
  by (rule document_roundtrip) (rule document_ok)

lemma document_inject: "ok x \<Longrightarrow> ok y \<Longrightarrow> write_document put x = write_document put y \<Longrightarrow> x = y"
  by (metis document_roundtrip sum.inject(2))

end

context strict_codec
begin

text \<open>A strict codec is a bijection between its values and the inputs it accepts.\<close>

lemma document_exact: "read_document get data = Inr x \<Longrightarrow> data = write_document put x"
proof (cases rule: reader_new_cases [of data])
  case (good payload)
  let ?c = "store_le 8 (fnv1a_64 fnv_basis payload)"
  assume "read_document get data = Inr x"
  then obtain r where g: "get (Rd [] payload ?c) = Inr (x, r)"
    and e: "r_expect_end (length (rd_data r) - 8) r = Inr ((), r)"
    unfolding read_document_def good(2)
    by (auto simp: bindE_Inr_iff r_expect_end_def throw_def split: if_splits)
  from readsD [OF get_exact g] obtain suf where s: "payload = out put x @ suf" "r = Rd (out put x) suf ?c"
    by auto
  with e have "suf = []" by (simp add: r_expect_end_def throw_def split: if_splits)
  with s good(1) show ?thesis by (simp add: write_document_layout)
qed (auto simp: read_document_def throw_def)

lemma document_bij: "read_document get data = Inr x \<longleftrightarrow> ok x \<and> data = write_document put x"
  using document_exact document_ok document_roundtrip by blast

end

end
