(* ===== verification/AF_Composition.thy ===== *)
theory AF_Composition
  imports AF_Adapter
begin

text \<open>
  Explicit composition (\<open>composition.hpp\<close>, \<open>composition.cpp\<close>): the builder's members and
  descriptors, \<open>add\<close> with its rejections, the canonical text and digest, and \<open>build\<close> with
  its re-validation. \<open>build\<close> draws the composition id before it validates, so the generator
  advances even when it throws. The builder keeps pointers to descriptors the caller owns; the
  model keeps their values. Reading \<open>descriptors_[i]\<close> past the end is undefined behaviour:
  \<open>build\<close> returns \<open>None\<close> there, which \<open>clear\<close> makes possible.
\<close>

record CompositionMember =
  cm_adapter_id :: AdapterId
  cm_revision :: AdapterRevisionId
  cm_generation :: AdapterGeneration
  cm_memory_bytes :: uint64_t
  cm_kind :: AdapterKind

record Composition =
  co_id :: CompositionId
  co_members :: "CompositionMember list"
  co_generation :: CompositionGeneration
  co_base_model :: BaseModelId
  co_base_model_revision :: ModelRevisionId
  co_policy :: string
  co_total_memory_bytes :: uint64_t
  co_digest :: string
  co_validation_summary :: string
  co_is_valid :: bool

record CompositionBuilder =
  cb_base :: BaseModelId
  cb_rev :: ModelRevisionId
  cb_policy :: string
  cb_gen :: CompositionGeneration
  cb_descriptors :: "AdapterDescriptor list"
  cb_members :: "CompositionMember list"

definition CompositionBuilder_new ::
    "BaseModelId \<Rightarrow> ModelRevisionId \<Rightarrow> string \<Rightarrow> CompositionGeneration \<Rightarrow> CompositionBuilder" where
  "CompositionBuilder_new base mrev policy gen =
     \<lparr>cb_base = base, cb_rev = mrev, cb_policy = policy, cb_gen = gen,
      cb_descriptors = [], cb_members = []\<rparr>"

definition member_of :: "AdapterDescriptor \<Rightarrow> CompositionMember" where
  "member_of d =
     \<lparr>cm_adapter_id = ad_id d, cm_revision = ad_revision d, cm_generation = ad_generation d,
      cm_memory_bytes = ad_memory_bytes d, cm_kind = ad_kind d\<rparr>"

definition builder_add ::
    "AdapterDescriptor \<Rightarrow> CompositionBuilder \<Rightarrow> Error + CompositionBuilder" where
  "builder_add d b =
     (if \<exists>x \<in> set (cb_members b). cm_adapter_id x = ad_id d then
        throw EC_invalid_composition ''duplicate adapter member''
      else if gen_is_none (ad_generation d) then
        throw EC_invalid_composition ''member has no generation''
      else if ad_base_model d \<noteq> cb_base b then
        throw EC_invalid_composition ''member targets a different base model''
      else if ad_base_model_revision d \<noteq> cb_rev b then
        throw EC_invalid_composition ''member targets a different model revision''
      else Inr (b\<lparr>cb_members := cb_members b @ [member_of d],
                  cb_descriptors := cb_descriptors b @ [d]\<rparr>))"

definition builder_clear :: "CompositionBuilder \<Rightarrow> CompositionBuilder" where
  "builder_clear b = b\<lparr>cb_descriptors := []\<rparr>"

section \<open>Canonical text and digest\<close>

definition member_text :: "CompositionMember \<Rightarrow> string" where
  "member_text m =
     Id_str (cm_adapter_id m) @ ''|'' @ Id_str (cm_revision m) @ ''|''
     @ dec_str (unat (gen_value (cm_generation m))) @ ''|''
     @ dec_str (unat (cm_memory_bytes m)) @ ''|''
     @ dec_str (unat (kind_byte (cm_kind m))) @ '';''"

definition canonical_text :: "CompositionMember list \<Rightarrow> string \<Rightarrow> string" where
  "canonical_text ms policy = foldl (\<lambda>s m. s @ member_text m) [] ms @ ''@'' @ policy"

definition compute_digest :: "CompositionMember list \<Rightarrow> string \<Rightarrow> string" where
  "compute_digest ms policy =
     (let h = fnv1a_64_sv (canonical_text ms policy)
      in hex_encode_sv (map char_of_byte (store_le 8 h)))"

section \<open>Build\<close>

fun insert_modules :: "TargetModule list \<Rightarrow> string set \<Rightarrow> Error + string set" where
  "insert_modules [] seen = Inr seen"
| "insert_modules (t # ts) seen =
     (if tm_name t \<in> seen then
        throw EC_invalid_composition (''conflicting target module '' @ tm_name t)
      else insert_modules ts (insert (tm_name t) seen))"

text \<open>
  The validation loop over the members: \<open>seen_ids\<close>, \<open>seen_modules\<close> and the 64-bit
  running tot, whose addition wraps.
\<close>

fun build_loop ::
    "CompositionBuilder \<Rightarrow> CompositionMember list \<Rightarrow> AdapterDescriptor list \<Rightarrow>
     string set \<Rightarrow> string set \<Rightarrow> uint64_t \<Rightarrow> (Error + uint64_t) option" where
  "build_loop b [] ds seen_ids seen_modules tot = Some (Inr tot)"
| "build_loop b (m # ms) [] seen_ids seen_modules tot = None"
| "build_loop b (m # ms) (d # ds) seen_ids seen_modules tot =
     (let idkey = Id_str (cm_adapter_id m) in
      if idkey \<in> seen_ids then
        Some (throw EC_invalid_composition (''duplicate adapter member '' @ idkey))
      else if gen_is_none (cm_generation m) then
        Some (throw EC_invalid_composition ''member has no generation'')
      else if ad_base_model d \<noteq> cb_base b then
        Some (throw EC_invalid_composition ''member targets a different base model'')
      else if ad_base_model_revision d \<noteq> cb_rev b then
        Some (throw EC_invalid_composition ''member targets a different model revision'')
      else if ad_memory_bytes d \<noteq> cm_memory_bytes m then
        Some (throw EC_invalid_composition ''member memory accounting mismatch'')
      else
        case insert_modules (ad_targets d) seen_modules of
          Inl e \<Rightarrow> Some (Inl e)
        | Inr seen_modules' \<Rightarrow>
            build_loop b ms ds (insert idkey seen_ids) seen_modules' (tot + cm_memory_bytes m))"

definition builder_build ::
    "CompositionBuilder \<Rightarrow> Rng \<Rightarrow> (Error + Composition) option \<times> Rng" where
  "builder_build b rng =
     (let (cid, rng') = Id_generate rng in
      (if cb_members b = [] then
         Some (throw EC_invalid_composition ''composition has no members'')
       else
         map_option (\<lambda>r. bindE r (\<lambda>tot.
           let digest = compute_digest (cb_members b) (cb_policy b)
           in Inr \<lparr>co_id = cid, co_members = cb_members b, co_generation = cb_gen b,
                   co_base_model = cb_base b, co_base_model_revision = cb_rev b,
                   co_policy = cb_policy b, co_total_memory_bytes = tot, co_digest = digest,
                   co_validation_summary =
                     ''members='' @ dec_str (length (cb_members b)) @ '', digest='' @ digest,
                   co_is_valid = True\<rparr>))
           (build_loop b (cb_members b) (cb_descriptors b) {} {} 0),
       rng'))"

text \<open>Adding a list of descriptors in order, as callers do.\<close>

fun builder_add_all ::
    "AdapterDescriptor list \<Rightarrow> CompositionBuilder \<Rightarrow> Error + CompositionBuilder" where
  "builder_add_all [] b = Inr b"
| "builder_add_all (d # ds) b = bindE (builder_add d b) (builder_add_all ds)"

section \<open>The canonical text determines the composition\<close>

lemma member_text_inject:
  assumes "member_text m @ r = member_text m' @ r'"
  shows "m = m' \<and> r = r'"
proof -
  note assms [unfolded member_text_def append_assoc append_Cons append_Nil]
  note s1 = sep_cancel [OF this Id_str_sep(1) Id_str_sep(1)]
  note s2 = sep_cancel [OF conjunct2 [OF s1] Id_str_sep(1) Id_str_sep(1)]
  note s3 = sep_cancel [OF conjunct2 [OF s2] dec_str_sep(1) dec_str_sep(1)]
  note s4 = sep_cancel [OF conjunct2 [OF s3] dec_str_sep(1) dec_str_sep(1)]
  note s5 = sep_cancel [OF conjunct2 [OF s4] dec_str_sep(2) dec_str_sep(2)]
  from s1 s2 s3 s4 s5 show ?thesis
    by (cases m; cases m') (auto simp: word_unat_eq_iff [symmetric]
        intro: Generation.expand AdapterKind.expand)
qed

lemma canonical_text_simps [simp]:
  "canonical_text [] p = CHR ''@'' # p"
  "canonical_text (m # ms) p = member_text m @ canonical_text ms p"
proof -
  have acc: "foldl (\<lambda>s m. s @ member_text m) s ms = s @ foldl (\<lambda>s m. s @ member_text m) [] ms"
    for s ms
    by (induction ms rule: rev_induct) simp_all
  show "canonical_text [] p = CHR ''@'' # p" by (simp add: canonical_text_def)
  show "canonical_text (m # ms) p = member_text m @ canonical_text ms p"
    by (simp add: canonical_text_def acc [of "member_text m"])
qed

lemma member_text_not_at: "member_text m @ r \<noteq> CHR ''@'' # p"
proof
  assume "member_text m @ r = CHR ''@'' # p"
  then have "hd (Id_str (cm_adapter_id m)) = CHR ''@''"
    by (cases "Id_str (cm_adapter_id m)") (auto simp: member_text_def)
  moreover have "hd (Id_str (cm_adapter_id m)) \<in> set (Id_str (cm_adapter_id m))"
    by (intro hd_in_set) simp
  ultimately show False using Id_str_sep(3) by metis
qed

lemma canonical_text_parts:
  "canonical_text ms p = canonical_text ms' p' \<Longrightarrow> ms = ms' \<and> p = p'"
proof (induction ms ms' rule: list_induct2')
  case (4 m ms m' ms')
  then have "member_text m @ canonical_text ms p = member_text m' @ canonical_text ms' p'"
    by simp
  then have "m = m' \<and> canonical_text ms p = canonical_text ms' p'"
    by (rule member_text_inject)
  with "4.IH" show ?case by simp
qed (auto simp: member_text_not_at member_text_not_at [symmetric])

section \<open>What add and build accept\<close>

lemma bex_eq_image: "(\<exists>x \<in> A. f x = a) \<longleftrightarrow> a \<in> f ` A"
  by blast

definition member_ok :: "CompositionBuilder \<Rightarrow> AdapterDescriptor \<Rightarrow> bool" where
  "member_ok b d \<longleftrightarrow> \<not> gen_is_none (ad_generation d) \<and> ad_base_model d = cb_base b \<and>
     ad_base_model_revision d = cb_rev b"

text \<open>The builder's invariant: what every sequence of successful \<open>add\<close> calls maintains.\<close>

definition builder_inv :: "CompositionBuilder \<Rightarrow> bool" where
  "builder_inv b \<longleftrightarrow>
     cb_members b = map member_of (cb_descriptors b) \<and>
     distinct (map ad_id (cb_descriptors b)) \<and>
     (\<forall>d \<in> set (cb_descriptors b). member_ok b d)"

definition module_names :: "AdapterDescriptor list \<Rightarrow> string list" where
  "module_names ds = concat (map (\<lambda>d. map tm_name (ad_targets d)) ds)"

lemma member_of_simps [simp]:
  "cm_adapter_id (member_of d) = ad_id d" "cm_revision (member_of d) = ad_revision d"
  "cm_generation (member_of d) = ad_generation d"
  "cm_memory_bytes (member_of d) = ad_memory_bytes d" "cm_kind (member_of d) = ad_kind d"
  by (simp_all add: member_of_def)

lemma module_names_simps [simp]:
  "module_names [] = []"
  "module_names (d # ds) = map tm_name (ad_targets d) @ module_names ds"
  by (simp_all add: module_names_def)

lemma builder_inv_new: "builder_inv (CompositionBuilder_new base mrev policy gen)"
  by (simp add: builder_inv_def CompositionBuilder_new_def)

lemma builder_add_iff:
  assumes "builder_inv b"
  shows "builder_add d b = Inr b' \<longleftrightarrow>
     ad_id d \<notin> ad_id ` set (cb_descriptors b) \<and> member_ok b d \<and>
     b' = b\<lparr>cb_members := cb_members b @ [member_of d], cb_descriptors := cb_descriptors b @ [d]\<rparr>"
proof -
  have "cm_adapter_id ` set (cb_members b) = ad_id ` set (cb_descriptors b)"
    using assms by (simp add: builder_inv_def image_image)
  then have "(\<exists>x \<in> set (cb_members b). cm_adapter_id x = ad_id d) \<longleftrightarrow>
      ad_id d \<in> ad_id ` set (cb_descriptors b)"
    by (simp only: bex_eq_image)
  then show ?thesis by (auto simp: builder_add_def member_ok_def)
qed

lemma builder_add_inv: "builder_inv b \<Longrightarrow> builder_add d b = Inr b' \<Longrightarrow> builder_inv b'"
  by (auto simp: builder_add_iff) (auto simp: builder_inv_def member_ok_def)

lemma builder_add_error: "builder_add d b = Inl e \<Longrightarrow> err_code e = EC_invalid_composition"
  by (auto simp: builder_add_def throw_def split: if_splits)

lemma builder_add_all_iff:
  assumes "builder_inv b"
  shows "builder_add_all ds b = Inr b' \<longleftrightarrow>
     distinct (map ad_id ds) \<and> ad_id ` set ds \<inter> ad_id ` set (cb_descriptors b) = {} \<and>
     (\<forall>d \<in> set ds. member_ok b d) \<and>
     b' = b\<lparr>cb_members := cb_members b @ map member_of ds,
            cb_descriptors := cb_descriptors b @ ds\<rparr>"
  using assms
proof (induction ds arbitrary: b)
  case Nil
  then show ?case by auto
next
  case (Cons d ds)
  show ?case
  proof (cases "builder_add d b")
    case (Inl e)
    then have "\<not> (ad_id d \<notin> ad_id ` set (cb_descriptors b) \<and> member_ok b d)"
      using builder_add_iff [OF Cons.prems] by (metis Inl_Inr_False)
    with Inl show ?thesis by auto
  next
    case (Inr c)
    with Cons.prems have inv: "builder_inv c" by (rule builder_add_inv)
    have c: "ad_id d \<notin> ad_id ` set (cb_descriptors b)" "member_ok b d"
      "c = b\<lparr>cb_members := cb_members b @ [member_of d], cb_descriptors := cb_descriptors b @ [d]\<rparr>"
      using builder_add_iff [OF Cons.prems] Inr by auto
    then have "member_ok c = member_ok b" by (auto simp: member_ok_def fun_eq_iff)
    with Cons.IH [OF inv] c Inr show ?thesis by auto
  qed
qed

lemma builder_add_all_error: "builder_add_all ds b = Inl e \<Longrightarrow> err_code e = EC_invalid_composition"
  by (induction ds arbitrary: b) (auto simp: bindE_def dest: builder_add_error split: sum.splits)

lemma insert_modules_iff:
  "insert_modules ts seen = Inr seen' \<longleftrightarrow>
     distinct (map tm_name ts) \<and> tm_name ` set ts \<inter> seen = {} \<and> seen' = seen \<union> tm_name ` set ts"
  by (induction ts arbitrary: seen) auto

lemma insert_modules_error: "insert_modules ts seen = Inl e \<Longrightarrow> err_code e = EC_invalid_composition"
  by (induction ts arbitrary: seen) (auto simp: throw_def split: if_splits)

text \<open>Under the invariant the loop accepts exactly the lists without a repeated target module.\<close>

lemma build_loop_inv:
  assumes "distinct (map ad_id ds)" and "\<forall>d \<in> set ds. member_ok b d"
    and "Id_str ` ad_id ` set ds \<inter> ids = {}"
  shows "build_loop b (map member_of ds) ds ids mods tot =
      Some (Inr (tot + sum_list (map ad_memory_bytes ds)))
    \<and> distinct (module_names ds) \<and> set (module_names ds) \<inter> mods = {}
   \<or> (\<exists>e. build_loop b (map member_of ds) ds ids mods tot = Some (Inl e) \<and>
        err_code e = EC_invalid_composition)
    \<and> \<not> (distinct (module_names ds) \<and> set (module_names ds) \<inter> mods = {})"
  using assms
proof (induction ds arbitrary: ids mods tot)
  case Nil
  then show ?case by simp
next
  case (Cons d ds)
  have head: "Id_str (ad_id d) \<notin> ids" "member_ok b d" using Cons.prems by auto
  show ?case
  proof (cases "insert_modules (ad_targets d) mods")
    case (Inl e)
    then have "\<not> (distinct (map tm_name (ad_targets d)) \<and> tm_name ` set (ad_targets d) \<inter> mods = {})"
      using insert_modules_iff [of "ad_targets d" mods] by (metis Inl_Inr_False)
    with Inl head insert_modules_error [OF Inl] show ?thesis
      by (auto simp: member_ok_def Let_def)
  next
    case (Inr mods')
    then have m: "distinct (map tm_name (ad_targets d))" "tm_name ` set (ad_targets d) \<inter> mods = {}"
      "mods' = mods \<union> tm_name ` set (ad_targets d)"
      by (simp_all add: insert_modules_iff)
    have "Id_str ` ad_id ` set ds \<inter> insert (Id_str (ad_id d)) ids = {}"
      using Cons.prems by auto
    from Cons.IH [OF _ _ this, of mods' "tot + ad_memory_bytes d"] Cons.prems m Inr head
    show ?thesis by (auto simp: member_ok_def Let_def add.assoc)
  qed
qed

text \<open>The composition a successful build returns.\<close>

definition composition_of :: "CompositionBuilder \<Rightarrow> CompositionId \<Rightarrow> Composition" where
  "composition_of b cid =
     (let ds = cb_descriptors b; ms = map member_of ds; digest = compute_digest ms (cb_policy b)
      in \<lparr>co_id = cid, co_members = ms, co_generation = cb_gen b, co_base_model = cb_base b,
          co_base_model_revision = cb_rev b, co_policy = cb_policy b,
          co_total_memory_bytes = sum_list (map ad_memory_bytes ds), co_digest = digest,
          co_validation_summary = ''members='' @ dec_str (length ds) @ '', digest='' @ digest,
          co_is_valid = True\<rparr>)"

lemma builder_build_cases:
  assumes "builder_inv b"
  obtains (built) "cb_descriptors b \<noteq> []" "distinct (module_names (cb_descriptors b))"
      "builder_build b rng =
        (Some (Inr (composition_of b (fst (Id_generate rng)))),
          snd (Id_generate rng :: CompositionId \<times> Rng))"
    | (rejected) e where "\<not> (cb_descriptors b \<noteq> [] \<and> distinct (module_names (cb_descriptors b)))"
      "err_code e = EC_invalid_composition"
      "builder_build b rng = (Some (Inl e), snd (Id_generate rng :: CompositionId \<times> Rng))"
proof -
  note inv = assms [unfolded builder_inv_def]
  show thesis
  proof (cases "cb_descriptors b = []")
    case True
    then have "builder_build b rng =
        (Some (throw EC_invalid_composition ''composition has no members''),
          snd (Id_generate rng :: CompositionId \<times> Rng))"
      using inv by (simp add: builder_build_def case_prod_beta)
    then show ?thesis using True by (intro rejected) (simp_all add: throw_def)
  next
    case False
    let ?loop = "build_loop b (map member_of (cb_descriptors b)) (cb_descriptors b) {} {} 0"
    consider (ok) "?loop = Some (Inr (sum_list (map ad_memory_bytes (cb_descriptors b))))"
        "distinct (module_names (cb_descriptors b))"
      | (err) e where "?loop = Some (Inl e)" "err_code e = EC_invalid_composition"
        "\<not> distinct (module_names (cb_descriptors b))"
      using build_loop_inv [of "cb_descriptors b" b "{}" "{}" 0] inv by auto
    then show ?thesis
    proof cases
      case ok
      with inv False show ?thesis
        by (intro built) (simp_all add: builder_build_def composition_of_def case_prod_beta Let_def)
    next
      case (err e)
      with inv False show ?thesis
        by (intro rejected [of e]) (simp_all add: builder_build_def case_prod_beta)
    qed
  qed
qed

text \<open>The recorded total is the sum of the members' sizes modulo \<open>2^64\<close>.\<close>

lemma unat_sum_list: "unat (sum_list (xs :: uint64_t list)) = sum_list (map unat xs) mod 2 ^ 64"
proof (induction xs)
  case (Cons x xs)
  then show ?case by (simp add: unat_word_ariths mod_add_right_eq)
qed simp

text \<open>
  C40: The text a composition's digest is taken over determines its members, in order, with all
  their digested fields, and its policy: two compositions that differ in any of them have
  different canonical texts, so the digest confuses them only by a collision of the hash.
\<close>

theorem canonical_text_inject:
  "canonical_text ms p = canonical_text ms' p' \<longleftrightarrow> ms = ms' \<and> p = p'"
  using canonical_text_parts by blast

end
