(* ===== verification/AF_Persistence.thy ===== *)
theory AF_Persistence
  imports AF_Codec AF_Composition
begin

text \<open>
  The strict persistence codecs (\<open>persistence.cpp\<close>): adapter descriptors and fabric snapshots.
  Every reader below makes the checks of the source in the source's order. Each codec comes with
  the predicate of the values it accepts (\<open>descriptor_ok\<close>, \<open>snapshot_ok\<close>, ...) and an
  interpretation of \<open>codec\<close>, from which the round trips follow.
\<close>

section \<open>Descriptors\<close>

definition write_target :: "TargetModule \<Rightarrow> BinWriter \<Rightarrow> BinWriter" where
  "write_target t = w_seq
    [w_string (tm_name t), w_u32 (tm_in_features t), w_u32 (tm_out_features t),
     w_vec w_u32 (tm_shape t)]"

definition read_target :: "TargetModule reader" where
  "read_target =
     rbind r_string (\<lambda>name. rbind r_u32 (\<lambda>in_features. rbind r_u32 (\<lambda>out_features.
     rbind (r_vec 64 ''shape too large'' r_u32) (\<lambda>shape.
     rreturn \<lparr>tm_name = name, tm_in_features = in_features, tm_out_features = out_features,
       tm_shape = shape\<rparr>))))"

definition write_dependency :: "Dependency \<Rightarrow> BinWriter \<Rightarrow> BinWriter" where
  "write_dependency x = w_seq
    [w_string (dep_name x), w_string (dep_version x), w_string (dep_requirement x)]"

definition read_dependency :: "Dependency reader" where
  "read_dependency =
     rbind r_string (\<lambda>name. rbind r_string (\<lambda>version. rbind r_string (\<lambda>requirement.
     rreturn \<lparr>dep_name = name, dep_version = version, dep_requirement = requirement\<rparr>)))"

definition write_capability :: "RuntimeCapability \<Rightarrow> BinWriter \<Rightarrow> BinWriter" where
  "write_capability x = w_seq [w_string (cap_name x), w_string (cap_value x), w_bool (cap_required x)]"

definition read_capability :: "RuntimeCapability reader" where
  "read_capability =
     rbind r_string (\<lambda>name. rbind r_string (\<lambda>value. rbind r_bool (\<lambda>required.
     rreturn \<lparr>cap_name = name, cap_value = value, cap_required = required\<rparr>)))"

definition write_constraint :: "ExecutionConstraint \<Rightarrow> BinWriter \<Rightarrow> BinWriter" where
  "write_constraint x = w_seq [w_string (ec_key x), w_string (ec_value x)]"

definition read_constraint :: "ExecutionConstraint reader" where
  "read_constraint =
     rbind r_string (\<lambda>key. rbind r_string (\<lambda>value.
     rreturn \<lparr>ec_key = key, ec_value = value\<rparr>))"

definition write_provenance :: "Provenance \<Rightarrow> BinWriter \<Rightarrow> BinWriter" where
  "write_provenance p = w_seq
    [w_string (pv_source p), w_string (pv_author p), w_string (pv_timestamp p),
     w_string (pv_origin_digest p), w_string (pv_notes p)]"

definition read_provenance :: "Provenance reader" where
  "read_provenance =
     rbind r_string (\<lambda>src. rbind r_string (\<lambda>author. rbind r_string (\<lambda>timestamp.
     rbind r_string (\<lambda>origin_digest. rbind r_string (\<lambda>notes.
     rreturn \<lparr>pv_source = src, pv_author = author, pv_timestamp = timestamp,
       pv_origin_digest = origin_digest, pv_notes = notes\<rparr>)))))"

definition is_kind_ok :: "AdapterKind \<Rightarrow> bool" where
  "is_kind_ok k \<longleftrightarrow> k = AK_generic \<or> k = AK_lora \<or> k = AK_full_finetune \<or>
     k = AK_prefix_tuning \<or> k = AK_custom"

definition is_dtype_ok :: "DType \<Rightarrow> bool" where
  "is_dtype_ok t \<longleftrightarrow> t = DT_unknown \<or> t = DT_f32 \<or> t = DT_f16 \<or> t = DT_bf16 \<or>
     t = DT_f8_e4m3 \<or> t = DT_f8_e5m2 \<or> t = DT_int8 \<or> t = DT_int4"

definition is_validation_ok :: "ValidationState \<Rightarrow> bool" where
  "is_validation_ok v \<longleftrightarrow> v = VS_none \<or> v = VS_validating \<or> v = VS_valid \<or> v = VS_invalid"

definition write_desc :: "AdapterDescriptor \<Rightarrow> BinWriter \<Rightarrow> BinWriter" where
  "write_desc d = w_seq
    [w_id (ad_id d), w_id (ad_revision d), w_id (ad_artifact d),
     w_string (ad_artifact_digest d), w_u8 (kind_byte (ad_kind d)), w_string (ad_name d),
     w_id (ad_base_model d), w_id (ad_base_model_revision d),
     w_vec write_target (ad_targets d), w_u32 (ad_rank d), w_u8 (dtype_byte (ad_dtype d)),
     w_u64 (ad_param_count d), w_u64 (ad_param_bytes d), w_u64 (ad_memory_bytes d),
     w_string (ad_format d), w_u32 (ad_format_version d),
     w_vec write_dependency (ad_dependencies d), w_vec write_capability (ad_capabilities d),
     w_vec write_constraint (ad_constraints d), write_provenance (ad_provenance d),
     w_gen (ad_generation d), w_gen (ad_policy_generation d),
     w_u8 (validation_byte (ad_validation d))]"

text \<open>Reading an enumeration: the byte is checked after the cast.\<close>

definition r_enum :: "(uint8_t \<Rightarrow> 'e) \<Rightarrow> ('e \<Rightarrow> bool) \<Rightarrow> string \<Rightarrow> 'e reader" where
  "r_enum cast valid what = rbind r_u8 (\<lambda>v.
     if \<not> valid (cast v) then rfail EC_invalid_enum what else rreturn (cast v))"

definition read_desc :: "AdapterDescriptor reader" where
  "read_desc =
     rbind r_id (\<lambda>did. rbind r_id (\<lambda>revision. rbind r_id (\<lambda>artifact.
     rbind r_string (\<lambda>artifact_digest.
     rbind (r_enum AdapterKind is_kind_ok ''invalid adapter kind'') (\<lambda>kind.
     rbind r_string (\<lambda>name.
     rbind r_id (\<lambda>base_model. rbind r_id (\<lambda>base_model_revision.
     rbind (r_vec 100000 ''target count too large'' read_target) (\<lambda>targets.
     rbind r_u32 (\<lambda>rank.
     rbind (r_enum DType is_dtype_ok ''invalid dtype'') (\<lambda>dtype.
     rbind r_u64 (\<lambda>param_count. rbind r_u64 (\<lambda>param_bytes. rbind r_u64 (\<lambda>memory_bytes.
     rbind r_string (\<lambda>format. rbind r_u32 (\<lambda>format_version.
     if format_version = 0 then rfail EC_invalid_enum ''format version zero'' else
     rbind (r_vec 100000 ''dependency count too large'' read_dependency) (\<lambda>dependencies.
     rbind (r_vec 100000 ''capability count too large'' read_capability) (\<lambda>capabilities.
     rbind (r_vec 100000 ''constraint count too large'' read_constraint) (\<lambda>constraints.
     rbind read_provenance (\<lambda>provenance.
     rbind r_gen (\<lambda>generation. rbind r_gen (\<lambda>policy_generation.
     if gen_is_none generation
     then rfail EC_invalid_generation_value ''adapter generation is none'' else
     rbind (r_enum ValidationState is_validation_ok ''invalid validation state'') (\<lambda>validation.
     rreturn
       \<lparr>ad_id = did, ad_revision = revision, ad_artifact = artifact,
        ad_artifact_digest = artifact_digest, ad_kind = kind, ad_name = name,
        ad_base_model = base_model, ad_base_model_revision = base_model_revision,
        ad_targets = targets, ad_rank = rank, ad_dtype = dtype, ad_param_count = param_count,
        ad_param_bytes = param_bytes, ad_memory_bytes = memory_bytes, ad_format = format,
        ad_format_version = format_version, ad_dependencies = dependencies,
        ad_capabilities = capabilities, ad_constraints = constraints,
        ad_provenance = provenance, ad_generation = generation,
        ad_policy_generation = policy_generation, ad_validation = validation\<rparr>
     )))))))))))))))))))))))"

definition serialize_adapter :: "AdapterDescriptor \<Rightarrow> byte list" where
  "serialize_adapter d = w_finish (write_desc d BinWriter_empty)"

definition deserialize_adapter :: "byte list \<Rightarrow> Error + AdapterDescriptor" where
  "deserialize_adapter data =
     bindE (BinReader_new data) (\<lambda>r.
     bindE (read_desc r) (\<lambda>(d, r).
     bindE (r_expect_end (length (rd_data r) - 8) r) (\<lambda>_. Inr d)))"

section \<open>Snapshots\<close>

definition write_member :: "CompositionMember \<Rightarrow> BinWriter \<Rightarrow> BinWriter" where
  "write_member m = w_seq
    [w_id (cm_adapter_id m), w_id (cm_revision m), w_gen (cm_generation m),
     w_u64 (cm_memory_bytes m), w_u8 (kind_byte (cm_kind m))]"

definition read_member :: "CompositionMember reader" where
  "read_member =
     rbind r_id (\<lambda>adapter_id. rbind r_id (\<lambda>revision. rbind r_gen (\<lambda>generation.
     if gen_is_none generation
     then rfail EC_invalid_generation_value ''member generation none'' else
     rbind r_u64 (\<lambda>memory_bytes. rbind r_u8 (\<lambda>kind.
     rreturn \<lparr>cm_adapter_id = adapter_id, cm_revision = revision, cm_generation = generation,
       cm_memory_bytes = memory_bytes, cm_kind = AdapterKind kind\<rparr>)))))"

definition write_composition :: "Composition \<Rightarrow> BinWriter \<Rightarrow> BinWriter" where
  "write_composition c = w_seq
    [w_id (co_id c), w_vec write_member (co_members c), w_gen (co_generation c),
     w_id (co_base_model c), w_id (co_base_model_revision c), w_string (co_policy c),
     w_u64 (co_total_memory_bytes c), w_string (co_digest c),
     w_string (co_validation_summary c), w_bool (co_is_valid c)]"

text \<open>The running \<open>total\<close> of the member loop, on 64-bit words.\<close>

definition members_total :: "CompositionMember list \<Rightarrow> uint64_t" where
  "members_total ms = foldl (\<lambda>tot m. tot + cm_memory_bytes m) 0 ms"

definition read_composition :: "Composition reader" where
  "read_composition =
     rbind r_id (\<lambda>cid.
     rbind (r_vec 100000 ''member count too large'' read_member) (\<lambda>members.
     if members = [] then rfail EC_invalid_composition ''empty composition'' else
     rbind r_gen (\<lambda>generation.
     if gen_is_none generation
     then rfail EC_invalid_generation_value ''composition generation none'' else
     rbind r_id (\<lambda>base_model. rbind r_id (\<lambda>base_model_revision.
     rbind r_string (\<lambda>policy. rbind r_u64 (\<lambda>total_memory_bytes.
     rbind r_string (\<lambda>digest. rbind r_string (\<lambda>validation_summary.
     rbind r_bool (\<lambda>is_valid.
     if total_memory_bytes \<noteq> members_total members
     then rfail EC_invalid_composition ''composition memory accounting mismatch''
     else if compute_digest members policy \<noteq> digest
     then rfail EC_invalid_composition ''composition digest mismatch'' else
     rreturn
       \<lparr>co_id = cid, co_members = members, co_generation = generation,
        co_base_model = base_model, co_base_model_revision = base_model_revision,
        co_policy = policy, co_total_memory_bytes = total_memory_bytes, co_digest = digest,
        co_validation_summary = validation_summary, co_is_valid = is_valid\<rparr>))))))))))"

definition write_worker_capability :: "WorkerCapability \<Rightarrow> BinWriter \<Rightarrow> BinWriter" where
  "write_worker_capability c = w_seq [w_string (wc_name c), w_string (wc_value c)]"

definition read_worker_capability :: "WorkerCapability reader" where
  "read_worker_capability =
     rbind r_string (\<lambda>name. rbind r_string (\<lambda>value.
     rreturn \<lparr>wc_name = name, wc_value = value\<rparr>))"

definition write_worker :: "WorkerRecord \<Rightarrow> BinWriter \<Rightarrow> BinWriter" where
  "write_worker wk = w_seq
    [w_id (wr_id wk), w_id (wr_boot wk), w_string (wr_address wk), w_id (wr_node wk),
     w_id (wr_device wk), w_bool (wr_connected wk), w_gen (wr_epoch wk),
     w_vec write_worker_capability (wr_capabilities wk), w_u64 (wr_device_memory_bytes wk),
     w_vec w_id (wr_local_adapters wk)]"

definition read_worker :: "WorkerRecord reader" where
  "read_worker =
     rbind r_id (\<lambda>wid. rbind r_id (\<lambda>boot. rbind r_string (\<lambda>address.
     rbind r_id (\<lambda>node. rbind r_id (\<lambda>device. rbind r_bool (\<lambda>connected. rbind r_gen (\<lambda>epoch.
     rbind (r_vec 100000 ''capability count too large'' read_worker_capability) (\<lambda>capabilities.
     rbind r_u64 (\<lambda>device_memory_bytes.
     rbind (r_vec 100000 ''local adapter count too large'' r_id) (\<lambda>local_adapters.
     rreturn
       \<lparr>wr_id = wid, wr_boot = boot, wr_address = address, wr_node = node, wr_device = device,
        wr_connected = connected, wr_epoch = epoch, wr_capabilities = capabilities,
        wr_device_memory_bytes = device_memory_bytes,
        wr_local_adapters = local_adapters\<rparr>))))))))))"

record FabricSnapshot =
  fs_epoch :: CoordinatorEpoch
  fs_next_adapter_generation :: AdapterGeneration
  fs_next_composition_generation :: CompositionGeneration
  fs_adapters :: "AdapterDescriptor list"
  fs_compositions :: "Composition list"
  fs_workers :: "WorkerRecord list"

definition kFormat :: uint32_t where
  "kFormat = 1"

definition write_snapshot :: "FabricSnapshot \<Rightarrow> BinWriter \<Rightarrow> BinWriter" where
  "write_snapshot s = w_seq
    [w_u32 kFormat, w_gen (fs_epoch s), w_gen (fs_next_adapter_generation s),
     w_gen (fs_next_composition_generation s), w_vec write_desc (fs_adapters s),
     w_vec write_composition (fs_compositions s), w_vec write_worker (fs_workers s)]"

definition read_snapshot :: "FabricSnapshot reader" where
  "read_snapshot =
     rbind r_u32 (\<lambda>fmt.
     if fmt \<noteq> kFormat then rfail EC_unsupported_version ''unsupported snapshot version'' else
     rbind r_gen (\<lambda>epoch. rbind r_gen (\<lambda>next_adapter. rbind r_gen (\<lambda>next_composition.
     rbind (r_unique_vec 100000 ''adapter count too large'' (\<lambda>d. Id_str (ad_id d))
       ''duplicate adapter id'' read_desc) (\<lambda>adapters.
     rbind (r_unique_vec 100000 ''composition count too large'' (\<lambda>c. Id_str (co_id c))
       ''duplicate composition id'' read_composition) (\<lambda>compositions.
     rbind (r_unique_vec 100000 ''worker count too large'' (\<lambda>w. Id_str (wr_id w))
       ''duplicate worker id'' read_worker) (\<lambda>workers.
     rreturn
       \<lparr>fs_epoch = epoch, fs_next_adapter_generation = next_adapter,
        fs_next_composition_generation = next_composition, fs_adapters = adapters,
        fs_compositions = compositions, fs_workers = workers\<rparr>)))))))"

definition serialize_snapshot :: "FabricSnapshot \<Rightarrow> byte list" where
  "serialize_snapshot s = w_finish (write_snapshot s BinWriter_empty)"

definition deserialize_snapshot :: "byte list \<Rightarrow> Error + FabricSnapshot" where
  "deserialize_snapshot data =
     bindE (BinReader_new data) (\<lambda>r.
     bindE (read_snapshot r) (\<lambda>(s, r).
     bindE (r_expect_end (length (rd_data r) - 8) r) (\<lambda>_. Inr s)))"

section \<open>What the codecs accept\<close>

definition target_ok :: "TargetModule \<Rightarrow> bool" where
  "target_ok t \<longleftrightarrow> string_ok (tm_name t) \<and> vec_ok (\<lambda>_. True) 64 (tm_shape t)"

definition dependency_ok :: "Dependency \<Rightarrow> bool" where
  "dependency_ok x \<longleftrightarrow> string_ok (dep_name x) \<and> string_ok (dep_version x) \<and>
     string_ok (dep_requirement x)"

definition capability_ok :: "RuntimeCapability \<Rightarrow> bool" where
  "capability_ok x \<longleftrightarrow> string_ok (cap_name x) \<and> string_ok (cap_value x)"

definition constraint_ok :: "ExecutionConstraint \<Rightarrow> bool" where
  "constraint_ok x \<longleftrightarrow> string_ok (ec_key x) \<and> string_ok (ec_value x)"

definition provenance_ok :: "Provenance \<Rightarrow> bool" where
  "provenance_ok p \<longleftrightarrow> string_ok (pv_source p) \<and> string_ok (pv_author p) \<and>
     string_ok (pv_timestamp p) \<and> string_ok (pv_origin_digest p) \<and> string_ok (pv_notes p)"

definition descriptor_ok :: "AdapterDescriptor \<Rightarrow> bool" where
  "descriptor_ok d \<longleftrightarrow>
     string_ok (ad_artifact_digest d) \<and> is_kind_ok (ad_kind d) \<and> string_ok (ad_name d) \<and>
     vec_ok target_ok 100000 (ad_targets d) \<and> is_dtype_ok (ad_dtype d) \<and>
     string_ok (ad_format d) \<and> ad_format_version d \<noteq> 0 \<and>
     vec_ok dependency_ok 100000 (ad_dependencies d) \<and>
     vec_ok capability_ok 100000 (ad_capabilities d) \<and>
     vec_ok constraint_ok 100000 (ad_constraints d) \<and>
     provenance_ok (ad_provenance d) \<and> \<not> gen_is_none (ad_generation d) \<and>
     is_validation_ok (ad_validation d)"

definition member_valid :: "CompositionMember \<Rightarrow> bool" where
  "member_valid m \<longleftrightarrow> \<not> gen_is_none (cm_generation m)"

definition composition_ok :: "Composition \<Rightarrow> bool" where
  "composition_ok c \<longleftrightarrow>
     vec_ok member_valid 100000 (co_members c) \<and> co_members c \<noteq> [] \<and>
     \<not> gen_is_none (co_generation c) \<and> string_ok (co_policy c) \<and>
     string_ok (co_digest c) \<and> string_ok (co_validation_summary c) \<and>
     members_total (co_members c) = co_total_memory_bytes c \<and>
     compute_digest (co_members c) (co_policy c) = co_digest c"

definition worker_capability_ok :: "WorkerCapability \<Rightarrow> bool" where
  "worker_capability_ok c \<longleftrightarrow> string_ok (wc_name c) \<and> string_ok (wc_value c)"

definition worker_ok :: "WorkerRecord \<Rightarrow> bool" where
  "worker_ok w \<longleftrightarrow> string_ok (wr_address w) \<and>
     vec_ok worker_capability_ok 100000 (wr_capabilities w) \<and>
     vec_ok (\<lambda>_. True) 100000 (wr_local_adapters w)"

definition snapshot_ok :: "FabricSnapshot \<Rightarrow> bool" where
  "snapshot_ok s \<longleftrightarrow>
     (vec_ok descriptor_ok 100000 (fs_adapters s) \<and>
      distinct (map (\<lambda>d. Id_str (ad_id d)) (fs_adapters s))) \<and>
     (vec_ok composition_ok 100000 (fs_compositions s) \<and>
      distinct (map (\<lambda>c. Id_str (co_id c)) (fs_compositions s))) \<and>
     (vec_ok worker_ok 100000 (fs_workers s) \<and>
      distinct (map (\<lambda>w. Id_str (wr_id w)) (fs_workers s)))"

section \<open>The codecs keep the contract\<close>

interpretation shape: codec "w_vec w_u32" "r_vec 64 ''shape too large'' r_u32" "vec_ok (\<lambda>_. True) 64"
  by (rule u32.vec_codec) simp

declare shape.put_append [simp] shape.get_put [simp] shape.get_reads [codec_reads]

text \<open>
  A record is written field by field and read back in the same order: the three laws follow from
  those of its fields.
\<close>

interpretation target: codec write_target read_target target_ok
proof unfold_locales
  show "reads (\<lambda>x c. target_ok x) read_target"
    unfolding read_target_def
    by (rule reads_bind, rule codec_reads)+ (rule reads_return, simp add: target_ok_def)
qed (simp_all add: out_def [of write_target] write_target_def BinWriter_empty_def
    read_target_def target_ok_def)

interpretation targets: codec "w_vec write_target" "r_vec 100000 ''target count too large'' read_target" "vec_ok target_ok 100000"
  by (rule target.vec_codec) simp

declare targets.put_append [simp] targets.get_put [simp] targets.get_reads [codec_reads]

interpretation dependency: codec write_dependency read_dependency dependency_ok
proof unfold_locales
  show "reads (\<lambda>x c. dependency_ok x) read_dependency"
    unfolding read_dependency_def
    by (rule reads_bind, rule codec_reads)+ (rule reads_return, simp add: dependency_ok_def)
qed (simp_all add: out_def [of write_dependency] write_dependency_def BinWriter_empty_def
    read_dependency_def dependency_ok_def)

interpretation dependencies: codec "w_vec write_dependency" "r_vec 100000 ''dependency count too large'' read_dependency" "vec_ok dependency_ok 100000"
  by (rule dependency.vec_codec) simp

declare dependencies.put_append [simp] dependencies.get_put [simp] dependencies.get_reads [codec_reads]

interpretation capability: codec write_capability read_capability capability_ok
proof unfold_locales
  show "reads (\<lambda>x c. capability_ok x) read_capability"
    unfolding read_capability_def
    by (rule reads_bind, rule codec_reads)+ (rule reads_return, simp add: capability_ok_def)
qed (simp_all add: out_def [of write_capability] write_capability_def BinWriter_empty_def
    read_capability_def capability_ok_def)

interpretation capabilities: codec "w_vec write_capability" "r_vec 100000 ''capability count too large'' read_capability" "vec_ok capability_ok 100000"
  by (rule capability.vec_codec) simp

declare capabilities.put_append [simp] capabilities.get_put [simp] capabilities.get_reads [codec_reads]

interpretation constraint: codec write_constraint read_constraint constraint_ok
proof unfold_locales
  show "reads (\<lambda>x c. constraint_ok x) read_constraint"
    unfolding read_constraint_def
    by (rule reads_bind, rule codec_reads)+ (rule reads_return, simp add: constraint_ok_def)
qed (simp_all add: out_def [of write_constraint] write_constraint_def BinWriter_empty_def
    read_constraint_def constraint_ok_def)

interpretation constraints: codec "w_vec write_constraint" "r_vec 100000 ''constraint count too large'' read_constraint" "vec_ok constraint_ok 100000"
  by (rule constraint.vec_codec) simp

declare constraints.put_append [simp] constraints.get_put [simp] constraints.get_reads [codec_reads]

interpretation provenance: codec write_provenance read_provenance provenance_ok
proof unfold_locales
  show "reads (\<lambda>x c. provenance_ok x) read_provenance"
    unfolding read_provenance_def
    by (rule reads_bind, rule codec_reads)+ (rule reads_return, simp add: provenance_ok_def)
qed (simp_all add: out_def [of write_provenance] write_provenance_def BinWriter_empty_def
    read_provenance_def provenance_ok_def)

declare provenance.put_append [simp] provenance.get_put [simp] provenance.get_reads [codec_reads]

lemma r_enum_get [simp]:
  "valid (cast v) \<Longrightarrow>
     r_enum cast valid what (Rd pre (out w_u8 v @ suf) tail) = Inr (cast v, Rd (pre @ out w_u8 v) suf tail)"
  by (simp add: r_enum_def)

lemma r_enum_reads [codec_reads]: "reads (\<lambda>x c. valid x) (r_enum cast valid what)"
  unfolding r_enum_def
  by (rule reads_bind, rule codec_reads) (rule reads_if, rule reads_fail, rule reads_return, simp)

lemma read_desc_ok: "reads (\<lambda>x c. descriptor_ok x) read_desc"
  unfolding read_desc_def
  by (rule reads_fail | rule reads_if | rule reads_bind, rule codec_reads)+
    (rule reads_return, simp add: descriptor_ok_def)

interpretation desc: codec write_desc read_desc descriptor_ok
proof unfold_locales
  fix x pre suf tail
  assume "descriptor_ok x"
  then show "read_desc (Rd pre (out write_desc x @ suf) tail)
      = Inr (x, Rd (pre @ out write_desc x) suf tail)"
    by (simp add: out_def [of write_desc] write_desc_def BinWriter_empty_def read_desc_def
        descriptor_ok_def)
qed (simp_all add: out_def [of write_desc] write_desc_def BinWriter_empty_def read_desc_ok)

lemma read_member_ok: "reads (\<lambda>x c. member_valid x) read_member"
  unfolding read_member_def
  by (rule reads_fail | rule reads_if | rule reads_bind, rule codec_reads)+
    (rule reads_return, simp add: member_valid_def)

interpretation member: codec write_member read_member member_valid
proof unfold_locales
  fix x pre suf tail
  assume "member_valid x"
  then show "read_member (Rd pre (out write_member x @ suf) tail) = Inr (x, Rd (pre @ out write_member x) suf tail)"
    by (simp add: out_def [of write_member] write_member_def BinWriter_empty_def read_member_def member_valid_def)
qed (simp_all add: out_def [of write_member] write_member_def BinWriter_empty_def read_member_ok)

interpretation members: codec "w_vec write_member" "r_vec 100000 ''member count too large'' read_member" "vec_ok member_valid 100000"
  by (rule member.vec_codec) simp

declare members.put_append [simp] members.get_put [simp] members.get_reads [codec_reads]

lemma read_composition_ok: "reads (\<lambda>x c. composition_ok x) read_composition"
  unfolding read_composition_def
  by (rule reads_fail | rule reads_if | rule reads_bind, rule codec_reads)+
    (rule reads_return, simp add: composition_ok_def)

interpretation composition: codec write_composition read_composition composition_ok
proof unfold_locales
  fix x pre suf tail
  assume "composition_ok x"
  then show "read_composition (Rd pre (out write_composition x @ suf) tail) = Inr (x, Rd (pre @ out write_composition x) suf tail)"
    by (simp add: out_def [of write_composition] write_composition_def BinWriter_empty_def read_composition_def composition_ok_def)
qed (simp_all add: out_def [of write_composition] write_composition_def BinWriter_empty_def read_composition_ok)

lemma read_worker_capability_ok: "reads (\<lambda>x c. worker_capability_ok x) read_worker_capability"
  unfolding read_worker_capability_def
  by (rule reads_fail | rule reads_if | rule reads_bind, rule codec_reads)+
    (rule reads_return, simp add: worker_capability_ok_def)

interpretation worker_capability: codec write_worker_capability read_worker_capability worker_capability_ok
proof unfold_locales
  fix x pre suf tail
  assume "worker_capability_ok x"
  then show "read_worker_capability (Rd pre (out write_worker_capability x @ suf) tail) = Inr (x, Rd (pre @ out write_worker_capability x) suf tail)"
    by (simp add: out_def [of write_worker_capability] write_worker_capability_def BinWriter_empty_def read_worker_capability_def worker_capability_ok_def)
qed (simp_all add: out_def [of write_worker_capability] write_worker_capability_def BinWriter_empty_def read_worker_capability_ok)

interpretation worker_capabilities: codec "w_vec write_worker_capability" "r_vec 100000 ''capability count too large'' read_worker_capability" "vec_ok worker_capability_ok 100000"
  by (rule worker_capability.vec_codec) simp

declare worker_capabilities.put_append [simp] worker_capabilities.get_put [simp] worker_capabilities.get_reads [codec_reads]

interpretation local_adapters: codec "w_vec w_id" "r_vec 100000 ''local adapter count too large'' r_id" "vec_ok (\<lambda>_. True) 100000"
  by (rule idc.vec_codec) simp

declare local_adapters.put_append [simp] local_adapters.get_put [simp] local_adapters.get_reads [codec_reads]

lemma read_worker_ok: "reads (\<lambda>x c. worker_ok x) read_worker"
  unfolding read_worker_def
  by (rule reads_fail | rule reads_if | rule reads_bind, rule codec_reads)+
    (rule reads_return, simp add: worker_ok_def)

interpretation worker: codec write_worker read_worker worker_ok
proof unfold_locales
  fix x pre suf tail
  assume "worker_ok x"
  then show "read_worker (Rd pre (out write_worker x @ suf) tail) = Inr (x, Rd (pre @ out write_worker x) suf tail)"
    by (simp add: out_def [of write_worker] write_worker_def BinWriter_empty_def read_worker_def worker_ok_def)
qed (simp_all add: out_def [of write_worker] write_worker_def BinWriter_empty_def read_worker_ok)

interpretation descs: codec "w_vec write_desc"
    "r_unique_vec 100000 ''adapter count too large'' (\<lambda>d. Id_str (ad_id d)) ''duplicate adapter id'' read_desc"
    "\<lambda>xs. vec_ok descriptor_ok 100000 xs \<and> distinct (map (\<lambda>d. Id_str (ad_id d)) xs)"
  by (rule desc.unique_codec) simp

declare descs.put_append [simp] descs.get_put [simp] descs.get_reads [codec_reads]

interpretation compositions: codec "w_vec write_composition"
    "r_unique_vec 100000 ''composition count too large'' (\<lambda>c. Id_str (co_id c)) ''duplicate composition id'' read_composition"
    "\<lambda>xs. vec_ok composition_ok 100000 xs \<and> distinct (map (\<lambda>c. Id_str (co_id c)) xs)"
  by (rule composition.unique_codec) simp

declare compositions.put_append [simp] compositions.get_put [simp] compositions.get_reads [codec_reads]

interpretation workers: codec "w_vec write_worker"
    "r_unique_vec 100000 ''worker count too large'' (\<lambda>w. Id_str (wr_id w)) ''duplicate worker id'' read_worker"
    "\<lambda>xs. vec_ok worker_ok 100000 xs \<and> distinct (map (\<lambda>w. Id_str (wr_id w)) xs)"
  by (rule worker.unique_codec) simp

declare workers.put_append [simp] workers.get_put [simp] workers.get_reads [codec_reads]

lemma read_snapshot_ok: "reads (\<lambda>x c. snapshot_ok x) read_snapshot"
  unfolding read_snapshot_def
  by (rule reads_fail | rule reads_if | rule reads_bind, rule codec_reads)+
    (rule reads_return, simp add: snapshot_ok_def)

interpretation snap: codec write_snapshot read_snapshot snapshot_ok
proof unfold_locales
  fix x pre suf tail
  assume "snapshot_ok x"
  then show "read_snapshot (Rd pre (out write_snapshot x @ suf) tail) = Inr (x, Rd (pre @ out write_snapshot x) suf tail)"
    by (simp add: out_def [of write_snapshot] write_snapshot_def BinWriter_empty_def read_snapshot_def snapshot_ok_def)
qed (simp_all add: out_def [of write_snapshot] write_snapshot_def BinWriter_empty_def read_snapshot_ok)

section \<open>Documents\<close>

lemma serialize_document:
  "serialize_adapter = write_document write_desc"
  "deserialize_adapter = read_document read_desc"
  "serialize_snapshot = write_document write_snapshot"
  "deserialize_snapshot = read_document read_snapshot"
  by (simp_all add: fun_eq_iff serialize_adapter_def serialize_snapshot_def write_document_def
      deserialize_adapter_def deserialize_snapshot_def read_document_def)

lemma adapter_roundtrip: "descriptor_ok d \<Longrightarrow> deserialize_adapter (serialize_adapter d) = Inr d"
  unfolding serialize_document by (rule desc.document_roundtrip)

lemma adapter_accepted_ok: "deserialize_adapter data = Inr d \<Longrightarrow> descriptor_ok d"
  unfolding serialize_document by (rule desc.document_ok)

lemma adapter_corruption:
  "i < length (serialize_adapter d) \<Longrightarrow> b \<noteq> serialize_adapter d ! i \<Longrightarrow>
     deserialize_adapter ((serialize_adapter d)[i := b])
       = throw EC_checksum_mismatch ''checksum mismatch''"
  unfolding serialize_document by (rule document_corruption)

lemma snapshot_roundtrip: "snapshot_ok s \<Longrightarrow> deserialize_snapshot (serialize_snapshot s) = Inr s"
  unfolding serialize_document by (rule snap.document_roundtrip)

lemma snapshot_accepted_ok: "deserialize_snapshot data = Inr s \<Longrightarrow> snapshot_ok s"
  unfolding serialize_document by (rule snap.document_ok)

text \<open>
  C29: Changing any single byte of a serialized snapshot, wherever it is, makes
  \<open>deserialize_snapshot\<close> fail with a checksum mismatch.
\<close>

theorem snapshot_corruption:
  "i < length (serialize_snapshot s) \<Longrightarrow> b \<noteq> serialize_snapshot s ! i \<Longrightarrow>
     deserialize_snapshot ((serialize_snapshot s)[i := b])
       = throw EC_checksum_mismatch ''checksum mismatch''"
  unfolding serialize_document by (rule document_corruption)

text \<open>
  What the snapshot reader does not check: the kind byte of a composition member, and that the
  members of a composition are adapters of the snapshot.
\<close>

lemma members_total_sum: "members_total ms = sum_list (map cm_memory_bytes ms)"
  by (induction ms rule: rev_induct) (simp_all add: members_total_def)

text \<open>
  C23: A snapshot survives being written and read back exactly when it satisfies the documented
  limits (collections of at most 100000 elements, strings shorter than \<open>2^32\<close>, known enum
  values, non-zero generations, distinct identities, consistent totals), which are also exactly the
  snapshots the reader ever returns.
\<close>

theorem snapshot_codec_exact:
  "(deserialize_snapshot (serialize_snapshot s) = Inr s \<longleftrightarrow> snapshot_ok s) \<and>
   ((\<exists>data. deserialize_snapshot data = Inr s) \<longleftrightarrow> snapshot_ok s)"
  using snapshot_roundtrip snapshot_accepted_ok by blast

text \<open>
  The same for adapter descriptors: writing and reading back gives the descriptor exactly
  when it is within the limits, and the reader returns no other descriptor.
\<close>

theorem adapter_codec_exact:
  "(deserialize_adapter (serialize_adapter d) = Inr d \<longleftrightarrow> descriptor_ok d) \<and>
   ((\<exists>data. deserialize_adapter data = Inr d) \<longleftrightarrow> descriptor_ok d)"
  using adapter_roundtrip adapter_accepted_ok by blast

end
