(* ===== verification/AF_Fabric.thy ===== *)
theory AF_Fabric
  imports AF_Capacity AF_Authority AF_Compat AF_Lifecycle AF_Migration AF_Persistence
begin

text \<open>
  The fabric (\<open>fabric.hpp\<close>, \<open>fabric.cpp\<close>): the coordinator-side registry of adapters,
  compositions and workers, the authority records, the residencies, and the single active fence.
  Every member function is one definition. A function that may throw returns the error and the
  state it leaves behind; the two that draw an identity take the process-wide generator and
  return it advanced. Maps are keyed by the printed identity, as in the source.
\<close>

record AdapterAuthorityRecord =
  ar_adapter :: AdapterId
  ar_instance :: AdapterInstanceId
  ar_lifecycle :: Lifecycle
  ar_residency_generation :: ResidencyGeneration
  ar_fence :: AuthorityFence
  ar_has_authority :: bool
  ar_active :: bool

record Fabric =
  fb_epoch :: CoordinatorEpoch
  fb_next_adapter_gen :: AdapterGeneration
  fb_next_composition_gen :: CompositionGeneration
  fb_adapters :: "(string, AdapterDescriptor) smap"
  fb_compositions :: "(string, Composition) smap"
  fb_workers :: "(string, WorkerRecord) smap"
  fb_authority :: "(string, AdapterAuthorityRecord) smap"
  fb_residencies :: "(string, ResidencyRecord) smap"
  fb_invalidation_log :: "InvalidationRecord list"
  fb_capacity :: CapacityAccountant
  fb_active_fence :: "AuthorityFence option"
  fb_current_attempt :: "(string, AttemptId) smap"

section \<open>Construction\<close>

definition Fabric_empty :: "CapacityAccountant \<Rightarrow> Fabric" where
  "Fabric_empty cap =
     \<lparr>fb_epoch = gen_none, fb_next_adapter_gen = Generation 1,
      fb_next_composition_gen = Generation 1, fb_adapters = [], fb_compositions = [],
      fb_workers = [], fb_authority = [], fb_residencies = [], fb_invalidation_log = [],
      fb_capacity = cap, fb_active_fence = None, fb_current_attempt = []\<rparr>"

definition Fabric_default :: Fabric where
  "Fabric_default = Fabric_empty
     (foldl (\<lambda>c loc. if limit c loc = 0 then set_limit loc (push_bit 40 1) c else c)
       CapacityAccountant_default all_locations)"

definition Fabric_new :: "(ResidencyLocation, uint64_t) smap \<Rightarrow> Fabric" where
  "Fabric_new limits = Fabric_empty (CapacityAccountant_new limits)"

section \<open>Epoch, adapters and compositions\<close>

definition advance_epoch :: "Fabric \<Rightarrow> CoordinatorEpoch \<times> Fabric" where
  "advance_epoch fb =
     (let fb' = fb\<lparr>fb_epoch := gen_next (fb_epoch fb)\<rparr> in (fb_epoch fb', fb'))"

definition adapter :: "AdapterId \<Rightarrow> Fabric \<Rightarrow> AdapterDescriptor option" where
  "adapter i fb = map_of (fb_adapters fb) (Id_str i)"

definition has_adapter :: "AdapterId \<Rightarrow> Fabric \<Rightarrow> bool" where
  "has_adapter i fb \<longleftrightarrow> map_of (fb_adapters fb) (Id_str i) \<noteq> None"

definition adapters :: "Fabric \<Rightarrow> AdapterDescriptor list" where
  "adapters fb = smap_values (fb_adapters fb)"

definition register_adapter ::
    "AdapterDescriptor \<Rightarrow> Fabric \<Rightarrow> (Error + AdapterDescriptor) \<times> Fabric" where
  "register_adapter d fb =
    (if Id_is_nil (ad_id d) then (throw EC_invalid_identity ''adapter id is nil'', fb)
     else if Id_is_nil (ad_base_model d) then
       (throw EC_invalid_identity ''base model id is nil'', fb)
     else if Id_is_nil (ad_base_model_revision d) then
       (throw EC_invalid_identity ''base model revision id is nil'', fb)
     else if ad_artifact_digest d = [] then
       (throw EC_invalid_argument ''adapter has no artifact digest'', fb)
     else if ad_memory_bytes d = 0 then
       (throw EC_invalid_argument ''adapter declares zero memory footprint'', fb)
     else
       let d' = d\<lparr>ad_generation := fb_next_adapter_gen fb\<rparr>
       in (Inr d', fb\<lparr>fb_next_adapter_gen := gen_next (fb_next_adapter_gen fb),
                      fb_adapters := smap_set (Id_str (ad_id d')) d' (fb_adapters fb)\<rparr>))"

definition validate :: "AdapterId \<Rightarrow> CompatibilityTarget \<Rightarrow> Fabric \<Rightarrow> Error + CompatibilityReport" where
  "validate i target fb =
     (case adapter i fb of
        None \<Rightarrow> throw EC_not_found ''unknown adapter''
      | Some d \<Rightarrow> Inr (evaluate_compatibility d target))"

fun publish_adds ::
    "Fabric \<Rightarrow> AdapterId list \<Rightarrow> CompositionBuilder \<Rightarrow> Error + CompositionBuilder" where
  "publish_adds fb [] b = Inr b"
| "publish_adds fb (i # ids) b =
     (case adapter i fb of
        None \<Rightarrow> throw EC_not_found ''unknown adapter in composition''
      | Some d \<Rightarrow> bindE (builder_add d b) (publish_adds fb ids))"

definition publish_composition ::
    "AdapterId list \<Rightarrow> string \<Rightarrow> Rng \<Rightarrow> Fabric \<Rightarrow> (Error + Composition) option \<times> Rng \<times> Fabric" where
  "publish_composition ordered policy rng fb =
    (case ordered of
       [] \<Rightarrow> (Some (throw EC_invalid_composition ''empty composition''), rng, fb)
     | i # _ \<Rightarrow>
       (case adapter i fb of
          None \<Rightarrow> (Some (throw EC_not_found ''unknown adapter in composition''), rng, fb)
        | Some first \<Rightarrow>
          (case publish_adds fb ordered
                  (CompositionBuilder_new (ad_base_model first) (ad_base_model_revision first)
                     policy (fb_next_composition_gen fb)) of
             Inl e \<Rightarrow> (Some (Inl e), rng, fb)
           | Inr b \<Rightarrow>
             (case builder_build b rng of
                (None, rng') \<Rightarrow> (None, rng', fb)
              | (Some (Inl e), rng') \<Rightarrow> (Some (Inl e), rng', fb)
              | (Some (Inr c), rng') \<Rightarrow>
                  (Some (Inr c), rng',
                   fb\<lparr>fb_compositions := smap_set (Id_str (co_id c)) c (fb_compositions fb),
                      fb_next_composition_gen := gen_next (fb_next_composition_gen fb)\<rparr>)))))"

definition composition :: "CompositionId \<Rightarrow> Fabric \<Rightarrow> Composition option" where
  "composition i fb = map_of (fb_compositions fb) (Id_str i)"

definition compositions :: "Fabric \<Rightarrow> Composition list" where
  "compositions fb = smap_values (fb_compositions fb)"

section \<open>Workers, instances and authority\<close>

definition register_worker :: "WorkerRecord \<Rightarrow> Fabric \<Rightarrow> Fabric" where
  "register_worker r fb = fb\<lparr>fb_workers := smap_set (Id_str (wr_id r)) r (fb_workers fb)\<rparr>"

definition worker :: "WorkerId \<Rightarrow> Fabric \<Rightarrow> WorkerRecord option" where
  "worker i fb = map_of (fb_workers fb) (Id_str i)"

definition workers :: "Fabric \<Rightarrow> WorkerRecord list" where
  "workers fb = smap_values (fb_workers fb)"

definition AuthorityFence_default :: AuthorityFence where
  "AuthorityFence_default =
     \<lparr>f_adapter = Id_nil, f_composition = Id_nil, f_adapter_generation = gen_none,
      f_composition_generation = gen_none, f_residency_generation = gen_none,
      f_artifact_generation = gen_none, f_base_model_revision = Id_nil, f_epoch = gen_none,
      f_worker = Id_nil, f_boot = Id_nil, f_attempt = Id_nil, f_device = Id_nil,
      f_node = Id_nil\<rparr>"

text \<open>The residency and the authority record that \<open>create_instance\<close> fills in.\<close>

definition fresh_residency ::
    "AdapterId \<Rightarrow> AdapterDescriptor \<Rightarrow> AdapterInstanceId \<Rightarrow> WorkerId \<Rightarrow> WorkerBootId \<Rightarrow> DeviceId \<Rightarrow>
     uint64_t \<Rightarrow> CoordinatorEpoch \<Rightarrow> ResidencyRecord" where
  "fresh_residency i d inst w boot device n epoch =
     \<lparr>rr_instance = inst, rr_adapter_id = i, rr_adapter_generation = ad_generation d,
      rr_residency_generation = Generation 1, rr_location = LOC_device_memory,
      rr_bytes = n, rr_worker = w, rr_boot = boot, rr_epoch = epoch,
      rr_device = device, rr_ready = False, rr_active_refs = 0, rr_pin_count = 0,
      rr_protected = False, rr_migration = MS_none, rr_freshness = [],
      rr_compat_summary = [], rr_has_compat_evidence = False\<rparr>"

definition fresh_authority ::
    "AdapterId \<Rightarrow> AdapterDescriptor \<Rightarrow> AdapterInstanceId \<Rightarrow> WorkerId \<Rightarrow> WorkerBootId \<Rightarrow> DeviceId \<Rightarrow>
     CoordinatorEpoch \<Rightarrow> AdapterAuthorityRecord" where
  "fresh_authority i d inst w boot device epoch =
     \<lparr>ar_adapter = i, ar_instance = inst, ar_lifecycle = Lifecycle_of L_loading,
      ar_residency_generation = Generation 1,
      ar_fence = AuthorityFence_default
        \<lparr>f_adapter := i, f_epoch := epoch,
         f_adapter_generation := ad_generation d,
         f_base_model_revision := ad_base_model_revision d,
         f_worker := w, f_boot := boot, f_device := device,
         f_residency_generation := Generation 1,
         f_composition_generation := Generation 1,
         f_artifact_generation := Generation 1\<rparr>,
      ar_has_authority = False, ar_active = False\<rparr>"

definition create_instance ::
    "AdapterId \<Rightarrow> WorkerId \<Rightarrow> WorkerBootId \<Rightarrow> DeviceId \<Rightarrow> uint64_t \<Rightarrow> Rng \<Rightarrow> Fabric \<Rightarrow>
     (Error + AdapterInstanceId) \<times> Rng \<times> Fabric" where
  "create_instance i w boot device n rng fb =
    (case adapter i fb of
       None \<Rightarrow> (throw EC_not_found ''unknown adapter'', rng, fb)
     | Some d \<Rightarrow>
       let (inst, rng') = Id_generate rng;
           res = fresh_residency i d inst w boot device n (fb_epoch fb);
           ar = fresh_authority i d inst w boot device (fb_epoch fb)
       in (Inr inst, rng',
           fb\<lparr>fb_residencies := smap_set (Id_str inst) res (fb_residencies fb),
              fb_authority := smap_set (Id_str i) ar (fb_authority fb)\<rparr>))"

definition has_instance :: "AdapterInstanceId \<Rightarrow> Fabric \<Rightarrow> bool" where
  "has_instance inst fb \<longleftrightarrow> map_of (fb_residencies fb) (Id_str inst) \<noteq> None"

definition authority_record :: "AdapterId \<Rightarrow> Fabric \<Rightarrow> AdapterAuthorityRecord option" where
  "authority_record i fb = map_of (fb_authority fb) (Id_str i)"

definition residency :: "AdapterInstanceId \<Rightarrow> Fabric \<Rightarrow> ResidencyRecord option" where
  "residency inst fb = map_of (fb_residencies fb) (Id_str inst)"

definition verdict :: "AuthorityVerdict \<Rightarrow> string \<Rightarrow> AuthorityCheck" where
  "verdict v reason = \<lparr>ac_verdict = v, ac_reason = reason\<rparr>"

definition check_fence :: "AuthorityFence \<Rightarrow> Fabric \<Rightarrow> AuthorityCheck" where
  "check_fence fence fb =
    (case adapter (f_adapter fence) fb of
       None \<Rightarrow> verdict AV_unknown ''unknown or nil adapter''
     | Some d \<Rightarrow>
       if Id_is_nil (f_adapter fence) then verdict AV_unknown ''unknown or nil adapter''
       else if f_epoch fence \<noteq> fb_epoch fb then
         verdict AV_stale_epoch ''coordinator epoch mismatch''
       else if f_adapter_generation fence \<noteq> ad_generation d then
         verdict AV_stale_adapter_generation ''adapter generation mismatch''
       else if f_base_model_revision fence \<noteq> ad_base_model_revision d then
         verdict AV_stale_base_model ''base model revision mismatch''
       else
       (case worker (f_worker fence) fb of
          None \<Rightarrow> verdict AV_stale_worker ''unknown worker''
        | Some w \<Rightarrow>
          if \<not> wr_connected w then verdict AV_stale_worker ''worker not connected''
          else if Id_is_nil (f_worker fence) \<or> Id_is_nil (f_boot fence) \<or> Id_is_nil (f_attempt fence)
          then verdict AV_unknown ''incomplete fence''
          else if f_boot fence \<noteq> wr_boot w then verdict AV_stale_boot ''worker boot mismatch''
          else if (case map_of (fb_current_attempt fb) (Id_str (f_adapter fence)) of
                     None \<Rightarrow> False | Some a \<Rightarrow> a \<noteq> f_attempt fence)
          then verdict AV_stale_attempt ''attempt mismatch''
          else
            let ar = authority_record (f_adapter fence) fb;
                rgen = (case ar of None \<Rightarrow> Generation 1 | Some a \<Rightarrow> f_residency_generation (ar_fence a));
                cgen = (case ar of None \<Rightarrow> Generation 1 | Some a \<Rightarrow> f_composition_generation (ar_fence a));
                agen = (case ar of None \<Rightarrow> Generation 1 | Some a \<Rightarrow> f_artifact_generation (ar_fence a))
            in if f_residency_generation fence \<noteq> rgen then
                 verdict AV_stale_residency_generation ''residency generation mismatch''
               else if f_composition_generation fence \<noteq> cgen then
                 verdict AV_stale_composition_generation ''composition generation mismatch''
               else if f_artifact_generation fence \<noteq> agen then
                 verdict AV_stale_artifact_generation ''artifact generation mismatch''
               else verdict AV_authorized ''fence current''))"

definition bind_authority ::
    "AdapterId \<Rightarrow> AuthorityFence \<Rightarrow> Fabric \<Rightarrow> (Error + AuthorityCheck) \<times> Fabric" where
  "bind_authority i fence fb =
    (let check = check_fence fence fb in
     if \<not> authorized check then (Inr check, fb)
     else if (case fb_active_fence fb of None \<Rightarrow> False | Some a \<Rightarrow> f_adapter a \<noteq> i) then
       (throw EC_authority_conflict ''another adapter holds exclusive execution authority'', fb)
     else case map_of (fb_authority fb) (Id_str i) of
       None \<Rightarrow> (throw EC_not_found ''no authority record for adapter'', fb)
     | Some ar \<Rightarrow>
       let ar' = ar\<lparr>ar_fence := fence, ar_has_authority := True, ar_active := True,
                    ar_lifecycle := set_state L_active (ar_lifecycle ar)\<rparr>
       in (Inr check,
           fb\<lparr>fb_authority := smap_set (Id_str i) ar' (fb_authority fb),
              fb_current_attempt := smap_set (Id_str i) (f_attempt fence) (fb_current_attempt fb),
              fb_active_fence := Some fence\<rparr>))"

definition reuse_safe :: "AuthorityFence \<Rightarrow> Fabric \<Rightarrow> AuthorityCheck" where
  "reuse_safe fence fb =
    (let check = check_fence fence fb in
     if \<not> authorized check then check
     else case authority_record (f_adapter fence) fb of
       None \<Rightarrow> verdict AV_unknown ''no authority for reuse''
     | Some ar \<Rightarrow>
       if \<not> ar_has_authority ar then verdict AV_unknown ''no authority for reuse''
       else case map_of (fb_residencies fb) (Id_str (ar_instance ar)) of
         None \<Rightarrow> verdict AV_unknown ''reuse denied: not resident/ready''
       | Some r \<Rightarrow>
         if rr_ready r then verdict AV_authorized ''reuse permitted: current and resident''
         else verdict AV_unknown ''reuse denied: not resident/ready'')"

section \<open>Invalidation, eviction and pinning\<close>

definition invalidate ::
    "AdapterId \<Rightarrow> InvalidationTrigger \<Rightarrow> string \<Rightarrow> Fabric \<Rightarrow> InvalidationRecord \<times> Fabric" where
  "invalidate i trigger reason fb =
    (let rec0 = \<lparr>iv_trigger = trigger, iv_adapter = i, iv_reason = reason,
                 iv_epoch = fb_epoch fb,
                 iv_prior_generation =
                   (case adapter i fb of None \<Rightarrow> gen_none | Some d \<Rightarrow> ad_generation d),
                 iv_detail = []\<rparr>;
         fb1 = fb\<lparr>fb_invalidation_log := fb_invalidation_log fb @ [rec0]\<rparr>;
         fb2 = (case map_of (fb_authority fb1) (Id_str i) of
                  None \<Rightarrow> fb1
                | Some ar \<Rightarrow>
                    let ar1 = ar\<lparr>ar_active := False, ar_has_authority := False\<rparr>;
                        ar2 = (if lc_state (ar_lifecycle ar1) \<noteq> L_invalidated
                               then ar1\<lparr>ar_lifecycle := set_state L_invalidated (ar_lifecycle ar1)\<rparr>
                               else ar1)
                    in fb1\<lparr>fb_authority := smap_set (Id_str i) ar2 (fb_authority fb1)\<rparr>);
         fb3 = (case fb_active_fence fb2 of
                  None \<Rightarrow> fb2
                | Some a \<Rightarrow> if f_adapter a = i then fb2\<lparr>fb_active_fence := None\<rparr> else fb2)
     in (rec0, fb3))"

definition evict :: "AdapterInstanceId \<Rightarrow> Fabric \<Rightarrow> (bool \<times> string) \<times> Fabric" where
  "evict inst fb =
    (case map_of (fb_residencies fb) (Id_str inst) of
       None \<Rightarrow> ((False, ''no such instance''), fb)
     | Some r \<Rightarrow>
       if rr_active_refs r > 0 then ((False, ''active references''), fb)
       else if rr_pin_count r > 0 \<or> rr_protected r then ((False, ''protected or pinned''), fb)
       else ((True, ''evicted''),
             fb\<lparr>fb_residencies := smap_erase (Id_str inst) (fb_residencies fb)\<rparr>))"

definition pin :: "AdapterInstanceId \<Rightarrow> Fabric \<Rightarrow> (Error + unit) \<times> Fabric" where
  "pin inst fb =
    (case map_of (fb_residencies fb) (Id_str inst) of
       None \<Rightarrow> (throw EC_not_found ''no such instance'', fb)
     | Some r \<Rightarrow>
       (Inr (), fb\<lparr>fb_residencies := smap_set (Id_str inst)
          (r\<lparr>rr_pin_count := rr_pin_count r + 1, rr_protected := True\<rparr>) (fb_residencies fb)\<rparr>))"

definition unpin :: "AdapterInstanceId \<Rightarrow> Fabric \<Rightarrow> (Error + unit) \<times> Fabric" where
  "unpin inst fb =
    (case map_of (fb_residencies fb) (Id_str inst) of
       None \<Rightarrow> (throw EC_not_found ''no such instance'', fb)
     | Some r \<Rightarrow>
       let r1 = (if rr_pin_count r > 0 then r\<lparr>rr_pin_count := rr_pin_count r - 1\<rparr> else r);
           r2 = (if rr_pin_count r1 = 0 then r1\<lparr>rr_protected := False\<rparr> else r1)
       in (Inr (), fb\<lparr>fb_residencies := smap_set (Id_str inst) r2 (fb_residencies fb)\<rparr>))"

section \<open>Snapshots and worker events\<close>

definition snapshot :: "Fabric \<Rightarrow> FabricSnapshot" where
  "snapshot fb =
     \<lparr>fs_epoch = fb_epoch fb, fs_next_adapter_generation = fb_next_adapter_gen fb,
      fs_next_composition_generation = fb_next_composition_gen fb,
      fs_adapters = smap_values (fb_adapters fb),
      fs_compositions = smap_values (fb_compositions fb),
      fs_workers = smap_values (fb_workers fb)\<rparr>"

definition recover :: "FabricSnapshot \<Rightarrow> Fabric \<Rightarrow> Fabric" where
  "recover s fb =
     fb\<lparr>fb_epoch := fs_epoch s, fb_next_adapter_gen := fs_next_adapter_generation s,
        fb_next_composition_gen := fs_next_composition_generation s,
        fb_adapters := foldl (\<lambda>m a. smap_set (Id_str (ad_id a)) a m) [] (fs_adapters s),
        fb_compositions := foldl (\<lambda>m c. smap_set (Id_str (co_id c)) c m) [] (fs_compositions s),
        fb_workers := foldl (\<lambda>m w. smap_set (Id_str (wr_id w)) w m) [] (fs_workers s)\<rparr>"

text \<open>
  The body shared by the two authority loops: a matching record loses its authority and the
  attempt of its key is forgotten.
\<close>

definition revoke :: "AdapterAuthorityRecord \<Rightarrow> AdapterAuthorityRecord" where
  "revoke ar = ar\<lparr>ar_active := False, ar_has_authority := False,
     ar_lifecycle := set_state L_invalidated (ar_lifecycle ar)\<rparr>"

definition revoke_matching :: "(AuthorityFence \<Rightarrow> bool) \<Rightarrow> Fabric \<Rightarrow> Fabric" where
  "revoke_matching hit fb =
     fb\<lparr>fb_authority := smap_mapi (\<lambda>k ar. if hit (ar_fence ar) then revoke ar else ar) (fb_authority fb),
        fb_current_attempt :=
          foldl (\<lambda>m kv. if hit (ar_fence (snd kv)) then smap_erase (fst kv) m else m)
            (fb_current_attempt fb) (fb_authority fb)\<rparr>"

definition on_worker_down :: "WorkerId \<Rightarrow> Fabric \<Rightarrow> Fabric" where
  "on_worker_down i fb =
    (let fb1 = revoke_matching (\<lambda>f. f_worker f = i) fb;
         fb2 = fb1\<lparr>fb_residencies :=
                 smap_mapi (\<lambda>k r. if rr_worker r = i then r\<lparr>rr_ready := False\<rparr> else r) (fb_residencies fb1)\<rparr>;
         fb3 = (case map_of (fb_workers fb2) (Id_str i) of
                  None \<Rightarrow> fb2
                | Some w \<Rightarrow> fb2\<lparr>fb_workers :=
                    smap_set (Id_str i) (w\<lparr>wr_connected := False\<rparr>) (fb_workers fb2)\<rparr>)
     in case fb_active_fence fb3 of
          None \<Rightarrow> fb3
        | Some a \<Rightarrow> if f_worker a = i then fb3\<lparr>fb_active_fence := None\<rparr> else fb3)"

definition on_worker_restart :: "WorkerId \<Rightarrow> WorkerBootId \<Rightarrow> Fabric \<Rightarrow> Fabric" where
  "on_worker_restart i new_boot fb =
    (let fb1 = revoke_matching (\<lambda>f. f_worker f = i \<and> f_boot f \<noteq> new_boot) fb;
         fb2 = fb1\<lparr>fb_residencies :=
                 smap_mapi (\<lambda>k r. if rr_worker r = i \<and> rr_boot r \<noteq> new_boot
                    then r\<lparr>rr_ready := False, rr_migration := MS_none\<rparr> else r) (fb_residencies fb1)\<rparr>
     in case fb_active_fence fb2 of
          None \<Rightarrow> fb2
        | Some a \<Rightarrow> if f_worker a = i \<and> f_boot a \<noteq> new_boot
                    then fb2\<lparr>fb_active_fence := None\<rparr> else fb2)"

end
