(* ===== verification/AF_FabricInv.thy ===== *)
theory AF_FabricInv
  imports AF_Fabric
begin

text \<open>
  What every history of the fabric keeps. \<open>fabric_step\<close> is one call of a member function (or one
  of the in-place updates the coordinator makes through \<open>residency\<close> and \<open>authority_record\<close>);
  \<open>fabric_reachable\<close> is any sequence of them from a fresh fabric. Three invariants are proved:
  \<open>exclusive\<close> (a record that is active or holds authority carries the one active fence),
  \<open>maps_ok\<close> (ordered maps keyed by the identity of the stored value) and \<open>durable_ok\<close> (what is
  stored can be written to a snapshot and read back).
\<close>

section \<open>Fences\<close>

text \<open>When a fence is current, as one conjunction over the fabric's state.\<close>

definition fence_current :: "AuthorityFence \<Rightarrow> Fabric \<Rightarrow> bool" where
  "fence_current f fb \<longleftrightarrow>
     (case adapter (f_adapter f) fb of None \<Rightarrow> False | Some d \<Rightarrow>
        f_adapter_generation f = ad_generation d \<and>
        f_base_model_revision f = ad_base_model_revision d) \<and>
     \<not> Id_is_nil (f_adapter f) \<and> \<not> Id_is_nil (f_worker f) \<and> \<not> Id_is_nil (f_boot f) \<and>
     \<not> Id_is_nil (f_attempt f) \<and>
     f_epoch f = fb_epoch fb \<and>
     (case worker (f_worker f) fb of None \<Rightarrow> False | Some w \<Rightarrow>
        wr_connected w \<and> wr_boot w = f_boot f) \<and>
     (case map_of (fb_current_attempt fb) (Id_str (f_adapter f)) of None \<Rightarrow> True | Some a \<Rightarrow>
        a = f_attempt f) \<and>
     (case authority_record (f_adapter f) fb of
        None \<Rightarrow> f_residency_generation f = Generation 1 \<and>
                f_composition_generation f = Generation 1 \<and> f_artifact_generation f = Generation 1
      | Some ar \<Rightarrow> f_residency_generation f = f_residency_generation (ar_fence ar) \<and>
                f_composition_generation f = f_composition_generation (ar_fence ar) \<and>
                f_artifact_generation f = f_artifact_generation (ar_fence ar))"

lemma authorized_verdict [simp]: "authorized (verdict v r) \<longleftrightarrow> v = AV_authorized"
  by (simp add: authorized_def verdict_def)

lemma authorized_guard:
  "v \<noteq> AV_authorized \<Longrightarrow> authorized (if b then verdict v r else x) \<longleftrightarrow> \<not> b \<and> authorized x"
  by simp

lemma check_fence_current: "authorized (check_fence f fb) \<longleftrightarrow> fence_current f fb"
proof (cases "adapter (f_adapter f) fb")
  case d: (Some d)
  show ?thesis
  proof (cases "worker (f_worker f) fb")
    case w: (Some w)
    show ?thesis
      unfolding check_fence_def fence_current_def d w option.case Let_def
      by (cases "authority_record (f_adapter f) fb";
          cases "map_of (fb_current_attempt fb) (Id_str (f_adapter f))")
        (auto simp: authorized_guard split del: if_split)
  qed (simp add: check_fence_def fence_current_def d)
qed (simp add: check_fence_def fence_current_def)

lemma check_fence_authorized:
  assumes "fence_current f fb"
  shows "check_fence f fb = verdict AV_authorized ''fence current''"
proof -
  note cur = assms [unfolded fence_current_def]
  obtain d where d: "adapter (f_adapter f) fb = Some d"
    using cur by (cases "adapter (f_adapter f) fb") simp_all
  obtain w where w: "worker (f_worker f) fb = Some w"
    using cur by (cases "worker (f_worker f) fb") simp_all
  show ?thesis
    using cur unfolding check_fence_def d w option.case Let_def
    by (cases "authority_record (f_adapter f) fb";
        cases "map_of (fb_current_attempt fb) (Id_str (f_adapter f))") simp_all
qed

text \<open>Binding: what it needs, and what it changes.\<close>

lemma bind_authority_cases:
  obtains (rejected) "\<not> fence_current f fb" "bind_authority i f fb = (Inr (check_fence f fb), fb)"
  | (conflict) a m where "fence_current f fb" "fb_active_fence fb = Some a" "f_adapter a \<noteq> i"
      "bind_authority i f fb = (throw EC_authority_conflict m, fb)"
  | (missing) m where "fence_current f fb" "\<And>a. fb_active_fence fb = Some a \<Longrightarrow> f_adapter a = i"
      "authority_record i fb = None" "bind_authority i f fb = (throw EC_not_found m, fb)"
  | (bound) ar where "fence_current f fb" "\<And>a. fb_active_fence fb = Some a \<Longrightarrow> f_adapter a = i"
      "authority_record i fb = Some ar"
      "bind_authority i f fb = (Inr (verdict AV_authorized ''fence current''),
         fb\<lparr>fb_authority := smap_set (Id_str i)
              (ar\<lparr>ar_fence := f, ar_has_authority := True, ar_active := True,
                  ar_lifecycle := set_state L_active (ar_lifecycle ar)\<rparr>) (fb_authority fb),
            fb_current_attempt := smap_set (Id_str i) (f_attempt f) (fb_current_attempt fb),
            fb_active_fence := Some f\<rparr>)"
proof (cases "fence_current f fb")
  case False
  then show ?thesis
    by (intro rejected) (simp_all add: bind_authority_def check_fence_current Let_def)
next
  case True
  note c = check_fence_authorized [OF True]
  show ?thesis
  proof (cases "\<exists>a. fb_active_fence fb = Some a \<and> f_adapter a \<noteq> i")
    case active: True
    then show ?thesis
      using True by (auto intro!: conflict simp: bind_authority_def c Let_def)
  next
    case free: False
    then have g: "\<not> (case fb_active_fence fb of None \<Rightarrow> False | Some a \<Rightarrow> f_adapter a \<noteq> i)"
      by (auto split: option.splits)
    show ?thesis
    proof (cases "authority_record i fb")
      case None
      with True free g show ?thesis
        by (intro missing) (auto simp: bind_authority_def c Let_def authority_record_def)
    next
      case (Some ar)
      with True free g show ?thesis
        by (intro bound) (auto simp: bind_authority_def c Let_def authority_record_def)
    qed
  qed
qed

section \<open>Histories\<close>

inductive fabric_step :: "Fabric \<Rightarrow> Fabric \<Rightarrow> bool" where
  step_epoch: "fabric_step fb (snd (advance_epoch fb))"
| step_register: "descriptor_ok d \<Longrightarrow> fabric_step fb (snd (register_adapter d fb))"
| step_publish: "length ids < 2 ^ 32 \<Longrightarrow> string_ok policy \<Longrightarrow>
    publish_composition ids policy rng fb = (r, rng', fb') \<Longrightarrow> fabric_step fb fb'"
| step_worker: "worker_ok r \<Longrightarrow> fabric_step fb (register_worker r fb)"
| step_create: "create_instance i w boot dev n rng fb = (r, rng', fb') \<Longrightarrow> fabric_step fb fb'"
| step_bind: "fabric_step fb (snd (bind_authority (f_adapter f) f fb))"
| step_invalidate: "fabric_step fb (snd (invalidate i trigger reason fb))"
| step_evict: "fabric_step fb (snd (evict inst fb))"
| step_pin: "fabric_step fb (snd (pin inst fb))"
| step_unpin: "fabric_step fb (snd (unpin inst fb))"
| step_down: "fabric_step fb (on_worker_down i fb)"
| step_restart: "fabric_step fb (on_worker_restart i b fb)"
| step_recover: "snapshot_ok s \<Longrightarrow> \<not> gen_is_none (fs_next_adapter_generation s) \<Longrightarrow>
    \<not> gen_is_none (fs_next_composition_generation s) \<Longrightarrow> fabric_step fb (recover s fb)"
| step_residency: "map_of (fb_residencies fb) k = Some r \<Longrightarrow> rr_instance r' = rr_instance r \<Longrightarrow>
    fabric_step fb (fb\<lparr>fb_residencies := smap_set k r' (fb_residencies fb)\<rparr>)"
| step_lifecycle: "map_of (fb_authority fb) k = Some ar \<Longrightarrow>
    fabric_step fb (fb\<lparr>fb_authority := smap_set k (ar\<lparr>ar_lifecycle := lc\<rparr>) (fb_authority fb)\<rparr>)"
| step_capacity: "fabric_step fb (fb\<lparr>fb_capacity := c\<rparr>)"

inductive fabric_reachable :: "Fabric \<Rightarrow> bool" where
  reach_default: "fabric_reachable Fabric_default"
| reach_new: "fabric_reachable (Fabric_new limits)"
| reach_step: "fabric_reachable fb \<Longrightarrow> fabric_step fb fb' \<Longrightarrow> fabric_reachable fb'"

lemma fabric_reachable_steps:
  "fabric_step\<^sup>*\<^sup>* fb fb' \<Longrightarrow> fabric_reachable fb \<Longrightarrow> fabric_reachable fb'"
  by (induction rule: rtranclp_induct) (auto intro: reach_step)

text \<open>What the operations that draw identities or return \<open>None\<close> leave behind.\<close>

lemma publish_effect:
  assumes "publish_composition ids policy rng fb = (r, rng', fb')"
  obtains "fb' = fb" "\<And>c. r \<noteq> Some (Inr c)"
  | c where "r = Some (Inr c)"
      "fb' = fb\<lparr>fb_compositions := smap_set (Id_str (co_id c)) c (fb_compositions fb),
               fb_next_composition_gen := gen_next (fb_next_composition_gen fb)\<rparr>"
  using assms
  by (auto simp: publish_composition_def throw_def
      split: list.splits option.splits sum.splits prod.splits)

lemma create_effect:
  assumes "create_instance i w boot dev n rng fb = (r, rng', fb')"
  obtains (unknown) "fb' = fb" "adapter i fb = None" "r = throw EC_not_found ''unknown adapter''"
  | (made) d inst where "adapter i fb = Some d" "r = Inr inst" "inst = fst (Id_generate rng)"
      "fb' = fb\<lparr>fb_residencies := smap_set (Id_str inst)
                 (fresh_residency i d inst w boot dev n (fb_epoch fb)) (fb_residencies fb),
               fb_authority := smap_set (Id_str i)
                 (fresh_authority i d inst w boot dev (fb_epoch fb)) (fb_authority fb)\<rparr>"
proof (cases "adapter i fb")
  case None
  with assms show ?thesis by (intro unknown) (auto simp: create_instance_def)
next
  case (Some d)
  with assms show ?thesis
    by (intro made [OF _ _ refl]) (auto simp: create_instance_def case_prod_beta Let_def)
qed

lemma fresh_simps [simp]:
  "rr_instance (fresh_residency i d inst w boot dev n e) = inst"
  "ar_adapter (fresh_authority i d inst w boot dev e) = i"
  "\<not> ar_active (fresh_authority i d inst w boot dev e)"
  "\<not> ar_has_authority (fresh_authority i d inst w boot dev e)"
  by (simp_all add: fresh_residency_def fresh_authority_def)

text \<open>Invalidation touches the log, one authority record and the active fence, nothing else.\<close>

lemma invalidate_fields [simp]:
  "fb_epoch (snd (invalidate i t why fb)) = fb_epoch fb"
  "fb_next_adapter_gen (snd (invalidate i t why fb)) = fb_next_adapter_gen fb"
  "fb_next_composition_gen (snd (invalidate i t why fb)) = fb_next_composition_gen fb"
  "fb_adapters (snd (invalidate i t why fb)) = fb_adapters fb"
  "fb_compositions (snd (invalidate i t why fb)) = fb_compositions fb"
  "fb_workers (snd (invalidate i t why fb)) = fb_workers fb"
  "fb_residencies (snd (invalidate i t why fb)) = fb_residencies fb"
  "fb_capacity (snd (invalidate i t why fb)) = fb_capacity fb"
  "fb_current_attempt (snd (invalidate i t why fb)) = fb_current_attempt fb"
  by (simp_all add: invalidate_def Let_def split: option.split)

lemma revoke_simps [simp]:
  "ar_active (revoke ar) = False" "ar_has_authority (revoke ar) = False"
  "ar_adapter (revoke ar) = ar_adapter ar" "ar_fence (revoke ar) = ar_fence ar"
  "lc_state (ar_lifecycle (revoke ar)) = L_invalidated" "ar_instance (revoke ar) = ar_instance ar"
  by (simp_all add: revoke_def)

lemma invalidate_authority:
  "fb_authority (snd (invalidate i t why fb)) =
     (case map_of (fb_authority fb) (Id_str i) of None \<Rightarrow> fb_authority fb
      | Some ar \<Rightarrow> smap_set (Id_str i) (revoke ar) (fb_authority fb))"
proof (cases "map_of (fb_authority fb) (Id_str i)")
  case (Some ar)
  have "ar\<lparr>ar_active := False, ar_has_authority := False,
      ar_lifecycle := set_state L_invalidated (ar_lifecycle ar)\<rparr> = revoke ar"
    by (simp add: revoke_def)
  moreover have "ar\<lparr>ar_active := False, ar_has_authority := False\<rparr> = revoke ar"
    if "lc_state (ar_lifecycle ar) = L_invalidated"
    using that by (cases ar; cases "ar_lifecycle ar") (auto simp: revoke_def set_state_def)
  ultimately show ?thesis by (simp add: invalidate_def Let_def Some split: option.split)
qed (simp add: invalidate_def Let_def split: option.split)

lemma invalidate_active_fence:
  "fb_active_fence (snd (invalidate i t why fb)) =
     (case fb_active_fence fb of None \<Rightarrow> None | Some a \<Rightarrow> if f_adapter a = i then None else Some a)"
  by (cases "fb_active_fence fb"; cases "map_of (fb_authority fb) (Id_str i)")
    (simp_all add: invalidate_def Let_def)

definition register_accepts :: "AdapterDescriptor \<Rightarrow> bool" where
  "register_accepts d \<longleftrightarrow> \<not> Id_is_nil (ad_id d) \<and> \<not> Id_is_nil (ad_base_model d) \<and>
     \<not> Id_is_nil (ad_base_model_revision d) \<and> ad_artifact_digest d \<noteq> [] \<and> ad_memory_bytes d \<noteq> 0"

lemma register_effect:
  obtains (refused) e where "\<not> register_accepts d" "register_adapter d fb = (Inl e, fb)"
      "err_code e \<in> {EC_invalid_identity, EC_invalid_argument}"
  | (stored) d' where "register_accepts d" "d' = d\<lparr>ad_generation := fb_next_adapter_gen fb\<rparr>"
      "register_adapter d fb = (Inr d', fb\<lparr>fb_next_adapter_gen := gen_next (fb_next_adapter_gen fb),
         fb_adapters := smap_set (Id_str (ad_id d)) d' (fb_adapters fb)\<rparr>)"
proof (cases "register_accepts d")
  case True
  then show ?thesis
    by (intro stored [OF _ refl]) (simp_all add: register_accepts_def register_adapter_def Let_def)
next
  case False
  then show ?thesis
    by (intro refused [OF False, of "projl (fst (register_adapter d fb))"])
      (auto simp: register_accepts_def register_adapter_def throw_def)
qed

section \<open>Exclusive execution authority\<close>

definition exclusive :: "Fabric \<Rightarrow> bool" where
  "exclusive fb \<longleftrightarrow> (\<forall>k ar. map_of (fb_authority fb) k = Some ar \<longrightarrow>
     ar_active ar \<or> ar_has_authority ar \<longrightarrow>
     ar_active ar \<and> ar_has_authority ar \<and> fb_active_fence fb = Some (ar_fence ar) \<and>
     k = Id_str (f_adapter (ar_fence ar)))"

lemma exclusiveD:
  assumes "exclusive fb" and "map_of (fb_authority fb) k = Some ar" and "ar_active ar \<or> ar_has_authority ar"
  shows "ar_active ar" "ar_has_authority ar" "fb_active_fence fb = Some (ar_fence ar)"
    "k = Id_str (f_adapter (ar_fence ar))"
  using assms unfolding exclusive_def by blast+

lemma exclusiveI:
  assumes "\<And>k ar. map_of (fb_authority fb) k = Some ar \<Longrightarrow> ar_active ar \<or> ar_has_authority ar \<Longrightarrow>
    ar_active ar \<and> ar_has_authority ar \<and> fb_active_fence fb = Some (ar_fence ar) \<and>
    k = Id_str (f_adapter (ar_fence ar))"
  shows "exclusive fb"
  using assms unfolding exclusive_def by blast

lemma exclusive_frame:
  "exclusive fb \<Longrightarrow> fb_authority fb' = fb_authority fb \<Longrightarrow>
     fb_active_fence fb' = fb_active_fence fb \<Longrightarrow> exclusive fb'"
  by (simp add: exclusive_def)

lemma exclusive_put_idle:
  "exclusive fb \<Longrightarrow> \<not> ar_active ar \<Longrightarrow> \<not> ar_has_authority ar \<Longrightarrow>
     exclusive (fb\<lparr>fb_authority := smap_set k ar (fb_authority fb)\<rparr>)"
  by (auto simp: exclusive_def)

lemma exclusive_bind: "exclusive fb \<Longrightarrow> exclusive (snd (bind_authority (f_adapter f) f fb))"
proof (cases rule: bind_authority_cases [of f fb "f_adapter f"])
  case (bound ar)
  assume ex: "exclusive fb"
  show ?thesis unfolding bound(4) snd_conv
  proof (rule exclusiveI, goal_cases)
    case (1 k a)
    show ?case
    proof (cases "k = Id_str (f_adapter f)")
      case False
      with 1 have "map_of (fb_authority fb) k = Some a" by simp
      from exclusiveD [OF ex this 1(2)] bound(2) [of "ar_fence a"] False show ?thesis by simp
    qed (use 1 in auto)
  qed
qed simp_all

lemma exclusive_invalidate:
  assumes ex: "exclusive fb"
  shows "exclusive (snd (invalidate i trigger reason fb))"
proof (rule exclusiveI)
  fix k ar
  assume ar: "map_of (fb_authority (snd (invalidate i trigger reason fb))) k = Some ar"
    and live: "ar_active ar \<or> ar_has_authority ar"
  have k: "k \<noteq> Id_str i" and old: "map_of (fb_authority fb) k = Some ar"
    using ar live by (auto simp: invalidate_authority split: option.splits if_splits)
  from exclusiveD [OF ex old live] k show "ar_active ar \<and> ar_has_authority ar \<and>
      fb_active_fence (snd (invalidate i trigger reason fb)) = Some (ar_fence ar) \<and>
      k = Id_str (f_adapter (ar_fence ar))"
    by (auto simp: invalidate_active_fence)
qed

text \<open>Both worker events revoke the matching records and drop a matching active fence.\<close>

lemma map_of_fold_erase:
  "map_of (foldl (\<lambda>m kv. if hit (snd kv) then smap_erase (fst kv) m else m) m0 es) k
     = (if \<exists>v. (k, v) \<in> set es \<and> hit v then None else map_of m0 k)"
  by (induction es arbitrary: m0) auto

lemma exclusive_revoke:
  assumes ex: "exclusive fb"
    and auth: "fb_authority fb' = fb_authority (revoke_matching hit fb)"
    and act: "fb_active_fence fb' = (case fb_active_fence fb of None \<Rightarrow> None | Some a \<Rightarrow>
           if hit a then None else Some a)"
  shows "exclusive fb'"
proof (rule exclusiveI)
  fix k ar
  assume "map_of (fb_authority fb') k = Some ar" and live: "ar_active ar \<or> ar_has_authority ar"
  then obtain a where a: "map_of (fb_authority fb) k = Some a"
    and ar: "ar = (if hit (ar_fence a) then revoke a else a)"
    by (auto simp: auth revoke_matching_def)
  with live have "\<not> hit (ar_fence a)" "ar = a" by (auto simp: revoke_def split: if_splits)
  with exclusiveD [OF ex a] live show "ar_active ar \<and> ar_has_authority ar \<and>
      fb_active_fence fb' = Some (ar_fence ar) \<and> k = Id_str (f_adapter (ar_fence ar))"
    by (simp add: act)
qed

lemma exclusive_down: "exclusive fb \<Longrightarrow> exclusive (on_worker_down i fb)"
  by (rule exclusive_revoke [where hit = "\<lambda>f. f_worker f = i"])
    (auto simp: on_worker_down_def Let_def revoke_matching_def split: option.splits)

lemma exclusive_restart: "exclusive fb \<Longrightarrow> exclusive (on_worker_restart i b fb)"
  by (rule exclusive_revoke [where hit = "\<lambda>f. f_worker f = i \<and> f_boot f \<noteq> b"])
    (auto simp: on_worker_restart_def Let_def revoke_matching_def split: option.splits)

lemma exclusive_step: "fabric_step fb fb' \<Longrightarrow> exclusive fb \<Longrightarrow> exclusive fb'"
proof (induction rule: fabric_step.induct)
  case (step_register d fb)
  then show ?case by (cases rule: register_effect [of d fb]) (auto elim: exclusive_frame)
next
  case (step_publish ids policy rng fb r rng' fb')
  then show ?case by (cases rule: publish_effect [OF step_publish.hyps(3)]) (auto elim: exclusive_frame)
next
  case (step_create i w boot dev n rng fb r rng' fb')
  from step_create.hyps show ?case
  proof (cases rule: create_effect)
    case (made d inst)
    let ?ar = "fresh_authority i d inst w boot dev (fb_epoch fb)"
    have "exclusive (fb\<lparr>fb_authority := smap_set (Id_str i) ?ar (fb_authority fb)\<rparr>)"
      using step_create.prems by (rule exclusive_put_idle) simp_all
    then show ?thesis unfolding made(4) by (rule exclusive_frame) simp_all
  qed (use step_create in simp)
next
  case (step_lifecycle fb k ar lc)
  then show ?case by (auto simp: exclusive_def split: if_splits)
qed (auto simp: exclusive_bind exclusive_invalidate exclusive_down exclusive_restart
    advance_epoch_def register_worker_def evict_def pin_def unpin_def recover_def Let_def
    elim: exclusive_frame split: option.splits if_splits)

lemma exclusive_reachable: "fabric_reachable fb \<Longrightarrow> exclusive fb"
  by (induction rule: fabric_reachable.induct)
    (auto simp: exclusive_step, auto simp: exclusive_def Fabric_default_def Fabric_new_def Fabric_empty_def)

lemma exclusive_unique:
  assumes "exclusive fb" and "map_of (fb_authority fb) k = Some ar" and "ar_active ar \<or> ar_has_authority ar"
    and "map_of (fb_authority fb) k' = Some ar'" and "ar_active ar' \<or> ar_has_authority ar'"
  shows "k = k' \<and> ar = ar'"
  using exclusiveD [OF assms(1,2,3)] exclusiveD [OF assms(1,4,5)] assms(2,4) by simp

section \<open>The contract of the fence check and of binding\<close>

text \<open>One stale factor in a fence that is otherwise current is reported as that factor.\<close>

lemma check_fence_stale:
  assumes "fence_current f fb"
  shows "e \<noteq> f_epoch f \<Longrightarrow> ac_verdict (check_fence (f\<lparr>f_epoch := e\<rparr>) fb) = AV_stale_epoch"
    and "g \<noteq> f_adapter_generation f \<Longrightarrow>
      ac_verdict (check_fence (f\<lparr>f_adapter_generation := g\<rparr>) fb) = AV_stale_adapter_generation"
    and "b \<noteq> f_base_model_revision f \<Longrightarrow>
      ac_verdict (check_fence (f\<lparr>f_base_model_revision := b\<rparr>) fb) = AV_stale_base_model"
    and "boot \<noteq> f_boot f \<Longrightarrow> \<not> Id_is_nil boot \<Longrightarrow>
      ac_verdict (check_fence (f\<lparr>f_boot := boot\<rparr>) fb) = AV_stale_boot"
    and "a \<noteq> f_attempt f \<Longrightarrow> \<not> Id_is_nil a \<Longrightarrow>
      map_of (fb_current_attempt fb) (Id_str (f_adapter f)) = Some (f_attempt f) \<Longrightarrow>
      ac_verdict (check_fence (f\<lparr>f_attempt := a\<rparr>) fb) = AV_stale_attempt"
    and "rg \<noteq> f_residency_generation f \<Longrightarrow>
      ac_verdict (check_fence (f\<lparr>f_residency_generation := rg\<rparr>) fb) = AV_stale_residency_generation"
    and "cg \<noteq> f_composition_generation f \<Longrightarrow>
      ac_verdict (check_fence (f\<lparr>f_composition_generation := cg\<rparr>) fb) = AV_stale_composition_generation"
    and "ag \<noteq> f_artifact_generation f \<Longrightarrow>
      ac_verdict (check_fence (f\<lparr>f_artifact_generation := ag\<rparr>) fb) = AV_stale_artifact_generation"
proof -
  obtain d where d: "adapter (f_adapter f) fb = Some d"
    using assms by (auto simp: fence_current_def split: option.splits)
  obtain w where w: "worker (f_worker f) fb = Some w"
    using assms by (auto simp: fence_current_def split: option.splits)
  have att: "\<not> (case map_of (fb_current_attempt fb) (Id_str (f_adapter f)) of
      None \<Rightarrow> False | Some a \<Rightarrow> a \<noteq> f_attempt f)"
    using assms by (auto simp: fence_current_def split: option.splits)
  note cur = assms [unfolded fence_current_def d w option.case]
  note gens = cur [THEN conjunct2, THEN conjunct2, THEN conjunct2, THEN conjunct2, THEN conjunct2,
      THEN conjunct2, THEN conjunct2, THEN conjunct2]
  note defs = check_fence_def d w att Let_def verdict_def
  show "e \<noteq> f_epoch f \<Longrightarrow> ac_verdict (check_fence (f\<lparr>f_epoch := e\<rparr>) fb) = AV_stale_epoch"
    and "g \<noteq> f_adapter_generation f \<Longrightarrow>
      ac_verdict (check_fence (f\<lparr>f_adapter_generation := g\<rparr>) fb) = AV_stale_adapter_generation"
    and "b \<noteq> f_base_model_revision f \<Longrightarrow>
      ac_verdict (check_fence (f\<lparr>f_base_model_revision := b\<rparr>) fb) = AV_stale_base_model"
    and "boot \<noteq> f_boot f \<Longrightarrow> \<not> Id_is_nil boot \<Longrightarrow>
      ac_verdict (check_fence (f\<lparr>f_boot := boot\<rparr>) fb) = AV_stale_boot"
    using cur by (simp_all add: defs)
  show "a \<noteq> f_attempt f \<Longrightarrow> \<not> Id_is_nil a \<Longrightarrow>
      map_of (fb_current_attempt fb) (Id_str (f_adapter f)) = Some (f_attempt f) \<Longrightarrow>
      ac_verdict (check_fence (f\<lparr>f_attempt := a\<rparr>) fb) = AV_stale_attempt"
    using cur by (simp add: defs)
  show "rg \<noteq> f_residency_generation f \<Longrightarrow>
      ac_verdict (check_fence (f\<lparr>f_residency_generation := rg\<rparr>) fb) = AV_stale_residency_generation"
    and "cg \<noteq> f_composition_generation f \<Longrightarrow>
      ac_verdict (check_fence (f\<lparr>f_composition_generation := cg\<rparr>) fb) = AV_stale_composition_generation"
    and "ag \<noteq> f_artifact_generation f \<Longrightarrow>
      ac_verdict (check_fence (f\<lparr>f_artifact_generation := ag\<rparr>) fb) = AV_stale_artifact_generation"
    using cur att by (simp_all add: defs split: option.splits)
qed


definition bind_allowed :: "AdapterId \<Rightarrow> AuthorityFence \<Rightarrow> Fabric \<Rightarrow> bool" where
  "bind_allowed i f fb \<longleftrightarrow> fence_current f fb \<and> authority_record i fb \<noteq> None \<and>
     (case fb_active_fence fb of None \<Rightarrow> True | Some a \<Rightarrow> f_adapter a = i)"

text \<open>
  C9: \<open>bind_authority\<close> grants exactly when the fence is current, the adapter has an authority
  record and no other adapter holds the active fence. A grant makes the fence the active one,
  gives the adapter's record the authority, the fence and the lifecycle state \<open>active\<close> and changes
  no other record; a refusal (an error or a verdict that does not authorize) changes nothing.
\<close>

theorem bind_authority_exact:
  "if bind_allowed i f fb then
     fst (bind_authority i f fb) = Inr (verdict AV_authorized ''fence current'') \<and>
     fb_active_fence (snd (bind_authority i f fb)) = Some f \<and>
     (\<forall>j. authority_record j (snd (bind_authority i f fb)) =
        (if j = i then map_option (\<lambda>ar. ar\<lparr>ar_fence := f, ar_has_authority := True,
           ar_active := True, ar_lifecycle := set_state L_active (ar_lifecycle ar)\<rparr>)
           (authority_record i fb)
         else authority_record j fb))
   else snd (bind_authority i f fb) = fb \<and>
     (case fst (bind_authority i f fb) of Inl e \<Rightarrow> True | Inr v \<Rightarrow> \<not> authorized v)"
proof (cases rule: bind_authority_cases [of f fb i])
  case (bound ar)
  then have "bind_allowed i f fb" by (cases "fb_active_fence fb") (simp_all add: bind_allowed_def)
  with bound show ?thesis by (simp add: authority_record_def)
qed (simp_all add: bind_allowed_def check_fence_current throw_def)

end
