(* ===== verification/AF_Durable.thy ===== *)
theory AF_Durable
  imports AF_FabricInv
begin

text \<open>
  Publication of compositions, the storage invariants of the fabric, and durability: what a
  history has stored can be written to a snapshot, read back, and recovered, and recovering
  restores every durable map exactly.
\<close>

section \<open>Publishing a composition\<close>

text \<open>The builder \<open>publish_composition\<close> has filled when every member was accepted.\<close>

definition publish_builder ::
    "AdapterDescriptor list \<Rightarrow> string \<Rightarrow> CompositionGeneration \<Rightarrow> CompositionBuilder" where
  "publish_builder ds policy gen =
     \<lparr>cb_base = ad_base_model (hd ds), cb_rev = ad_base_model_revision (hd ds),
      cb_policy = policy, cb_gen = gen, cb_descriptors = ds, cb_members = map member_of ds\<rparr>"

text \<open>
  The condition under which a list of adapters can be published: all known, no adapter twice, one
  base model and revision, every generation set, and no target module claimed twice.
\<close>

definition publishable :: "AdapterDescriptor list \<Rightarrow> bool" where
  "publishable ds \<longleftrightarrow> ds \<noteq> [] \<and> distinct (map ad_id ds) \<and>
     (\<forall>d \<in> set ds. \<not> gen_is_none (ad_generation d) \<and>
        ad_base_model d = ad_base_model (hd ds) \<and>
        ad_base_model_revision d = ad_base_model_revision (hd ds)) \<and>
     distinct (module_names ds)"

lemma publish_adds_known:
  "map (\<lambda>i. adapter i fb) ids = map Some ds \<Longrightarrow> publish_adds fb ids b = builder_add_all ds b"
proof (induction ids arbitrary: ds b)
  case (Cons i ids)
  then obtain d ds' where "ds = d # ds'" by (cases ds) auto
  with Cons show ?case by (cases "builder_add d b") auto
qed simp

lemma publish_adds_unknown:
  "i \<in> set ids \<Longrightarrow> adapter i fb = None \<Longrightarrow> \<exists>e. publish_adds fb ids b = Inl e"
proof (induction ids arbitrary: b)
  case (Cons j ids)
  show ?case
  proof (cases "adapter j fb")
    case None
    then show ?thesis by (simp add: throw_def)
  next
    case (Some d)
    with Cons have i: "i \<in> set ids" "adapter i fb = None" by auto
    show ?thesis
    proof (cases "builder_add d b")
      case (Inr b')
      with Some Cons.IH [OF i, of b'] show ?thesis by simp
    qed (simp add: Some)
  qed
qed simp

lemma known_or_unknown:
  obtains ds where "map (\<lambda>i. adapter i fb) ids = map Some ds"
  | i where "i \<in> set ids" "adapter i fb = None"
proof (cases "\<forall>i \<in> set ids. adapter i fb \<noteq> None")
  case True
  then have "map (\<lambda>i. adapter i fb) ids = map Some (map (\<lambda>i. the (adapter i fb)) ids)" by auto
  then show ?thesis by (rule that(1))
next
  case False
  then show ?thesis using that(2) by blast
qed

lemma publish_cases:
  fixes rng :: Rng
  obtains (published) ds where "map (\<lambda>i. adapter i fb) ids = map Some ds" "publishable ds"
      "publish_composition ids policy rng fb =
         (let c = composition_of (publish_builder ds policy (fb_next_composition_gen fb))
                    (fst (Id_generate rng))
          in (Some (Inr c), snd (Id_generate rng :: CompositionId \<times> Rng),
              fb\<lparr>fb_compositions := smap_set (Id_str (co_id c)) c (fb_compositions fb),
                 fb_next_composition_gen := gen_next (fb_next_composition_gen fb)\<rparr>))"
  | (rejected) e rng' where "\<nexists>ds. map (\<lambda>i. adapter i fb) ids = map Some ds \<and> publishable ds"
      "publish_composition ids policy rng fb = (Some (Inl e), rng', fb)"
proof (cases rule: known_or_unknown [of fb ids])
  case (2 i)
  then obtain j js where ids: "ids = j # js" by (cases ids) auto
  have no: "\<nexists>ds. map (\<lambda>i. adapter i fb) ids = map Some ds \<and> publishable ds"
    using 2 by (metis (mono_tags, lifting) in_set_conv_nth length_map nth_map option.distinct(1))
  show ?thesis
  proof (cases "adapter j fb")
    case None
    with no ids show ?thesis
      by (intro rejected) (simp_all add: publish_composition_def throw_def)
  next
    case (Some d)
    obtain e where "publish_adds fb ids (CompositionBuilder_new (ad_base_model d)
        (ad_base_model_revision d) policy (fb_next_composition_gen fb)) = Inl e"
      using publish_adds_unknown [OF 2] by blast
    with Some ids no show ?thesis
      by (intro rejected) (simp_all add: publish_composition_def)
  qed
next
  case (1 ds)
  have uniq: "ds' = ds" if "map (\<lambda>i. adapter i fb) ids = map Some ds'" for ds'
  proof -
    have "map the (map Some ds') = map the (map Some ds)" using that 1 by simp
    then show ?thesis by (simp add: comp_def)
  qed
  have no: "\<nexists>ds'. map (\<lambda>i. adapter i fb) ids = map Some ds' \<and> publishable ds'"
    if "\<not> publishable ds"
    using that uniq by blast
  show ?thesis
  proof (cases ids)
    case Nil
    with 1 show ?thesis
      by (intro rejected) (auto simp: publish_composition_def throw_def publishable_def)
  next
    case (Cons j js)
    with 1 obtain d ds0 where ds: "ds = d # ds0" by (cases ds) auto
    with 1 Cons have j: "adapter j fb = Some d" by simp
    let ?start = "CompositionBuilder_new (ad_base_model d) (ad_base_model_revision d) policy
        (fb_next_composition_gen fb)"
    let ?b = "publish_builder ds policy (fb_next_composition_gen fb)"
    have b: "?b = ?start\<lparr>cb_members := cb_members ?start @ map member_of ds,
        cb_descriptors := cb_descriptors ?start @ ds\<rparr>"
      unfolding ds publish_builder_def CompositionBuilder_new_def by simp
    have adds: "publish_adds fb ids ?start = builder_add_all ds ?start"
      by (rule publish_adds_known [OF 1])
    have pub: "publishable ds \<longleftrightarrow> builder_add_all ds ?start = Inr ?b \<and> distinct (module_names ds)"
      unfolding builder_add_all_iff [OF builder_inv_new] b [symmetric]
      by (auto simp: publishable_def member_ok_def CompositionBuilder_new_def ds)
    show ?thesis
    proof (cases "builder_add_all ds ?start")
      case (Inl e)
      then have "\<not> publishable ds" using pub by simp
      then show ?thesis
        by (rule rejected [OF no]) (use Cons j Inl adds in \<open>simp add: publish_composition_def\<close>)
    next
      case (Inr b')
      then have b': "b' = ?b" using builder_add_all_iff [OF builder_inv_new] b by simp
      have inv: "builder_inv ?b"
        using Inr [unfolded b'] builder_add_all_iff [OF builder_inv_new, of ds _ _ _ _ ?b]
        by (auto simp: builder_inv_def publish_builder_def member_ok_def CompositionBuilder_new_def ds)
      have step: "publish_composition ids policy rng fb =
          (case builder_build ?b rng of
             (None, rng') \<Rightarrow> (None, rng', fb)
           | (Some (Inl e), rng') \<Rightarrow> (Some (Inl e), rng', fb)
           | (Some (Inr c), rng') \<Rightarrow>
               (Some (Inr c), rng',
                fb\<lparr>fb_compositions := smap_set (Id_str (co_id c)) c (fb_compositions fb),
                   fb_next_composition_gen := gen_next (fb_next_composition_gen fb)\<rparr>))"
        using Cons j Inr b' adds by (simp add: publish_composition_def)
      from inv show ?thesis
      proof (cases rule: builder_build_cases [of ?b rng])
        case built
        then have "publishable ds" using pub Inr b' by (simp add: publish_builder_def)
        with 1 step built(3) show ?thesis by (intro published) (simp_all add: Let_def)
      next
        case (rejected e)
        then have "\<not> publishable ds" using pub ds by (simp add: publish_builder_def)
        then show ?thesis by (rule that(2) [OF no]) (use step rejected(3) in simp)
      qed
    qed
  qed
qed

lemma publish_defined: "fst (publish_composition ids policy rng fb) \<noteq> None"
  by (cases rule: publish_cases [of fb ids policy rng]) (simp_all add: Let_def)

section \<open>The maps\<close>

definition maps_ok :: "Fabric \<Rightarrow> bool" where
  "maps_ok fb \<longleftrightarrow>
     smap_ok (fb_adapters fb) \<and> keyed_by (\<lambda>d. Id_str (ad_id d)) (fb_adapters fb) \<and>
     smap_ok (fb_compositions fb) \<and> keyed_by (\<lambda>c. Id_str (co_id c)) (fb_compositions fb) \<and>
     smap_ok (fb_workers fb) \<and> keyed_by (\<lambda>w. Id_str (wr_id w)) (fb_workers fb) \<and>
     smap_ok (fb_residencies fb) \<and> keyed_by (\<lambda>r. Id_str (rr_instance r)) (fb_residencies fb) \<and>
     smap_ok (fb_authority fb) \<and> keyed_by (\<lambda>a. Id_str (ar_adapter a)) (fb_authority fb)"

lemma maps_ok_frame:
  "maps_ok fb \<Longrightarrow> fb_adapters fb' = fb_adapters fb \<Longrightarrow> fb_compositions fb' = fb_compositions fb \<Longrightarrow>
     fb_workers fb' = fb_workers fb \<Longrightarrow> fb_residencies fb' = fb_residencies fb \<Longrightarrow>
     fb_authority fb' = fb_authority fb \<Longrightarrow> maps_ok fb'"
  by (simp add: maps_ok_def)

lemma maps_ok_fields [simp]:
  "maps_ok (fb\<lparr>fb_epoch := e\<rparr>) = maps_ok fb"
  "maps_ok (fb\<lparr>fb_next_adapter_gen := ga\<rparr>) = maps_ok fb"
  "maps_ok (fb\<lparr>fb_next_composition_gen := gc\<rparr>) = maps_ok fb"
  "maps_ok (fb\<lparr>fb_invalidation_log := l\<rparr>) = maps_ok fb"
  "maps_ok (fb\<lparr>fb_capacity := cap\<rparr>) = maps_ok fb"
  "maps_ok (fb\<lparr>fb_active_fence := a\<rparr>) = maps_ok fb"
  "maps_ok (fb\<lparr>fb_current_attempt := t\<rparr>) = maps_ok fb"
  by (simp_all add: maps_ok_def)

lemma maps_ok_lookup:
  assumes "maps_ok fb"
  shows "map_of (fb_workers fb) k = Some w \<Longrightarrow> Id_str (wr_id w) = k"
    and "map_of (fb_residencies fb) k = Some r \<Longrightarrow> Id_str (rr_instance r) = k"
    and "map_of (fb_authority fb) k = Some a \<Longrightarrow> Id_str (ar_adapter a) = k"
  using assms unfolding maps_ok_def by (auto dest: keyed_by_lookup)

lemma maps_ok_put:
  assumes "maps_ok fb"
  shows "k = Id_str (ad_id d) \<Longrightarrow> maps_ok (fb\<lparr>fb_adapters := smap_set k d (fb_adapters fb)\<rparr>)"
    and "k = Id_str (co_id c) \<Longrightarrow> maps_ok (fb\<lparr>fb_compositions := smap_set k c (fb_compositions fb)\<rparr>)"
    and "k = Id_str (wr_id w) \<Longrightarrow> maps_ok (fb\<lparr>fb_workers := smap_set k w (fb_workers fb)\<rparr>)"
    and "k = Id_str (rr_instance r) \<Longrightarrow> maps_ok (fb\<lparr>fb_residencies := smap_set k r (fb_residencies fb)\<rparr>)"
    and "k = Id_str (ar_adapter a) \<Longrightarrow> maps_ok (fb\<lparr>fb_authority := smap_set k a (fb_authority fb)\<rparr>)"
  using assms unfolding maps_ok_def by (simp_all add: smap_ok_set keyed_by_set)

lemma maps_ok_revoke: "maps_ok fb \<Longrightarrow> maps_ok (revoke_matching hit fb)"
  by (auto simp: maps_ok_def revoke_matching_def revoke_def intro: keyed_by_mapi)

lemma maps_ok_residencies:
  "maps_ok fb \<Longrightarrow> (\<And>k r. rr_instance (g k r) = rr_instance r) \<Longrightarrow>
     maps_ok (fb\<lparr>fb_residencies := smap_mapi g (fb_residencies fb)\<rparr>)"
  by (auto simp: maps_ok_def intro: keyed_by_mapi)

lemma maps_ok_down: "maps_ok fb \<Longrightarrow> maps_ok (on_worker_down i fb)"
proof -
  assume ok: "maps_ok fb"
  let ?fb2 = "(revoke_matching (\<lambda>f. f_worker f = i) fb)\<lparr>fb_residencies :=
      smap_mapi (\<lambda>k r. if rr_worker r = i then r\<lparr>rr_ready := False\<rparr> else r)
        (fb_residencies (revoke_matching (\<lambda>f. f_worker f = i) fb))\<rparr>"
  have 2: "maps_ok ?fb2" using ok by (intro maps_ok_residencies maps_ok_revoke) auto
  have 3: "maps_ok (?fb2\<lparr>fb_workers := smap_set (Id_str i) (w\<lparr>wr_connected := False\<rparr>) (fb_workers ?fb2)\<rparr>)"
    if "map_of (fb_workers ?fb2) (Id_str i) = Some w" for w
    using maps_ok_lookup(1) [OF 2 that] by (intro maps_ok_put(3) [OF 2]) simp
  show ?thesis
    unfolding on_worker_down_def Let_def
    using 2 3 by (auto split: option.splits)
qed

lemma maps_ok_restart: "maps_ok fb \<Longrightarrow> maps_ok (on_worker_restart i b fb)"
proof -
  assume ok: "maps_ok fb"
  let ?hit = "\<lambda>f. f_worker f = i \<and> f_boot f \<noteq> b"
  have "maps_ok ((revoke_matching ?hit fb)\<lparr>fb_residencies :=
      smap_mapi (\<lambda>k r. if rr_worker r = i \<and> rr_boot r \<noteq> b
         then r\<lparr>rr_ready := False, rr_migration := MS_none\<rparr> else r)
        (fb_residencies (revoke_matching ?hit fb))\<rparr>)"
    using ok by (intro maps_ok_residencies maps_ok_revoke) auto
  then show ?thesis
    unfolding on_worker_restart_def Let_def by (auto split: option.splits)
qed

lemma maps_ok_recover: "maps_ok fb \<Longrightarrow> maps_ok (recover s fb)"
  by (simp add: maps_ok_def recover_def smap_ok_fold keyed_by_fold)

lemma maps_ok_step: "fabric_step fb fb' \<Longrightarrow> maps_ok fb \<Longrightarrow> maps_ok fb'"
proof (induction rule: fabric_step.induct)
  case (step_register d fb)
  then show ?case
  proof (cases rule: register_effect [of d fb])
    case (stored d')
    have "maps_ok (fb\<lparr>fb_adapters := smap_set (Id_str (ad_id d)) d' (fb_adapters fb)\<rparr>)"
      using step_register.prems stored(2) by (intro maps_ok_put(1)) simp_all
    then show ?thesis unfolding stored(3) by (rule maps_ok_frame) simp_all
  qed simp
next
  case (step_publish ids policy rng fb r rng' fb')
  from step_publish.hyps(3) show ?case
  proof (cases rule: publish_effect)
    case (2 c)
    have "maps_ok (fb\<lparr>fb_compositions := smap_set (Id_str (co_id c)) c (fb_compositions fb)\<rparr>)"
      using step_publish.prems by (intro maps_ok_put(2)) simp_all
    then show ?thesis unfolding 2(2) by (rule maps_ok_frame) simp_all
  qed (use step_publish in simp)
next
  case (step_worker r fb)
  then show ?case by (simp add: register_worker_def maps_ok_put)
next
  case (step_create i w boot dev n rng fb r rng' fb')
  from step_create.hyps show ?case
  proof (cases rule: create_effect)
    case (made d inst)
    have "maps_ok (fb\<lparr>fb_residencies := smap_set (Id_str inst)
        (fresh_residency i d inst w boot dev n (fb_epoch fb)) (fb_residencies fb)\<rparr>)"
      using step_create.prems by (intro maps_ok_put(4)) simp_all
    from maps_ok_put(5) [OF this, of "Id_str i" "fresh_authority i d inst w boot dev (fb_epoch fb)"]
    show ?thesis unfolding made(4) by simp
  qed (use step_create in simp)
next
  case (step_bind fb f)
  show ?case
  proof (cases rule: bind_authority_cases [of f fb "f_adapter f"])
    case (bound ar)
    let ?ar = "ar\<lparr>ar_fence := f, ar_has_authority := True, ar_active := True,
        ar_lifecycle := set_state L_active (ar_lifecycle ar)\<rparr>"
    have "Id_str (ar_adapter ar) = Id_str (f_adapter f)"
      using maps_ok_lookup(3) [OF step_bind] bound(3) by (simp add: authority_record_def)
    then have "maps_ok (fb\<lparr>fb_authority := smap_set (Id_str (f_adapter f)) ?ar (fb_authority fb)\<rparr>)"
      by (intro maps_ok_put(5) [OF step_bind]) simp
    then show ?thesis unfolding bound(4) snd_conv by (rule maps_ok_frame) simp_all
  qed (use step_bind in simp_all)
next
  case (step_invalidate fb i trigger reason)
  show ?case
  proof (cases "map_of (fb_authority fb) (Id_str i)")
    case None
    with step_invalidate show ?thesis
      by (elim maps_ok_frame) (simp_all add: invalidate_authority)
  next
    case (Some ar)
    have "maps_ok (fb\<lparr>fb_authority := smap_set (Id_str i) (revoke ar) (fb_authority fb)\<rparr>)"
      using maps_ok_lookup(3) [OF step_invalidate Some]
      by (intro maps_ok_put(5) [OF step_invalidate]) simp
    then show ?thesis by (rule maps_ok_frame) (simp_all add: invalidate_authority Some)
  qed
next
  case (step_evict fb inst)
  then show ?case
    by (auto simp: evict_def maps_ok_def smap_ok_erase keyed_by_erase split: option.splits)
next
  case (step_pin fb inst)
  then show ?case
    using maps_ok_lookup(2) [OF step_pin]
    by (auto simp: pin_def intro!: maps_ok_put(4) split: option.splits)
next
  case (step_unpin fb inst)
  then show ?case
    using maps_ok_lookup(2) [OF step_unpin]
    by (auto simp: unpin_def Let_def intro!: maps_ok_put(4) split: option.splits)
next
  case (step_residency fb k r r')
  then show ?case using maps_ok_lookup(2) [of fb k r] by (intro maps_ok_put(4)) auto
next
  case (step_lifecycle fb k ar lc)
  then show ?case using maps_ok_lookup(3) [of fb k ar] by (intro maps_ok_put(5)) auto
qed (auto simp: maps_ok_down maps_ok_restart maps_ok_recover advance_epoch_def Let_def
    elim: maps_ok_frame)

lemma maps_ok_reachable: "fabric_reachable fb \<Longrightarrow> maps_ok fb"
  by (induction rule: fabric_reachable.induct)
    (auto simp: maps_ok_step, auto simp: maps_ok_def Fabric_default_def Fabric_new_def Fabric_empty_def)

section \<open>What is stored can be written and read back\<close>

text \<open>What \<open>composition_ok\<close> asks, without its bound on the number of members.\<close>

definition composition_sound :: "Composition \<Rightarrow> bool" where
  "composition_sound c \<longleftrightarrow>
     (\<forall>m \<in> set (co_members c). member_valid m) \<and> co_members c \<noteq> [] \<and>
     \<not> gen_is_none (co_generation c) \<and> string_ok (co_policy c) \<and>
     string_ok (co_digest c) \<and> string_ok (co_validation_summary c) \<and>
     members_total (co_members c) = co_total_memory_bytes c \<and>
     compute_digest (co_members c) (co_policy c) = co_digest c"

lemma composition_ok_sound:
  "composition_ok c \<longleftrightarrow> composition_sound c \<and> length (co_members c) \<le> 100000"
  by (auto simp: composition_ok_def composition_sound_def vec_ok_def)

definition durable_ok :: "Fabric \<Rightarrow> bool" where
  "durable_ok fb \<longleftrightarrow>
     \<not> gen_is_none (fb_next_adapter_gen fb) \<and> \<not> gen_is_none (fb_next_composition_gen fb) \<and>
     (\<forall>d \<in> set (smap_values (fb_adapters fb)). descriptor_ok d) \<and>
     (\<forall>c \<in> set (smap_values (fb_compositions fb)). composition_sound c) \<and>
     (\<forall>w \<in> set (smap_values (fb_workers fb)). worker_ok w)"

lemma durable_ok_frame:
  "durable_ok fb \<Longrightarrow> fb_next_adapter_gen fb' = fb_next_adapter_gen fb \<Longrightarrow>
     fb_next_composition_gen fb' = fb_next_composition_gen fb \<Longrightarrow>
     fb_adapters fb' = fb_adapters fb \<Longrightarrow> fb_compositions fb' = fb_compositions fb \<Longrightarrow>
     fb_workers fb' = fb_workers fb \<Longrightarrow> durable_ok fb'"
  by (simp add: durable_ok_def)

lemma length_compute_digest [simp]: "length (compute_digest ms policy) = 16"
  by (simp add: compute_digest_def Let_def hex_encode_sv_def)

text \<open>A published composition is one the snapshot codec accepts, up to the number of members.\<close>

lemma published_composition_sound:
  assumes "publishable ds" and "length ds < 2 ^ 32" and "string_ok policy" and "\<not> gen_is_none gen"
  shows "composition_sound (composition_of (publish_builder ds policy gen) cid)"
proof -
  let ?c = "composition_of (publish_builder ds policy gen) cid"
  have f: "co_members ?c = map member_of ds" "co_generation ?c = gen" "co_policy ?c = policy"
    "co_digest ?c = compute_digest (map member_of ds) policy"
    "co_total_memory_bytes ?c = sum_list (map ad_memory_bytes ds)"
    "co_validation_summary ?c = ''members='' @ dec_str (length ds) @ '', digest='' @ co_digest ?c"
    by (simp_all add: composition_of_def publish_builder_def Let_def)
  have p: "ds \<noteq> []" "\<forall>d \<in> set ds. \<not> gen_is_none (ad_generation d)"
    using assms(1) by (simp_all add: publishable_def)
  have "length (dec_str (length ds)) \<le> 10"
    using assms(2) by (intro length_dec_str) simp_all
  then have "length (co_validation_summary ?c) \<le> 100" by (simp add: f)
  then have "string_ok (co_validation_summary ?c)" by (simp add: string_ok_def)
  moreover have "string_ok (co_digest ?c)" by (simp add: f string_ok_def)
  moreover have "\<forall>m \<in> set (co_members ?c). member_valid m"
    using p(2) by (simp add: f member_valid_def)
  moreover have "members_total (co_members ?c) = co_total_memory_bytes ?c"
    by (simp add: f members_total_sum comp_def)
  ultimately show ?thesis
    using p(1) assms(3,4) by (simp only: composition_sound_def f map_is_Nil_conv simp_thms)
qed

lemma durable_down: "durable_ok fb \<Longrightarrow> durable_ok (on_worker_down i fb)"
proof -
  assume ok: "durable_ok fb"
  have w: "worker_ok (w\<lparr>wr_connected := False\<rparr>)" if "map_of (fb_workers fb) (Id_str i) = Some w" for w
    using ok map_of_values [OF that] by (auto simp: durable_ok_def worker_ok_def)
  then show ?thesis
    using ok smap_values_set [of "Id_str i" _ "fb_workers fb"]
    by (fastforce simp: on_worker_down_def durable_ok_def revoke_matching_def Let_def split: option.split)
qed

lemma durable_ok_step: "fabric_step fb fb' \<Longrightarrow> durable_ok fb \<Longrightarrow> durable_ok fb'"
proof (induction rule: fabric_step.induct)
  case (step_register d fb)
  show ?case
  proof (cases rule: register_effect [of d fb])
    case (stored d')
    have "descriptor_ok d'" using step_register stored(2) by (simp add: descriptor_ok_def durable_ok_def)
    then show ?thesis
      using step_register.prems smap_values_set [of "Id_str (ad_id d)" d' "fb_adapters fb"] stored(2)
      unfolding stored(3) by (auto simp: durable_ok_def)
  qed (use step_register in simp)
next
  case (step_publish ids policy rng fb r rng' fb')
  show ?case
  proof (cases rule: publish_cases [of fb ids policy rng])
    case (published ds)
    let ?c = "composition_of (publish_builder ds policy (fb_next_composition_gen fb))
        (fst (Id_generate rng))"
    have "length ds = length ids" using published(1) by (metis length_map)
    then have "composition_sound ?c"
      using published(2) step_publish by (intro published_composition_sound) (simp_all add: durable_ok_def)
    then show ?thesis
      using step_publish.prems published(3) step_publish.hyps(3)
        smap_values_set [of "Id_str (co_id ?c)" ?c "fb_compositions fb"]
      by (auto simp: durable_ok_def Let_def)
  qed (use step_publish in simp)
next
  case (step_worker r fb)
  then show ?case
    using smap_values_set [of "Id_str (wr_id r)" r "fb_workers fb"]
    by (auto simp: durable_ok_def register_worker_def)
next
  case (step_create i w boot dev n rng fb r rng' fb')
  from step_create.hyps show ?case
  proof (cases rule: create_effect)
    case (made d inst)
    with step_create.prems show ?thesis by (elim durable_ok_frame) simp_all
  qed (use step_create in simp)
next
  case (step_bind fb f)
  show ?case
  proof (cases rule: bind_authority_cases [of f fb "f_adapter f"])
    case (bound ar)
    then show ?thesis using step_bind by (elim durable_ok_frame) simp_all
  qed (use step_bind in simp_all)
next
  case (step_recover s fb)
  then show ?case
    using smap_values_fold [of "\<lambda>a. Id_str (ad_id a)" "[]" "fs_adapters s"]
      smap_values_fold [of "\<lambda>c. Id_str (co_id c)" "[]" "fs_compositions s"]
      smap_values_fold [of "\<lambda>w. Id_str (wr_id w)" "[]" "fs_workers s"]
    by (auto simp: durable_ok_def recover_def snapshot_ok_def vec_ok_def composition_ok_sound)
next
  case (step_restart i b fb)
  then show ?case
    by (elim durable_ok_frame)
      (simp_all add: on_worker_restart_def revoke_matching_def Let_def split: option.split)
next
  case (step_evict fb inst)
  then show ?case by (elim durable_ok_frame) (simp_all add: evict_def split: option.split)
next
  case (step_pin fb inst)
  then show ?case by (elim durable_ok_frame) (simp_all add: pin_def split: option.split)
next
  case (step_unpin fb inst)
  then show ?case by (elim durable_ok_frame) (simp_all add: unpin_def Let_def split: option.split)
qed (auto simp: durable_down advance_epoch_def Let_def elim: durable_ok_frame)

lemma durable_ok_reachable: "fabric_reachable fb \<Longrightarrow> durable_ok fb"
  by (induction rule: fabric_reachable.induct)
    (auto simp: durable_ok_step,
     auto simp: durable_ok_def Fabric_default_def Fabric_new_def Fabric_empty_def gen_is_none_def)

definition snapshot_fits :: "Fabric \<Rightarrow> bool" where
  "snapshot_fits fb \<longleftrightarrow> length (fb_adapters fb) \<le> 100000 \<and> length (fb_compositions fb) \<le> 100000 \<and>
     length (fb_workers fb) \<le> 100000 \<and>
     (\<forall>c \<in> set (smap_values (fb_compositions fb)). length (co_members c) \<le> 100000)"

lemma snapshot_ok_reachable:
  assumes "fabric_reachable fb" and "snapshot_fits fb"
  shows "snapshot_ok (snapshot fb)"
  using durable_ok_reachable [OF assms(1)] maps_ok_reachable [OF assms(1)] assms(2)
  by (simp add: snapshot_ok_def snapshot_def durable_ok_def maps_ok_def vec_ok_def snapshot_fits_def
      distinct_values composition_ok_sound) (simp add: smap_values_def)

text \<open>The durable part of two fabrics.\<close>

definition same_durable :: "Fabric \<Rightarrow> Fabric \<Rightarrow> bool" where
  "same_durable fb fb' \<longleftrightarrow> fb_epoch fb = fb_epoch fb' \<and>
     fb_next_adapter_gen fb = fb_next_adapter_gen fb' \<and>
     fb_next_composition_gen fb = fb_next_composition_gen fb' \<and>
     fb_adapters fb = fb_adapters fb' \<and> fb_compositions fb = fb_compositions fb' \<and>
     fb_workers fb = fb_workers fb'"

lemma recover_snapshot:
  "maps_ok fb \<Longrightarrow> same_durable (recover (snapshot fb) fb0) fb"
  by (simp add: same_durable_def recover_def snapshot_def maps_ok_def rebuild_values)

lemma snapshot_ok_fits:
  assumes "fabric_reachable fb"
  shows "snapshot_ok (snapshot fb) \<longleftrightarrow> snapshot_fits fb"
proof
  assume "snapshot_ok (snapshot fb)"
  then show "snapshot_fits fb"
    by (auto simp: snapshot_ok_def snapshot_def vec_ok_def snapshot_fits_def smap_values_def composition_ok_def)
qed (rule snapshot_ok_reachable [OF assms])

text \<open>The bytes of the snapshot of a reachable fabric, and what a fabric is after recovering it.\<close>

lemma snapshot_restored:
  assumes "fabric_reachable fb"
  shows "deserialize_snapshot (serialize_snapshot (snapshot fb)) = Inr (snapshot fb) \<longleftrightarrow> snapshot_fits fb"
    and "same_durable (recover (snapshot fb) fb0) fb"
  using snapshot_ok_fits [OF assms] snapshot_roundtrip snapshot_accepted_ok
    recover_snapshot [OF maps_ok_reachable [OF assms]] by blast+


text \<open>
  \<open>recover\<close> replaces the durable part only: authority records, residencies, the active fence and
  the current attempts of the fabric it is called on stay.
\<close>

lemma recover_keeps_runtime [simp]:
  "fb_authority (recover s fb) = fb_authority fb"
  "fb_residencies (recover s fb) = fb_residencies fb"
  "fb_active_fence (recover s fb) = fb_active_fence fb"
  "fb_current_attempt (recover s fb) = fb_current_attempt fb"
  "fb_capacity (recover s fb) = fb_capacity fb"
  by (simp_all add: recover_def)

section \<open>Publication\<close>

text \<open>
  C19: \<open>publish_composition\<close> always ends in a composition or an error. It publishes exactly when
  every identity names a registered adapter and the adapters, in the given order, can be composed
  (at least one, distinct, versioned, of one base model and revision, with no module target
  twice). The published composition has exactly these members, the digest over them and the
  policy, and the next generation, is stored under its identity and uses the generation up;
  a refusal changes nothing.
\<close>

theorem publish_exact:
  "case publish_composition ids policy rng fb of (r, rng', fb') \<Rightarrow>
     if \<exists>ds. map (\<lambda>i. adapter i fb) ids = map Some ds \<and> publishable ds
     then \<exists>c ds. r = Some (Inr c) \<and> map (\<lambda>i. adapter i fb) ids = map Some ds \<and>
       co_members c = map member_of ds \<and> co_is_valid c \<and> co_policy c = policy \<and>
       co_digest c = compute_digest (co_members c) policy \<and>
       co_generation c = fb_next_composition_gen fb \<and>
       fb_next_composition_gen fb' = gen_next (fb_next_composition_gen fb) \<and>
       map_of (fb_compositions fb') (Id_str (co_id c)) = Some c
     else \<exists>e. r = Some (Inl e) \<and> fb' = fb"
proof (cases rule: publish_cases [of fb ids policy rng])
  case (published ds)
  let ?c = "composition_of (publish_builder ds policy (fb_next_composition_gen fb)) (fst (Id_generate rng))"
  have ok: "(\<exists>ds. map (\<lambda>i. adapter i fb) ids = map Some ds \<and> publishable ds) = True"
    using published by blast
  have c: "co_members ?c = map member_of ds" "co_is_valid ?c" "co_policy ?c = policy"
    "co_digest ?c = compute_digest (co_members ?c) policy"
    "co_generation ?c = fb_next_composition_gen fb"
    by (simp_all add: composition_of_def publish_builder_def Let_def)
  show ?thesis
    unfolding published(3) Let_def prod.case ok if_True
    by (intro exI [of _ ?c] exI [of _ ds]) (simp add: c published(1))
next
  case (rejected e rng')
  then show ?thesis by simp
qed

end
