(* ===== verification/AF_FabricOps.thy ===== *)
theory AF_FabricOps
  imports AF_Durable
begin

text \<open>
  The fabric's operations one by one: worker restarts and disconnections against fences, reuse,
  invalidation, re-creation of an instance, pinning against eviction, and the identities drawn
  after a restart.
\<close>

section \<open>Worker events and fences\<close>

lemma revoke_matching_fields [simp]:
  "fb_epoch (revoke_matching hit fb) = fb_epoch fb"
  "fb_adapters (revoke_matching hit fb) = fb_adapters fb"
  "fb_compositions (revoke_matching hit fb) = fb_compositions fb"
  "fb_workers (revoke_matching hit fb) = fb_workers fb"
  "fb_residencies (revoke_matching hit fb) = fb_residencies fb"
  "fb_active_fence (revoke_matching hit fb) = fb_active_fence fb"
  "fb_capacity (revoke_matching hit fb) = fb_capacity fb"
  by (simp_all add: revoke_matching_def)

lemma revoke_matching_authority:
  "map_of (fb_authority (revoke_matching hit fb)) k =
     map_option (\<lambda>ar. if hit (ar_fence ar) then revoke ar else ar) (map_of (fb_authority fb) k)"
  by (simp add: revoke_matching_def)

lemma revoke_matching_attempt:
  assumes "maps_ok fb"
  shows "map_of (fb_current_attempt (revoke_matching hit fb)) k =
     (case map_of (fb_authority fb) k of
        None \<Rightarrow> map_of (fb_current_attempt fb) k
      | Some ar \<Rightarrow> if hit (ar_fence ar) then None else map_of (fb_current_attempt fb) k)"
proof -
  have d: "distinct (map fst (fb_authority fb))"
    using assms by (simp add: maps_ok_def smap_ok_def strict_sorted_iff)
  have "(\<exists>v. (k, v) \<in> set (fb_authority fb) \<and> hit (ar_fence v)) \<longleftrightarrow>
      (case map_of (fb_authority fb) k of None \<Rightarrow> False | Some ar \<Rightarrow> hit (ar_fence ar))"
    using d by (auto simp: map_of_eq_None_iff image_iff split: option.splits
        dest: map_of_SomeD map_of_is_SomeI [OF d])
  then show ?thesis
    unfolding revoke_matching_def
    by (simp add: map_of_fold_erase [where hit = "\<lambda>ar. hit (ar_fence ar)"] split: option.split)
qed

text \<open>Reads of the state after each of the two worker events.\<close>

lemma on_worker_down_fields:
  "fb_epoch (on_worker_down i fb) = fb_epoch fb"
  "fb_adapters (on_worker_down i fb) = fb_adapters fb"
  "fb_authority (on_worker_down i fb) = fb_authority (revoke_matching (\<lambda>f. f_worker f = i) fb)"
  "fb_current_attempt (on_worker_down i fb) =
     fb_current_attempt (revoke_matching (\<lambda>f. f_worker f = i) fb)"
  "fb_active_fence (on_worker_down i fb) =
     (case fb_active_fence fb of None \<Rightarrow> None | Some a \<Rightarrow> if f_worker a = i then None else Some a)"
  "fb_residencies (on_worker_down i fb) =
     smap_mapi (\<lambda>k r. if rr_worker r = i then r\<lparr>rr_ready := False\<rparr> else r) (fb_residencies fb)"
  by (cases "fb_active_fence fb"; cases "map_of (fb_workers fb) (Id_str i)";
      simp add: on_worker_down_def Let_def)+

lemma worker_after_down:
  "worker j (on_worker_down i fb) =
     (if j = i then map_option (\<lambda>w. w\<lparr>wr_connected := False\<rparr>) (worker i fb) else worker j fb)"
  by (cases "fb_active_fence fb"; cases "map_of (fb_workers fb) (Id_str i)")
    (auto simp: on_worker_down_def worker_def Let_def)

lemma on_worker_restart_fields:
  "fb_epoch (on_worker_restart i b fb) = fb_epoch fb"
  "fb_adapters (on_worker_restart i b fb) = fb_adapters fb"
  "fb_workers (on_worker_restart i b fb) = fb_workers fb"
  "fb_authority (on_worker_restart i b fb)
     = fb_authority (revoke_matching (\<lambda>f. f_worker f = i \<and> f_boot f \<noteq> b) fb)"
  "fb_current_attempt (on_worker_restart i b fb) =
     fb_current_attempt (revoke_matching (\<lambda>f. f_worker f = i \<and> f_boot f \<noteq> b) fb)"
  "fb_active_fence (on_worker_restart i b fb) =
     (case fb_active_fence fb of None \<Rightarrow> None | Some a \<Rightarrow>
        if f_worker a = i \<and> f_boot a \<noteq> b then None else Some a)"
  "fb_residencies (on_worker_restart i b fb) =
     smap_mapi (\<lambda>k r. if rr_worker r = i \<and> rr_boot r \<noteq> b
        then r\<lparr>rr_ready := False, rr_migration := MS_none\<rparr> else r) (fb_residencies fb)"
  by (cases "fb_active_fence fb"; simp add: on_worker_restart_def Let_def)+

text \<open>The registration of a worker as the coordinator performs it, under one lock.\<close>

definition reregister :: "WorkerRecord \<Rightarrow> Fabric \<Rightarrow> Fabric" where
  "reregister r fb = on_worker_restart (wr_id r) (wr_boot r) (register_worker r fb)"

lemma worker_reregister:
  "worker j (reregister r fb) = (if j = wr_id r then Some r else worker j fb)"
  by (simp add: reregister_def worker_def on_worker_restart_fields register_worker_def)

lemma fence_needs_boot:
  "fence_current f fb \<Longrightarrow> \<exists>w. worker (f_worker f) fb = Some w \<and> wr_connected w \<and> wr_boot w = f_boot f"
  by (auto simp: fence_current_def split: option.splits)

lemma old_boot_fenced:
  assumes "f_worker f = wr_id r" and "f_boot f \<noteq> wr_boot r"
  shows "\<not> fence_current f (reregister r fb)"
  using fence_needs_boot [of f "reregister r fb"] assms by (auto simp: worker_reregister)

lemma old_boot_revoked:
  assumes "map_of (fb_authority (reregister r fb)) k = Some ar"
    and "f_worker (ar_fence ar) = wr_id r" and "f_boot (ar_fence ar) \<noteq> wr_boot r"
  shows "\<not> ar_active ar \<and> \<not> ar_has_authority ar \<and> lc_state (ar_lifecycle ar) = L_invalidated"
proof -
  obtain a where "ar = (if f_worker (ar_fence a) = wr_id r \<and> f_boot (ar_fence a) \<noteq> wr_boot r
      then revoke a else a)"
    using assms(1) by (auto simp: reregister_def on_worker_restart_fields revoke_matching_authority)
  with assms(2,3) have "ar = revoke a" by (auto split: if_splits)
  then show ?thesis by simp
qed

lemma old_boot_not_ready:
  assumes "map_of (fb_residencies (reregister r fb)) k = Some x"
    and "rr_worker x = wr_id r" and "rr_boot x \<noteq> wr_boot r"
  shows "\<not> rr_ready x"
proof -
  obtain y where "x = (if rr_worker y = wr_id r \<and> rr_boot y \<noteq> wr_boot r
      then y\<lparr>rr_ready := False, rr_migration := MS_none\<rparr> else y)"
    using assms(1) by (auto simp: reregister_def on_worker_restart_fields register_worker_def)
  with assms(2,3) show ?thesis by (auto split: if_splits)
qed

text \<open>A disconnected worker: no fence that names it is current, none of its records is live.\<close>

lemma down_fenced: "f_worker f = i \<Longrightarrow> \<not> fence_current f (on_worker_down i fb)"
  using fence_needs_boot [of f "on_worker_down i fb"] by (auto simp: worker_after_down)

lemma down_revoked:
  assumes "map_of (fb_authority (on_worker_down i fb)) k = Some ar" and "f_worker (ar_fence ar) = i"
  shows "\<not> ar_active ar \<and> \<not> ar_has_authority ar"
proof -
  obtain a where "ar = (if f_worker (ar_fence a) = i then revoke a else a)"
    using assms(1) by (auto simp: on_worker_down_fields revoke_matching_authority)
  with assms(2) have "ar = revoke a" by (auto split: if_splits)
  then show ?thesis by simp
qed

lemma down_not_ready:
  assumes "map_of (fb_residencies (on_worker_down i fb)) k = Some x" and "rr_worker x = i"
  shows "\<not> rr_ready x"
proof -
  obtain y where "x = (if rr_worker y = i then y\<lparr>rr_ready := False\<rparr> else y)"
    using assms(1) by (auto simp: on_worker_down_fields)
  with assms(2) show ?thesis by (auto split: if_splits)
qed

text \<open>
  C11: A worker that registers again with a new boot identity fences its old process: the fence
  check refuses every fence of the old boot, no authority record of the old boot is active or
  holds authority (its lifecycle is \<open>invalidated\<close>), none of its residencies is ready, and the
  active fence is not one of the old boot.
\<close>

theorem restart_fences_old_boot:
  assumes "f_worker f = wr_id r" and "f_boot f \<noteq> wr_boot r"
  shows "\<not> authorized (check_fence f (reregister r fb)) \<and>
     (\<forall>i ar. authority_record i (reregister r fb) = Some ar \<longrightarrow>
        f_worker (ar_fence ar) = f_worker f \<longrightarrow> f_boot (ar_fence ar) = f_boot f \<longrightarrow>
        \<not> ar_active ar \<and> \<not> ar_has_authority ar \<and> lc_state (ar_lifecycle ar) = L_invalidated) \<and>
     (\<forall>inst x. residency inst (reregister r fb) = Some x \<longrightarrow> rr_worker x = f_worker f \<longrightarrow>
        rr_boot x = f_boot f \<longrightarrow> \<not> rr_ready x) \<and>
     fb_active_fence (reregister r fb) \<noteq> Some f"
proof (intro conjI allI impI)
  show "\<not> authorized (check_fence f (reregister r fb))"
    using old_boot_fenced [OF assms] by (simp add: check_fence_current)
  show "fb_active_fence (reregister r fb) \<noteq> Some f"
    using assms by (auto simp: reregister_def on_worker_restart_fields split: option.split)
qed (use assms in \<open>auto simp: authority_record_def residency_def
    dest: old_boot_revoked old_boot_not_ready\<close>)

text \<open>
  C12: A worker whose connection ended is fenced: the fence check refuses every fence that names
  it, none of its authority records is active or holds authority, none of its residencies is
  ready, and the active fence is not one of its fences.
\<close>

theorem down_fences_worker:
  assumes "f_worker f = i"
  shows "\<not> authorized (check_fence f (on_worker_down i fb)) \<and>
     (\<forall>j ar. authority_record j (on_worker_down i fb) = Some ar \<longrightarrow> f_worker (ar_fence ar) = i \<longrightarrow>
        \<not> ar_active ar \<and> \<not> ar_has_authority ar) \<and>
     (\<forall>inst x. residency inst (on_worker_down i fb) = Some x \<longrightarrow> rr_worker x = i \<longrightarrow> \<not> rr_ready x) \<and>
     fb_active_fence (on_worker_down i fb) \<noteq> Some f"
proof (intro conjI allI impI)
  show "\<not> authorized (check_fence f (on_worker_down i fb))"
    using down_fenced [OF assms] by (simp add: check_fence_current)
  show "fb_active_fence (on_worker_down i fb) \<noteq> Some f"
    using assms by (auto simp: on_worker_down_fields split: option.split)
qed (auto simp: authority_record_def residency_def dest: down_revoked down_not_ready)

text \<open>
  C5: A new epoch fences everything before it: a fence of the coordinator's epoch is refused
  after any positive number of \<open>advance_epoch\<close> calls, unless the epoch counter was already at its
  largest value.
\<close>

theorem epoch_fences:
  assumes "f_epoch f = fb_epoch fb" and "gen_value (fb_epoch fb) \<noteq> uint64_max"
  shows "\<not> authorized (check_fence f (((\<lambda>fb. snd (advance_epoch fb)) ^^ Suc n) fb))"
proof -
  have step: "fb_epoch (((\<lambda>fb. snd (advance_epoch fb)) ^^ Suc k) fb)
      = gen_next (fb_epoch (((\<lambda>fb. snd (advance_epoch fb)) ^^ k) fb))" for k
    by (simp add: advance_epoch_def Let_def)
  have "fb_epoch fb < fb_epoch (((\<lambda>fb. snd (advance_epoch fb)) ^^ Suc n) fb)"
  proof (induction n)
    case 0
    then show ?case using gen_next_greater [OF assms(2)] step [of 0] by simp
  next
    case (Suc n)
    then show ?case unfolding step [of "Suc n"] using gen_next_mono by (rule less_le_trans)
  qed
  then show ?thesis using assms(1) by (auto simp: check_fence_current fence_current_def)
qed

text \<open>
  The events are local: a fence of another worker is current after them exactly when it was
  current before.
\<close>

lemma fence_current_cong:
  assumes "adapter (f_adapter f) fb' = adapter (f_adapter f) fb" and "fb_epoch fb' = fb_epoch fb"
    and "worker (f_worker f) fb' = worker (f_worker f) fb"
    and "map_of (fb_current_attempt fb') (Id_str (f_adapter f))
       = map_of (fb_current_attempt fb) (Id_str (f_adapter f))"
    and "map_option ar_fence (authority_record (f_adapter f) fb')
       = map_option ar_fence (authority_record (f_adapter f) fb)"
  shows "fence_current f fb' \<longleftrightarrow> fence_current f fb"
proof -
  have "(case authority_record (f_adapter f) x of
        None \<Rightarrow> f_residency_generation f = Generation 1 \<and>
                f_composition_generation f = Generation 1 \<and> f_artifact_generation f = Generation 1
      | Some ar \<Rightarrow> f_residency_generation f = f_residency_generation (ar_fence ar) \<and>
                f_composition_generation f = f_composition_generation (ar_fence ar) \<and>
                f_artifact_generation f = f_artifact_generation (ar_fence ar)) =
      (case map_option ar_fence (authority_record (f_adapter f) x) of
        None \<Rightarrow> f_residency_generation f = Generation 1 \<and>
                f_composition_generation f = Generation 1 \<and> f_artifact_generation f = Generation 1
      | Some g \<Rightarrow> f_residency_generation f = f_residency_generation g \<and>
                f_composition_generation f = f_composition_generation g \<and>
                f_artifact_generation f = f_artifact_generation g)" for x
    by (simp split: option.split)
  then show ?thesis unfolding fence_current_def assms(1-4) assms(5) by (simp only: assms(5))
qed

section \<open>Invalidation\<close>

text \<open>
  Invalidation does not fence: the check looks at nothing that \<open>invalidate\<close> changes, so the fence
  of the invalidated activation stays current and binds again.
\<close>

lemma invalidate_keeps_fence:
  "fence_current f (snd (invalidate i t why fb)) \<longleftrightarrow> fence_current f fb"
  by (rule fence_current_cong)
    (auto simp: adapter_def worker_def authority_record_def invalidate_authority split: option.split)

lemma invalidate_revokes:
  assumes "map_of (fb_authority (snd (invalidate i t why fb))) (Id_str i) = Some ar"
  shows "\<not> ar_active ar \<and> \<not> ar_has_authority ar \<and> lc_state (ar_lifecycle ar) = L_invalidated"
  using assms by (auto simp: invalidate_authority split: option.splits)

lemma invalidate_bind_again:
  assumes "fence_current f fb" and "authority_record (f_adapter f) fb = Some ar"
    and "fb_active_fence fb = Some f"
  shows "fst (bind_authority (f_adapter f) f (snd (invalidate (f_adapter f) t why fb)))
     = Inr (verdict AV_authorized ''fence current'')"
proof -
  let ?fb = "snd (invalidate (f_adapter f) t why fb)"
  have "fence_current f ?fb" using assms(1) by (simp add: invalidate_keeps_fence)
  moreover have "fb_active_fence ?fb = None" by (simp add: invalidate_active_fence assms(3))
  moreover have "authority_record (f_adapter f) ?fb = Some (revoke ar)"
    using assms(2) by (simp add: authority_record_def invalidate_authority)
  ultimately show ?thesis
    by (simp add: bind_authority_def check_fence_authorized Let_def authority_record_def)
qed

text \<open>
  C38: Manual invalidation takes the authority away but does not fence: the invalidated record is
  inactive and holds no authority, the fence that was bound is still current, and binding it again
  is granted.
\<close>

theorem invalidate_then_bind:
  assumes "fence_current f fb" and "authority_record (f_adapter f) fb = Some ar"
    and "fb_active_fence fb = Some f"
  shows "map_option (\<lambda>ar. (ar_active ar, ar_has_authority ar))
       (authority_record (f_adapter f) (snd (invalidate (f_adapter f) t why fb))) = Some (False, False) \<and>
     authorized (check_fence f (snd (invalidate (f_adapter f) t why fb))) \<and>
     fst (bind_authority (f_adapter f) f (snd (invalidate (f_adapter f) t why fb)))
       = Inr (verdict AV_authorized ''fence current'')"
  using invalidate_bind_again [OF assms, of t why] assms
  by (simp add: check_fence_current invalidate_keeps_fence authority_record_def invalidate_authority)

section \<open>A disconnection forgets the attempt\<close>

text \<open>
  \<open>on_worker_down\<close> erases the current attempt of the adapters it revokes. When the worker comes
  back with the boot it had (boot identities are drawn from a seed), a fence with any attempt,
  the one that was active or one that had been superseded, is current again.
\<close>

lemma any_attempt_current:
  assumes maps: "maps_ok fb" and cur: "fence_current f fb"
    and ar: "authority_record (f_adapter f) fb = Some ar" "f_worker (ar_fence ar) = f_worker f"
    and r: "wr_id r = f_worker f" "wr_boot r = f_boot f" "wr_connected r"
    and a: "\<not> Id_is_nil a"
  shows "fence_current (f\<lparr>f_attempt := a\<rparr>) (reregister r (on_worker_down (f_worker f) fb))"
proof -
  let ?down = "on_worker_down (f_worker f) fb"
  let ?up = "register_worker r ?down"
  have maps': "maps_ok ?up"
    using maps_ok_down [OF maps] by (simp add: register_worker_def maps_ok_put)
  have auth: "map_of (fb_authority ?up) (Id_str (f_adapter f)) = Some (revoke ar)"
    using ar by (simp add: register_worker_def on_worker_down_fields revoke_matching_authority
        authority_record_def)
  have att: "map_of (fb_current_attempt ?up) (Id_str (f_adapter f)) = None"
    using ar revoke_matching_attempt [OF maps, of "\<lambda>g. f_worker g = f_worker f" "Id_str (f_adapter f)"]
    by (simp add: register_worker_def on_worker_down_fields authority_record_def)
  have att': "map_of (fb_current_attempt (reregister r ?down)) (Id_str (f_adapter f)) = None"
    using att auth revoke_matching_attempt [OF maps', of "\<lambda>g. f_worker g = wr_id r \<and> f_boot g \<noteq> wr_boot r"
        "Id_str (f_adapter f)"]
    by (simp add: reregister_def on_worker_restart_fields)
  have auth': "map_option ar_fence (authority_record (f_adapter f) (reregister r ?down)) = Some (ar_fence ar)"
    using auth by (simp add: reregister_def on_worker_restart_fields authority_record_def
        revoke_matching_authority)
  then obtain ar' where ar': "authority_record (f_adapter f) (reregister r ?down) = Some ar'"
    "ar_fence ar' = ar_fence ar" by auto
  have same: "adapter (f_adapter f) (reregister r ?down) = adapter (f_adapter f) fb"
    "fb_epoch (reregister r ?down) = fb_epoch fb"
    by (simp_all add: reregister_def on_worker_restart_fields register_worker_def adapter_def
        on_worker_down_fields)
  have w: "worker (f_worker f) (reregister r ?down) = Some r"
    using r by (simp add: worker_reregister)
  obtain d where "adapter (f_adapter f) fb = Some d"
    using cur by (cases "adapter (f_adapter f) fb") (simp_all add: fence_current_def)
  with cur show ?thesis
    by (simp add: fence_current_def same w att' ar' ar r a)
qed

text \<open>
  The end of a worker's connection forgets the current attempt of its adapters: after the
  worker has registered again with the boot it had, the check authorizes the fence with every
  attempt identity, so attempts that had been superseded are not fenced.
\<close>

theorem attempt_forgotten:
  assumes "fabric_reachable fb" and "fence_current f fb"
    and "authority_record (f_adapter f) fb = Some ar" and "f_worker (ar_fence ar) = f_worker f"
    and "wr_id r = f_worker f" and "wr_boot r = f_boot f" and "wr_connected r"
    and "\<not> Id_is_nil a"
  shows "authorized (check_fence (f\<lparr>f_attempt := a\<rparr>) (reregister r (on_worker_down (f_worker f) fb)))"
  using any_attempt_current [OF maps_ok_reachable [OF assms(1)] assms(2-8)]
  by (simp add: check_fence_current)

section \<open>Re-creating the instance of an active adapter\<close>

text \<open>
  \<open>create_instance\<close> replaces the authority record, active or not, and leaves the active fence in
  place: the fence then belongs to no live record, and every other adapter is refused.
\<close>

lemma create_orphans_fence:
  assumes ex: "exclusive fb" and act: "fb_active_fence fb = Some a" and ad: "adapter (f_adapter a) fb = Some d"
    and cr: "create_instance (f_adapter a) w boot dev n rng fb = (res, rng', fb')"
  shows "fb_active_fence fb' = Some a \<and>
    (\<forall>k ar. map_of (fb_authority fb') k = Some ar \<longrightarrow> \<not> ar_active ar \<and> \<not> ar_has_authority ar)"
  using cr
proof (cases rule: create_effect)
  case (made d' inst)
  have "\<not> ar_active ar \<and> \<not> ar_has_authority ar" if "map_of (fb_authority fb') k = Some ar" for k ar
  proof (cases "k = Id_str (f_adapter a)")
    case True
    with that show ?thesis by (auto simp: made(4))
  next
    case False
    with that have "map_of (fb_authority fb) k = Some ar" by (simp add: made(4))
    with exclusiveD [OF ex this] act False show ?thesis by auto
  qed
  then show ?thesis using act by (simp add: made(4))
qed (use ad in simp)

lemma orphan_conflict:
  assumes "fb_active_fence fb = Some a" and "fence_current f fb" and "f_adapter f \<noteq> f_adapter a"
  shows "\<exists>m. bind_authority (f_adapter f) f fb = (throw EC_authority_conflict m, fb)"
  using assms by (simp add: bind_authority_def check_fence_authorized Let_def)

section \<open>Pinning and eviction\<close>

text \<open>A sequence of \<open>pin\<close> (\<open>True\<close>) and \<open>unpin\<close> (\<open>False\<close>) calls, and the count it should give.\<close>

fun run_pins :: "AdapterInstanceId \<Rightarrow> bool list \<Rightarrow> Fabric \<Rightarrow> Fabric" where
  "run_pins inst [] fb = fb"
| "run_pins inst (up # ops) fb = run_pins inst ops (snd (if up then pin inst fb else unpin inst fb))"

fun pin_balance :: "bool list \<Rightarrow> nat \<Rightarrow> nat" where
  "pin_balance [] n = n"
| "pin_balance (True # ops) n = pin_balance ops (Suc n)"
| "pin_balance (False # ops) n = pin_balance ops (n - 1)"

definition pin_coherent :: "ResidencyRecord \<Rightarrow> nat \<Rightarrow> bool" where
  "pin_coherent r n \<longleftrightarrow> unat (rr_pin_count r) = n \<and> (rr_protected r \<longleftrightarrow> 0 < n)"

text \<open>
  Any sequence of \<open>pin\<close> and \<open>unpin\<close> calls shorter than \<open>2^32\<close> leaves the pin count at the
  truncated balance of the calls, the protection set exactly while the count is positive, and the
  active references alone.
\<close>

theorem run_pins_coherent:
  assumes "residency inst fb = Some r" and "pin_coherent r n" and "n + length ops < 2 ^ 32"
  shows "\<exists>r'. residency inst (run_pins inst ops fb) = Some r' \<and>
    pin_coherent r' (pin_balance ops n) \<and> rr_active_refs r' = rr_active_refs r"
  using assms
proof (induction ops arbitrary: fb r n)
  case (Cons up ops)
  note res = Cons.prems(1) [unfolded residency_def]
  show ?case
  proof (cases up)
    case True
    let ?r = "r\<lparr>rr_pin_count := rr_pin_count r + 1, rr_protected := True\<rparr>"
    have r: "residency inst (snd (pin inst fb)) = Some ?r"
      by (simp add: pin_def res residency_def)
    have "unat (rr_pin_count r + 1) = Suc n"
      using Cons.prems by (simp add: pin_coherent_def unat_word_ariths)
    then have "pin_coherent ?r (Suc n)" by (simp add: pin_coherent_def)
    from Cons.IH [OF r this] Cons.prems(3) True show ?thesis by simp
  next
    case False
    show ?thesis
    proof (cases "n = 0")
      case zero: True
      then have c: "rr_pin_count r = 0" using Cons.prems by (simp add: pin_coherent_def unat_eq_0)
      then have r: "residency inst (snd (unpin inst fb)) = Some (r\<lparr>rr_protected := False\<rparr>)"
        by (simp add: unpin_def res residency_def)
      have "pin_coherent (r\<lparr>rr_protected := False\<rparr>) 0" by (simp add: pin_coherent_def c)
      from Cons.IH [OF r this] Cons.prems(3) False zero show ?thesis by simp
    next
      case pos: False
      then have g: "0 < rr_pin_count r" using Cons.prems
        by (simp add: pin_coherent_def word_less_nat_alt)
      then have m: "unat (rr_pin_count r - 1) = n - 1"
        using Cons.prems pos by (simp add: pin_coherent_def unat_sub_if_size word_less_nat_alt)
      let ?r1 = "r\<lparr>rr_pin_count := rr_pin_count r - 1\<rparr>"
      let ?r = "if n = 1 then ?r1\<lparr>rr_protected := False\<rparr> else ?r1"
      have "rr_pin_count r - 1 = 0 \<longleftrightarrow> unat (rr_pin_count r - 1) = 0" by (simp only: unat_eq_0)
      with m pos have z: "rr_pin_count r - 1 = 0 \<longleftrightarrow> n = 1" by arith
      have r: "residency inst (snd (unpin inst fb)) = Some ?r"
        using g z by (simp add: unpin_def res residency_def Let_def)
      have "pin_coherent ?r (n - 1)" using Cons.prems(2) m pos by (auto simp: pin_coherent_def)
      moreover have "n - 1 + length ops < 2 ^ 32" using Cons.prems(3) by simp
      moreover have "rr_active_refs ?r = rr_active_refs r" by simp
      ultimately show ?thesis using Cons.IH [OF r] False by auto
    qed
  qed
qed simp

text \<open>
  C35: \<open>evict\<close> succeeds exactly on a residency without active references, pins and protection. It
  then removes that residency and no other; where it does not succeed the fabric is the one it
  was. In both cases every other part of the fabric is untouched: the registry, the compositions,
  the workers, the capacity accounts, the authority records, the current attempts, the active
  fence, the epoch and the counters. (The authority over the evicted instance is therefore kept;
  giving back its bytes is the part of the handler, \<open>evict_release\<close>.)
\<close>

theorem evict_exact:
  "(fst (fst (evict inst fb)) \<longleftrightarrow> (\<exists>r. residency inst fb = Some r \<and> rr_active_refs r = 0 \<and>
      rr_pin_count r = 0 \<and> \<not> rr_protected r)) \<and>
   (\<forall>inst'. residency inst' (snd (evict inst fb)) =
      (if fst (fst (evict inst fb)) \<and> inst' = inst then None else residency inst' fb)) \<and>
   (fst (fst (evict inst fb)) \<or> snd (evict inst fb) = fb) \<and>
   (snd (evict inst fb))\<lparr>fb_residencies := fb_residencies fb\<rparr> = fb"
  by (auto simp: evict_def residency_def word_gt_0 split: option.split)

section \<open>Identities after a restart\<close>

text \<open>
  The process-wide generator starts from a fixed seed in every process. A composition published
  first in a new process, over a recovered fabric, gets the identity of the composition that was
  published first in the old one, and replaces it.
\<close>

lemma composition_replaced:
  assumes "publish_composition ids policy rng fb = (Some (Inr c), rng1, fb1)"
    and "publish_composition ids' policy' rng (recover (snapshot fb1) fb0) = (Some (Inr c'), rng2, fb2)"
  shows "co_id c' = co_id c \<and> composition (co_id c) fb2 = Some c'"
proof -
  have id: "co_id x = fst (Id_generate rng) \<and> composition (co_id x) z' = Some x"
    if "publish_composition js p rng z = (Some (Inr x), r, z')" for js p z x r z'
  proof (cases rule: publish_cases [of z js p rng])
    case (published ds)
    let ?x = "composition_of (publish_builder ds p (fb_next_composition_gen z)) (fst (Id_generate rng))"
    have "x = ?x" "z' = z\<lparr>fb_compositions := smap_set (Id_str (co_id ?x)) ?x (fb_compositions z),
        fb_next_composition_gen := gen_next (fb_next_composition_gen z)\<rparr>"
      using trans [OF sym [OF that] published(3)] unfolding Let_def prod.inject option.inject sum.inject
      by blast+
    then show ?thesis by (simp add: composition_def composition_of_def Let_def)
  next
    case (rejected e rng')
    with that show ?thesis by simp
  qed
  from id [OF assms(1)] id [OF assms(2)] show ?thesis by metis
qed

end
