(* ===== verification/AF_Protocol.thy ===== *)
theory AF_Protocol
  imports AF_Codec AF_Authority
begin

text \<open>
  The wire protocol (\<open>protocol.hpp\<close>, \<open>protocol.cpp\<close>): message types, messages, and the codecs
  of fences and messages over the binary codec. \<open>decode_message\<close> casts the type byte without a
  check, so a \<open>MsgType\<close> is any byte. The fence codec is strict: it is a bijection between fences
  and the inputs it accepts.
\<close>

datatype MsgType = MsgType (msg_byte: uint8_t)

abbreviation "MT_ctl_register_worker \<equiv> MsgType 0x10"
abbreviation "MT_ctl_register_adapter \<equiv> MsgType 0x11"
abbreviation "MT_ctl_validate \<equiv> MsgType 0x12"
abbreviation "MT_ctl_load \<equiv> MsgType 0x13"
abbreviation "MT_ctl_activate \<equiv> MsgType 0x14"
abbreviation "MT_ctl_deactivate \<equiv> MsgType 0x15"
abbreviation "MT_ctl_compose \<equiv> MsgType 0x16"
abbreviation "MT_ctl_migrate \<equiv> MsgType 0x17"
abbreviation "MT_ctl_invalidate \<equiv> MsgType 0x18"
abbreviation "MT_ctl_evict \<equiv> MsgType 0x19"
abbreviation "MT_ctl_pin \<equiv> MsgType 0x1A"
abbreviation "MT_ctl_unpin \<equiv> MsgType 0x1B"
abbreviation "MT_ctl_snapshot \<equiv> MsgType 0x1C"
abbreviation "MT_ctl_explain \<equiv> MsgType 0x1D"
abbreviation "MT_ctl_list \<equiv> MsgType 0x1E"
abbreviation "MT_ctl_shutdown \<equiv> MsgType 0x2E"
abbreviation "MT_ctl_epoch \<equiv> MsgType 0x1F"
abbreviation "MT_ctl_capacity \<equiv> MsgType 0x20"
abbreviation "MT_ctl_complete \<equiv> MsgType 0x21"
abbreviation "MT_ctl_result \<equiv> MsgType 0x2F"
abbreviation "MT_wk_register \<equiv> MsgType 0x30"
abbreviation "MT_wk_register_ack \<equiv> MsgType 0x31"
abbreviation "MT_wk_inventory \<equiv> MsgType 0x32"
abbreviation "MT_wk_ready \<equiv> MsgType 0x33"
abbreviation "MT_wk_complete \<equiv> MsgType 0x34"
abbreviation "MT_wk_error \<equiv> MsgType 0x35"
abbreviation "MT_wk_load \<equiv> MsgType 0x40"
abbreviation "MT_wk_load_ack \<equiv> MsgType 0x41"
abbreviation "MT_wk_activate \<equiv> MsgType 0x42"
abbreviation "MT_wk_activate_ack \<equiv> MsgType 0x43"
abbreviation "MT_wk_deactivate \<equiv> MsgType 0x44"
abbreviation "MT_wk_deactivate_ack \<equiv> MsgType 0x45"
abbreviation "MT_wk_migrate \<equiv> MsgType 0x46"
abbreviation "MT_wk_migrate_ack \<equiv> MsgType 0x47"
abbreviation "MT_wk_invalidate \<equiv> MsgType 0x48"
abbreviation "MT_wk_invalidate_ack \<equiv> MsgType 0x49"
abbreviation "MT_wk_shutdown \<equiv> MsgType 0x4F"
abbreviation "MT_ping \<equiv> MsgType 0x50"
abbreviation "MT_pong \<equiv> MsgType 0x51"

text \<open>The labels of the switch of \<open>to_string\<close>, in its order.\<close>

definition MsgType_names :: "(MsgType \<times> string) list" where
  "MsgType_names =
    [(MT_ctl_register_worker, ''ctl_register_worker''),
     (MT_ctl_register_adapter, ''ctl_register_adapter''),
     (MT_ctl_validate, ''ctl_validate''),
     (MT_ctl_load, ''ctl_load''),
     (MT_ctl_activate, ''ctl_activate''),
     (MT_ctl_deactivate, ''ctl_deactivate''),
     (MT_ctl_compose, ''ctl_compose''),
     (MT_ctl_migrate, ''ctl_migrate''),
     (MT_ctl_invalidate, ''ctl_invalidate''),
     (MT_ctl_evict, ''ctl_evict''),
     (MT_ctl_pin, ''ctl_pin''),
     (MT_ctl_unpin, ''ctl_unpin''),
     (MT_ctl_snapshot, ''ctl_snapshot''),
     (MT_ctl_epoch, ''ctl_epoch''),
     (MT_ctl_explain, ''ctl_explain''),
     (MT_ctl_list, ''ctl_list''),
     (MT_ctl_shutdown, ''ctl_shutdown''),
     (MT_ctl_capacity, ''ctl_capacity''),
     (MT_ctl_complete, ''ctl_complete''),
     (MT_ctl_result, ''ctl_result''),
     (MT_wk_register, ''wk_register''),
     (MT_wk_register_ack, ''wk_register_ack''),
     (MT_wk_inventory, ''wk_inventory''),
     (MT_wk_ready, ''wk_ready''),
     (MT_wk_complete, ''wk_complete''),
     (MT_wk_error, ''wk_error''),
     (MT_wk_load, ''wk_load''),
     (MT_wk_load_ack, ''wk_load_ack''),
     (MT_wk_activate, ''wk_activate''),
     (MT_wk_activate_ack, ''wk_activate_ack''),
     (MT_wk_deactivate, ''wk_deactivate''),
     (MT_wk_deactivate_ack, ''wk_deactivate_ack''),
     (MT_wk_migrate, ''wk_migrate''),
     (MT_wk_migrate_ack, ''wk_migrate_ack''),
     (MT_wk_invalidate, ''wk_invalidate''),
     (MT_wk_invalidate_ack, ''wk_invalidate_ack''),
     (MT_wk_shutdown, ''wk_shutdown''),
     (MT_ping, ''ping''),
     (MT_pong, ''pong'')]"

definition MsgType_to_string :: "MsgType \<Rightarrow> string" where
  "MsgType_to_string t =
     (case map_of MsgType_names t of Some s \<Rightarrow> s | None \<Rightarrow> ''unknown'')"

record Message =
  m_type :: MsgType
  m_text :: string
  m_text2 :: string
  m_text3 :: string
  m_text4 :: string
  m_a :: uint64_t
  m_b :: uint64_t
  m_c :: uint64_t
  m_req_id :: uint64_t
  m_ok :: bool
  m_payload :: "byte list"

definition Message_default :: Message where
  "Message_default =
     \<lparr>m_type = MT_ping, m_text = [], m_text2 = [], m_text3 = [], m_text4 = [],
      m_a = 0, m_b = 0, m_c = 0, m_req_id = 0, m_ok = False, m_payload = []\<rparr>"

section \<open>Fences\<close>

definition write_fence :: "AuthorityFence \<Rightarrow> BinWriter \<Rightarrow> BinWriter" where
  "write_fence f = w_seq
    [w_id (f_adapter f), w_id (f_composition f), w_gen (f_adapter_generation f),
     w_gen (f_composition_generation f), w_gen (f_residency_generation f),
     w_gen (f_artifact_generation f), w_id (f_base_model_revision f), w_gen (f_epoch f),
     w_id (f_worker f), w_id (f_boot f), w_id (f_attempt f), w_id (f_device f), w_id (f_node f)]"

definition read_fence :: "AuthorityFence reader" where
  "read_fence =
     rbind r_id (\<lambda>adapter. rbind r_id (\<lambda>composition.
     rbind r_gen (\<lambda>adapter_generation. rbind r_gen (\<lambda>composition_generation.
     rbind r_gen (\<lambda>residency_generation. rbind r_gen (\<lambda>artifact_generation.
     rbind r_id (\<lambda>base_model_revision.
     rbind r_gen (\<lambda>epoch.
     rbind r_id (\<lambda>worker. rbind r_id (\<lambda>boot. rbind r_id (\<lambda>attempt. rbind r_id (\<lambda>device.
     rbind r_id (\<lambda>node.
     rreturn
       \<lparr>f_adapter = adapter, f_composition = composition,
        f_adapter_generation = adapter_generation,
        f_composition_generation = composition_generation,
        f_residency_generation = residency_generation,
        f_artifact_generation = artifact_generation,
        f_base_model_revision = base_model_revision, f_epoch = epoch, f_worker = worker,
        f_boot = boot, f_attempt = attempt, f_device = device, f_node = node\<rparr>)))))))))))))"

definition encode_fence :: "AuthorityFence \<Rightarrow> byte list" where
  "encode_fence f = w_finish (write_fence f BinWriter_empty)"

definition decode_fence :: "byte list \<Rightarrow> Error + AuthorityFence" where
  "decode_fence data =
     bindE (BinReader_new data) (\<lambda>r.
     bindE (read_fence r) (\<lambda>(f, r).
     bindE (r_expect_end (length (rd_data r) - 8) r) (\<lambda>_. Inr f)))"

section \<open>Messages\<close>

definition w_payload :: "byte list \<Rightarrow> BinWriter \<Rightarrow> BinWriter" where
  "w_payload p = w_seq [w_u32 (of_nat (length p)), w_bytes p]"

definition r_payload :: "byte list reader" where
  "r_payload = rbind r_u32 (\<lambda>n r.
     if unat n > length (rd_data r)
     then throw EC_malformed ''payload length exceeds message'' else r_bytes (unat n) r)"

definition write_message :: "Message \<Rightarrow> BinWriter \<Rightarrow> BinWriter" where
  "write_message m = w_seq
    [w_u8 (msg_byte (m_type m)), w_string (m_text m), w_string (m_text2 m),
     w_string (m_text3 m), w_string (m_text4 m), w_u64 (m_a m), w_u64 (m_b m), w_u64 (m_c m),
     w_u64 (m_req_id m), w_bool (m_ok m), w_payload (m_payload m)]"

definition read_message :: "Message reader" where
  "read_message =
     rbind r_u8 (\<lambda>ty.
     rbind r_string (\<lambda>text. rbind r_string (\<lambda>text2.
     rbind r_string (\<lambda>text3. rbind r_string (\<lambda>text4.
     rbind r_u64 (\<lambda>a. rbind r_u64 (\<lambda>b. rbind r_u64 (\<lambda>c. rbind r_u64 (\<lambda>req_id.
     rbind r_bool (\<lambda>good.
     rbind r_payload (\<lambda>payload.
     rreturn
       \<lparr>m_type = MsgType ty, m_text = text, m_text2 = text2, m_text3 = text3, m_text4 = text4,
        m_a = a, m_b = b, m_c = c, m_req_id = req_id, m_ok = good,
        m_payload = payload\<rparr>)))))))))))"

definition encode_message :: "Message \<Rightarrow> byte list" where
  "encode_message m = w_finish (write_message m BinWriter_empty)"

definition decode_message :: "byte list \<Rightarrow> Error + Message" where
  "decode_message data =
     bindE (BinReader_new data) (\<lambda>r.
     bindE (read_message r) (\<lambda>(m, r).
     bindE (r_expect_end (length (rd_data r) - 8) r) (\<lambda>_. Inr m)))"

definition message_ok :: "Message \<Rightarrow> bool" where
  "message_ok m \<longleftrightarrow> string_ok (m_text m) \<and> string_ok (m_text2 m) \<and> string_ok (m_text3 m) \<and>
     string_ok (m_text4 m) \<and> length (m_payload m) < 2 ^ 32"

section \<open>Both codecs keep the contract\<close>

lemma fence_append: "bw_buf (write_fence f w) = bw_buf w @ out write_fence f"
  by (simp add: out_def [of write_fence] write_fence_def BinWriter_empty_def)

lemma out_fence:
  "out write_fence f =
     out w_id (f_adapter f) @ out w_id (f_composition f)
     @ out w_gen (f_adapter_generation f) @ out w_gen (f_composition_generation f)
     @ out w_gen (f_residency_generation f) @ out w_gen (f_artifact_generation f)
     @ out w_id (f_base_model_revision f) @ out w_gen (f_epoch f)
     @ out w_id (f_worker f) @ out w_id (f_boot f) @ out w_id (f_attempt f) @ out w_id (f_device f)
     @ out w_id (f_node f)"
  by (simp add: out_def [of write_fence] write_fence_def BinWriter_empty_def)

lemma fence_exact: "reads (\<lambda>f c. c = out write_fence f) read_fence"
  unfolding read_fence_def
  by (rule reads_bind, rule codec_exact)+ (rule reads_return, simp add: out_fence)

interpretation fence: strict_codec write_fence read_fence "\<lambda>_. True"
proof unfold_locales
  fix f pre suf tail
  show "read_fence (Rd pre (out write_fence f @ suf) tail)
      = Inr (f, Rd (pre @ out write_fence f) suf tail)"
    by (simp add: out_fence read_fence_def)
qed (simp_all add: fence_append fence_exact reads_weaken [OF fence_exact])

lemma payload_get [simp]:
  assumes "length p < 2 ^ 32"
  shows "r_payload (Rd pre (out w_payload p @ suf) tail) = Inr (p, Rd (pre @ out w_payload p) suf tail)"
proof -
  have "unat (of_nat (length p) :: uint32_t) = length p" using assms by (simp add: unat_of_nat)
  moreover have "out w_payload p = out w_u32 (of_nat (length p)) @ p"
    by (simp add: out_def [of w_payload] w_payload_def BinWriter_empty_def)
  ultimately show ?thesis by (simp add: r_payload_def)
qed

lemma payload_reads [codec_reads]: "reads (\<lambda>p c. length p < 2 ^ 32) r_payload"
  unfolding r_payload_def
proof (rule reads_bind [OF u32.get_reads], rule readsI)
  fix n :: uint32_t and c pre bs tail p r'
  assume "(if unat n > length (rd_data (Rd pre bs tail))
      then throw EC_malformed ''payload length exceeds message''
      else r_bytes (unat n) (Rd pre bs tail)) = Inr (p, r')"
  then have "r_bytes (unat n) (Rd pre bs tail) = Inr (p, r')"
    by (auto simp: throw_def split: if_splits)
  from readsD [OF r_bytes_reads this] obtain d suf where
    "bs = d @ suf" "r' = Rd (pre @ d) suf tail" "p = d \<and> length d = unat n" by blast
  moreover have "unat n < 2 ^ 32" by (rule unat_32_less)
  ultimately show "\<exists>c suf. bs = c @ suf \<and> r' = Rd (pre @ c) suf tail \<and> length p < 2 ^ 32"
    by (intro exI [of _ d] exI [of _ suf]) simp
qed

lemma read_message_ok: "reads (\<lambda>m c. message_ok m) read_message"
  unfolding read_message_def
  by (rule reads_bind, rule codec_reads)+ (rule reads_return, simp add: message_ok_def)

lemma w_payload_append [simp]: "bw_buf (w_payload p w) = bw_buf w @ out w_payload p"
  by (simp add: out_def [of w_payload] w_payload_def BinWriter_empty_def)

interpretation msg: codec write_message read_message message_ok
proof unfold_locales
  fix m pre suf tail
  assume "message_ok m"
  then show "read_message (Rd pre (out write_message m @ suf) tail)
      = Inr (m, Rd (pre @ out write_message m) suf tail)"
    by (simp add: out_def [of write_message] write_message_def BinWriter_empty_def
        read_message_def message_ok_def)
qed (simp_all add: out_def [of write_message] write_message_def BinWriter_empty_def read_message_ok)

section \<open>Documents\<close>

lemma protocol_document:
  "encode_fence = write_document write_fence" "decode_fence = read_document read_fence"
  "encode_message = write_document write_message" "decode_message = read_document read_message"
  by (simp_all add: fun_eq_iff encode_fence_def decode_fence_def write_document_def
      encode_message_def decode_message_def read_document_def)

lemma fence_document_bij: "decode_fence data = Inr f \<longleftrightarrow> data = encode_fence f"
  unfolding protocol_document using fence.document_bij by simp

lemma decode_encode_fence [simp]: "decode_fence (encode_fence f) = Inr f"
  by (simp add: fence_document_bij)

lemma message_roundtrip: "message_ok m \<Longrightarrow> decode_message (encode_message m) = Inr m"
  unfolding protocol_document by (rule msg.document_roundtrip)

lemma message_accepted_ok: "decode_message data = Inr m \<Longrightarrow> message_ok m"
  unfolding protocol_document by (rule msg.document_ok)

lemma length_encode_fence: "length (encode_fence f) = 176"
  by (simp add: protocol_document write_document_layout out_fence out_prims)

section \<open>The wire contract\<close>

text \<open>
  C8: The encoding of authority fences is a bijection with its accepted byte strings: a byte
  string decodes to a fence exactly when it is that fence's encoding, so no two fences share an
  encoding, no fence has two, and every altered encoding is refused or is another fence's.
\<close>

theorem fence_bijective: "decode_fence data = Inr f \<longleftrightarrow> data = encode_fence f"
  by (rule fence_document_bij)

text \<open>
  C24: A message survives the wire exactly when its texts and payload are shorter than \<open>2^32\<close>
  bytes, and the decoder returns no other messages.
\<close>

theorem message_codec_exact:
  "(decode_message (encode_message m) = Inr m \<longleftrightarrow> message_ok m) \<and>
   ((\<exists>data. decode_message data = Inr m) \<longleftrightarrow> message_ok m)"
  using message_roundtrip message_accepted_ok by blast

end
