(* ===== verification/AF_Explain.thy ===== *)
theory AF_Explain
  imports AF_Compat AF_Authority AF_Lifecycle
begin

text \<open>
  Explanations and their JSON text (\<open>explain.hpp\<close>, \<open>explain.cpp\<close>). \<open>jstr\<close> is a field
  between double quotes. The lemmas show that an escaped string is read back by a scanner of JSON
  string bodies, so an escaped field never ends early and the JSON of a report determines it.
\<close>

definition json_escape_char :: "char \<Rightarrow> string" where
  "json_escape_char c =
     (if c = CHR 0x22 then [CHR 0x5C, CHR 0x22]
      else if c = CHR 0x5C then [CHR 0x5C, CHR 0x5C]
      else if c = CHR 0x0A then [CHR 0x5C, CHR ''n'']
      else if c = CHR 0x0D then [CHR 0x5C, CHR ''r'']
      else if c = CHR 0x09 then [CHR 0x5C, CHR ''t'']
      else [c])"

definition json_escape :: "string \<Rightarrow> string" where
  "json_escape s = concat (map json_escape_char s)"

definition jstr :: "string \<Rightarrow> string" where
  "jstr s = CHR 0x22 # s @ [CHR 0x22]"

definition jbool :: "bool \<Rightarrow> string" where
  "jbool b = (if b then ''true'' else ''false'')"

fun join :: "string list \<Rightarrow> string" where
  "join [] = []"
| "join [x] = x"
| "join (x # xs) = x @ '','' @ join xs"

definition factor_json :: "CompatibilityFactor \<Rightarrow> string" where
  "factor_json f =
     ''{'' @ jstr ''name'' @ '':'' @ jstr (json_escape (cf_name f)) @ '','' @ jstr ''status'' @ '':''
     @ jstr (FactorStatus_to_string (cf_status f)) @ '','' @ jstr ''detail'' @ '':''
     @ jstr (json_escape (cf_detail f)) @ '','' @ jstr ''reason'' @ '':''
     @ jstr (json_escape (cf_reason f)) @ ''}''"

definition to_json_report :: "CompatibilityReport \<Rightarrow> string" where
  "to_json_report r =
     ''{'' @ jstr ''compatible'' @ '':'' @ jbool (cr_compatible r) @ '','' @ jstr ''summary'' @ '':''
     @ jstr (json_escape (cr_summary r)) @ '','' @ jstr ''factors'' @ '':[''
     @ join (map factor_json (cr_factors r)) @ '']}''"

definition to_json_check :: "AuthorityCheck \<Rightarrow> string" where
  "to_json_check r =
     ''{'' @ jstr ''authorized'' @ '':'' @ jbool (authorized r) @ '','' @ jstr ''verdict'' @ '':''
     @ jstr (AuthorityVerdict_to_string (ac_verdict r)) @ '','' @ jstr ''reason'' @ '':''
     @ jstr (json_escape (ac_reason r)) @ ''}''"

section \<open>Explanations\<close>

datatype ExplainKind =
    EK_compatibility
  | EK_readiness
  | EK_activation
  | EK_reuse
  | EK_migration
  | EK_eviction
  | EK_composition
  | EK_stale_authority
  | EK_invalidation

primrec ExplainKind_index :: "ExplainKind \<Rightarrow> nat" where
  "ExplainKind_index EK_compatibility = 0"
| "ExplainKind_index EK_readiness = 1"
| "ExplainKind_index EK_activation = 2"
| "ExplainKind_index EK_reuse = 3"
| "ExplainKind_index EK_migration = 4"
| "ExplainKind_index EK_eviction = 5"
| "ExplainKind_index EK_composition = 6"
| "ExplainKind_index EK_stale_authority = 7"
| "ExplainKind_index EK_invalidation = 8"

record Explanation =
  ex_kind :: ExplainKind
  ex_ok :: bool
  ex_text :: string
  ex_json :: string
  ex_reasons :: "string list"

definition make_explanation :: "ExplainKind \<Rightarrow> bool \<Rightarrow> string \<Rightarrow> string list \<Rightarrow> Explanation" where
  "make_explanation k good txt reasons =
     \<lparr>ex_kind = k, ex_ok = good, ex_text = txt,
      ex_json = ''{'' @ jstr ''kind'' @ '':'' @ jstr (dec_str (ExplainKind_index k)) @ '',''
        @ jstr ''ok'' @ '':'' @ jbool good @ '','' @ jstr ''text'' @ '':'' @ jstr (json_escape txt)
        @ '','' @ jstr ''reasons'' @ '':['' @ join (map (\<lambda>r. jstr (json_escape r)) reasons) @ '']}'',
      ex_reasons = reasons\<rparr>"

fun factor_reasons :: "CompatibilityFactor list \<Rightarrow> string list" where
  "factor_reasons [] = []"
| "factor_reasons (f # fs) =
     (case cf_status f of
        FS_rejected \<Rightarrow> (cf_name f @ '': '' @ cf_reason f) # factor_reasons fs
      | FS_missing \<Rightarrow> (cf_name f @ '': missing evidence'') # factor_reasons fs
      | FS_accepted \<Rightarrow> factor_reasons fs)"

definition explain_compatibility :: "CompatibilityReport \<Rightarrow> Explanation" where
  "explain_compatibility r =
     make_explanation EK_compatibility (cr_compatible r) (cr_summary r) (factor_reasons (cr_factors r))"

definition explain_readiness :: "bool \<Rightarrow> string \<Rightarrow> string \<Rightarrow> Explanation" where
  "explain_readiness ready state reason =
     make_explanation EK_readiness ready
       (''state='' @ state @ (if ready then '', ok=true'' else '', ok=false'') @ '', reason='' @ reason)
       [reason]"

definition explain_activation :: "bool \<Rightarrow> AuthorityCheck \<Rightarrow> Explanation" where
  "explain_activation good check =
     make_explanation EK_activation (good \<and> authorized check)
       (''activation '' @ (if good then ''granted'' else ''denied'') @ '': '' @ ac_reason check)
       [ac_reason check]"

definition explain_reuse :: "bool \<Rightarrow> string \<Rightarrow> Explanation" where
  "explain_reuse permitted reason =
     make_explanation EK_reuse permitted
       (''reuse '' @ (if permitted then ''permitted'' else ''denied'') @ '': '' @ reason) [reason]"

definition explain_migration :: "bool \<Rightarrow> string \<Rightarrow> Explanation" where
  "explain_migration selected reason =
     make_explanation EK_migration selected
       (''migration '' @ (if selected then ''selected'' else ''not selected'') @ '': '' @ reason) [reason]"

definition explain_eviction :: "bool \<Rightarrow> string \<Rightarrow> Explanation" where
  "explain_eviction permitted reason =
     make_explanation EK_eviction permitted
       (''eviction '' @ (if permitted then ''permitted'' else ''denied'') @ '': '' @ reason) [reason]"

definition explain_composition :: "bool \<Rightarrow> string \<Rightarrow> Explanation" where
  "explain_composition valid summary =
     make_explanation EK_composition valid
       (''composition '' @ (if valid then ''valid'' else ''invalid'') @ '': '' @ summary) [summary]"

definition explain_stale_authority :: "AuthorityCheck \<Rightarrow> Explanation" where
  "explain_stale_authority check =
     make_explanation EK_stale_authority (authorized check)
       (''authority '' @ (if authorized check then ''current'' else ''stale'') @ '': '' @ ac_reason check)
       [ac_reason check]"

definition explain_invalidation :: "string \<Rightarrow> string \<Rightarrow> Explanation" where
  "explain_invalidation trigger reason =
     make_explanation EK_invalidation False
       (''invalidated by '' @ trigger @ '': '' @ reason) [reason]"

section \<open>Escaped strings are read back\<close>

text \<open>A scanner of a JSON string body, up to the closing quote.\<close>

fun scan :: "string \<Rightarrow> (string \<times> string) option" where
  "scan [] = None"
| "scan (c # s) =
     (if c = CHR 0x22 then Some ([], s)
      else if c = CHR 0x5C then
        (case s of
           [] \<Rightarrow> None
         | e # s' \<Rightarrow>
           (if e = CHR 0x22 \<or> e = CHR 0x5C then map_option (apfst (Cons e)) (scan s')
            else if e = CHR ''n'' then map_option (apfst (Cons (CHR 0x0A))) (scan s')
            else if e = CHR ''r'' then map_option (apfst (Cons (CHR 0x0D))) (scan s')
            else if e = CHR ''t'' then map_option (apfst (Cons (CHR 0x09))) (scan s')
            else None))
      else map_option (apfst (Cons c)) (scan s))"

lemma json_escape_simps [simp]:
  "json_escape [] = []" "json_escape (c # s) = json_escape_char c @ json_escape s"
  by (simp_all add: json_escape_def)

lemma scan_escaped: "scan (json_escape s @ CHR 0x22 # rest) = Some (s, rest)"
  by (induction s) (simp_all add: json_escape_char_def)

lemma json_field_cancel:
  assumes "jstr (json_escape s) @ r = jstr (json_escape t) @ r'"
  shows "s = t \<and> r = r'"
proof -
  have "json_escape s @ CHR 0x22 # r = json_escape t @ CHR 0x22 # r'"
    using assms by (simp add: jstr_def)
  then have "scan (json_escape s @ CHR 0x22 # r) = scan (json_escape t @ CHR 0x22 # r')"
    by (rule arg_cong)
  then show ?thesis by (simp add: scan_escaped)
qed

lemma json_escape_inject: "json_escape s = json_escape t \<longleftrightarrow> s = t"
  using json_field_cancel [of s "[]" t "[]"] by auto

lemma verdict_string_inject:
  "AuthorityVerdict_to_string v @ CHR 0x22 # r = AuthorityVerdict_to_string w @ CHR 0x22 # r' \<Longrightarrow>
     v = w \<and> r = r'"
  by (cases v; cases w) simp_all

text \<open>
  The JSON text of an authority check determines the check: the verdict and the reason can be
  read back, whatever characters the reason holds.
\<close>

theorem check_json_inject: "to_json_check a = to_json_check b \<longleftrightarrow> a = b"
proof
  assume eq: "to_json_check a = to_json_check b"
  have "AuthorityVerdict_to_string (ac_verdict a) @ CHR 0x22 # '','' @ jstr ''reason'' @ '':''
        @ jstr (json_escape (ac_reason a)) @ ''}''
      = AuthorityVerdict_to_string (ac_verdict b) @ CHR 0x22 # '','' @ jstr ''reason'' @ '':''
        @ jstr (json_escape (ac_reason b)) @ ''}''"
    using eq by (cases "authorized a"; cases "authorized b") (simp_all add: to_json_check_def jstr_def jbool_def)
  from verdict_string_inject [OF this] have v: "ac_verdict a = ac_verdict b"
    and "jstr (json_escape (ac_reason a)) @ ''}'' = jstr (json_escape (ac_reason b)) @ ''}''"
    by (auto simp: jstr_def)
  from json_field_cancel [OF this(2)] v show "a = b" by simp
qed simp

text \<open>An explanation is ok exactly when it lists no rejection, for compatibility reports.\<close>

lemma explain_reasons_rejections:
  "has_rejections fs \<Longrightarrow> factor_reasons fs \<noteq> []"
  by (induction fs) (auto split: FactorStatus.splits if_splits)

end
