(* ===== verification/AF_Coordinator.thy ===== *)
theory AF_Coordinator
  imports AF_FabricOps AF_Protocol AF_Explain
begin

text \<open>
  The coordinator (\<open>coordinator.hpp\<close>, \<open>coordinator.cpp\<close>): worker registration, the request
  table that bridges control requests to workers, and the control handlers.

  Concurrency: every access to the fabric is under \<open>state_mc_\<close>, so a handler is a sequence of
  critical sections. What other threads do between two sections is a parameter: \<open>fw\<close> is
  \<open>forward_to_worker\<close> (the handler waits there without the lock) and \<open>gap\<close> is any activity
  between two sections that follow each other directly. A slot is shared by the connection that
  made it and the table \<open>workers_\<close>, so slots have an address: the argument \<open>conn\<close> of a
  registration is the address of the slot it allocates.
\<close>

record WorkerSlot =
  sl_id :: WorkerId
  sl_boot :: WorkerBootId
  sl_address :: string
  sl_connected :: bool

record Pending =
  pd_done :: bool
  pd_result :: Message

record Coordinator =
  cd_fabric :: Fabric
  cd_rng :: Rng
  cd_slots :: "(nat, WorkerSlot) smap"
  cd_workers :: "(string, nat) smap"
  cd_next_req :: uint64_t
  cd_pending :: "(uint64_t, Pending) smap"
  cd_running :: bool
  cd_shutdown :: bool

definition CoordinatorServer_new :: "(ResidencyLocation, uint64_t) smap \<Rightarrow> Coordinator" where
  "CoordinatorServer_new limits =
     \<lparr>cd_fabric = Fabric_new limits, cd_rng = rng_instance, cd_slots = [], cd_workers = [],
      cd_next_req = 1, cd_pending = [], cd_running = False, cd_shutdown = False\<rparr>"

type_synonym forward = "uint64_t \<Rightarrow> string \<Rightarrow> Message \<Rightarrow> Coordinator \<Rightarrow> Message \<times> Coordinator"

definition must_parse :: "string \<Rightarrow> Error + 'tag Id" where
  "must_parse s = (case Id_parse s of Inr i \<Rightarrow> Inr i | Inl m \<Rightarrow> throw EC_invalid_identity m)"

section \<open>Workers and the request table\<close>

text \<open>
  The \<open>wk_register\<close> branch of \<open>handle_connection\<close>. The identities are parsed outside any handler
  of exceptions; the slot is in the table before the node identity is parsed.
\<close>

definition handle_register :: "nat \<Rightarrow> Message \<Rightarrow> Coordinator \<Rightarrow> (Error + Message) \<times> Coordinator" where
  "handle_register conn msg cd =
    (case must_parse (m_text msg) of
       Inl e \<Rightarrow> (Inl e, cd)
     | Inr wid \<Rightarrow>
       (case must_parse (m_text2 msg) of
          Inl e \<Rightarrow> (Inl e, cd)
        | Inr boot \<Rightarrow>
          let slot = \<lparr>sl_id = wid, sl_boot = boot, sl_address = m_text3 msg, sl_connected = True\<rparr>;
              cd1 = cd\<lparr>cd_slots := smap_set conn slot (cd_slots cd),
                       cd_workers := smap_set (m_text msg) conn (cd_workers cd)\<rparr>
          in case (if m_text4 msg \<noteq> [] then must_parse (m_text4 msg) else Inr Id_nil) of
               Inl e \<Rightarrow> (Inl e, cd1)
             | Inr node \<Rightarrow>
               let r = \<lparr>wr_id = wid, wr_boot = boot, wr_address = m_text3 msg, wr_node = node,
                        wr_device = Id_nil, wr_connected = True,
                        wr_epoch = fb_epoch (cd_fabric cd1), wr_capabilities = [],
                        wr_device_memory_bytes = 0, wr_local_adapters = []\<rparr>;
                   cd2 = cd1\<lparr>cd_fabric :=
                     on_worker_restart wid boot (register_worker r (cd_fabric cd1))\<rparr>;
                   epoch = gen_value (fb_epoch (cd_fabric cd2))
               in (Inr (Message_default\<lparr>m_type := MT_wk_register_ack, m_ok := True, m_a := epoch,
                          m_text := dec_str (unat epoch)\<rparr>), cd2)))"

text \<open>A message of a registered worker that is not a registration answers a request.\<close>

definition deliver :: "Message \<Rightarrow> Coordinator \<Rightarrow> Coordinator" where
  "deliver msg cd =
    (if m_req_id msg = 0 then cd
     else case map_of (cd_pending cd) (m_req_id msg) of
       None \<Rightarrow> cd
     | Some p \<Rightarrow> cd\<lparr>cd_pending :=
         smap_set (m_req_id msg) (p\<lparr>pd_result := msg, pd_done := True\<rparr>) (cd_pending cd)\<rparr>)"

definition abort_pending_for_worker :: "string \<Rightarrow> Coordinator \<Rightarrow> Coordinator" where
  "abort_pending_for_worker worker_id cd =
     cd\<lparr>cd_pending := smap_mapi (\<lambda>k p. if \<not> pd_done p
          then p\<lparr>pd_done := True, pd_result := (pd_result p)\<lparr>m_type := MT_wk_error, m_ok := False,
                   m_text := ''worker disconnected''\<rparr>\<rparr>
          else p) (cd_pending cd)\<rparr>"

text \<open>The end of a connection whose slot is \<open>conn\<close>.\<close>

definition handle_disconnect :: "nat \<Rightarrow> Coordinator \<Rightarrow> Coordinator" where
  "handle_disconnect conn cd =
    (case map_of (cd_slots cd) conn of
       None \<Rightarrow> cd
     | Some slot \<Rightarrow>
       let cd1 = cd\<lparr>cd_slots := smap_set conn (slot\<lparr>sl_connected := False\<rparr>) (cd_slots cd)\<rparr>;
           cd2 = abort_pending_for_worker (Id_str (sl_id slot)) cd1
       in cd2\<lparr>cd_fabric := on_worker_down (sl_id slot) (cd_fabric cd2)\<rparr>)"

text \<open>
  \<open>forward_to_worker\<close>: \<open>send conn bytes cd\<close> tells whether the frame was sent, \<open>await req cd\<close> is
  the wait for the answer, which returns the result found in the request's entry and the state
  the other threads have left.
\<close>

definition forward_fail :: "string \<Rightarrow> Message" where
  "forward_fail txt = Message_default\<lparr>m_type := MT_wk_error, m_ok := False, m_text := txt\<rparr>"

definition forward_to_worker ::
    "(nat \<Rightarrow> byte list \<Rightarrow> Coordinator \<Rightarrow> bool) \<Rightarrow>
     (uint64_t \<Rightarrow> Coordinator \<Rightarrow> Message \<times> Coordinator) \<Rightarrow> forward" where
  "forward_to_worker send await req_id worker_id fwd cd =
    (case map_of (cd_workers cd) worker_id of
       None \<Rightarrow> (forward_fail ''unknown or disconnected worker'', cd)
     | Some conn \<Rightarrow>
       (case map_of (cd_slots cd) conn of
          None \<Rightarrow> (forward_fail ''unknown or disconnected worker'', cd)
        | Some slot \<Rightarrow>
          if \<not> sl_connected slot then (forward_fail ''unknown or disconnected worker'', cd)
          else
            let cd1 = cd\<lparr>cd_pending := smap_set req_id
                         \<lparr>pd_done = False, pd_result = Message_default\<rparr> (cd_pending cd)\<rparr>;
                f = fwd\<lparr>m_req_id := req_id\<rparr>
            in if \<not> send conn (encode_message f) cd1 then
                 (forward_fail ''send to worker failed'',
                  cd1\<lparr>cd_pending := smap_erase req_id (cd_pending cd1)\<rparr>)
               else let (result, cd2) = await req_id cd1
                    in (result, cd2\<lparr>cd_pending := smap_erase req_id (cd_pending cd2)\<rparr>)))"

section \<open>Control handlers\<close>

definition ctl_out :: Message where
  "ctl_out = Message_default\<lparr>m_type := MT_ctl_result\<rparr>"

definition ctl_reply :: "bool \<Rightarrow> string \<Rightarrow> Message" where
  "ctl_reply good txt = ctl_out\<lparr>m_ok := good, m_text := txt\<rparr>"

text \<open>\<open>forward_to_worker(next_req_++, ...)\<close>.\<close>

definition forward_next :: "forward \<Rightarrow> string \<Rightarrow> Message \<Rightarrow> Coordinator \<Rightarrow> Message \<times> Coordinator" where
  "forward_next fw w m cd = fw (cd_next_req cd) w m (cd\<lparr>cd_next_req := cd_next_req cd + 1\<rparr>)"

definition set_lifecycle :: "AdapterId \<Rightarrow> LifecycleState \<Rightarrow> Fabric \<Rightarrow> Fabric" where
  "set_lifecycle i st fb =
    (case map_of (fb_authority fb) (Id_str i) of
       None \<Rightarrow> fb
     | Some ar \<Rightarrow> fb\<lparr>fb_authority := smap_set (Id_str i)
         (ar\<lparr>ar_lifecycle := set_state st (ar_lifecycle ar)\<rparr>) (fb_authority fb)\<rparr>)"

definition ctl_register_adapter :: "Message \<Rightarrow> Coordinator \<Rightarrow> (Error + Message) \<times> Coordinator" where
  "ctl_register_adapter req cd =
    (case deserialize_adapter (m_payload req) of
       Inl e \<Rightarrow> (Inl e, cd)
     | Inr d \<Rightarrow>
       (case register_adapter d (cd_fabric cd) of
          (Inl e, fb) \<Rightarrow> (Inl e, cd\<lparr>cd_fabric := fb\<rparr>)
        | (Inr reg, fb) \<Rightarrow>
          (Inr (ctl_out\<lparr>m_ok := True, m_text := Id_str (ad_id reg),
                  m_a := gen_value (ad_generation reg), m_payload := serialize_adapter reg\<rparr>),
           cd\<lparr>cd_fabric := fb\<rparr>)))"

definition ctl_validate :: "Message \<Rightarrow> Coordinator \<Rightarrow> (Error + Message) \<times> Coordinator" where
  "ctl_validate req cd =
    (bindE (must_parse (m_text2 req)) (\<lambda>base.
     bindE (must_parse (m_text3 req)) (\<lambda>mrev.
     bindE (must_parse (m_text req)) (\<lambda>i.
     let t = \<lparr>ct_base_model = base, ct_base_model_revision = mrev, ct_architecture = [],
              ct_device_arch = [], ct_device = Id_nil,
              ct_runtime_capabilities =
                smap_set ''sm_120'' ''supported'' (smap_set ''fp16'' ''supported'' []),
              ct_policy = [], ct_policy_generation = Generation 1\<rparr>
     in bindE (validate i t (cd_fabric cd)) (\<lambda>rep.
     Inr (ctl_out\<lparr>m_ok := cr_compatible rep, m_text := cr_summary rep,
            m_payload := map byte_of_char (to_json_report rep)\<rparr>))))), cd)"

text \<open>What the first section after the acknowledgement of a load does.\<close>

definition load_acked :: "AdapterInstanceId \<Rightarrow> uint64_t \<Rightarrow> Fabric \<Rightarrow> Fabric" where
  "load_acked inst n fb =
    (let fb1 = (case residency inst fb of
                  None \<Rightarrow> fb
                | Some r \<Rightarrow> fb\<lparr>fb_residencies :=
                    smap_set (Id_str inst) (r\<lparr>rr_ready := True, rr_bytes := n\<rparr>) (fb_residencies fb)\<rparr>)
     in fb1\<lparr>fb_capacity := snd (reserve LOC_device_memory n (Id_str inst) (fb_capacity fb1))\<rparr>)"

definition ctl_load ::
    "(Coordinator \<Rightarrow> Coordinator) \<Rightarrow> forward \<Rightarrow> Message \<Rightarrow> Coordinator \<Rightarrow> (Error + Message) \<times> Coordinator" where
  "ctl_load gap fw req cd =
    (case decode_fence (m_payload req) of
       Inl e \<Rightarrow> (Inl e, cd)
     | Inr fence \<Rightarrow>
       let pre = check_fence fence (cd_fabric cd) in
       if \<not> authorized pre then (Inr (ctl_reply False (ac_reason pre)), cd)
       else
         let cd1 = gap cd;
             n = (case adapter (f_adapter fence) (cd_fabric cd1) of
                    None \<Rightarrow> 0 | Some d \<Rightarrow> ad_memory_bytes d)
         in case create_instance (f_adapter fence) (f_worker fence) (f_boot fence) (f_device fence) n
                   (cd_rng cd1) (cd_fabric cd1) of
              (Inl e, rng', fb) \<Rightarrow> (Inl e, cd1\<lparr>cd_rng := rng', cd_fabric := fb\<rparr>)
            | (Inr inst, rng', fb) \<Rightarrow>
              let cd2 = cd1\<lparr>cd_rng := rng', cd_fabric := fb\<rparr>;
                  fwd = Message_default\<lparr>m_type := MT_wk_load, m_text := Id_str (f_adapter fence),
                          m_text2 := Id_str inst, m_payload := encode_fence fence\<rparr>;
                  (ack, cd3) = forward_next fw (m_text2 req) fwd cd2;
                  cd4 = (if m_ok ack
                         then gap (cd3\<lparr>cd_fabric := load_acked inst (m_a ack) (cd_fabric cd3)\<rparr>) else cd3);
                  cd5 = (if m_ok ack
                         then cd4\<lparr>cd_fabric := set_lifecycle (f_adapter fence) L_ready (cd_fabric cd4)\<rparr>
                         else cd4)
              in (Inr ((ctl_reply (m_ok ack) (if m_ok ack then ''loaded'' else m_text ack))
                         \<lparr>m_text2 := Id_str inst\<rparr>), cd5))"

definition ctl_activate ::
    "forward \<Rightarrow> Message \<Rightarrow> Coordinator \<Rightarrow> (Error + Message) \<times> Coordinator" where
  "ctl_activate fw req cd =
    (case decode_fence (m_payload req) of
       Inl e \<Rightarrow> (Inl e, cd)
     | Inr fence \<Rightarrow>
       let pre = check_fence fence (cd_fabric cd) in
       if \<not> authorized pre then (Inr (ctl_reply False (ac_reason pre)), cd)
       else
         let fwd = Message_default\<lparr>m_type := MT_wk_activate, m_text := Id_str (f_adapter fence),
                     m_payload := encode_fence fence\<rparr>;
             (ack, cd1) = forward_next fw (m_text2 req) fwd cd
         in if \<not> m_ok ack then (Inr (ctl_reply False (m_text ack)), cd1)
            else case bind_authority (f_adapter fence) fence (cd_fabric cd1) of
                (Inl e, fb) \<Rightarrow> (Inl e, cd1\<lparr>cd_fabric := fb\<rparr>)
              | (Inr chk, fb) \<Rightarrow>
                (Inr (ctl_reply (authorized chk) (ac_reason chk)), cd1\<lparr>cd_fabric := fb\<rparr>))"

definition ctl_deactivate ::
    "forward \<Rightarrow> Message \<Rightarrow> Coordinator \<Rightarrow> (Error + Message) \<times> Coordinator" where
  "ctl_deactivate fw req cd =
    (case must_parse (m_text req) of
       Inl e \<Rightarrow> (Inl e, cd)
     | Inr i \<Rightarrow>
       let fwd = Message_default\<lparr>m_type := MT_wk_deactivate, m_text := Id_str i\<rparr>;
           (ack, cd1) = forward_next fw (m_text2 req) fwd cd;
           cd2 = cd1\<lparr>cd_fabric := set_lifecycle i L_ready (cd_fabric cd1)\<rparr>
       in (Inr (ctl_reply (m_ok ack) (if m_ok ack then ''deactivated'' else m_text ack)), cd2))"

definition ctl_migrate ::
    "forward \<Rightarrow> Message \<Rightarrow> Coordinator \<Rightarrow> (Error + Message) \<times> Coordinator" where
  "ctl_migrate fw req cd =
    (case decode_fence (m_payload req) of
       Inl e \<Rightarrow> (Inl e, cd)
     | Inr fence \<Rightarrow>
       let fwd = Message_default\<lparr>m_type := MT_wk_migrate, m_text := Id_str (f_adapter fence),
                   m_text2 := m_text2 req, m_payload := encode_fence fence\<rparr>;
           (ack, cd1) = forward_next fw (m_text2 req) fwd cd
       in (Inr (ctl_reply (m_ok ack) (if m_ok ack then ''migrated'' else m_text ack)), cd1))"

definition ctl_invalidate ::
    "forward \<Rightarrow> Message \<Rightarrow> Coordinator \<Rightarrow> (Error + Message) \<times> Coordinator" where
  "ctl_invalidate fw req cd =
    (case must_parse (m_text req) of
       Inl e \<Rightarrow> (Inl e, cd)
     | Inr i \<Rightarrow>
       let (r, fb) = invalidate i IT_manual
             (if m_text4 req = [] then ''manual invalidation'' else m_text4 req) (cd_fabric cd);
           fwd = Message_default\<lparr>m_type := MT_wk_invalidate, m_text := Id_str i\<rparr>;
           (ack, cd1) = forward_next fw (m_text2 req) fwd (cd\<lparr>cd_fabric := fb\<rparr>)
       in (Inr (ctl_reply True (''invalidated: '' @ iv_reason r)), cd1))"

text \<open>The section of \<open>ctl_evict\<close>: read the recorded size, evict, release the capacity.\<close>

definition evict_release :: "AdapterInstanceId \<Rightarrow> Fabric \<Rightarrow> (bool \<times> string) \<times> Fabric" where
  "evict_release inst fb =
    (let n = (case residency inst fb of None \<Rightarrow> 0 | Some r \<Rightarrow> rr_bytes r);
         ((good, reason), fb1) = evict inst fb
     in ((good, reason),
         if good then fb1\<lparr>fb_capacity := snd (release LOC_device_memory n (Id_str inst) (fb_capacity fb1))\<rparr>
         else fb1))"

definition ctl_evict ::
    "forward \<Rightarrow> Message \<Rightarrow> Coordinator \<Rightarrow> (Error + Message) \<times> Coordinator" where
  "ctl_evict fw req cd =
    (case must_parse (m_text req) of
       Inl e \<Rightarrow> (Inl e, cd)
     | Inr inst \<Rightarrow>
       let ((good, reason), fb) = evict_release inst (cd_fabric cd);
           fwd = Message_default\<lparr>m_type := MT_wk_deactivate, m_text := Id_str inst\<rparr>;
           (ack, cd1) = forward_next fw (m_text2 req) fwd (cd\<lparr>cd_fabric := fb\<rparr>)
       in (Inr (ctl_reply good reason), cd1))"

definition ctl_pin :: "bool \<Rightarrow> Message \<Rightarrow> Coordinator \<Rightarrow> (Error + Message) \<times> Coordinator" where
  "ctl_pin up req cd =
    (case must_parse (m_text req) of
       Inl e \<Rightarrow> (Inl e, cd)
     | Inr inst \<Rightarrow>
       (case (if up then pin inst (cd_fabric cd) else unpin inst (cd_fabric cd)) of
          (Inl e, fb) \<Rightarrow> (Inl e, cd\<lparr>cd_fabric := fb\<rparr>)
        | (Inr _, fb) \<Rightarrow>
          (Inr (ctl_reply True (if up then ''pinned'' else ''unpinned'')), cd\<lparr>cd_fabric := fb\<rparr>)))"

definition ctl_snapshot :: "Coordinator \<Rightarrow> (Error + Message) \<times> Coordinator" where
  "ctl_snapshot cd =
     (Inr ((ctl_reply True ''snapshot'')\<lparr>m_payload := serialize_snapshot (snapshot (cd_fabric cd))\<rparr>), cd)"

definition ctl_list :: "Coordinator \<Rightarrow> (Error + Message) \<times> Coordinator" where
  "ctl_list cd =
     (Inr (ctl_reply True (concat (map (\<lambda>a. Id_str (ad_id a) @ '' gen=''
        @ dec_str (unat (gen_value (ad_generation a))) @ '' '' @ ad_name a @ [CHR 0x0A])
        (adapters (cd_fabric cd))))), cd)"

text \<open>\<open>std::getline\<close> over the payload, keeping the non-empty lines.\<close>

fun split_lines :: "string \<Rightarrow> string \<Rightarrow> string list" where
  "split_lines cur [] = (if cur = [] then [] else [rev cur])"
| "split_lines cur (c # s) =
     (if c = CHR 0x0A then (if cur = [] then split_lines [] s else rev cur # split_lines [] s)
      else split_lines (c # cur) s)"

fun parse_all :: "string list \<Rightarrow> Error + 'tag Id list" where
  "parse_all [] = Inr []"
| "parse_all (s # ss) = bindE (must_parse s) (\<lambda>i. bindE (parse_all ss) (\<lambda>is. Inr (i # is)))"

definition ctl_compose :: "Message \<Rightarrow> Coordinator \<Rightarrow> (Error + Message) option \<times> Coordinator" where
  "ctl_compose req cd =
    (case parse_all (split_lines [] (map char_of_byte (m_payload req))) of
       Inl e \<Rightarrow> (Some (Inl e), cd)
     | Inr ids \<Rightarrow>
       let (r, rng', fb) = publish_composition ids
             (if m_text4 req = [] then ''default'' else m_text4 req) (cd_rng cd) (cd_fabric cd)
       in (map_option (\<lambda>x. bindE x (\<lambda>c.
             Inr ((ctl_reply (co_is_valid c) (co_digest c))
                    \<lparr>m_text2 := Id_str (co_id c), m_a := gen_value (co_generation c)\<rparr>))) r,
           cd\<lparr>cd_rng := rng', cd_fabric := fb\<rparr>))"

definition ctl_epoch :: "Coordinator \<Rightarrow> (Error + Message) \<times> Coordinator" where
  "ctl_epoch cd =
    (let (e, fb) = advance_epoch (cd_fabric cd)
     in (Inr ((ctl_reply True (dec_str (unat (gen_value e))))\<lparr>m_a := gen_value e\<rparr>),
         cd\<lparr>cd_fabric := fb\<rparr>))"

definition ctl_capacity :: "Coordinator \<Rightarrow> (Error + Message) \<times> Coordinator" where
  "ctl_capacity cd =
    (let u = (\<lambda>loc. dec_str (unat (used (fb_capacity (cd_fabric cd)) loc)))
     in (Inr (ctl_reply True
          (''device_memory='' @ u LOC_device_memory @ '' pinned_host='' @ u LOC_pinned_host
           @ '' pageable_host='' @ u LOC_pageable_host @ '' process_local='' @ u LOC_process_local
           @ '' node_local='' @ u LOC_node_local
           @ '' persistent_storage='' @ u LOC_persistent_storage)), cd))"

definition ctl_shutdown :: "Coordinator \<Rightarrow> (Error + Message) \<times> Coordinator" where
  "ctl_shutdown cd =
     (Inr (ctl_reply True ''shutdown''), cd\<lparr>cd_shutdown := True, cd_running := False\<rparr>)"

definition dispatch ::
    "(Coordinator \<Rightarrow> Coordinator) \<Rightarrow> forward \<Rightarrow> Message \<Rightarrow> Coordinator \<Rightarrow>
     (Error + Message) option \<times> Coordinator" where
  "dispatch gap fw req cd =
    (let t = m_type req in
     if t = MT_ctl_register_adapter then apfst Some (ctl_register_adapter req cd)
     else if t = MT_ctl_validate then apfst Some (ctl_validate req cd)
     else if t = MT_ctl_load then apfst Some (ctl_load gap fw req cd)
     else if t = MT_ctl_activate then apfst Some (ctl_activate fw req cd)
     else if t = MT_ctl_deactivate then apfst Some (ctl_deactivate fw req cd)
     else if t = MT_ctl_migrate then apfst Some (ctl_migrate fw req cd)
     else if t = MT_ctl_invalidate then apfst Some (ctl_invalidate fw req cd)
     else if t = MT_ctl_evict then apfst Some (ctl_evict fw req cd)
     else if t = MT_ctl_pin then apfst Some (ctl_pin True req cd)
     else if t = MT_ctl_unpin then apfst Some (ctl_pin False req cd)
     else if t = MT_ctl_snapshot then apfst Some (ctl_snapshot cd)
     else if t = MT_ctl_list then apfst Some (ctl_list cd)
     else if t = MT_ctl_compose then ctl_compose req cd
     else if t = MT_ctl_epoch then apfst Some (ctl_epoch cd)
     else if t = MT_ctl_capacity then apfst Some (ctl_capacity cd)
     else if t = MT_ctl_shutdown then apfst Some (ctl_shutdown cd)
     else if t = MT_ping then (Some (Inr (ctl_out\<lparr>m_ok := True, m_type := MT_pong\<rparr>)), cd)
     else (Some (Inr (ctl_reply False ''unhandled control message'')), cd))"

text \<open>The answer of \<open>process_control\<close>: an error becomes a refusal that names its code.\<close>

definition process_control ::
    "(Coordinator \<Rightarrow> Coordinator) \<Rightarrow> forward \<Rightarrow> Message \<Rightarrow> Coordinator \<Rightarrow> Message option \<times> Coordinator" where
  "process_control gap fw req cd =
    (case dispatch gap fw req cd of
       (None, cd') \<Rightarrow> (None, cd')
     | (Some (Inr m), cd') \<Rightarrow> (Some m, cd')
     | (Some (Inl e), cd') \<Rightarrow>
       (Some (ctl_reply False (ErrorCode_to_string (err_code e) @ '': '' @ err_what e)), cd'))"

end
