(* ===== verification/AF_CoordInv.thy ===== *)
theory AF_CoordInv
  imports AF_Coordinator
begin

text \<open>
  Every entry point of the coordinator is a sequence of fabric operations, whatever the other
  threads do between its critical sections, as long as they too act through the fabric. From
  that simulation the fabric invariants hold in every state of the coordinator, together with
  one more: the active fence names a connected worker with its current boot.
\<close>

section \<open>The fabric steps a coordinator takes\<close>

inductive coord_step :: "Fabric \<Rightarrow> Fabric \<Rightarrow> bool" where
  coord_register: "worker_ok r \<Longrightarrow> wr_connected r \<Longrightarrow> coord_step fb (reregister r fb)"
| coord_down: "coord_step fb (on_worker_down i fb)"
| coord_op: "fabric_step fb fb' \<Longrightarrow> fb_workers fb' = fb_workers fb \<Longrightarrow> coord_step fb fb'"

lemma coord_step_fabric: "coord_step fb fb' \<Longrightarrow> fabric_step\<^sup>*\<^sup>* fb fb'"
proof (induction rule: coord_step.induct)
  case (coord_register r fb)
  have "fabric_step fb (register_worker r fb)" by (rule step_worker [OF coord_register(1)])
  moreover have "fabric_step (register_worker r fb) (reregister r fb)"
    unfolding reregister_def by (rule step_restart)
  ultimately show ?case by (simp add: converse_rtranclp_into_rtranclp)
qed (auto intro: step_down)

lemma coord_steps_fabric: "coord_step\<^sup>*\<^sup>* fb fb' \<Longrightarrow> fabric_step\<^sup>*\<^sup>* fb fb'"
  by (induction rule: rtranclp_induct) (auto dest: coord_step_fabric)

section \<open>The active fence names a live worker\<close>

definition live_authority :: "Fabric \<Rightarrow> bool" where
  "live_authority fb \<longleftrightarrow> (case fb_active_fence fb of None \<Rightarrow> True | Some a \<Rightarrow>
     (case worker (f_worker a) fb of None \<Rightarrow> False | Some w \<Rightarrow>
        wr_connected w \<and> wr_boot w = f_boot a))"

lemma active_fence_step:
  "fabric_step fb fb' \<Longrightarrow> fb_active_fence fb' = fb_active_fence fb \<or> fb_active_fence fb' = None \<or>
     (\<exists>f. fence_current f fb \<and> fb_active_fence fb' = Some f)"
proof (induction rule: fabric_step.induct)
  case (step_register d fb)
  show ?case by (cases rule: register_effect [of d fb]) simp_all
next
  case (step_publish ids policy rng fb r rng' fb')
  from step_publish(3) show ?case by (cases rule: publish_effect) simp_all
next
  case (step_create i w boot dev n rng fb r rng' fb')
  from step_create show ?case by (cases rule: create_effect) simp_all
next
  case (step_bind fb f)
  show ?case by (cases rule: bind_authority_cases [of f fb "f_adapter f"]) simp_all
next
  case (step_invalidate fb i trigger reason)
  show ?case by (simp add: invalidate_active_fence split: option.split)
next
  case (step_down fb i)
  show ?case by (simp add: on_worker_down_fields split: option.split)
next
  case (step_restart fb i b)
  show ?case by (simp add: on_worker_restart_fields split: option.split)
qed (simp_all add: advance_epoch_def register_worker_def evict_def pin_def unpin_def recover_def
    Let_def split: option.split)

lemma live_bound: "fence_current f fb \<Longrightarrow> \<exists>w. worker (f_worker f) fb = Some w \<and>
    wr_connected w \<and> wr_boot w = f_boot f"
  by (rule fence_needs_boot)

lemma live_authority_step: "coord_step fb fb' \<Longrightarrow> live_authority fb \<Longrightarrow> live_authority fb'"
proof (induction rule: coord_step.induct)
  case (coord_register r fb)
  show ?case
  proof (cases "fb_active_fence fb")
    case None
    then show ?thesis
      by (simp add: live_authority_def reregister_def on_worker_restart_fields register_worker_def)
  next
    case (Some a)
    have "fb_active_fence (reregister r fb) =
        (if f_worker a = wr_id r \<and> f_boot a \<noteq> wr_boot r then None else Some a)"
      by (simp add: reregister_def on_worker_restart_fields register_worker_def Some)
    then show ?thesis
      using coord_register Some by (simp add: live_authority_def worker_reregister)
  qed
next
  case (coord_down fb i)
  then show ?case
    by (cases "fb_active_fence fb")
      (simp_all add: live_authority_def on_worker_down_fields worker_after_down)
next
  case (coord_op fb fb')
  have same: "worker i fb' = worker i fb" for i using coord_op(2) by (simp add: worker_def)
  from active_fence_step [OF coord_op(1)] show ?case
  proof (elim disjE exE conjE)
    fix f assume f: "fence_current f fb" "fb_active_fence fb' = Some f"
    from live_bound [OF f(1)] f(2) show ?thesis by (auto simp: live_authority_def same)
  next
    assume "fb_active_fence fb' = fb_active_fence fb"
    with coord_op.prems same show ?thesis
      by (cases "fb_active_fence fb") (simp_all add: live_authority_def)
  qed (simp add: live_authority_def)
qed

lemma live_authority_steps: "coord_step\<^sup>*\<^sup>* fb fb' \<Longrightarrow> live_authority fb \<Longrightarrow> live_authority fb'"
  by (induction rule: rtranclp_induct) (auto intro: live_authority_step)

section \<open>Control messages are sequences of fabric steps\<close>

definition forward_sound :: "forward \<Rightarrow> bool" where
  "forward_sound fw \<longleftrightarrow>
     (\<forall>r w m cd. coord_step\<^sup>*\<^sup>* (cd_fabric cd) (cd_fabric (snd (fw r w m cd))))"

definition gap_sound :: "(Coordinator \<Rightarrow> Coordinator) \<Rightarrow> bool" where
  "gap_sound gap \<longleftrightarrow> (\<forall>cd. coord_step\<^sup>*\<^sup>* (cd_fabric cd) (cd_fabric (gap cd)))"

lemma forward_next_steps:
  assumes "forward_sound fw" and "forward_next fw w m cd = (ack, cd')"
  shows "coord_step\<^sup>*\<^sup>* (cd_fabric cd) (cd_fabric cd')"
proof -
  have "coord_step\<^sup>*\<^sup>* (cd_fabric (cd\<lparr>cd_next_req := cd_next_req cd + 1\<rparr>)) (cd_fabric (snd (ack, cd')))"
    using assms unfolding forward_sound_def forward_next_def by metis
  then show ?thesis by simp
qed

lemma forward_to_worker_sound:
  assumes "\<And>r cd. coord_step\<^sup>*\<^sup>* (cd_fabric cd) (cd_fabric (snd (await r cd)))"
  shows "forward_sound (forward_to_worker send await)"
  unfolding forward_sound_def
proof (intro allI)
  fix r w m cd
  have "coord_step\<^sup>*\<^sup>* (cd_fabric cd)
      (cd_fabric (snd (await r (cd\<lparr>cd_pending := smap_set r \<lparr>pd_done = False,
         pd_result = Message_default\<rparr> (cd_pending cd)\<rparr>))))"
    using assms [of "cd\<lparr>cd_pending := smap_set r \<lparr>pd_done = False,
         pd_result = Message_default\<rparr> (cd_pending cd)\<rparr>" r] by simp
  then show "coord_step\<^sup>*\<^sup>* (cd_fabric cd) (cd_fabric (snd (forward_to_worker send await r w m cd)))"
    by (simp add: forward_to_worker_def Let_def case_prod_beta split: option.split)
qed

lemma op_steps: "fabric_step fb fb' \<Longrightarrow> fb_workers fb' = fb_workers fb \<Longrightarrow> coord_step\<^sup>*\<^sup>* fb fb'"
  by (rule r_into_rtranclp) (rule coord_op)

lemma set_lifecycle_steps: "coord_step\<^sup>*\<^sup>* fb (set_lifecycle i st fb)"
proof (cases "map_of (fb_authority fb) (Id_str i)")
  case (Some ar)
  then show ?thesis
    using step_lifecycle [OF Some, of "set_state st (ar_lifecycle ar)"]
    by (intro op_steps) (simp_all add: set_lifecycle_def)
qed (simp add: set_lifecycle_def)

lemma capacity_steps: "coord_step\<^sup>*\<^sup>* fb (fb\<lparr>fb_capacity := c\<rparr>)"
  by (rule op_steps [OF step_capacity]) simp

lemma load_acked_steps: "coord_step\<^sup>*\<^sup>* fb (load_acked inst n fb)"
proof (cases "map_of (fb_residencies fb) (Id_str inst)")
  case None
  then show ?thesis
    by (simp add: load_acked_def residency_def Let_def capacity_steps)
next
  case (Some r)
  let ?fb1 = "fb\<lparr>fb_residencies := smap_set (Id_str inst) (r\<lparr>rr_ready := True, rr_bytes := n\<rparr>)
      (fb_residencies fb)\<rparr>"
  have "coord_step\<^sup>*\<^sup>* fb ?fb1" by (rule op_steps [OF step_residency [OF Some]]) simp_all
  also have "coord_step\<^sup>*\<^sup>* ?fb1 (load_acked inst n fb)"
    using Some capacity_steps [of ?fb1] by (simp add: load_acked_def residency_def Let_def)
  finally show ?thesis .
qed

lemma evict_workers: "fb_workers (snd (evict inst fb)) = fb_workers fb"
  by (simp add: evict_def split: option.split)

lemma evict_release_steps: "coord_step\<^sup>*\<^sup>* fb (snd (evict_release inst fb))"
proof -
  have "coord_step\<^sup>*\<^sup>* fb (snd (evict inst fb))"
    by (rule op_steps [OF step_evict evict_workers])
  also have "coord_step\<^sup>*\<^sup>* (snd (evict inst fb)) (snd (evict_release inst fb))"
    using capacity_steps by (simp add: evict_release_def Let_def case_prod_beta)
  finally show ?thesis .
qed

text \<open>Sizes of a composition request.\<close>

lemma length_split_lines: "length (split_lines cur s) \<le> (if cur = [] then 0 else 1) + length s"
proof (induction cur s rule: split_lines.induct)
  case (2 cur c s)
  then show ?case by (cases "c = CHR 0x0A"; cases "cur = []") auto
qed simp

lemma length_parse_all: "parse_all ss = Inr is \<Longrightarrow> length is = length ss"
  by (induction ss arbitrary: "is") (auto simp: bindE_Inr_iff)

text \<open>One lemma for each handler that changes the fabric.\<close>

lemma register_workers: "fb_workers (snd (register_adapter d fb)) = fb_workers fb"
  by (cases rule: register_effect [of d fb]) simp_all

lemma ctl_register_adapter_steps:
  "coord_step\<^sup>*\<^sup>* (cd_fabric cd) (cd_fabric (snd (ctl_register_adapter req cd)))"
proof (cases "deserialize_adapter (m_payload req)")
  case (Inr d)
  have "cd_fabric (snd (ctl_register_adapter req cd)) = snd (register_adapter d (cd_fabric cd))"
    by (simp add: ctl_register_adapter_def Inr case_prod_beta split: sum.split)
  moreover have "fabric_step (cd_fabric cd) (snd (register_adapter d (cd_fabric cd)))"
    by (rule step_register) (rule adapter_accepted_ok [OF Inr])
  ultimately show ?thesis using op_steps register_workers by metis
qed (simp add: ctl_register_adapter_def)

lemma create_instance_steps:
  assumes "create_instance i w boot dev n rng fb = (r, rng', fb')"
  shows "coord_step\<^sup>*\<^sup>* fb fb'"
proof (rule op_steps [OF step_create [OF assms]])
  show "fb_workers fb' = fb_workers fb" using assms by (cases rule: create_effect) simp_all
qed

lemma ctl_load_steps:
  assumes "gap_sound gap" and "forward_sound fw"
  shows "coord_step\<^sup>*\<^sup>* (cd_fabric cd) (cd_fabric (snd (ctl_load gap fw req cd)))"
proof (cases "decode_fence (m_payload req)")
  case (Inr f)
  show ?thesis
  proof (cases "authorized (check_fence f (cd_fabric cd))")
    case True
    let ?cd1 = "gap cd"
    let ?n = "case adapter (f_adapter f) (cd_fabric ?cd1) of None \<Rightarrow> 0 | Some d \<Rightarrow> ad_memory_bytes d"
    obtain r rng' fb where cr: "create_instance (f_adapter f) (f_worker f) (f_boot f) (f_device f) ?n
        (cd_rng ?cd1) (cd_fabric ?cd1) = (r, rng', fb)" by (metis prod_cases3)
    have s1: "coord_step\<^sup>*\<^sup>* (cd_fabric cd) (cd_fabric ?cd1)" using assms(1) by (simp add: gap_sound_def)
    have s2: "coord_step\<^sup>*\<^sup>* (cd_fabric ?cd1) fb" by (rule create_instance_steps [OF cr])
    show ?thesis
    proof (cases r)
      case (Inl e)
      with Inr True cr s1 s2 show ?thesis by (simp add: ctl_load_def Let_def)
    next
      case (Inr inst)
      let ?cd2 = "?cd1\<lparr>cd_rng := rng', cd_fabric := fb\<rparr>"
      let ?fwd = "Message_default\<lparr>m_type := MT_wk_load, m_text := Id_str (f_adapter f),
          m_text2 := Id_str inst, m_payload := encode_fence f\<rparr>"
      obtain ack cd3 where fw: "forward_next fw (m_text2 req) ?fwd ?cd2 = (ack, cd3)"
        by (cases "forward_next fw (m_text2 req) ?fwd ?cd2") blast
      have s3: "coord_step\<^sup>*\<^sup>* fb (cd_fabric cd3)"
        using forward_next_steps [OF assms(2) fw] by simp
      let ?cda = "cd3\<lparr>cd_fabric := load_acked inst (m_a ack) (cd_fabric cd3)\<rparr>"
      have "coord_step\<^sup>*\<^sup>* (cd_fabric cd3) (cd_fabric ?cda)" by (simp add: load_acked_steps)
      also have "coord_step\<^sup>*\<^sup>* (cd_fabric ?cda) (cd_fabric (gap ?cda))"
        using assms(1) unfolding gap_sound_def by blast
      also have "coord_step\<^sup>*\<^sup>* (cd_fabric (gap ?cda))
          (set_lifecycle (f_adapter f) L_ready (cd_fabric (gap ?cda)))" by (rule set_lifecycle_steps)
      finally have s4: "coord_step\<^sup>*\<^sup>* (cd_fabric cd3)
          (set_lifecycle (f_adapter f) L_ready (cd_fabric (gap ?cda)))" .
      have "cd_fabric (snd (ctl_load gap fw req cd)) = (if m_ok ack
          then set_lifecycle (f_adapter f) L_ready (cd_fabric (gap ?cda)) else cd_fabric cd3)"
        using \<open>decode_fence (m_payload req) = Inr f\<close> True cr Inr fw
        by (simp add: ctl_load_def Let_def)
      moreover have "coord_step\<^sup>*\<^sup>* (cd_fabric cd) (cd_fabric cd3)"
        by (rule rtranclp_trans [OF s1 rtranclp_trans [OF s2 s3]])
      ultimately show ?thesis using rtranclp_trans [OF _ s4] by simp
    qed
  qed (simp add: ctl_load_def Inr Let_def)
qed (simp add: ctl_load_def)

lemma bind_workers: "fb_workers (snd (bind_authority i f fb)) = fb_workers fb"
  by (cases rule: bind_authority_cases [of f fb i]) simp_all

lemma ctl_activate_steps:
  assumes "forward_sound fw"
  shows "coord_step\<^sup>*\<^sup>* (cd_fabric cd) (cd_fabric (snd (ctl_activate fw req cd)))"
proof (cases "decode_fence (m_payload req)")
  case (Inr f)
  let ?fwd = "Message_default\<lparr>m_type := MT_wk_activate, m_text := Id_str (f_adapter f),
      m_payload := encode_fence f\<rparr>"
  obtain ack cd1 where fw: "forward_next fw (m_text2 req) ?fwd cd = (ack, cd1)"
    by (cases "forward_next fw (m_text2 req) ?fwd cd") blast
  have s: "coord_step\<^sup>*\<^sup>* (cd_fabric cd) (cd_fabric cd1)" by (rule forward_next_steps [OF assms fw])
  have "coord_step\<^sup>*\<^sup>* (cd_fabric cd1) (snd (bind_authority (f_adapter f) f (cd_fabric cd1)))"
    by (rule op_steps [OF step_bind bind_workers])
  with s show ?thesis
    by (auto simp: ctl_activate_def Inr fw Let_def split: prod.splits sum.splits)
qed (simp add: ctl_activate_def)

lemma ctl_deactivate_steps:
  assumes "forward_sound fw"
  shows "coord_step\<^sup>*\<^sup>* (cd_fabric cd) (cd_fabric (snd (ctl_deactivate fw req cd)))"
proof (cases "must_parse (m_text req) :: Error + AdapterId")
  case (Inr i)
  let ?fwd = "Message_default\<lparr>m_type := MT_wk_deactivate, m_text := Id_str i\<rparr>"
  obtain ack cd1 where fw: "forward_next fw (m_text2 req) ?fwd cd = (ack, cd1)"
    by (cases "forward_next fw (m_text2 req) ?fwd cd") blast
  have "coord_step\<^sup>*\<^sup>* (cd_fabric cd) (cd_fabric cd1)" by (rule forward_next_steps [OF assms fw])
  also have "coord_step\<^sup>*\<^sup>* (cd_fabric cd1) (set_lifecycle i L_ready (cd_fabric cd1))"
    by (rule set_lifecycle_steps)
  finally show ?thesis by (simp add: ctl_deactivate_def Inr fw Let_def)
qed (simp add: ctl_deactivate_def)

lemma ctl_migrate_steps:
  assumes "forward_sound fw"
  shows "coord_step\<^sup>*\<^sup>* (cd_fabric cd) (cd_fabric (snd (ctl_migrate fw req cd)))"
proof (cases "decode_fence (m_payload req)")
  case (Inr f)
  let ?fwd = "Message_default\<lparr>m_type := MT_wk_migrate, m_text := Id_str (f_adapter f),
      m_text2 := m_text2 req, m_payload := encode_fence f\<rparr>"
  obtain ack cd1 where fw: "forward_next fw (m_text2 req) ?fwd cd = (ack, cd1)"
    by (cases "forward_next fw (m_text2 req) ?fwd cd") blast
  show ?thesis using forward_next_steps [OF assms fw] by (simp add: ctl_migrate_def Inr fw Let_def)
qed (simp add: ctl_migrate_def)

lemma ctl_invalidate_steps:
  assumes "forward_sound fw"
  shows "coord_step\<^sup>*\<^sup>* (cd_fabric cd) (cd_fabric (snd (ctl_invalidate fw req cd)))"
proof (cases "must_parse (m_text req) :: Error + AdapterId")
  case (Inr i)
  let ?why = "if m_text4 req = [] then ''manual invalidation'' else m_text4 req"
  let ?fb = "snd (invalidate i IT_manual ?why (cd_fabric cd))"
  let ?fwd = "Message_default\<lparr>m_type := MT_wk_invalidate, m_text := Id_str i\<rparr>"
  obtain ack cd1 where fw: "forward_next fw (m_text2 req) ?fwd (cd\<lparr>cd_fabric := ?fb\<rparr>) = (ack, cd1)"
    by (cases "forward_next fw (m_text2 req) ?fwd (cd\<lparr>cd_fabric := ?fb\<rparr>)") blast
  have 1: "coord_step\<^sup>*\<^sup>* (cd_fabric cd) ?fb" by (rule op_steps [OF step_invalidate]) simp
  have 2: "coord_step\<^sup>*\<^sup>* ?fb (cd_fabric cd1)" using forward_next_steps [OF assms fw] by simp
  from rtranclp_trans [OF 1 2] show ?thesis by (simp add: ctl_invalidate_def Inr fw Let_def case_prod_beta)
qed (simp add: ctl_invalidate_def)

lemma ctl_evict_steps:
  assumes "forward_sound fw"
  shows "coord_step\<^sup>*\<^sup>* (cd_fabric cd) (cd_fabric (snd (ctl_evict fw req cd)))"
proof (cases "must_parse (m_text req) :: Error + AdapterInstanceId")
  case (Inr inst)
  let ?fb = "snd (evict_release inst (cd_fabric cd))"
  let ?fwd = "Message_default\<lparr>m_type := MT_wk_deactivate, m_text := Id_str inst\<rparr>"
  obtain ack cd1 where fw: "forward_next fw (m_text2 req) ?fwd (cd\<lparr>cd_fabric := ?fb\<rparr>) = (ack, cd1)"
    by (cases "forward_next fw (m_text2 req) ?fwd (cd\<lparr>cd_fabric := ?fb\<rparr>)") blast
  have 1: "coord_step\<^sup>*\<^sup>* (cd_fabric cd) ?fb" by (rule evict_release_steps)
  have 2: "coord_step\<^sup>*\<^sup>* ?fb (cd_fabric cd1)" using forward_next_steps [OF assms fw] by simp
  from rtranclp_trans [OF 1 2] show ?thesis by (simp add: ctl_evict_def Inr fw Let_def case_prod_beta)
qed (simp add: ctl_evict_def)

lemma ctl_pin_steps: "coord_step\<^sup>*\<^sup>* (cd_fabric cd) (cd_fabric (snd (ctl_pin up req cd)))"
proof (cases "must_parse (m_text req) :: Error + AdapterInstanceId")
  case (Inr inst)
  have w: "fb_workers (snd (pin inst fb)) = fb_workers fb" "fb_workers (snd (unpin inst fb)) = fb_workers fb"
    for fb by (simp_all add: pin_def unpin_def Let_def split: option.split)
  have "coord_step\<^sup>*\<^sup>* (cd_fabric cd) (snd (pin inst (cd_fabric cd)))"
    "coord_step\<^sup>*\<^sup>* (cd_fabric cd) (snd (unpin inst (cd_fabric cd)))"
    by (rule op_steps [OF step_pin w(1)], rule op_steps [OF step_unpin w(2)])
  then show ?thesis
    by (cases up) (auto simp: ctl_pin_def Inr split: prod.splits sum.splits)
qed (simp add: ctl_pin_def)

lemma publish_workers:
  "publish_composition ids policy rng fb = (r, rng', fb') \<Longrightarrow> fb_workers fb' = fb_workers fb"
  by (erule publish_effect) simp_all

lemma ctl_compose_steps:
  assumes "message_ok req"
  shows "coord_step\<^sup>*\<^sup>* (cd_fabric cd) (cd_fabric (snd (ctl_compose req cd)))"
proof (cases "parse_all (split_lines [] (map char_of_byte (m_payload req))) :: Error + AdapterId list")
  case (Inr ids)
  let ?policy = "if m_text4 req = [] then ''default'' else m_text4 req"
  obtain r rng' fb where pub: "publish_composition ids ?policy (cd_rng cd) (cd_fabric cd) = (r, rng', fb)"
    by (metis prod_cases3)
  have "length ids \<le> length (m_payload req)"
    using length_parse_all [OF Inr] length_split_lines [of "[]" "map char_of_byte (m_payload req)"] by simp
  then have "length ids < 2 ^ 32" using assms by (simp add: message_ok_def)
  moreover have "string_ok ?policy" using assms by (simp add: message_ok_def string_ok_def)
  ultimately have "coord_step\<^sup>*\<^sup>* (cd_fabric cd) fb"
    by (intro op_steps [OF step_publish [OF _ _ pub]]) (simp_all add: publish_workers [OF pub])
  then show ?thesis by (simp add: ctl_compose_def Inr pub)
qed (simp add: ctl_compose_def)

lemma ctl_epoch_steps: "coord_step\<^sup>*\<^sup>* (cd_fabric cd) (cd_fabric (snd (ctl_epoch cd)))"
proof -
  have "coord_step\<^sup>*\<^sup>* (cd_fabric cd) (snd (advance_epoch (cd_fabric cd)))"
    by (rule op_steps [OF step_epoch]) (simp add: advance_epoch_def Let_def)
  then show ?thesis by (simp add: ctl_epoch_def Let_def case_prod_beta)
qed

lemma dispatch_steps:
  assumes "message_ok req" and "gap_sound gap" and "forward_sound fw"
  shows "coord_step\<^sup>*\<^sup>* (cd_fabric cd) (cd_fabric (snd (dispatch gap fw req cd)))"
  unfolding dispatch_def Let_def
  using ctl_register_adapter_steps [of cd req] ctl_load_steps [OF assms(2,3), of cd req]
    ctl_activate_steps [OF assms(3), of cd req] ctl_deactivate_steps [OF assms(3), of cd req]
    ctl_migrate_steps [OF assms(3), of cd req] ctl_invalidate_steps [OF assms(3), of cd req]
    ctl_evict_steps [OF assms(3), of cd req] ctl_pin_steps [of cd _ req]
    ctl_compose_steps [OF assms(1), of cd] ctl_epoch_steps [of cd]
  by (simp add: ctl_validate_def ctl_snapshot_def ctl_list_def ctl_capacity_def ctl_shutdown_def Let_def)

lemma process_control_steps:
  assumes "message_ok req" and "gap_sound gap" and "forward_sound fw"
  shows "coord_step\<^sup>*\<^sup>* (cd_fabric cd) (cd_fabric (snd (process_control gap fw req cd)))"
proof -
  have "snd (process_control gap fw req cd) = snd (dispatch gap fw req cd)"
    by (simp add: process_control_def case_prod_beta split: option.split sum.split)
  then show ?thesis using dispatch_steps [OF assms] by simp
qed

end
