(* ===== verification/AF_Worker.thy ===== *)
theory AF_Worker
  imports AF_Protocol AF_StdMap
begin

text \<open>
  The worker service (\<open>worker.hpp\<close>, \<open>worker.cpp\<close>). The socket is a parameter: \<open>exchange\<close> is
  one frame sent and one received (\<open>None\<close> when sending fails, \<open>Some None\<close> when receiving does),
  and \<open>worker_run\<close> works on the list of frames the connection delivers before it ends. A
  handled command returns the replies it sends.
\<close>

record WorkerOptions =
  wo_coordinator_host :: string
  wo_coordinator_port :: uint16_t
  wo_id :: WorkerId
  wo_node :: NodeId
  wo_device :: DeviceId
  wo_name :: string
  wo_use_cuda :: bool
  wo_boot_seed :: uint64_t

definition default_options :: WorkerOptions where
  "default_options =
     \<lparr>wo_coordinator_host = ''127.0.0.1'', wo_coordinator_port = 0, wo_id = Id_nil, wo_node = Id_nil,
      wo_device = Id_nil, wo_name = [], wo_use_cuda = False, wo_boot_seed = 1\<rparr>"

record WorkerService =
  ws_opts :: WorkerOptions
  ws_boot :: WorkerBootId
  ws_local_residency :: "(string, bool \<times> uint64_t) smap"
  ws_registered :: bool
  ws_stop :: bool

definition WorkerService_new :: "WorkerOptions \<Rightarrow> WorkerService" where
  "WorkerService_new opts =
     \<lparr>ws_opts = opts, ws_boot = Id_nil, ws_local_residency = [], ws_registered = False,
      ws_stop = False\<rparr>"

definition boot_of_seed :: "uint64_t \<Rightarrow> WorkerBootId" where
  "boot_of_seed seed = fst (Id_generate \<lparr>rng_state = seed\<rparr>)"

definition register_message :: "WorkerOptions \<Rightarrow> WorkerBootId \<Rightarrow> Message" where
  "register_message opts boot =
     Message_default
       \<lparr>m_type := MT_wk_register, m_text := Id_str (wo_id opts), m_text2 := Id_str boot,
        m_text3 := wo_name opts @ ''@'' @ wo_coordinator_host opts @ '':''
          @ dec_str (unat (wo_coordinator_port opts)),
        m_text4 := Id_str (wo_node opts)\<rparr>"

definition connect_and_register ::
    "bool \<Rightarrow> (byte list \<Rightarrow> byte list option option) \<Rightarrow> WorkerService \<Rightarrow> (Error + bool) \<times> WorkerService" where
  "connect_and_register connected exchange ws =
    (let ws1 = ws\<lparr>ws_boot := boot_of_seed (wo_boot_seed (ws_opts ws))\<rparr> in
     if \<not> connected then (Inr False, ws1)
     else case exchange (encode_message (register_message (ws_opts ws1) (ws_boot ws1))) of
       None \<Rightarrow> (Inr False, ws1)
     | Some None \<Rightarrow> (Inr False, ws1)
     | Some (Some buf) \<Rightarrow> (bindE (decode_message buf) (\<lambda>ack. Inr (m_ok ack)), ws1))"

definition worker_reply :: "Message \<Rightarrow> MsgType \<Rightarrow> bool \<Rightarrow> uint64_t \<Rightarrow> string \<Rightarrow> Message" where
  "worker_reply req ty good n note =
     Message_default\<lparr>m_type := ty, m_req_id := m_req_id req, m_ok := good, m_a := n, m_text := note\<rparr>"

definition handle_command :: "Message \<Rightarrow> WorkerService \<Rightarrow> Message list \<times> WorkerService" where
  "handle_command msg ws =
    (let t = m_type msg in
     if t = MT_wk_load then
       let n = (if m_a msg = 0 then 1 else m_a msg)
       in ([worker_reply msg MT_wk_load_ack True n ''loaded''],
           ws\<lparr>ws_local_residency := smap_set (m_text msg) (True, n) (ws_local_residency ws)\<rparr>)
     else if t = MT_wk_activate then
       ([worker_reply msg MT_wk_activate_ack True
           (case map_of (ws_local_residency ws) (m_text msg) of None \<Rightarrow> 0 | Some (_, n) \<Rightarrow> n)
           ''activated''], ws)
     else if t = MT_wk_deactivate then
       ([worker_reply msg MT_wk_deactivate_ack True 0 ''deactivated''], ws)
     else if t = MT_wk_migrate then
       ([worker_reply msg MT_wk_migrate_ack True 0 ''migrated''], ws)
     else if t = MT_wk_invalidate then
       ([worker_reply msg MT_wk_invalidate_ack True 0 ''invalidated''],
        ws\<lparr>ws_local_residency := smap_erase (m_text msg) (ws_local_residency ws)\<rparr>)
     else if t = MT_wk_shutdown then ([], ws\<lparr>ws_stop := True\<rparr>)
     else ([], ws))"

fun worker_run :: "byte list list \<Rightarrow> WorkerService \<Rightarrow> Message list \<times> WorkerService" where
  "worker_run [] ws = ([], ws)"
| "worker_run (buf # bufs) ws =
     (if ws_stop ws then ([], ws)
      else case decode_message buf of
        Inl e \<Rightarrow> ([], ws)
      | Inr msg \<Rightarrow>
          let (out1, ws1) = handle_command msg ws; (out2, ws2) = worker_run bufs ws1
          in (out1 @ out2, ws2))"

section \<open>What a worker answers\<close>

text \<open>Every reply is a success and carries the request it answers; only a shutdown has none.\<close>

lemma handle_command_replies:
  "\<forall>r \<in> set (fst (handle_command msg ws)). m_ok r \<and> m_req_id r = m_req_id msg"
  by (simp add: handle_command_def worker_reply_def Let_def)

lemma load_reply:
  "m_type msg = MT_wk_load \<Longrightarrow>
     fst (handle_command msg ws) =
       [worker_reply msg MT_wk_load_ack True (if m_a msg = 0 then 1 else m_a msg) ''loaded'']"
  by (simp add: handle_command_def Let_def)

lemma handle_command_residency:
  "map_of (ws_local_residency (snd (handle_command msg ws))) k =
     (if m_type msg = MT_wk_load \<and> k = m_text msg
        then Some (True, if m_a msg = 0 then 1 else m_a msg)
      else if m_type msg = MT_wk_invalidate \<and> k = m_text msg then None
      else map_of (ws_local_residency ws) k)"
  by (simp add: handle_command_def Let_def)

text \<open>The residency after a list of commands: the last load or invalidation of the key decides.\<close>

fun residency_after :: "Message list \<Rightarrow> string \<Rightarrow> (bool \<times> uint64_t) option \<Rightarrow> (bool \<times> uint64_t) option" where
  "residency_after [] k old = old"
| "residency_after (m # ms) k old =
     (if m_type m = MT_wk_shutdown then old
      else residency_after ms k
        (if m_type m = MT_wk_load \<and> k = m_text m then Some (True, if m_a m = 0 then 1 else m_a m)
         else if m_type m = MT_wk_invalidate \<and> k = m_text m then None else old))"

lemma handle_command_stop:
  "ws_stop (snd (handle_command msg ws)) \<longleftrightarrow> ws_stop ws \<or> m_type msg = MT_wk_shutdown"
  by (simp add: handle_command_def Let_def)

lemma worker_run_stopped: "ws_stop ws \<Longrightarrow> worker_run bufs ws = ([], ws)"
  by (cases bufs) simp_all

text \<open>
  C36: The worker's command loop, over the encoded form of any list of commands, leaves each
  adapter's residency as the last load (with its size, at least 1) or invalidation of the adapter
  before the first shutdown says, and as it was where there is none.
\<close>

theorem worker_run_residency:
  assumes "\<not> ws_stop ws" and "\<forall>m \<in> set ms. message_ok m"
  shows "map_of (ws_local_residency (snd (worker_run (map encode_message ms) ws))) k =
    residency_after ms k (map_of (ws_local_residency ws) k)"
  using assms
proof (induction ms arbitrary: ws)
  case (Cons m ms)
  obtain out1 ws1 where h: "handle_command m ws = (out1, ws1)" by (cases "handle_command m ws")
  have r: "map_of (ws_local_residency ws1) k =
      (if m_type m = MT_wk_load \<and> k = m_text m then Some (True, if m_a m = 0 then 1 else m_a m)
       else if m_type m = MT_wk_invalidate \<and> k = m_text m then None
       else map_of (ws_local_residency ws) k)"
    using handle_command_residency [of m ws k] h by simp
  have d: "decode_message (encode_message m) = Inr m" using Cons.prems by (simp add: message_roundtrip)
  have run: "snd (worker_run (map encode_message (m # ms)) ws)
      = snd (worker_run (map encode_message ms) ws1)"
    using Cons.prems(1) by (simp add: d h case_prod_beta Let_def)
  show ?case
  proof (cases "m_type m = MT_wk_shutdown")
    case True
    then have "ws_stop ws1" using handle_command_stop [of m ws] h by simp
    with run r True show ?thesis by (simp add: worker_run_stopped)
  next
    case False
    then have "\<not> ws_stop ws1" using handle_command_stop [of m ws] h Cons.prems(1) by simp
    with Cons.IH [of ws1] Cons.prems run r False show ?thesis by simp
  qed
qed simp

text \<open>The boot identity is a function of the configured seed: a new process with it has the old boot.\<close>

lemma boot_depends_on_seed:
  "ws_boot (snd (connect_and_register c ex ws)) = boot_of_seed (wo_boot_seed (ws_opts ws))"
  by (simp add: connect_and_register_def Let_def split: option.split)

lemma registered_never_set: "ws_registered (snd (connect_and_register c ex ws)) = ws_registered ws"
  by (simp add: connect_and_register_def Let_def split: option.split)

theorem worker_run_residency_witness:
  "map_of (ws_local_residency (snd (worker_run (map encode_message
      [Message_default\<lparr>m_type := MT_wk_load, m_text := ''a'', m_a := 7\<rparr>,
       Message_default\<lparr>m_type := MT_wk_shutdown\<rparr>,
       Message_default\<lparr>m_type := MT_wk_invalidate, m_text := ''a''\<rparr>])
      (WorkerService_new default_options)))) ''a'' = Some (True, 7)"
proof -
  let ?ms = "[Message_default\<lparr>m_type := MT_wk_load, m_text := ''a'', m_a := 7\<rparr>,
       Message_default\<lparr>m_type := MT_wk_shutdown\<rparr>,
       Message_default\<lparr>m_type := MT_wk_invalidate, m_text := ''a''\<rparr>]"
  have "map_of (ws_local_residency (snd (worker_run (map encode_message ?ms)
      (WorkerService_new default_options)))) ''a'' =
      residency_after ?ms ''a'' (map_of (ws_local_residency (WorkerService_new default_options)) ''a'')"
    by (rule worker_run_residency)
      (simp_all add: WorkerService_new_def message_ok_def string_ok_def Message_default_def)
  then show ?thesis by (simp add: Message_default_def)
qed

end
