(* ===== verification/AF_System.thy ===== *)
theory AF_System
  imports AF_CoordInv AF_Worker
begin

text \<open>
  The system: every history of a coordinator (control messages, worker registrations, worker
  answers and disconnections in any order), the invariants that hold after each of them, and how
  coordinator and worker act together on a request.
\<close>

section \<open>Histories of a coordinator\<close>

inductive coordinator_step :: "Coordinator \<Rightarrow> Coordinator \<Rightarrow> bool" where
  cs_control: "message_ok req \<Longrightarrow> gap_sound gap \<Longrightarrow> forward_sound fw \<Longrightarrow>
    coordinator_step cd (snd (process_control gap fw req cd))"
| cs_register: "message_ok msg \<Longrightarrow> coordinator_step cd (snd (handle_register conn msg cd))"
| cs_deliver: "coordinator_step cd (deliver msg cd)"
| cs_disconnect: "coordinator_step cd (handle_disconnect conn cd)"

inductive coordinator_reachable :: "Coordinator \<Rightarrow> bool" where
  cr_start: "coordinator_reachable (CoordinatorServer_new limits)"
| cr_step: "coordinator_reachable cd \<Longrightarrow> coordinator_step cd cd' \<Longrightarrow> coordinator_reachable cd'"

lemma handle_register_steps:
  assumes "message_ok msg"
  shows "coord_step\<^sup>*\<^sup>* (cd_fabric cd) (cd_fabric (snd (handle_register conn msg cd)))"
proof (cases "must_parse (m_text msg) :: Error + WorkerId")
  case wid: (Inr wid)
  show ?thesis
  proof (cases "must_parse (m_text2 msg) :: Error + WorkerBootId")
    case boot: (Inr boot)
    show ?thesis
    proof (cases "(if m_text4 msg \<noteq> [] then must_parse (m_text4 msg) else Inr Id_nil) :: Error + NodeId")
      case (Inl e)
      then show ?thesis by (simp add: handle_register_def wid boot Let_def)
    next
      case (Inr node)
      let ?r = "\<lparr>wr_id = wid, wr_boot = boot, wr_address = m_text3 msg, wr_node = node,
          wr_device = Id_nil, wr_connected = True, wr_epoch = fb_epoch (cd_fabric cd),
          wr_capabilities = [], wr_device_memory_bytes = 0, wr_local_adapters = []\<rparr>"
      have "worker_ok ?r" using assms by (simp add: worker_ok_def message_ok_def vec_ok_def)
      then have "coord_step (cd_fabric cd) (reregister ?r (cd_fabric cd))"
        by (rule coord_register) simp
      moreover have "cd_fabric (snd (handle_register conn msg cd)) = reregister ?r (cd_fabric cd)"
        unfolding handle_register_def wid boot Inr sum.case Let_def by (simp add: reregister_def)
      ultimately show ?thesis by simp
    qed
  qed (simp add: handle_register_def wid)
qed (simp add: handle_register_def)

lemma handle_disconnect_fabric:
  "cd_fabric (handle_disconnect conn cd) = (case map_of (cd_slots cd) conn of None \<Rightarrow> cd_fabric cd
     | Some s \<Rightarrow> on_worker_down (sl_id s) (cd_fabric cd))"
  by (simp add: handle_disconnect_def abort_pending_for_worker_def Let_def split: option.split)

lemma coordinator_step_steps:
  "coordinator_step cd cd' \<Longrightarrow> coord_step\<^sup>*\<^sup>* (cd_fabric cd) (cd_fabric cd')"
proof (induction rule: coordinator_step.induct)
  case (cs_disconnect cd conn)
  then show ?case by (auto simp: handle_disconnect_fabric intro: coord_down split: option.split)
next
  case (cs_deliver cd msg)
  have "cd_fabric (deliver msg cd) = cd_fabric cd" by (simp add: deliver_def split: option.split)
  then show ?case by simp
qed (simp_all add: process_control_steps handle_register_steps)

text \<open>
  C3: Whatever a coordinator does (a control request, a registration, a worker's answer, the end
  of a connection, with any activity of other threads between the critical sections of a
  request), its fabric moves by a sequence of fabric operations that touch the workers only by
  registering a connected worker or taking one down.
\<close>

theorem coordinator_refines_fabric:
  "coordinator_step cd cd' \<Longrightarrow> coord_step\<^sup>*\<^sup>* (cd_fabric cd) (cd_fabric cd')"
  by (rule coordinator_step_steps)

lemma coordinator_invariants:
  assumes "coordinator_reachable cd"
  shows "fabric_reachable (cd_fabric cd) \<and> live_authority (cd_fabric cd)"
  using assms
proof (induction rule: coordinator_reachable.induct)
  case (cr_start limits)
  have "cd_fabric (CoordinatorServer_new limits) = Fabric_new limits"
    by (simp add: CoordinatorServer_new_def)
  moreover have "live_authority (Fabric_new limits)"
    by (simp add: live_authority_def Fabric_new_def Fabric_empty_def)
  ultimately show ?case by (simp add: reach_new)
next
  case (cr_step cd cd')
  from coordinator_step_steps [OF cr_step(2)] cr_step(3) show ?case
    using live_authority_steps fabric_reachable_steps coord_steps_fabric by blast
qed

text \<open>The safety statement of the fabric, over every history of the coordinator.\<close>

definition authority_safe :: "Fabric \<Rightarrow> bool" where
  "authority_safe fb \<longleftrightarrow>
     (\<forall>i j a b. authority_record i fb = Some a \<longrightarrow> authority_record j fb = Some b \<longrightarrow>
        ar_has_authority a \<longrightarrow> ar_has_authority b \<longrightarrow> i = j) \<and>
     (\<forall>i a. authority_record i fb = Some a \<longrightarrow> ar_has_authority a \<longrightarrow>
        ar_active a \<and> f_adapter (ar_fence a) = i \<and> fb_active_fence fb = Some (ar_fence a) \<and>
        (\<exists>w. worker (f_worker (ar_fence a)) fb = Some w \<and> wr_connected w \<and>
             wr_boot w = f_boot (ar_fence a)))"

lemma authority_safe_inv:
  assumes ex: "exclusive fb" and live: "live_authority fb"
  shows "authority_safe fb"
  unfolding authority_safe_def authority_record_def
proof (intro conjI allI impI, goal_cases)
  case (1 i j a b)
  then show ?case using exclusive_unique [OF ex, of "Id_str i" a "Id_str j" b] by simp
next
  case (2 i a)
  note d = exclusiveD [OF ex 2(1)]
  from d(1,3,4) 2(2) show ?case by simp_all
next
  case (3 i a)
  with exclusiveD(4) [OF ex 3(1)] show ?case by simp
next
  case (4 i a)
  with exclusiveD(3) [OF ex 4(1)] show ?case by simp
next
  case (5 i a)
  with exclusiveD(3) [OF ex 5(1)] have "fb_active_fence fb = Some (ar_fence a)" by simp
  with live show ?case
    by (cases "worker (f_worker (ar_fence a)) fb") (simp_all add: live_authority_def)
qed

text \<open>
  C1: Exclusive authority, over every history of the coordinator: at most one adapter's record
  holds authority; it is active, carries the one active fence, which names that adapter, and the
  fence's worker is connected with the fence's boot.
\<close>

theorem authority_safe_reachable: "coordinator_reachable cd \<Longrightarrow> authority_safe (cd_fabric cd)"
  using coordinator_invariants [of cd] exclusive_reachable [of "cd_fabric cd"]
  by (blast intro: authority_safe_inv)

section \<open>What the control handlers leave in place\<close>

text \<open>Deactivation changes a lifecycle state and nothing of the authority.\<close>

lemma set_lifecycle_fields [simp]:
  "fb_active_fence (set_lifecycle i st fb) = fb_active_fence fb"
  "fb_capacity (set_lifecycle i st fb) = fb_capacity fb"
  "fb_residencies (set_lifecycle i st fb) = fb_residencies fb"
  by (simp_all add: set_lifecycle_def split: option.split)

lemma set_lifecycle_authority:
  "authority_record j (set_lifecycle i st fb) = map_option (\<lambda>ar. if j = i
     then ar\<lparr>ar_lifecycle := set_state st (ar_lifecycle ar)\<rparr> else ar) (authority_record j fb)"
proof (cases "j = i")
  case True
  then show ?thesis
    by (cases "authority_record i fb") (simp_all add: set_lifecycle_def authority_record_def)
next
  case False
  then show ?thesis
    by (cases "authority_record i fb")
      (simp_all add: set_lifecycle_def authority_record_def option.map_ident)
qed

text \<open>
  A deactivation, acknowledged or not, sets the lifecycle of an active adapter to \<open>ready\<close> and
  leaves the execution authority where it was: the record stays active with its authority, and the
  active fence stays.
\<close>

theorem deactivate_keeps_authority:
  assumes "Id_parse (m_text req) = Inr i" and "cd_fabric (snd (forward_next fw (m_text2 req)
      (Message_default\<lparr>m_type := MT_wk_deactivate, m_text := Id_str i\<rparr>) cd)) = cd_fabric cd"
    and "authority_record i (cd_fabric cd) = Some ar" and "ar_active ar"
  shows "(\<exists>ar'. authority_record i (cd_fabric (snd (ctl_deactivate fw req cd))) = Some ar' \<and>
       ar_active ar' \<and> ar_has_authority ar' = ar_has_authority ar \<and>
       lc_state (ar_lifecycle ar') = L_ready) \<and>
     fb_active_fence (cd_fabric (snd (ctl_deactivate fw req cd))) = fb_active_fence (cd_fabric cd)"
proof -
  have fab: "cd_fabric (snd (ctl_deactivate fw req cd)) = set_lifecycle i L_ready (cd_fabric cd)"
    using assms(1,2) by (simp add: ctl_deactivate_def must_parse_def case_prod_beta Let_def)
  then show ?thesis using assms(3,4) by (simp add: set_lifecycle_authority)
qed

text \<open>
  The end of an old connection takes down the worker it registered, even when the worker has
  registered again on a newer connection: every fence that names the worker is refused from then
  on.
\<close>

theorem late_disconnect:
  assumes "map_of (cd_slots cd) old = Some s" and "f_worker f = sl_id s"
  shows "\<not> authorized (check_fence f (cd_fabric (handle_disconnect old cd)))"
  using assms by (simp add: handle_disconnect_fabric check_fence_current down_fenced)

text \<open>A disconnection of one worker fails the open requests to every worker.\<close>

lemma abort_hits_all:
  assumes "map_of (cd_pending cd) r = Some p" and "\<not> pd_done p" and "map_of (cd_slots cd) conn = Some s"
  shows "\<exists>p'. map_of (cd_pending (handle_disconnect conn cd)) r = Some p' \<and> pd_done p' \<and>
     \<not> m_ok (pd_result p')"
  using assms by (simp add: handle_disconnect_def abort_pending_for_worker_def Let_def)

section \<open>Loading through a worker\<close>

text \<open>The answers of \<open>fw\<close> to load commands are those of some worker process.\<close>

definition answers_from_worker :: "forward \<Rightarrow> bool" where
  "answers_from_worker fw \<longleftrightarrow> (\<forall>r w m cd. m_type m = MT_wk_load \<longrightarrow>
     (\<exists>ws. fst (handle_command (m\<lparr>m_req_id := r\<rparr>) ws) = [fst (fw r w m cd)]))"

lemma load_ack_size:
  assumes "answers_from_worker fw" and "m_type m = MT_wk_load" and "m_a m = 0"
  shows "m_ok (fst (forward_next fw w m cd)) \<and> m_a (fst (forward_next fw w m cd)) = 1"
proof -
  obtain ws where "fst (handle_command (m\<lparr>m_req_id := cd_next_req cd\<rparr>) ws) =
      [fst (fw (cd_next_req cd) w m (cd\<lparr>cd_next_req := cd_next_req cd + 1\<rparr>))]"
    using assms(1,2) unfolding answers_from_worker_def by blast
  then have "fst (fw (cd_next_req cd) w m (cd\<lparr>cd_next_req := cd_next_req cd + 1\<rparr>)) =
      worker_reply (m\<lparr>m_req_id := cd_next_req cd\<rparr>) MT_wk_load_ack True 1 ''loaded''"
    using load_reply [of "m\<lparr>m_req_id := cd_next_req cd\<rparr>" ws] assms(2,3) by simp
  then show ?thesis by (simp add: forward_next_def worker_reply_def)
qed

text \<open>
  A load sends no size, so the worker acknowledges one byte, and one byte is what the new
  residency records and the accountant is asked for, whatever memory the adapter declares.
\<close>

theorem load_records_one_byte:
  assumes w: "answers_from_worker fw"
    and quiet: "\<And>r w m c. cd_fabric (snd (fw r w m c)) = cd_fabric c"
    and dec: "decode_fence (m_payload req) = Inr f" and cur: "fence_current f (cd_fabric cd)"
  shows "\<exists>inst r. residency inst (cd_fabric (snd (ctl_load id fw req cd))) = Some r \<and>
     rr_adapter_id r = f_adapter f \<and> rr_bytes r = 1 \<and> rr_ready r \<and>
     fb_capacity (cd_fabric (snd (ctl_load id fw req cd)))
       = snd (reserve LOC_device_memory 1 (Id_str inst) (fb_capacity (cd_fabric cd)))"
proof -
  obtain d where d: "adapter (f_adapter f) (cd_fabric cd) = Some d"
    using cur by (cases "adapter (f_adapter f) (cd_fabric cd)") (simp_all add: fence_current_def)
  obtain inst rng' fb where cr: "create_instance (f_adapter f) (f_worker f) (f_boot f) (f_device f)
      (ad_memory_bytes d) (cd_rng cd) (cd_fabric cd) = (Inr inst, rng', fb)"
    and fb: "fb = (cd_fabric cd)\<lparr>fb_residencies := smap_set (Id_str inst)
          (fresh_residency (f_adapter f) d inst (f_worker f) (f_boot f) (f_device f)
             (ad_memory_bytes d) (fb_epoch (cd_fabric cd))) (fb_residencies (cd_fabric cd)),
        fb_authority := smap_set (Id_str (f_adapter f))
          (fresh_authority (f_adapter f) d inst (f_worker f) (f_boot f) (f_device f)
             (fb_epoch (cd_fabric cd))) (fb_authority (cd_fabric cd))\<rparr>"
    by (simp add: create_instance_def d case_prod_beta Let_def)
  let ?cd2 = "cd\<lparr>cd_rng := rng', cd_fabric := fb\<rparr>"
  let ?fwd = "Message_default\<lparr>m_type := MT_wk_load, m_text := Id_str (f_adapter f),
      m_text2 := Id_str inst, m_payload := encode_fence f\<rparr>"
  obtain ack cd3 where fw: "forward_next fw (m_text2 req) ?fwd ?cd2 = (ack, cd3)"
    by (cases "forward_next fw (m_text2 req) ?fwd ?cd2") blast
  have ack: "m_ok ack" "m_a ack = 1"
    using load_ack_size [OF w, of ?fwd "m_text2 req" ?cd2] fw by (simp_all add: Message_default_def)
  have "cd_fabric cd3 = cd_fabric (snd (forward_next fw (m_text2 req) ?fwd ?cd2))" by (simp add: fw)
  then have cd3: "cd_fabric cd3 = fb" by (simp add: forward_next_def quiet)
  have "check_fence f (cd_fabric cd) = verdict AV_authorized ''fence current''"
    by (rule check_fence_authorized [OF cur])
  then have res: "cd_fabric (snd (ctl_load id fw req cd)) =
      set_lifecycle (f_adapter f) L_ready (load_acked inst 1 fb)"
    by (simp add: ctl_load_def dec d cr fw ack cd3 Let_def)
  show ?thesis
    unfolding res
    by (rule exI [of _ inst])
      (simp add: load_acked_def residency_def fb Let_def fresh_residency_def)
qed

section \<open>The accountant of a coordinator\<close>

text \<open>
  A coordinator constructed without limits (the default of its constructor, and what every
  executable passes) has limit 0 everywhere: the reservation of a load is always refused, and
  the refusal is swallowed.
\<close>

lemma no_limits: "limit (CapacityAccountant_new []) loc = 0"
proof -
  have "(\<forall>l. limit c l = 0) \<Longrightarrow> limit (foldl (\<lambda>c loc. c\<lparr>ca_used := smap_emplace loc 0 (ca_used c),
      ca_limits := smap_emplace loc 0 (ca_limits c)\<rparr>) c locs) loc = 0" for c locs
  proof (induction locs arbitrary: c)
    case (Cons l locs)
    have "\<forall>k. limit (c\<lparr>ca_used := smap_emplace l 0 (ca_used c),
        ca_limits := smap_emplace l 0 (ca_limits c)\<rparr>) k = 0"
      using Cons.prems by (auto simp: limit_def split: option.splits)
    from Cons.IH [OF this] show ?case by simp
  qed simp
  from this [of "\<lparr>ca_used = [], ca_limits = [], ca_held = []\<rparr>" all_locations]
  show ?thesis by (simp add: CapacityAccountant_new_def limit_def)
qed

lemma load_uncounted:
  assumes "capacity_inv c" and "limit c LOC_device_memory = 0" and "n \<noteq> 0"
  shows "used (snd (reserve LOC_device_memory n owner c)) = used c"
proof (cases rule: reserve_cases [of c LOC_device_memory owner n])
  case (booked c')
  have "unat (used c LOC_device_memory) \<le> unat (limit c LOC_device_memory)"
    by (rule capacity_invD(2) [OF assms(1)])
  then have "used c LOC_device_memory = 0" using assms(2) by (simp add: unat_eq_0 [symmetric])
  with booked(2) assms(2,3) show ?thesis by simp
qed (simp_all add: same_accounts_def)

end
