(* ===== verification/AF_Server.thy ===== *)
theory AF_Server
  imports AF_System
begin

text \<open>
  The threads of the coordinator (\<open>coordinator.cpp\<close>, \<open>start\<close> to \<open>handle_connection\<close>): the
  accept loop and the loop of one connection over the frames it receives.

  A connection is a function of the frames its socket delivers before \<open>recv_frame\<close> fails. What
  the other threads do while it waits for a frame is the parameter \<open>gap\<close>; \<open>fw\<close> is the forwarding
  of a request and \<open>sent\<close> tells whether an answer could be written. The result says how the loop
  ended: a return before the cleanup at its end, the normal end, or an exception that leaves the
  thread function and so ends the process.
\<close>

datatype conn_end =
    CE_closed
  | CE_returned
  | CE_terminated Error
  | CE_undefined

text \<open>The local variables \<open>is_worker\<close> and \<open>slot\<close> (the address of the slot, if any).\<close>

record Connection =
  cn_is_worker :: bool
  cn_slot :: "nat option"

definition Connection_new :: Connection where
  "Connection_new = \<lparr>cn_is_worker = False, cn_slot = None\<rparr>"

text \<open>The address of the slot that \<open>make_shared\<close> allocates: one that is not in use.\<close>

definition fresh_slot :: "Coordinator \<Rightarrow> nat" where
  "fresh_slot cd = foldr (\<lambda>kv n. max (Suc (fst kv)) n) (cd_slots cd) 0"

definition connection_cleanup :: "Connection \<Rightarrow> Coordinator \<Rightarrow> Coordinator" where
  "connection_cleanup cn cd =
    (case cn_slot cn of None \<Rightarrow> cd | Some slot \<Rightarrow> handle_disconnect slot cd)"

text \<open>
  One frame. \<open>Inl\<close> is the end of the loop without the cleanup; otherwise the loop goes on with
  the frames it has written appended.
\<close>

definition connection_frame ::
    "(Coordinator \<Rightarrow> Coordinator) \<Rightarrow> forward \<Rightarrow> (byte list \<Rightarrow> Coordinator \<Rightarrow> bool) \<Rightarrow> byte list \<Rightarrow>
     Connection \<Rightarrow> Coordinator \<Rightarrow> (conn_end + Connection) \<times> byte list list \<times> Coordinator" where
  "connection_frame gap fw sent buf cn cd =
    (case decode_message buf of
       Inl e \<Rightarrow> (Inl CE_returned, [], cd)
     | Inr msg \<Rightarrow>
       if m_type msg = MT_wk_register then
         let slot = fresh_slot cd in
         (case handle_register slot msg cd of
            (Inl e, cd1) \<Rightarrow> (Inl (CE_terminated e), [], cd1)
          | (Inr ack, cd1) \<Rightarrow>
              (Inr \<lparr>cn_is_worker = True, cn_slot = Some slot\<rparr>,
               if sent (encode_message ack) cd1 then [encode_message ack] else [], cd1))
       else if cn_is_worker cn then (Inr cn, [], deliver msg cd)
       else case process_control gap fw msg cd of
              (None, cd1) \<Rightarrow> (Inl CE_undefined, [], cd1)
            | (Some answer, cd1) \<Rightarrow>
                if sent (encode_message answer) cd1 then (Inr cn, [encode_message answer], cd1)
                else (Inl CE_returned, [], cd1))"

fun handle_connection ::
    "(Coordinator \<Rightarrow> Coordinator) \<Rightarrow> forward \<Rightarrow> (byte list \<Rightarrow> Coordinator \<Rightarrow> bool) \<Rightarrow> byte list list \<Rightarrow>
     Connection \<Rightarrow> Coordinator \<Rightarrow> conn_end \<times> byte list list \<times> Coordinator" where
  "handle_connection gap fw sent [] cn cd =
     (CE_closed, [], connection_cleanup cn (if cd_shutdown cd then cd else gap cd))"
| "handle_connection gap fw sent (buf # bufs) cn cd =
     (if cd_shutdown cd then (CE_closed, [], connection_cleanup cn cd)
      else case connection_frame gap fw sent buf cn (gap cd) of
        (Inl e, written, cd1) \<Rightarrow> (e, written, cd1)
      | (Inr cn1, written, cd1) \<Rightarrow>
          (case handle_connection gap fw sent bufs cn1 cd1 of
             (e, rest, cd2) \<Rightarrow> (e, written @ rest, cd2)))"

section \<open>Start, stop and the accept loop\<close>

text \<open>
  \<open>listening\<close> is the result of \<open>bind_listen\<close>. The accept loop works on what the calls of
  \<open>accept\<close> return (\<open>None\<close> an invalid socket) and starts one thread for each connection.
\<close>

definition server_start :: "bool \<Rightarrow> Coordinator \<Rightarrow> bool \<times> Coordinator" where
  "server_start listening cd = (if \<not> listening then (False, cd) else (True, cd\<lparr>cd_running := True\<rparr>))"

definition server_stop :: "Coordinator \<Rightarrow> Coordinator" where
  "server_stop cd = cd\<lparr>cd_shutdown := True, cd_running := False\<rparr>"

fun accept_loop :: "('c option \<times> Coordinator) list \<Rightarrow> 'c list" where
  "accept_loop [] = []"
| "accept_loop ((conn, cd) # events) =
     (if cd_shutdown cd then []
      else case conn of None \<Rightarrow> [] | Some c \<Rightarrow> c # accept_loop events)"


section \<open>A connection is a history of the coordinator\<close>

definition others_sound :: "(Coordinator \<Rightarrow> Coordinator) \<Rightarrow> bool" where
  "others_sound gap \<longleftrightarrow> (\<forall>cd. coordinator_step\<^sup>*\<^sup>* cd (gap cd))"

lemma coordinator_steps_fabric:
  "coordinator_step\<^sup>*\<^sup>* cd cd' \<Longrightarrow> coord_step\<^sup>*\<^sup>* (cd_fabric cd) (cd_fabric cd')"
  by (induction rule: rtranclp_induct) (auto dest: coordinator_step_steps intro: rtranclp_trans)

lemma others_gap_sound: "others_sound gap \<Longrightarrow> gap_sound gap"
  by (simp add: others_sound_def gap_sound_def coordinator_steps_fabric)

lemma coordinator_reachable_steps:
  "coordinator_step\<^sup>*\<^sup>* cd cd' \<Longrightarrow> coordinator_reachable cd \<Longrightarrow> coordinator_reachable cd'"
  by (induction rule: rtranclp_induct) (auto intro: cr_step)

lemma cleanup_steps: "coordinator_step\<^sup>*\<^sup>* cd (connection_cleanup cn cd)"
  by (auto simp: connection_cleanup_def intro: cs_disconnect split: option.split)

lemma connection_frame_steps:
  assumes "others_sound gap" and "forward_sound fw"
  shows "coordinator_step\<^sup>*\<^sup>* cd (snd (snd (connection_frame gap fw sent buf cn cd)))"
proof (cases "decode_message buf")
  case (Inr msg)
  then have ok: "message_ok msg" by (rule message_accepted_ok)
  show ?thesis
  proof (cases "m_type msg = MT_wk_register")
    case True
    have "coordinator_step cd (snd (handle_register (fresh_slot cd) msg cd))"
      by (rule cs_register [OF ok])
    then show ?thesis by (auto simp: connection_frame_def Inr True Let_def split: prod.splits sum.splits)
  next
    case False
    have "coordinator_step cd (snd (process_control gap fw msg cd))"
      by (rule cs_control [OF ok others_gap_sound [OF assms(1)] assms(2)])
    moreover have "coordinator_step cd (deliver msg cd)" by (rule cs_deliver)
    ultimately show ?thesis
      by (auto simp: connection_frame_def Inr False split: prod.splits option.splits)
  qed
qed (simp add: connection_frame_def)

lemma handle_connection_steps:
  assumes "others_sound gap" and "forward_sound fw"
  shows "coordinator_step\<^sup>*\<^sup>* cd (snd (snd (handle_connection gap fw sent bufs cn cd)))"
proof (induction bufs arbitrary: cn cd)
  case Nil
  have "coordinator_step\<^sup>*\<^sup>* cd (if cd_shutdown cd then cd else gap cd)"
    using assms(1) by (simp add: others_sound_def)
  from rtranclp_trans [OF this cleanup_steps] show ?case by simp
next
  case (Cons buf bufs)
  have g: "coordinator_step\<^sup>*\<^sup>* cd (gap cd)" using assms(1) by (simp add: others_sound_def)
  obtain r written cd1 where f: "connection_frame gap fw sent buf cn (gap cd) = (r, written, cd1)"
    by (metis prod_cases3)
  have s: "coordinator_step\<^sup>*\<^sup>* cd cd1"
    using rtranclp_trans [OF g] connection_frame_steps [OF assms, of "gap cd" sent buf cn] f by simp
  show ?case
  proof (cases r)
    case (Inr cn1)
    with f rtranclp_trans [OF s Cons.IH [of cd1 cn1]] show ?thesis
      by (simp add: cleanup_steps case_prod_beta)
  qed (simp add: f s cleanup_steps)
qed

text \<open>
  Whatever bytes a connection delivers, whatever the other threads do while it waits, and
  however its loop ends, a coordinator that was reachable stays reachable, and its authority
  stays exclusive and with a connected worker.
\<close>

theorem connection_keeps_authority_safe:
  assumes "coordinator_reachable cd" and "others_sound gap" and "forward_sound fw"
  shows "coordinator_reachable (snd (snd (handle_connection gap fw sent bufs cn cd))) \<and>
     authority_safe (cd_fabric (snd (snd (handle_connection gap fw sent bufs cn cd))))"
proof -
  have r: "coordinator_reachable (snd (snd (handle_connection gap fw sent bufs cn cd)))"
    by (rule coordinator_reachable_steps [OF handle_connection_steps [OF assms(2,3)] assms(1)])
  then show ?thesis
    using coordinator_invariants [OF r] exclusive_reachable authority_safe_inv by blast
qed

section \<open>How a connection ends\<close>

text \<open>The registrations a coordinator can read: the three identities parse.\<close>

definition registration_ok :: "Message \<Rightarrow> bool" where
  "registration_ok msg \<longleftrightarrow>
     (\<exists>i. (Id_parse (m_text msg) :: string + WorkerId) = Inr i) \<and>
     (\<exists>b. (Id_parse (m_text2 msg) :: string + WorkerBootId) = Inr b) \<and>
     (m_text4 msg = [] \<or> (\<exists>n. (Id_parse (m_text4 msg) :: string + NodeId) = Inr n))"

lemma must_parse_Inr: "(\<exists>i. (must_parse s :: Error + 'tag Id) = Inr i) \<longleftrightarrow> (\<exists>i. (Id_parse s :: string + 'tag Id) = Inr i)"
  by (auto simp: must_parse_def throw_def split: sum.split)

lemma must_parse_Inl: "(must_parse s :: Error + 'tag Id) = Inl e \<Longrightarrow> (Id_parse s :: string + 'tag Id) \<noteq> Inr i"
  by (auto simp: must_parse_def throw_def split: sum.splits)

lemma handle_register_result:
  "(\<exists>ack. fst (handle_register conn msg cd) = Inr ack) \<longleftrightarrow> registration_ok msg"
proof (cases "must_parse (m_text msg) :: Error + WorkerId")
  case Inl
  then show ?thesis by (simp add: handle_register_def registration_ok_def must_parse_Inl)
next
  case i: (Inr i)
  then have i': "\<exists>i. (Id_parse (m_text msg) :: string + WorkerId) = Inr i"
    using must_parse_Inr by blast
  show ?thesis
  proof (cases "must_parse (m_text2 msg) :: Error + WorkerBootId")
    case Inl
    then show ?thesis by (simp add: handle_register_def registration_ok_def i must_parse_Inl)
  next
    case b: (Inr b)
    then have b': "\<exists>i. (Id_parse (m_text2 msg) :: string + WorkerBootId) = Inr i"
      using must_parse_Inr by blast
    show ?thesis
    proof (cases "must_parse (m_text4 msg) :: Error + NodeId")
      case Inl
      then show ?thesis
        using i' b' by (simp add: handle_register_def registration_ok_def i b Let_def must_parse_Inl)
    next
      case (Inr n)
      then have "\<exists>i. (Id_parse (m_text4 msg) :: string + NodeId) = Inr i"
        using must_parse_Inr by blast
      then show ?thesis
        using i' b' Inr by (simp add: handle_register_def registration_ok_def i b Let_def)
    qed
  qed
qed

lemma CE_terminated_frame:
  "(\<exists>e. fst (connection_frame gap fw sent buf cn cd) = Inl (CE_terminated e)) \<longleftrightarrow>
     (\<exists>m. decode_message buf = Inr m \<and> m_type m = MT_wk_register \<and> \<not> registration_ok m)"
proof (cases "decode_message buf")
  case (Inr m)
  have r: "(\<exists>ack. fst (handle_register s m cd) = Inr ack) \<longleftrightarrow> registration_ok m" for s
    by (rule handle_register_result)
  show ?thesis
    using r [of "fresh_slot cd"]
    by (auto simp: connection_frame_def Inr Let_def split: prod.splits sum.splits option.splits)
qed (simp add: connection_frame_def)

text \<open>
  C14: A connection takes the whole process down exactly when a frame decodes to a registration
  one of whose identities does not parse: the exception leaves the thread function.
\<close>

theorem registration_terminates:
  "(\<exists>e. fst (connection_frame gap fw sent buf cn cd) = Inl (CE_terminated e)) \<longleftrightarrow>
     (\<exists>m. decode_message buf = Inr m \<and> m_type m = MT_wk_register \<and> \<not> registration_ok m)"
  by (rule CE_terminated_frame)

lemma deliver_fields [simp]:
  "cd_fabric (deliver m cd) = cd_fabric cd" "cd_slots (deliver m cd) = cd_slots cd"
  "cd_shutdown (deliver m cd) = cd_shutdown cd" "cd_workers (deliver m cd) = cd_workers cd"
  by (simp_all add: deliver_def split: option.split)

text \<open>
  A frame the loop of a worker goes on after: it decodes, and if it is a registration its
  identities parse. \<open>last_worker\<close> is the worker the connection stands for after some frames.
\<close>

definition frame_fine :: "byte list \<Rightarrow> bool" where
  "frame_fine buf \<longleftrightarrow> (case decode_message buf of Inl _ \<Rightarrow> False
     | Inr m \<Rightarrow> m_type m = MT_wk_register \<longrightarrow> registration_ok m)"

definition registers :: "byte list \<Rightarrow> bool" where
  "registers buf \<longleftrightarrow> (case decode_message buf of Inl _ \<Rightarrow> False | Inr m \<Rightarrow> m_type m = MT_wk_register)"

fun last_worker :: "WorkerId \<Rightarrow> byte list list \<Rightarrow> WorkerId" where
  "last_worker w [] = w"
| "last_worker w (buf # bufs) = last_worker (case decode_message buf of
       Inl _ \<Rightarrow> w
     | Inr m \<Rightarrow> if m_type m = MT_wk_register
         then (case Id_parse (m_text m) of Inl _ \<Rightarrow> w | Inr i \<Rightarrow> i) else w) bufs"

text \<open>The other threads request no shutdown and keep the identities of the slots.\<close>

definition others_calm :: "(Coordinator \<Rightarrow> Coordinator) \<Rightarrow> bool" where
  "others_calm gap \<longleftrightarrow> (\<forall>cd. cd_shutdown (gap cd) = cd_shutdown cd \<and>
     (\<forall>k sl. map_of (cd_slots cd) k = Some sl \<longrightarrow>
        (\<exists>sl'. map_of (cd_slots (gap cd)) k = Some sl' \<and> sl_id sl' = sl_id sl)))"

lemma others_calmD:
  assumes "others_calm gap"
  shows "cd_shutdown (gap cd) = cd_shutdown cd"
    and "map_of (cd_slots cd) k = Some sl \<Longrightarrow>
      \<exists>sl'. map_of (cd_slots (gap cd)) k = Some sl' \<and> sl_id sl' = sl_id sl"
  using assms by (auto simp: others_calm_def)

lemma handle_register_good:
  assumes "registration_ok m"
  obtains ack cd1 sl i where "handle_register k m cd = (Inr ack, cd1)" "map_of (cd_slots cd1) k = Some sl"
    "Id_parse (m_text m) = Inr i" "sl_id sl = i" "cd_shutdown cd1 = cd_shutdown cd"
proof -
  obtain ack where ack: "fst (handle_register k m cd) = Inr ack"
    using handle_register_result assms by blast
  obtain i where i: "must_parse (m_text m) = (Inr i :: Error + WorkerId)"
    using assms must_parse_Inr unfolding registration_ok_def by blast
  then have i': "Id_parse (m_text m) = Inr i" by (auto simp: must_parse_def throw_def split: sum.splits)
  from ack i have "\<exists>sl. map_of (cd_slots (snd (handle_register k m cd))) k = Some sl \<and> sl_id sl = i \<and>
      cd_shutdown (snd (handle_register k m cd)) = cd_shutdown cd"
    by (auto simp: handle_register_def Let_def map_of_smap_set split: sum.splits)
  with ack i' that show ?thesis by (metis prod.collapse)
qed

lemma frame_worker:
  assumes "cn_is_worker cn" and "cn_slot cn = Some k" and "map_of (cd_slots cd) k = Some sl"
    and "frame_fine buf"
  obtains cn1 out cd1 k1 sl1 where "connection_frame gap fw sent buf cn cd = (Inr cn1, out, cd1)"
    "cn_is_worker cn1" "cn_slot cn1 = Some k1" "map_of (cd_slots cd1) k1 = Some sl1"
    "cd_shutdown cd1 = cd_shutdown cd" "sl_id sl1 = last_worker (sl_id sl) [buf]"
    "\<not> registers buf \<Longrightarrow> out = [] \<and> cd_fabric cd1 = cd_fabric cd \<and> sl_id sl1 = sl_id sl"
proof -
  obtain m where m: "decode_message buf = Inr m" "m_type m = MT_wk_register \<longrightarrow> registration_ok m"
    using assms(4) by (auto simp: frame_fine_def split: sum.splits)
  show ?thesis
  proof (cases "m_type m = MT_wk_register")
    case True
    with m(2) have "registration_ok m" by simp
    from handle_register_good [OF this, of "fresh_slot cd" cd] obtain ack cd1 sl1 i where
      r: "handle_register (fresh_slot cd) m cd = (Inr ack, cd1)" "map_of (cd_slots cd1) (fresh_slot cd) = Some sl1"
      "Id_parse (m_text m) = Inr i" "sl_id sl1 = i" "cd_shutdown cd1 = cd_shutdown cd" by metis
    show ?thesis
      by (rule that [of "\<lparr>cn_is_worker = True, cn_slot = Some (fresh_slot cd)\<rparr>" _ cd1 "fresh_slot cd" sl1])
        (use r m(1) True in \<open>simp_all add: connection_frame_def registers_def\<close>)
  next
    case False
    show ?thesis
      by (rule that [of cn "[]" "deliver m cd" k sl])
        (use assms m False in \<open>simp_all add: connection_frame_def\<close>)
  qed
qed

lemma frame_faulty:
  assumes "cn_is_worker cn" and "\<not> frame_fine buf"
  shows "\<exists>e out cd1. connection_frame gap fw sent buf cn cd = (Inl e, out, cd1) \<and>
    (if isl (decode_message buf) then e = CE_returned \<and> out = [] \<and> cd1 = cd else \<exists>x. e = CE_terminated x)"
proof (cases "decode_message buf")
  case (Inr m)
  with assms(2) have m: "m_type m = MT_wk_register" "\<not> registration_ok m" by (auto simp: frame_fine_def)
  then obtain x cd1 where "handle_register (fresh_slot cd) m cd = (Inl x, cd1)"
    using handle_register_result [of "fresh_slot cd" m cd] by (metis prod.collapse sum.collapse(1) isl_def sum.collapse(2))
  with Inr m show ?thesis by (simp add: connection_frame_def)
qed (simp add: connection_frame_def)

lemma worker_loop:
  assumes calm: "others_calm gap"
    and "cn_is_worker cn" and "cn_slot cn = Some k" and "map_of (cd_slots cd) k = Some sl" and "\<not> cd_shutdown cd"
    and "handle_connection gap fw sent bufs cn cd = (e, written, cd')"
  shows "case dropWhile frame_fine bufs of
      [] \<Rightarrow> e = CE_closed \<and> (\<exists>fb. cd_fabric cd' = on_worker_down (last_worker (sl_id sl) bufs) fb)
    | buf # _ \<Rightarrow> if isl (decode_message buf) then e = CE_returned else \<exists>x. e = CE_terminated x"
  using assms(2-)
proof (induction bufs arbitrary: cn cd k sl written)
  case Nil
  obtain sl' where "map_of (cd_slots (gap cd)) k = Some sl'" "sl_id sl' = sl_id sl"
    using others_calmD(2) [OF calm Nil(3)] by blast
  with Nil show ?case
    by (auto simp: connection_cleanup_def handle_disconnect_fabric intro!: exI [of _ "cd_fabric (gap cd)"])
next
  case (Cons buf bufs)
  obtain sl' where sl': "map_of (cd_slots (gap cd)) k = Some sl'" "sl_id sl' = sl_id sl"
    using others_calmD(2) [OF calm Cons.prems(3)] by blast
  show ?case
  proof (cases "frame_fine buf")
    case True
    from frame_worker [OF Cons.prems(1,2) sl'(1) True, of gap fw sent] obtain cn1 out cd1 k1 sl1 where
      f: "connection_frame gap fw sent buf cn (gap cd) = (Inr cn1, out, cd1)" "cn_is_worker cn1"
      "cn_slot cn1 = Some k1" "map_of (cd_slots cd1) k1 = Some sl1" "cd_shutdown cd1 = cd_shutdown (gap cd)"
      "sl_id sl1 = last_worker (sl_id sl') [buf]" by metis
    have up: "\<not> cd_shutdown cd1" using f(5) others_calmD(1) [OF calm] Cons.prems(4) by simp
    obtain e1 w1 cd2 where r: "handle_connection gap fw sent bufs cn1 cd1 = (e1, w1, cd2)"
      by (metis prod_cases3)
    then have "e1 = e" "cd2 = cd'" using Cons.prems(4,5) f(1) by auto
    moreover have "last_worker (sl_id sl) (buf # bufs) = last_worker (sl_id sl1) bufs"
      using f(6) sl'(2) by simp
    ultimately show ?thesis using Cons.IH [OF f(2-4) up] r True
      by (cases "dropWhile frame_fine bufs") (simp_all del: last_worker.simps dropWhile_eq_Nil_conv)
  next
    case False
    from frame_faulty [OF Cons.prems(1) False, of gap fw sent "gap cd"] Cons.prems(4,5) False
    show ?thesis by (auto split: if_splits)
  qed
qed

lemma worker_loop_quiet:
  assumes calm: "others_calm gap" and fab: "\<And>c. cd_fabric (gap c) = cd_fabric c"
    and "\<forall>buf \<in> set bufs. \<not> registers buf"
    and "cn_is_worker cn" and "cn_slot cn = Some k" and "map_of (cd_slots cd) k = Some sl" and "\<not> cd_shutdown cd"
    and "handle_connection gap fw sent bufs cn cd = (e, written, cd')"
  shows "written = [] \<and> cd_fabric cd' = (if dropWhile frame_fine bufs = []
     then on_worker_down (sl_id sl) (cd_fabric cd) else cd_fabric cd)"
  using assms(3-)
proof (induction bufs arbitrary: cn cd k sl written)
  case Nil
  obtain sl' where "map_of (cd_slots (gap cd)) k = Some sl'" "sl_id sl' = sl_id sl"
    using others_calmD(2) [OF calm Nil(4)] by blast
  with Nil show ?case by (auto simp: connection_cleanup_def handle_disconnect_fabric fab)
next
  case (Cons buf bufs)
  obtain sl' where sl': "map_of (cd_slots (gap cd)) k = Some sl'" "sl_id sl' = sl_id sl"
    using others_calmD(2) [OF calm Cons.prems(4)] by blast
  show ?case
  proof (cases "frame_fine buf")
    case True
    from frame_worker [OF Cons.prems(2,3) sl'(1) True, of gap fw sent] Cons.prems(1) obtain cn1 out cd1 k1 sl1 where
      f: "connection_frame gap fw sent buf cn (gap cd) = (Inr cn1, out, cd1)" "cn_is_worker cn1"
      "cn_slot cn1 = Some k1" "map_of (cd_slots cd1) k1 = Some sl1" "cd_shutdown cd1 = cd_shutdown (gap cd)"
      "out = []" "cd_fabric cd1 = cd_fabric (gap cd)" "sl_id sl1 = sl_id sl'"
      by (metis list.set_intros(1))
    have up: "\<not> cd_shutdown cd1" using f(5) others_calmD(1) [OF calm] Cons.prems(5) by simp
    have rest: "\<forall>b \<in> set bufs. \<not> registers b" using Cons.prems(1) by simp
    obtain e1 w1 cd2 where r: "handle_connection gap fw sent bufs cn1 cd1 = (e1, w1, cd2)"
      by (metis prod_cases3)
    then have "written = out @ w1" "e1 = e" "cd2 = cd'" using Cons.prems(5,6) f(1) by auto
    with Cons.IH [OF rest f(2-4) up] r f(6-8) sl'(2) True show ?thesis by (simp add: fab)
  next
    case False
    have "isl (decode_message buf)"
      using False Cons.prems(1) by (auto simp: frame_fine_def registers_def split: sum.splits)
    with frame_faulty [OF Cons.prems(2) False, of gap fw sent "gap cd"] Cons.prems(5,6) False
    show ?thesis by (auto simp: fab)
  qed
qed

text \<open>
  C13: How the connection of a registered worker ends, whatever frames it delivers, while the
  other threads do anything but request a shutdown or exchange the worker of a slot. If every
  frame decodes and every further registration among them parses, the loop ends with its cleanup:
  the worker the connection last registered is taken down, and no fence that names it is
  authorized any more. Otherwise the first other frame decides: if it does not decode, the thread
  returns past the cleanup, and if it is a registration that does not parse, the process ends.
  Where no frame registers and the other threads leave the fabric alone, nothing is written, and
  the fabric is that of the worker taken down if all frames decode, and what it was if one does
  not: every fence keeps its verdict though nobody listens for the worker any more.
\<close>

theorem worker_connection_end:
  assumes "cn_is_worker cn" and "cn_slot cn = Some slot" and "map_of (cd_slots cd) slot = Some sl"
    and "\<not> cd_shutdown cd" and "others_calm gap"
    and "handle_connection gap fw sent bufs cn cd = (e, written, cd')"
  shows "(case dropWhile frame_fine bufs of
      [] \<Rightarrow> e = CE_closed \<and>
        (\<exists>fb. cd_fabric cd' = on_worker_down (last_worker (sl_id sl) bufs) fb) \<and>
        (\<forall>f. f_worker f = last_worker (sl_id sl) bufs \<longrightarrow> \<not> authorized (check_fence f (cd_fabric cd')))
    | buf # _ \<Rightarrow> if isl (decode_message buf) then e = CE_returned else \<exists>x. e = CE_terminated x) \<and>
    ((\<forall>c. cd_fabric (gap c) = cd_fabric c) \<and> (\<forall>buf \<in> set bufs. \<not> registers buf) \<longrightarrow>
       written = [] \<and> cd_fabric cd' = (if \<forall>buf \<in> set bufs. \<not> isl (decode_message buf)
         then on_worker_down (sl_id sl) (cd_fabric cd) else cd_fabric cd))"
proof (intro conjI impI)
  show "case dropWhile frame_fine bufs of
      [] \<Rightarrow> e = CE_closed \<and>
        (\<exists>fb. cd_fabric cd' = on_worker_down (last_worker (sl_id sl) bufs) fb) \<and>
        (\<forall>f. f_worker f = last_worker (sl_id sl) bufs \<longrightarrow> \<not> authorized (check_fence f (cd_fabric cd')))
    | buf # _ \<Rightarrow> if isl (decode_message buf) then e = CE_returned else \<exists>x. e = CE_terminated x"
    using worker_loop [OF assms(5,1-4,6)]
    by (cases "dropWhile frame_fine bufs") (auto simp: check_fence_current down_fenced simp del: dropWhile_eq_Nil_conv)
next
  assume q: "(\<forall>c. cd_fabric (gap c) = cd_fabric c) \<and> (\<forall>buf \<in> set bufs. \<not> registers buf)"
  then have "dropWhile frame_fine bufs = [] \<longleftrightarrow> (\<forall>buf \<in> set bufs. \<not> isl (decode_message buf))"
    by (auto simp: dropWhile_eq_Nil_conv frame_fine_def registers_def isl_def split: sum.splits)
  with worker_loop_quiet [OF assms(5) _ _ assms(1-4,6)] q
  show "written = []" "cd_fabric cd' = (if \<forall>buf \<in> set bufs. \<not> isl (decode_message buf)
         then on_worker_down (sl_id sl) (cd_fabric cd) else cd_fabric cd)" by auto
qed

end
