(* ===== verification/AF_Threads.thy ===== *)
theory AF_Threads
  imports AF_Server
begin

text \<open>
  The coordinator as the program runs it: a pool of connection threads, an accept thread and the
  thread that calls \<open>stop\<close> (\<open>coordinator.cpp\<close>). Here nothing is a parameter of a handler: what
  happens between two critical sections is what the other threads of the pool do.

  A handler is a \<open>prog\<close>: the value it returns, a critical section (its effect and how the handler
  goes on), or a call of \<open>forward_to_worker\<close>. The call itself is a sequence of \<open>stage\<close>s, one for
  each locked section or unlocked access of that function. A thread is at one of the points of
  \<open>handle_connection\<close>; \<open>thread_next\<close> is its next step and \<open>server_step\<close> lets any one thread of
  the pool take its step. An entry of \<open>pending_\<close> is kept in the table; the source keeps it alive
  for the threads that hold a pointer to it, which makes no difference as the waiting thread is
  the only one that erases it and no number is used twice.
\<close>

section \<open>Handlers as sequences of critical sections\<close>

datatype prog =
    Finish "(Error + Message) option"
  | is_section: Section "Coordinator \<Rightarrow> prog \<times> Coordinator"
  | Forward string Message "Message \<Rightarrow> prog"

definition return_prog :: "Message \<Rightarrow> prog" where
  "return_prog m = Finish (Some (Inr m))"

definition fail_prog :: "Error \<Rightarrow> prog" where
  "fail_prog e = Finish (Some (Inl e))"

text \<open>A handler whose work on the fabric is one critical section.\<close>

definition one_section :: "(Coordinator \<Rightarrow> (Error + Message) \<times> Coordinator) \<Rightarrow> prog" where
  "one_section f = Section (\<lambda>cd. case f cd of (r, cd') \<Rightarrow> (Finish (Some r), cd'))"

text \<open>
  \<open>ctl_load\<close>: check the fence; create the instance; forward; record the answer; set the lifecycle.
\<close>

definition load_finish :: "AuthorityFence \<Rightarrow> AdapterInstanceId \<Rightarrow> Message \<Rightarrow> prog" where
  "load_finish fence inst ack =
    (let out = (ctl_reply (m_ok ack) (if m_ok ack then ''loaded'' else m_text ack))
                 \<lparr>m_text2 := Id_str inst\<rparr>
     in if m_ok ack then
          Section (\<lambda>cd. (Section (\<lambda>cd'. (return_prog out,
              cd'\<lparr>cd_fabric := set_lifecycle (f_adapter fence) L_ready (cd_fabric cd')\<rparr>)),
            cd\<lparr>cd_fabric := load_acked inst (m_a ack) (cd_fabric cd)\<rparr>))
        else return_prog out)"

definition load_create :: "Message \<Rightarrow> AuthorityFence \<Rightarrow> Coordinator \<Rightarrow> prog \<times> Coordinator" where
  "load_create req fence cd =
    (let n = (case adapter (f_adapter fence) (cd_fabric cd) of
                None \<Rightarrow> 0 | Some d \<Rightarrow> ad_memory_bytes d)
     in case create_instance (f_adapter fence) (f_worker fence) (f_boot fence) (f_device fence) n
               (cd_rng cd) (cd_fabric cd) of
          (Inl e, rng', fb) \<Rightarrow> (fail_prog e, cd\<lparr>cd_rng := rng', cd_fabric := fb\<rparr>)
        | (Inr inst, rng', fb) \<Rightarrow>
            (Forward (m_text2 req)
               (Message_default\<lparr>m_type := MT_wk_load, m_text := Id_str (f_adapter fence),
                  m_text2 := Id_str inst, m_payload := encode_fence fence\<rparr>)
               (load_finish fence inst),
             cd\<lparr>cd_rng := rng', cd_fabric := fb\<rparr>))"

definition load_prog :: "Message \<Rightarrow> prog" where
  "load_prog req =
    (case decode_fence (m_payload req) of
       Inl e \<Rightarrow> fail_prog e
     | Inr fence \<Rightarrow> Section (\<lambda>cd.
         let pre = check_fence fence (cd_fabric cd)
         in (if \<not> authorized pre then return_prog (ctl_reply False (ac_reason pre))
             else Section (load_create req fence), cd)))"

definition activate_bind :: "AuthorityFence \<Rightarrow> Message \<Rightarrow> prog" where
  "activate_bind fence ack =
    (if \<not> m_ok ack then return_prog (ctl_reply False (m_text ack))
     else Section (\<lambda>cd. case bind_authority (f_adapter fence) fence (cd_fabric cd) of
         (Inl e, fb) \<Rightarrow> (fail_prog e, cd\<lparr>cd_fabric := fb\<rparr>)
       | (Inr chk, fb) \<Rightarrow>
           (return_prog (ctl_reply (authorized chk) (ac_reason chk)), cd\<lparr>cd_fabric := fb\<rparr>)))"

definition activate_prog :: "Message \<Rightarrow> prog" where
  "activate_prog req =
    (case decode_fence (m_payload req) of
       Inl e \<Rightarrow> fail_prog e
     | Inr fence \<Rightarrow> Section (\<lambda>cd.
         let pre = check_fence fence (cd_fabric cd)
         in (if \<not> authorized pre then return_prog (ctl_reply False (ac_reason pre))
             else Forward (m_text2 req)
               (Message_default\<lparr>m_type := MT_wk_activate, m_text := Id_str (f_adapter fence),
                  m_payload := encode_fence fence\<rparr>)
               (activate_bind fence), cd)))"

definition deactivate_prog :: "Message \<Rightarrow> prog" where
  "deactivate_prog req =
    (case must_parse (m_text req) of
       Inl e \<Rightarrow> fail_prog e
     | Inr i \<Rightarrow> Forward (m_text2 req)
         (Message_default\<lparr>m_type := MT_wk_deactivate, m_text := Id_str i\<rparr>)
         (\<lambda>ack. Section (\<lambda>cd.
            (return_prog (ctl_reply (m_ok ack) (if m_ok ack then ''deactivated'' else m_text ack)),
             cd\<lparr>cd_fabric := set_lifecycle i L_ready (cd_fabric cd)\<rparr>))))"

definition migrate_prog :: "Message \<Rightarrow> prog" where
  "migrate_prog req =
    (case decode_fence (m_payload req) of
       Inl e \<Rightarrow> fail_prog e
     | Inr fence \<Rightarrow> Forward (m_text2 req)
         (Message_default\<lparr>m_type := MT_wk_migrate, m_text := Id_str (f_adapter fence),
            m_text2 := m_text2 req, m_payload := encode_fence fence\<rparr>)
         (\<lambda>ack. return_prog
            (ctl_reply (m_ok ack) (if m_ok ack then ''migrated'' else m_text ack))))"

definition invalidate_prog :: "Message \<Rightarrow> prog" where
  "invalidate_prog req =
    (case must_parse (m_text req) of
       Inl e \<Rightarrow> fail_prog e
     | Inr i \<Rightarrow> Section (\<lambda>cd.
         case invalidate i IT_manual
             (if m_text4 req = [] then ''manual invalidation'' else m_text4 req) (cd_fabric cd) of
           (r, fb) \<Rightarrow>
             (Forward (m_text2 req)
                (Message_default\<lparr>m_type := MT_wk_invalidate, m_text := Id_str i\<rparr>)
                (\<lambda>ack. return_prog (ctl_reply True (''invalidated: '' @ iv_reason r))),
              cd\<lparr>cd_fabric := fb\<rparr>)))"

definition evict_prog :: "Message \<Rightarrow> prog" where
  "evict_prog req =
    (case must_parse (m_text req) of
       Inl e \<Rightarrow> fail_prog e
     | Inr inst \<Rightarrow> Section (\<lambda>cd.
         case evict_release inst (cd_fabric cd) of
           ((good, reason), fb) \<Rightarrow>
             (Forward (m_text2 req)
                (Message_default\<lparr>m_type := MT_wk_deactivate, m_text := Id_str inst\<rparr>)
                (\<lambda>ack. return_prog (ctl_reply good reason)),
              cd\<lparr>cd_fabric := fb\<rparr>)))"

text \<open>\<open>process_control\<close>: the handler a request selects.\<close>

definition control_prog :: "Message \<Rightarrow> prog" where
  "control_prog req =
    (let t = m_type req in
     if t = MT_ctl_register_adapter then one_section (ctl_register_adapter req)
     else if t = MT_ctl_validate then one_section (ctl_validate req)
     else if t = MT_ctl_load then load_prog req
     else if t = MT_ctl_activate then activate_prog req
     else if t = MT_ctl_deactivate then deactivate_prog req
     else if t = MT_ctl_migrate then migrate_prog req
     else if t = MT_ctl_invalidate then invalidate_prog req
     else if t = MT_ctl_evict then evict_prog req
     else if t = MT_ctl_pin then one_section (ctl_pin True req)
     else if t = MT_ctl_unpin then one_section (ctl_pin False req)
     else if t = MT_ctl_snapshot then one_section ctl_snapshot
     else if t = MT_ctl_list then one_section ctl_list
     else if t = MT_ctl_compose then
       Section (\<lambda>cd. case ctl_compose req cd of (r, cd') \<Rightarrow> (Finish r, cd'))
     else if t = MT_ctl_epoch then one_section ctl_epoch
     else if t = MT_ctl_capacity then one_section ctl_capacity
     else if t = MT_ctl_shutdown then one_section ctl_shutdown
     else if t = MT_ping then return_prog (ctl_out\<lparr>m_ok := True, m_type := MT_pong\<rparr>)
     else return_prog (ctl_reply False ''unhandled control message''))"

text \<open>The message \<open>process_control\<close> makes of a handler's result; an error becomes a refusal.\<close>

fun control_answer :: "(Error + Message) option \<Rightarrow> Message option" where
  "control_answer None = None"
| "control_answer (Some (Inr m)) = Some m"
| "control_answer (Some (Inl e)) =
     Some (ctl_reply False (ErrorCode_to_string (err_code e) @ '': '' @ err_what e))"

section \<open>A forwarded request\<close>

text \<open>
  The points of \<open>forward_to_worker\<close>: drawing the number, the lookup under \<open>workers_mc_\<close>, the
  unlocked read of \<open>connected\<close>, the entry under \<open>pending_mc_\<close>, the frame, the wait, and the
  removal of the entry. \<open>sent\<close> tells whether the frame could be written; a wait without an
  answer has no next point.
\<close>

datatype stage =
    FS_number string Message
  | FS_lookup uint64_t string Message
  | FS_connected uint64_t nat Message
  | FS_insert uint64_t nat Message
  | FS_send uint64_t nat Message
  | FS_unsent uint64_t
  | FS_wait uint64_t
  | FS_erase uint64_t Message
  | FS_result Message

fun stage_next :: "bool \<Rightarrow> stage \<Rightarrow> Coordinator \<Rightarrow> (stage \<times> Coordinator) option" where
  "stage_next sent (FS_number w m) cd =
     Some (FS_lookup (cd_next_req cd) w m, cd\<lparr>cd_next_req := cd_next_req cd + 1\<rparr>)"
| "stage_next sent (FS_lookup r w m) cd =
     Some (case map_of (cd_workers cd) w of
             None \<Rightarrow> FS_result (forward_fail ''unknown or disconnected worker'')
           | Some conn \<Rightarrow> FS_connected r conn m, cd)"
| "stage_next sent (FS_connected r conn m) cd =
     Some (case map_of (cd_slots cd) conn of
             None \<Rightarrow> FS_result (forward_fail ''unknown or disconnected worker'')
           | Some slot \<Rightarrow> if sl_connected slot then FS_insert r conn m
               else FS_result (forward_fail ''unknown or disconnected worker''), cd)"
| "stage_next sent (FS_insert r conn m) cd =
     Some (FS_send r conn m, cd\<lparr>cd_pending := smap_set r
       \<lparr>pd_done = False, pd_result = Message_default\<rparr> (cd_pending cd)\<rparr>)"
| "stage_next sent (FS_send r conn m) cd = Some (if sent then FS_wait r else FS_unsent r, cd)"
| "stage_next sent (FS_unsent r) cd =
     Some (FS_result (forward_fail ''send to worker failed''),
       cd\<lparr>cd_pending := smap_erase r (cd_pending cd)\<rparr>)"
| "stage_next sent (FS_wait r) cd =
     (case map_of (cd_pending cd) r of
        None \<Rightarrow> None
      | Some p \<Rightarrow> if pd_done p then Some (FS_erase r (pd_result p), cd) else None)"
| "stage_next sent (FS_erase r m) cd =
     Some (FS_result m, cd\<lparr>cd_pending := smap_erase r (cd_pending cd)\<rparr>)"
| "stage_next sent (FS_result m) cd = None"

section \<open>Registration in two sections\<close>

text \<open>
  The identities are parsed and the slot enters \<open>workers_\<close>; then, under \<open>state_mc_\<close>, the node is
  parsed and the fabric learns of the worker; the acknowledgement reads the epoch without a lock.
\<close>

definition register_slot :: "nat \<Rightarrow> Message \<Rightarrow> Coordinator \<Rightarrow> (Error + WorkerSlot) \<times> Coordinator" where
  "register_slot conn msg cd =
    (case must_parse (m_text msg) of
       Inl e \<Rightarrow> (Inl e, cd)
     | Inr wid \<Rightarrow>
       (case must_parse (m_text2 msg) of
          Inl e \<Rightarrow> (Inl e, cd)
        | Inr boot \<Rightarrow>
          let slot = \<lparr>sl_id = wid, sl_boot = boot, sl_address = m_text3 msg, sl_connected = True\<rparr>
          in (Inr slot, cd\<lparr>cd_slots := smap_set conn slot (cd_slots cd),
                           cd_workers := smap_set (m_text msg) conn (cd_workers cd)\<rparr>)))"

definition register_fabric :: "WorkerSlot \<Rightarrow> Message \<Rightarrow> Coordinator \<Rightarrow> (Error + unit) \<times> Coordinator" where
  "register_fabric slot msg cd =
    (case (if m_text4 msg \<noteq> [] then must_parse (m_text4 msg) else Inr Id_nil) of
       Inl e \<Rightarrow> (Inl e, cd)
     | Inr node \<Rightarrow>
       let r = \<lparr>wr_id = sl_id slot, wr_boot = sl_boot slot, wr_address = sl_address slot,
                wr_node = node, wr_device = Id_nil, wr_connected = True,
                wr_epoch = fb_epoch (cd_fabric cd), wr_capabilities = [],
                wr_device_memory_bytes = 0, wr_local_adapters = []\<rparr>
       in (Inr (), cd\<lparr>cd_fabric :=
             on_worker_restart (sl_id slot) (sl_boot slot) (register_worker r (cd_fabric cd))\<rparr>))"

definition register_ack :: "Coordinator \<Rightarrow> Message" where
  "register_ack cd =
    (let epoch = gen_value (fb_epoch (cd_fabric cd))
     in Message_default\<lparr>m_type := MT_wk_register_ack, m_ok := True, m_a := epoch,
          m_text := dec_str (unat epoch)\<rparr>)"

section \<open>A connection thread\<close>

text \<open>
  \<open>TH_test\<close> is the test of \<open>shutdown_\<close> at the head of the loop, \<open>TH_recv\<close> the blocking read,
  \<open>TH_found\<close> the moment between finding the entry of an answered request and completing it; the
  last points but one are the cleanup after the loop.
\<close>

datatype thread =
    TH_test Connection
  | TH_recv Connection
  | TH_register Message
  | TH_register_fabric nat WorkerSlot Message
  | TH_register_ack nat
  | TH_answer Connection Message
  | TH_found Connection Message
  | TH_handle Connection prog
  | TH_forward Connection stage "Message \<Rightarrow> prog"
  | TH_reply Connection Message
  | TH_lost nat
  | TH_abort nat
  | TH_down nat
  | TH_exit

definition cleanup_thread :: "Connection \<Rightarrow> thread" where
  "cleanup_thread cn = (case cn_slot cn of None \<Rightarrow> TH_exit | Some slot \<Rightarrow> TH_lost slot)"

text \<open>What a frame makes the thread do.\<close>

definition frame_thread :: "Connection \<Rightarrow> byte list \<Rightarrow> thread" where
  "frame_thread cn buf =
    (case decode_message buf of
       Inl e \<Rightarrow> TH_exit
     | Inr msg \<Rightarrow>
         if m_type msg = MT_wk_register then TH_register msg
         else if cn_is_worker cn then
           (if m_req_id msg \<noteq> 0 then TH_answer cn msg else TH_test cn)
         else TH_handle cn (control_prog msg))"

text \<open>
  The next step of a thread: \<open>frame\<close> is what \<open>recv_frame\<close> yields (\<open>None\<close>: it fails) and \<open>sent\<close>
  whether a frame could be written. The result is \<open>None\<close> when the thread cannot move, and has no
  thread when the process ends with it (an exception that leaves the thread function, or the
  undefined behaviour of a handler). A step at \<open>TH_recv\<close>, \<open>TH_reply\<close>, \<open>TH_register_ack\<close> or
  \<open>FS_send\<close> is the effect of a socket call that has returned; a peer that sends nothing, or takes
  nothing, keeps the thread from it. Which calls return is the parameter of \<open>pool_step\<close> of \<open>AF_Stop\<close>.
\<close>

fun thread_next :: "byte list option \<Rightarrow> bool \<Rightarrow> thread \<Rightarrow> Coordinator \<Rightarrow>
    (thread option \<times> Coordinator) option" where
  "thread_next frame sent (TH_test cn) cd =
     Some (Some (if cd_shutdown cd then cleanup_thread cn else TH_recv cn), cd)"
| "thread_next frame sent (TH_recv cn) cd =
     Some (Some (case frame of None \<Rightarrow> cleanup_thread cn | Some buf \<Rightarrow> frame_thread cn buf), cd)"
| "thread_next frame sent (TH_register msg) cd =
     (let conn = fresh_slot cd in
      case register_slot conn msg cd of
        (Inl e, cd') \<Rightarrow> Some (None, cd')
      | (Inr slot, cd') \<Rightarrow> Some (Some (TH_register_fabric conn slot msg), cd'))"
| "thread_next frame sent (TH_register_fabric conn slot msg) cd =
     (case register_fabric slot msg cd of
        (Inl e, cd') \<Rightarrow> Some (None, cd')
      | (Inr _, cd') \<Rightarrow> Some (Some (TH_register_ack conn), cd'))"
| "thread_next frame sent (TH_register_ack conn) cd =
     Some (Some (TH_test \<lparr>cn_is_worker = True, cn_slot = Some conn\<rparr>), cd)"
| "thread_next frame sent (TH_answer cn msg) cd =
     Some (Some (case map_of (cd_pending cd) (m_req_id msg) of
                   None \<Rightarrow> TH_test cn | Some p \<Rightarrow> TH_found cn msg), cd)"
| "thread_next frame sent (TH_found cn msg) cd = Some (Some (TH_test cn), deliver msg cd)"
| "thread_next frame sent (TH_handle cn (Finish r)) cd =
     Some (map_option (TH_reply cn) (control_answer r), cd)"
| "thread_next frame sent (TH_handle cn (Section f)) cd =
     (case f cd of (p, cd') \<Rightarrow> Some (Some (TH_handle cn p), cd'))"
| "thread_next frame sent (TH_handle cn (Forward w m k)) cd =
     Some (Some (TH_forward cn (FS_number w m) k), cd)"
| "thread_next frame sent (TH_forward cn (FS_result a) k) cd = Some (Some (TH_handle cn (k a)), cd)"
| "thread_next frame sent (TH_forward cn st k) cd =
     (case stage_next sent st cd of
        None \<Rightarrow> None
      | Some (st', cd') \<Rightarrow> Some (Some (TH_forward cn st' k), cd'))"
| "thread_next frame sent (TH_reply cn m) cd = Some (Some (if sent then TH_test cn else TH_exit), cd)"
| "thread_next frame sent (TH_lost slot) cd =
     Some (Some (TH_abort slot), cd\<lparr>cd_slots := smap_mapi (\<lambda>k sl. if k = slot
        then sl\<lparr>sl_connected := False\<rparr> else sl) (cd_slots cd)\<rparr>)"
| "thread_next frame sent (TH_abort slot) cd =
     Some (Some (TH_down slot), (case map_of (cd_slots cd) slot of
        None \<Rightarrow> cd | Some sl \<Rightarrow> abort_pending_for_worker (Id_str (sl_id sl)) cd))"
| "thread_next frame sent (TH_down slot) cd =
     Some (Some TH_exit, (case map_of (cd_slots cd) slot of
        None \<Rightarrow> cd | Some sl \<Rightarrow> cd\<lparr>cd_fabric := on_worker_down (sl_id sl) (cd_fabric cd)\<rparr>))"
| "thread_next frame sent TH_exit cd = None"

section \<open>The pool\<close>

text \<open>
  The accept thread is at the test of its loop, in the blocking \<open>accept\<close>, or over. \<open>stop\<close> has not
  been called, waits in its joins, or has returned.
\<close>

datatype accept_state = AC_test | AC_accept | AC_over
datatype stop_state = ST_running | ST_joining | ST_returned

record Server =
  sv_cd :: Coordinator
  sv_accept :: accept_state
  sv_threads :: "thread list"
  sv_stop :: stop_state
  sv_terminated :: bool

definition Server_start :: "(ResidencyLocation, uint64_t) smap \<Rightarrow> Server" where
  "Server_start limits =
     \<lparr>sv_cd = snd (server_start True (CoordinatorServer_new limits)), sv_accept = AC_test,
      sv_threads = [], sv_stop = ST_running, sv_terminated = False\<rparr>"

text \<open>
  The accept thread. A step at \<open>AC_accept\<close> is that of an \<open>accept\<close> which has returned: a client has
  connected, or the listening socket was closed or failed.
\<close>

definition accept_next :: "bool \<Rightarrow> Server \<Rightarrow> Server option" where
  "accept_next valid s =
    (case sv_accept s of
       AC_test \<Rightarrow> Some (s\<lparr>sv_accept := if cd_shutdown (sv_cd s) then AC_over else AC_accept\<rparr>)
     | AC_accept \<Rightarrow> Some (if valid
           then s\<lparr>sv_accept := AC_test, sv_threads := sv_threads s @ [TH_test Connection_new]\<rparr>
           else s\<lparr>sv_accept := AC_over\<rparr>)
     | AC_over \<Rightarrow> None)"

definition stop_next :: "Server \<Rightarrow> Server option" where
  "stop_next s =
    (case sv_stop s of
       ST_running \<Rightarrow> Some (s\<lparr>sv_cd := server_stop (sv_cd s), sv_stop := ST_joining\<rparr>)
     | ST_joining \<Rightarrow>
         if sv_accept s = AC_over \<and> (\<forall>t \<in> set (sv_threads s). t = TH_exit)
         then Some (s\<lparr>sv_stop := ST_returned\<rparr>) else None
     | ST_returned \<Rightarrow> None)"

inductive server_step :: "Server \<Rightarrow> Server \<Rightarrow> bool" where
  sv_accept_step: "\<not> sv_terminated s \<Longrightarrow> accept_next valid s = Some s' \<Longrightarrow> server_step s s'"
| sv_stop_step: "\<not> sv_terminated s \<Longrightarrow> stop_next s = Some s' \<Longrightarrow> server_step s s'"
| sv_thread_step: "\<not> sv_terminated s \<Longrightarrow> i < length (sv_threads s) \<Longrightarrow>
    thread_next frame sent (sv_threads s ! i) (sv_cd s) = Some (Some t, cd') \<Longrightarrow>
    server_step s (s\<lparr>sv_cd := cd', sv_threads := (sv_threads s)[i := t]\<rparr>)"
| sv_terminate_step: "\<not> sv_terminated s \<Longrightarrow> i < length (sv_threads s) \<Longrightarrow>
    thread_next frame sent (sv_threads s ! i) (sv_cd s) = Some (None, cd') \<Longrightarrow>
    server_step s (s\<lparr>sv_cd := cd', sv_terminated := True\<rparr>)"

section \<open>Run alone, a handler is the sequential one\<close>

text \<open>
  \<open>exec gap fw\<close> runs a handler from its first section to its last: \<open>fw\<close> answers the forwarded
  requests and \<open>gap\<close> is what happens between two sections that follow each other directly.
\<close>

primrec exec :: "(Coordinator \<Rightarrow> Coordinator) \<Rightarrow> forward \<Rightarrow> prog \<Rightarrow> Coordinator \<Rightarrow>
    (Error + Message) option \<times> Coordinator" where
  "exec gap fw (Finish r) = Pair r"
| "exec gap fw (Section f) = (\<lambda>cd. (fst \<circ> (map_prod (exec gap fw) id \<circ> f)) cd
     (if is_section (fst (f cd)) then gap (snd (f cd)) else snd (f cd)))"
| "exec gap fw (Forward w m k) = (\<lambda>cd.
     (exec gap fw \<circ> k) (fst (forward_next fw w m cd)) (snd (forward_next fw w m cd)))"

lemma exec_simps [simp]:
  "exec gap fw (return_prog m) cd = (Some (Inr m), cd)"
  "exec gap fw (fail_prog e) cd = (Some (Inl e), cd)"
  "exec gap fw (one_section f) cd = apfst Some (f cd)"
  "\<not> is_section (return_prog m)" "\<not> is_section (fail_prog e)"
  by (simp_all add: return_prog_def fail_prog_def one_section_def case_prod_beta apfst_def map_prod_def)

lemma exec_load: "exec gap fw (load_prog req) cd = apfst Some (ctl_load gap fw req cd)"
  by (simp add: load_prog_def load_create_def load_finish_def ctl_load_def Let_def case_prod_beta
      split: sum.split)

lemma exec_activate: "exec gap fw (activate_prog req) cd = apfst Some (ctl_activate fw req cd)"
  by (simp add: activate_prog_def activate_bind_def ctl_activate_def Let_def case_prod_beta
      split: sum.split)

lemma exec_deactivate: "exec gap fw (deactivate_prog req) cd = apfst Some (ctl_deactivate fw req cd)"
  by (simp add: deactivate_prog_def ctl_deactivate_def Let_def case_prod_beta split: sum.split)

lemma exec_migrate: "exec gap fw (migrate_prog req) cd = apfst Some (ctl_migrate fw req cd)"
  by (simp add: migrate_prog_def ctl_migrate_def Let_def case_prod_beta split: sum.split)

lemma exec_invalidate: "exec gap fw (invalidate_prog req) cd = apfst Some (ctl_invalidate fw req cd)"
  by (simp add: invalidate_prog_def ctl_invalidate_def Let_def case_prod_beta split: sum.split)

lemma exec_evict: "exec gap fw (evict_prog req) cd = apfst Some (ctl_evict fw req cd)"
  by (simp add: evict_prog_def ctl_evict_def Let_def case_prod_beta split: sum.split)

lemmas exec_handlers = exec_load exec_activate exec_deactivate exec_migrate exec_invalidate exec_evict

lemma exec_if: "exec gap fw (if b then p else q) cd = (if b then exec gap fw p cd else exec gap fw q cd)"
  by simp

lemma exec_control: "exec gap fw (control_prog req) cd = dispatch gap fw req cd"
  unfolding control_prog_def dispatch_def Let_def
  by (simp add: exec_if exec_handlers case_prod_beta split del: if_split cong: if_cong)

text \<open>
  The handlers written as sequences of critical sections are the handlers of
  \<open>process_control\<close>: run from the first section to the last, with any forwarding of requests and
  anything happening between two sections, every request gets the same answer and leaves the same
  state.
\<close>

theorem control_prog_sequential:
  "map_prod control_answer id (exec gap fw (control_prog req) cd) = process_control gap fw req cd"
proof -
  have "control_answer r = (case r of None \<Rightarrow> None | Some (Inr m) \<Rightarrow> Some m
      | Some (Inl e) \<Rightarrow> Some (ctl_reply False (ErrorCode_to_string (err_code e) @ '': '' @ err_what e)))"
    for r by (cases r rule: control_answer.cases) simp_all
  then show ?thesis
    by (simp add: exec_control process_control_def case_prod_beta map_prod_def
        split: option.split sum.split)
qed

text \<open>The two sections of a registration are \<open>handle_register\<close>.\<close>

lemma register_sections:
  "handle_register conn msg cd =
    (case register_slot conn msg cd of
       (Inl e, cd1) \<Rightarrow> (Inl e, cd1)
     | (Inr slot, cd1) \<Rightarrow>
         (case register_fabric slot msg cd1 of
            (Inl e, cd2) \<Rightarrow> (Inl e, cd2)
          | (Inr _, cd2) \<Rightarrow> (Inr (register_ack cd2), cd2)))"
  by (simp add: handle_register_def register_slot_def register_fabric_def register_ack_def Let_def
      split: sum.split)

text \<open>
  The stages of a request, run by one thread: \<open>others\<close> is what the other threads do while it
  waits.
\<close>

fun stage_run :: "(nat \<Rightarrow> byte list \<Rightarrow> Coordinator \<Rightarrow> bool) \<Rightarrow> (Coordinator \<Rightarrow> Coordinator) \<Rightarrow>
    nat \<Rightarrow> stage \<Rightarrow> Coordinator \<Rightarrow> (Message \<times> Coordinator) option" where
  "stage_run send others fuel (FS_result a) cd = Some (a, cd)"
| "stage_run send others 0 st cd = None"
| "stage_run send others (Suc n) st cd =
    (let sent = (case st of FS_send r conn m \<Rightarrow> send conn (encode_message (m\<lparr>m_req_id := r\<rparr>)) cd | _ \<Rightarrow> True);
         cd1 = (case st of FS_wait r \<Rightarrow> others cd | _ \<Rightarrow> cd)
     in case stage_next sent st cd1 of
          None \<Rightarrow> None
        | Some (st', cd') \<Rightarrow> stage_run send others n st' cd')"

definition await_others :: "(Coordinator \<Rightarrow> Coordinator) \<Rightarrow> uint64_t \<Rightarrow> Coordinator \<Rightarrow> Message \<times> Coordinator" where
  "await_others others r cd =
     (pd_result (the (map_of (cd_pending (others cd)) r)), others cd)"

text \<open>
  The stages of \<open>forward_to_worker\<close>, run one after the other, return what the function returns
  and leave the same state, provided the other threads complete the request while the caller
  waits; six steps are enough.
\<close>

theorem forward_stages:
  assumes "\<And>c. \<exists>p. map_of (cd_pending (others c)) r = Some p \<and> pd_done p"
  shows "stage_run send others 6 (FS_lookup r w m) cd =
     Some (forward_to_worker send (await_others others) r w m cd)"
proof -
  obtain p where p: "map_of (cd_pending (others (cd\<lparr>cd_pending := smap_set r
      \<lparr>pd_done = False, pd_result = Message_default\<rparr> (cd_pending cd)\<rparr>))) r = Some p" "pd_done p"
    using assms by blast
  show ?thesis
    by (simp add: eval_nat_numeral forward_to_worker_def await_others_def p Let_def
        split: option.split)
qed

end
