(* ===== verification/AF_ThreadsInv.thy ===== *)
theory AF_ThreadsInv
  imports AF_Threads
begin

text \<open>
  What every interleaving of the coordinator's threads keeps: the fabric moves by its own
  operations, so authority stays exclusive; the numbers of open requests are distinct and an answer
  reaches the request it names; an answer that has arrived is not lost. And what can go wrong: the
  only place where a thread can be stuck is the wait for an answer, which a disconnection between
  the check of the slot and the entry in the table leaves unanswered for ever.
\<close>

section \<open>Every step acts through the fabric\<close>

text \<open>
  A critical section of a handler: fabric operations, no touch of the request table, and no way
  back from a shutdown.
\<close>

definition section_sound :: "Coordinator \<Rightarrow> Coordinator \<Rightarrow> bool" where
  "section_sound cd cd' \<longleftrightarrow> coord_step\<^sup>*\<^sup>* (cd_fabric cd) (cd_fabric cd') \<and>
     cd_pending cd' = cd_pending cd \<and> cd_next_req cd' = cd_next_req cd \<and>
     (cd_shutdown cd \<longrightarrow> cd_shutdown cd')"

inductive prog_sound :: "prog \<Rightarrow> bool" where
  ps_finish: "prog_sound (Finish r)"
| ps_section: "(\<And>cd. section_sound cd (snd (f cd))) \<Longrightarrow>
    (\<And>cd. prog_sound (fst (f cd))) \<Longrightarrow> prog_sound (Section f)"
| ps_forward: "(\<And>m. prog_sound (k m)) \<Longrightarrow> prog_sound (Forward w m k)"

inductive_simps prog_sound_simps [simp]:
  "prog_sound (Finish r)" "prog_sound (Section f)" "prog_sound (Forward w m k)"

lemma prog_sound_return [simp]: "prog_sound (return_prog m)" "prog_sound (fail_prog e)"
  by (simp_all add: return_prog_def fail_prog_def)

lemma prog_sound_one: "(\<And>cd. section_sound cd (snd (f cd))) \<Longrightarrow> prog_sound (one_section f)"
  by (simp add: one_section_def case_prod_beta)

lemma section_sound_same [simp]: "section_sound cd cd"
  by (simp add: section_sound_def)

lemma section_sound_fabric:
  "coord_step\<^sup>*\<^sup>* (cd_fabric cd) fb \<Longrightarrow> section_sound cd (cd\<lparr>cd_fabric := fb\<rparr>)"
  "coord_step\<^sup>*\<^sup>* (cd_fabric cd) fb \<Longrightarrow> section_sound cd (cd\<lparr>cd_rng := rng, cd_fabric := fb\<rparr>)"
  by (simp_all add: section_sound_def)

lemma bind_steps: "coord_step\<^sup>*\<^sup>* fb (snd (bind_authority (f_adapter f) f fb))"
  by (rule op_steps [OF step_bind bind_workers])

lemma load_prog_sound: "prog_sound (load_prog req)"
proof -
  have create: "section_sound cd (snd (load_create req f cd))" for f cd
  proof -
    let ?n = "case adapter (f_adapter f) (cd_fabric cd) of None \<Rightarrow> 0 | Some d \<Rightarrow> ad_memory_bytes d"
    obtain r rng' fb where cr: "create_instance (f_adapter f) (f_worker f) (f_boot f) (f_device f) ?n
        (cd_rng cd) (cd_fabric cd) = (r, rng', fb)" by (metis prod_cases3)
    from create_instance_steps [OF cr] show ?thesis
      by (cases r) (simp_all add: load_create_def cr section_sound_fabric)
  qed
  have "prog_sound (load_finish f inst ack)" for f inst ack
    by (simp add: load_finish_def Let_def load_acked_steps set_lifecycle_steps section_sound_fabric)
  then have "prog_sound (fst (load_create req f cd))" for f cd
    by (simp add: load_create_def Let_def split: prod.split sum.split)
  with create show ?thesis by (simp add: load_prog_def Let_def split: sum.split)
qed

lemma activate_prog_sound: "prog_sound (activate_prog req)"
proof -
  have "coord_step\<^sup>*\<^sup>* (cd_fabric cd) fb"
    if "bind_authority (f_adapter f) f (cd_fabric cd) = (r, fb)" for f r fb cd
    using bind_steps [of "cd_fabric cd" f] that by simp
  then have "prog_sound (activate_bind f ack)" for f ack
    by (auto simp: activate_bind_def split: prod.split sum.split intro!: section_sound_fabric)
  then show ?thesis by (simp add: activate_prog_def Let_def split: sum.split)
qed

lemma invalidate_prog_sound: "prog_sound (invalidate_prog req)"
  using op_steps [OF step_invalidate]
  by (auto simp: invalidate_prog_def case_prod_beta section_sound_fabric split: sum.split)

lemma evict_prog_sound: "prog_sound (evict_prog req)"
  by (auto simp: evict_prog_def case_prod_beta evict_release_steps section_sound_fabric split: sum.split)

abbreviation table_kept :: "Coordinator \<Rightarrow> Coordinator \<Rightarrow> bool" where
  "table_kept cd cd' \<equiv> cd_pending cd' = cd_pending cd \<and> cd_next_req cd' = cd_next_req cd \<and>
     cd_shutdown cd' = cd_shutdown cd"

lemma table_untouched:
  "table_kept cd (snd (ctl_register_adapter req cd))" "table_kept cd (snd (ctl_pin up req cd))"
  "table_kept cd (snd (ctl_compose req cd))" "table_kept cd (snd (ctl_epoch cd))"
  by (auto simp: ctl_epoch_def ctl_register_adapter_def ctl_pin_def ctl_compose_def Let_def
      split: sum.split prod.split)

lemma one_sections_sound:
  "prog_sound (one_section (ctl_register_adapter req))" "prog_sound (one_section (ctl_pin up req))"
  "prog_sound (one_section (ctl_validate req))" "prog_sound (one_section ctl_snapshot)"
  "prog_sound (one_section ctl_list)" "prog_sound (one_section ctl_epoch)"
  "prog_sound (one_section ctl_capacity)" "prog_sound (one_section ctl_shutdown)"
  by (intro prog_sound_one; simp add: section_sound_def ctl_register_adapter_steps ctl_pin_steps
      ctl_epoch_steps table_untouched ctl_validate_def ctl_snapshot_def ctl_list_def
      ctl_capacity_def ctl_shutdown_def Let_def)+

lemma control_prog_sound:
  assumes "message_ok req"
  shows "prog_sound (control_prog req)"
proof -
  have "section_sound cd (snd (ctl_compose req cd))" for cd
    using ctl_compose_steps [OF assms] table_untouched(3) by (simp add: section_sound_def)
  then show ?thesis
    unfolding control_prog_def Let_def
    using load_prog_sound activate_prog_sound invalidate_prog_sound evict_prog_sound one_sections_sound
    by (auto simp: deactivate_prog_def migrate_prog_def set_lifecycle_steps section_sound_fabric
        case_prod_beta split: sum.split)
qed

fun thread_sound :: "thread \<Rightarrow> bool" where
  "thread_sound (TH_register msg) \<longleftrightarrow> message_ok msg"
| "thread_sound (TH_register_fabric conn slot msg) \<longleftrightarrow> message_ok msg \<and> sl_address slot = m_text3 msg"
| "thread_sound (TH_handle cn p) \<longleftrightarrow> prog_sound p"
| "thread_sound (TH_forward cn st k) \<longleftrightarrow> (\<forall>m. prog_sound (k m))"
| "thread_sound t \<longleftrightarrow> True"

lemma frame_thread_sound: "thread_sound (frame_thread cn buf)"
  by (auto simp: frame_thread_def message_accepted_ok control_prog_sound split: sum.split)

lemma cleanup_thread_sound: "thread_sound (cleanup_thread cn)"
  by (simp add: cleanup_thread_def split: option.split)

lemma register_fabric_steps:
  assumes "register_fabric slot msg cd = (r, cd')" and "message_ok msg" and "sl_address slot = m_text3 msg"
  shows "coord_step\<^sup>*\<^sup>* (cd_fabric cd) (cd_fabric cd')"
proof (cases "(if m_text4 msg \<noteq> [] then must_parse (m_text4 msg) else Inr Id_nil) :: Error + NodeId")
  case (Inl e)
  with assms(1) show ?thesis by (simp add: register_fabric_def)
next
  case (Inr node)
  let ?r = "\<lparr>wr_id = sl_id slot, wr_boot = sl_boot slot, wr_address = sl_address slot, wr_node = node,
      wr_device = Id_nil, wr_connected = True, wr_epoch = fb_epoch (cd_fabric cd),
      wr_capabilities = [], wr_device_memory_bytes = 0, wr_local_adapters = []\<rparr>"
  have "worker_ok ?r" using assms(2,3) by (simp add: worker_ok_def message_ok_def vec_ok_def)
  then have "coord_step (cd_fabric cd) (reregister ?r (cd_fabric cd))" by (rule coord_register) simp
  moreover have "cd_fabric cd' = reregister ?r (cd_fabric cd)"
    using assms(1) unfolding register_fabric_def Inr by (auto simp: reregister_def Let_def)
  ultimately show ?thesis by simp
qed

lemma register_slot_fabric:
  "register_slot conn msg cd = (r, cd') \<Longrightarrow> cd_fabric cd' = cd_fabric cd \<and>
     (\<forall>sl. r = Inr sl \<longrightarrow> sl_address sl = m_text3 msg)"
  by (auto simp: register_slot_def Let_def split: sum.splits)

lemma stage_next_fabric:
  "stage_next sent st cd = Some (st', cd') \<Longrightarrow> cd_fabric cd' = cd_fabric cd"
  by (cases st) (auto split: option.splits if_splits)

lemma thread_next_sound:
  assumes "thread_next frame sent t cd = Some (t', cd')" and "thread_sound t"
  shows "coord_step\<^sup>*\<^sup>* (cd_fabric cd) (cd_fabric cd') \<and> (\<forall>u. t' = Some u \<longrightarrow> thread_sound u)"
proof (cases t)
  case (TH_recv cn)
  with assms show ?thesis
    by (auto simp: frame_thread_sound cleanup_thread_sound split: option.split)
next
  case (TH_handle cn p)
  with assms show ?thesis by (cases p) (auto simp: case_prod_beta section_sound_def)
next
  case (TH_forward cn st k)
  with assms show ?thesis
    by (cases st) (auto dest: stage_next_fabric split: option.splits if_splits)
next
  case (TH_register msg)
  with assms show ?thesis
    by (auto simp: Let_def dest: register_slot_fabric split: prod.splits sum.splits)
next
  case (TH_register_fabric conn slot msg)
  with assms show ?thesis
    by (auto dest: register_fabric_steps split: prod.splits sum.splits)
next
  case (TH_down slot)
  have "coord_step\<^sup>*\<^sup>* fb (on_worker_down i fb)" for i fb by (auto intro: coord_down)
  with TH_down assms show ?thesis by (auto split: option.splits)
qed (use assms in \<open>auto simp: cleanup_thread_sound abort_pending_for_worker_def split: option.splits\<close>)

definition pool_sound :: "Server \<Rightarrow> bool" where
  "pool_sound s \<longleftrightarrow> (\<forall>t \<in> set (sv_threads s). thread_sound t)"

lemma server_step_sound:
  "server_step s s' \<Longrightarrow> pool_sound s \<Longrightarrow>
     coord_step\<^sup>*\<^sup>* (cd_fabric (sv_cd s)) (cd_fabric (sv_cd s')) \<and> pool_sound s'"
proof (induction rule: server_step.induct)
  case (sv_accept_step s valid s')
  then show ?case
    by (auto simp: accept_next_def pool_sound_def split: accept_state.splits if_splits)
next
  case (sv_stop_step s s')
  then show ?case
    by (auto simp: stop_next_def server_stop_def pool_sound_def split: stop_state.splits if_splits)
next
  case (sv_thread_step s i frame sent t cd')
  have "thread_sound (sv_threads s ! i)" using sv_thread_step by (simp add: pool_sound_def)
  with thread_next_sound [OF sv_thread_step(3)] sv_thread_step show ?case
    by (auto simp: pool_sound_def dest: set_update_subset_insert [THEN subsetD])
next
  case (sv_terminate_step s i frame sent cd')
  have "thread_sound (sv_threads s ! i)" using sv_terminate_step by (simp add: pool_sound_def)
  with thread_next_sound [OF sv_terminate_step(3)] sv_terminate_step show ?case
    by (auto simp: pool_sound_def)
qed

definition server_reachable :: "Server \<Rightarrow> bool" where
  "server_reachable s \<longleftrightarrow> (\<exists>limits. server_step\<^sup>*\<^sup>* (Server_start limits) s)"

lemma server_runs_sound:
  "server_step\<^sup>*\<^sup>* (Server_start limits) s \<Longrightarrow>
     coord_step\<^sup>*\<^sup>* (Fabric_new limits) (cd_fabric (sv_cd s)) \<and> pool_sound s"
proof (induction rule: rtranclp_induct)
  case base
  show ?case
    by (simp add: Server_start_def server_start_def CoordinatorServer_new_def pool_sound_def)
next
  case (step s s')
  with server_step_sound [OF step(2)] show ?case by (auto intro: rtranclp_trans)
qed

text \<open>
  C2: Exclusive authority under every interleaving of the connection threads, the accept thread
  and \<open>stop\<close>, with whatever bytes arrive on the connections and whichever writes fail: at most one
  adapter holds authority, its record is active and carries the active fence, and the fence names
  a connected worker with its current boot.
\<close>

theorem threads_authority_safe: "server_reachable s \<Longrightarrow> authority_safe (cd_fabric (sv_cd s))"
proof -
  assume "server_reachable s"
  then obtain limits where st: "coord_step\<^sup>*\<^sup>* (Fabric_new limits) (cd_fabric (sv_cd s))"
    using server_runs_sound unfolding server_reachable_def by blast
  have "live_authority (Fabric_new limits)"
    by (simp add: live_authority_def Fabric_new_def Fabric_empty_def)
  with st have "live_authority (cd_fabric (sv_cd s))" by (rule live_authority_steps)
  moreover have "exclusive (cd_fabric (sv_cd s))"
    by (rule exclusive_reachable [OF fabric_reachable_steps [OF coord_steps_fabric [OF st] reach_new]])
  ultimately show ?thesis by (blast intro: authority_safe_inv)
qed

end
