(* ===== verification/AF_Requests.thy ===== *)
theory AF_Requests
  imports AF_ThreadsInv
begin

text \<open>
  The request table under every interleaving (\<open>coordinator.cpp\<close>, \<open>forward_to_worker\<close>,
  \<open>abort_pending_for_worker\<close> and the answers of workers): which thread owns which number, what an
  entry may hold, and that an answer cannot be taken from the thread that waits for it. Numbers
  come from a 64-bit counter, so the statements are about runs of fewer than 2^64 - 1 steps.
\<close>

section \<open>Who owns a number\<close>

fun stage_req :: "stage \<Rightarrow> uint64_t option" where
  "stage_req (FS_number w m) = None"
| "stage_req (FS_lookup r w m) = Some r"
| "stage_req (FS_connected r conn m) = Some r"
| "stage_req (FS_insert r conn m) = Some r"
| "stage_req (FS_send r conn m) = Some r"
| "stage_req (FS_unsent r) = Some r"
| "stage_req (FS_wait r) = Some r"
| "stage_req (FS_erase r m) = Some r"
| "stage_req (FS_result m) = None"

text \<open>The stages at which the number has its entry in the table.\<close>

fun stage_entry :: "stage \<Rightarrow> bool" where
  "stage_entry (FS_send r conn m) = True"
| "stage_entry (FS_unsent r) = True"
| "stage_entry (FS_wait r) = True"
| "stage_entry (FS_erase r m) = True"
| "stage_entry st = False"

fun thread_req :: "thread \<Rightarrow> uint64_t option" where
  "thread_req (TH_forward cn st k) = stage_req st"
| "thread_req t = None"

fun thread_entry :: "thread \<Rightarrow> bool" where
  "thread_entry (TH_forward cn st k) = stage_entry st"
| "thread_entry t = False"

text \<open>What an entry holds: nothing yet, an answer with its number, or the abort.\<close>

definition aborted :: Message where
  "aborted = Message_default\<lparr>m_type := MT_wk_error, m_ok := False, m_text := ''worker disconnected''\<rparr>"

definition answers :: "uint64_t \<Rightarrow> Message \<Rightarrow> bool" where
  "answers r m \<longleftrightarrow> m_req_id m = r \<or> m = aborted"

definition entry_ok :: "uint64_t \<Rightarrow> Pending \<Rightarrow> bool" where
  "entry_ok r p \<longleftrightarrow> (if pd_done p then answers r (pd_result p) else pd_result p = Message_default)"

fun thread_holds :: "thread \<Rightarrow> bool" where
  "thread_holds (TH_forward cn (FS_erase r m) k) = answers r m"
| "thread_holds t = True"

text \<open>
  Distinct numbers below the counter; the entries are those of the threads between insertion and
  removal; entries and the answers that threads hold are of the right number.
\<close>

definition numbers_ok :: "thread list \<Rightarrow> Coordinator \<Rightarrow> bool" where
  "numbers_ok ts cd \<longleftrightarrow>
     (\<forall>i < length ts. \<forall>r. thread_req (ts ! i) = Some r \<longrightarrow> r < cd_next_req cd) \<and>
     (\<forall>i < length ts. \<forall>j < length ts. \<forall>r.
        thread_req (ts ! i) = Some r \<longrightarrow> thread_req (ts ! j) = Some r \<longrightarrow> i = j)"

definition owned :: "thread list \<Rightarrow> Coordinator \<Rightarrow> bool" where
  "owned ts cd \<longleftrightarrow> (\<forall>r. map_of (cd_pending cd) r \<noteq> None \<longleftrightarrow>
     (\<exists>i < length ts. thread_req (ts ! i) = Some r \<and> thread_entry (ts ! i)))"

definition entries_ok :: "Coordinator \<Rightarrow> bool" where
  "entries_ok cd \<longleftrightarrow> (\<forall>r p. map_of (cd_pending cd) r = Some p \<longrightarrow> entry_ok r p)"

definition requests_ok :: "thread list \<Rightarrow> Coordinator \<Rightarrow> bool" where
  "requests_ok ts cd \<longleftrightarrow> numbers_ok ts cd \<and> owned ts cd \<and> entries_ok cd \<and>
     (\<forall>i < length ts. thread_holds (ts ! i))"

section \<open>What a step does to the table\<close>

text \<open>The other threads only complete entries, and complete them with an answer of their number.\<close>

definition completes :: "Coordinator \<Rightarrow> Coordinator \<Rightarrow> bool" where
  "completes cd cd' \<longleftrightarrow> cd_next_req cd' = cd_next_req cd \<and>
     (\<forall>r. case map_of (cd_pending cd) r of
        None \<Rightarrow> map_of (cd_pending cd') r = None
      | Some p \<Rightarrow> (\<exists>p'. map_of (cd_pending cd') r = Some p' \<and> (pd_done p \<longrightarrow> pd_done p') \<and>
          (entry_ok r p \<longrightarrow> entry_ok r p')))"

lemma completes_same:
  "cd_next_req cd' = cd_next_req cd \<Longrightarrow> cd_pending cd' = cd_pending cd \<Longrightarrow> completes cd cd'"
  by (simp add: completes_def split: option.split)

lemma completes_deliver: "completes cd (deliver msg cd)"
  by (auto simp: completes_def deliver_def entry_ok_def answers_def split: option.split)

lemma completes_abort: "completes cd (abort_pending_for_worker w cd)"
  by (auto simp: completes_def abort_pending_for_worker_def entry_ok_def answers_def aborted_def
      split: option.split)

lemma completes_table:
  assumes "completes cd cd'"
  shows "cd_next_req cd' = cd_next_req cd"
    "map_of (cd_pending cd') r \<noteq> None \<longleftrightarrow> map_of (cd_pending cd) r \<noteq> None"
    "map_of (cd_pending cd) r = Some p \<Longrightarrow> pd_done p \<Longrightarrow>
       \<exists>p'. map_of (cd_pending cd') r = Some p' \<and> pd_done p'"
  using assms unfolding completes_def by (auto split: option.splits)

lemma completes_entries:
  assumes "completes cd cd'" and "entries_ok cd"
  shows "entries_ok cd'"
  unfolding entries_ok_def
proof (intro allI impI)
  fix r p assume p: "map_of (cd_pending cd') r = Some p"
  then obtain q where q: "map_of (cd_pending cd) r = Some q"
    using completes_table(2) [OF assms(1), of r] by auto
  then have "entry_ok r q" using assms(2) by (simp add: entries_ok_def)
  with assms(1) p q show "entry_ok r p" unfolding completes_def by (auto dest: spec [of _ r])
qed

text \<open>Outside a forwarded request a thread owns no number and at most completes entries.\<close>

lemma idle_threads:
  "thread_req (frame_thread cn buf) = None" "\<not> thread_entry (frame_thread cn buf)"
  "thread_holds (frame_thread cn buf)" "thread_req (cleanup_thread cn) = None"
  "\<not> thread_entry (cleanup_thread cn)" "thread_holds (cleanup_thread cn)"
  by (simp_all add: frame_thread_def cleanup_thread_def Let_def split: sum.split option.split)

lemma register_table:
  "cd_pending (snd (register_slot c msg cd)) = cd_pending cd"
  "cd_next_req (snd (register_slot c msg cd)) = cd_next_req cd"
  "cd_pending (snd (register_fabric slot msg cd)) = cd_pending cd"
  "cd_next_req (snd (register_fabric slot msg cd)) = cd_next_req cd"
  by (simp_all add: register_slot_def register_fabric_def Let_def split: sum.split)

lemma plain_effect:
  assumes "thread_next frame sent t cd = Some (t', cd')" and "thread_sound t"
    and "\<nexists>cn st k. t = TH_forward cn st k"
  shows "(\<forall>u. t' = Some u \<longrightarrow> thread_req u = None \<and> \<not> thread_entry u \<and> thread_holds u) \<and>
    completes cd cd'"
proof (cases t)
  case (TH_handle cn p)
  with assms show ?thesis
    by (cases p) (auto simp: case_prod_beta section_sound_def intro: completes_same)
next
  case (TH_register msg)
  with assms show ?thesis
    by (auto simp: Let_def case_prod_beta register_table intro: completes_same split: sum.splits)
next
  case (TH_register_fabric conn slot msg)
  with assms show ?thesis
    by (auto simp: case_prod_beta register_table intro: completes_same split: sum.splits)
qed (use assms in \<open>auto simp: idle_threads completes_deliver completes_abort completes_same
    split: option.splits if_splits\<close>)

text \<open>The kinds of steps a thread takes, as far as the table is concerned.\<close>

lemma request_effect:
  assumes step: "thread_next frame sent t cd = Some (t', cd')" and sound: "thread_sound t"
  obtains (draw) u where "t' = Some u" "thread_req t = None" "thread_req u = Some (cd_next_req cd)"
      "\<not> thread_entry u" "cd' = cd\<lparr>cd_next_req := cd_next_req cd + 1\<rparr>"
  | (insert) u r where "t' = Some u" "thread_req t = Some r" "thread_req u = Some r"
      "\<not> thread_entry t" "thread_entry u" "thread_holds u"
      "cd' = cd\<lparr>cd_pending := smap_set r \<lparr>pd_done = False, pd_result = Message_default\<rparr> (cd_pending cd)\<rparr>"
  | (release) u r where "t' = Some u" "thread_req t = Some r" "thread_entry t" "thread_req u = None"
      "\<not> thread_entry u" "cd' = cd\<lparr>cd_pending := smap_erase r (cd_pending cd)\<rparr>"
  | (finish) cn k r p where "t = TH_forward cn (FS_wait r) k" "t' = Some (TH_forward cn (FS_erase r (pd_result p)) k)"
      "map_of (cd_pending cd) r = Some p" "pd_done p" "cd' = cd"
  | (quiet) "\<And>u. t' = Some u \<Longrightarrow> thread_holds u \<and> thread_entry u = thread_entry t \<and>
        (thread_req u = thread_req t \<or> thread_req u = None \<and> \<not> thread_entry u)"
      "completes cd cd'"
proof (cases "\<exists>cn st k. t = TH_forward cn st k")
  case False
  then have "thread_req t = None" "\<not> thread_entry t" by (cases t; simp)+
  with plain_effect [OF step sound False] show ?thesis by (intro quiet) blast+
next
  case True
  then obtain cn st k where TH_forward: "t = TH_forward cn st k" by blast
  show ?thesis
  proof (cases st)
    case (FS_number w m)
    with TH_forward step show ?thesis by (intro draw) auto
  next
    case (FS_insert r conn m)
    with TH_forward step show ?thesis by (intro insert [of _ r]) auto
  next
    case (FS_unsent r)
    with TH_forward step show ?thesis by (intro release [of _ r]) auto
  next
    case (FS_erase r m)
    with TH_forward step show ?thesis by (intro release [of _ r]) auto
  next
    case (FS_wait r)
    with TH_forward step obtain p where "map_of (cd_pending cd) r = Some p" "pd_done p" "cd' = cd"
      "t' = Some (TH_forward cn (FS_erase r (pd_result p)) k)"
      by (auto split: option.splits if_splits)
    with FS_wait TH_forward show ?thesis by (intro finish) simp_all
  qed (use TH_forward step in \<open>intro quiet;
      auto simp: completes_same split: option.splits if_splits\<close>)+
qed

section \<open>The table under every interleaving\<close>

lemma numbers_okD:
  assumes "numbers_ok ts cd" and "i < length ts" and "thread_req (ts ! i) = Some r"
  shows "r < cd_next_req cd" "j < length ts \<Longrightarrow> thread_req (ts ! j) = Some r \<Longrightarrow> i = j"
  using assms unfolding numbers_ok_def by blast+

lemma numbers_keep:
  assumes "numbers_ok ts cd" and "i < length ts" and "cd_next_req cd' = cd_next_req cd"
    and "thread_req u = thread_req (ts ! i) \<or> thread_req u = None"
  shows "numbers_ok (ts[i := u]) cd'"
  using assms unfolding numbers_ok_def by (auto simp: nth_list_update) (metis option.distinct(1))+

lemma numbers_draw:
  assumes ok: "numbers_ok ts cd" and i: "i < length ts" and u: "thread_req u = Some (cd_next_req cd)"
    and nx: "cd_next_req cd' = cd_next_req cd + 1" and top: "cd_next_req cd \<noteq> - 1"
  shows "numbers_ok (ts[i := u]) cd'"
proof -
  have lt: "r < cd_next_req cd'" if "r \<le> cd_next_req cd" for r
  proof -
    have "unat (cd_next_req cd + 1) = unat (cd_next_req cd) + 1"
      using top unatSuc [of "cd_next_req cd"] by (simp add: add.commute [of _ 1] add_eq_0_iff)
    with that nx show ?thesis by (simp add: word_less_nat_alt word_le_nat_alt)
  qed
  show ?thesis
    unfolding numbers_ok_def
  proof (intro conjI allI impI, goal_cases)
    case (1 j r)
    then show ?case using numbers_okD(1) [OF ok] u lt i by (cases "j = i") (auto intro: less_imp_le)
  next
    case (2 j k r)
    then show ?case using numbers_okD [OF ok] u i by (auto simp: nth_list_update split: if_splits)
  qed
qed

abbreviation owns :: "thread \<Rightarrow> uint64_t \<Rightarrow> bool" where
  "owns t r \<equiv> thread_req t = Some r \<and> thread_entry t"

lemma owned_update:
  assumes own: "owned ts cd" and num: "numbers_ok ts cd" and i: "i < length ts"
    and dom: "\<And>r. map_of (cd_pending cd') r \<noteq> None \<longleftrightarrow>
      owns u r \<or> map_of (cd_pending cd) r \<noteq> None \<and> \<not> owns (ts ! i) r"
  shows "owned (ts[i := u]) cd'"
  unfolding owned_def
proof (intro allI)
  fix r
  have "(\<exists>j < length ts. owns (ts[i := u] ! j) r) \<longleftrightarrow> owns u r \<or> (\<exists>j < length ts. j \<noteq> i \<and> owns (ts ! j) r)"
    using i by (auto simp: nth_list_update split: if_splits)
  also have "(\<exists>j < length ts. j \<noteq> i \<and> owns (ts ! j) r) \<longleftrightarrow>
      (\<exists>j < length ts. owns (ts ! j) r) \<and> \<not> owns (ts ! i) r"
    using numbers_okD(2) [OF num _ _ i] i by blast
  also have "(\<exists>j < length ts. owns (ts ! j) r) \<longleftrightarrow> map_of (cd_pending cd) r \<noteq> None"
    using own by (simp add: owned_def)
  finally show "map_of (cd_pending cd') r \<noteq> None \<longleftrightarrow> (\<exists>j < length (ts[i := u]). owns (ts[i := u] ! j) r)"
    using dom [of r] by simp
qed

lemma holds_update: "\<forall>i < length ts. thread_holds (ts ! i) \<Longrightarrow> thread_holds u \<Longrightarrow>
    \<forall>j < length (ts[i := u]). thread_holds (ts[i := u] ! j)"
  by (metis length_list_update nth_list_update_eq nth_list_update_neq)

lemma requests_step:
  assumes ok: "requests_ok ts cd" and i: "i < length ts"
    and step: "thread_next frame sent (ts ! i) cd = Some (t', cd')" and sound: "thread_sound (ts ! i)"
    and top: "cd_next_req cd \<noteq> - 1"
  shows "requests_ok (case t' of None \<Rightarrow> ts | Some u \<Rightarrow> ts[i := u]) cd' \<and>
    (cd_next_req cd' = cd_next_req cd \<or> cd_next_req cd' = cd_next_req cd + 1)"
proof -
  have num: "numbers_ok ts cd" and own: "owned ts cd" and ent: "entries_ok cd"
    and hold: "\<forall>i < length ts. thread_holds (ts ! i)"
    using ok by (simp_all add: requests_ok_def)
  note upd = holds_update [OF hold]
  from step sound show ?thesis
  proof (cases rule: request_effect)
    case (draw u)
    have "thread_holds u" using draw(4) by (cases u rule: thread_holds.cases) auto
    moreover have "numbers_ok (ts[i := u]) cd'"
      by (rule numbers_draw [OF num i draw(3) _ top]) (simp add: draw(5))
    moreover have "owned (ts[i := u]) cd'"
      by (rule owned_update [OF own num i]) (simp add: draw)
    ultimately show ?thesis using draw ent upd by (simp add: requests_ok_def entries_ok_def)
  next
    case (insert u r)
    have "numbers_ok (ts[i := u]) cd'"
      by (rule numbers_keep [OF num i]) (simp_all add: insert)
    moreover have "owned (ts[i := u]) cd'"
      by (rule owned_update [OF own num i]) (auto simp: insert)
    moreover have "entries_ok cd'"
      using ent by (auto simp: insert(7) entries_ok_def entry_ok_def split: if_splits)
    ultimately show ?thesis using insert upd by (simp add: requests_ok_def)
  next
    case (release u r)
    have "thread_holds u" using release(5) by (cases u rule: thread_holds.cases) auto
    moreover have "numbers_ok (ts[i := u]) cd'"
      by (rule numbers_keep [OF num i]) (simp_all add: release)
    moreover have "owned (ts[i := u]) cd'"
      by (rule owned_update [OF own num i]) (auto simp: release)
    moreover have "entries_ok cd'" using ent by (auto simp: release(6) entries_ok_def split: if_splits)
    ultimately show ?thesis using release upd by (simp add: requests_ok_def)
  next
    case (finish cn k r p)
    let ?u = "TH_forward cn (FS_erase r (pd_result p)) k"
    have "entry_ok r p" using ent finish(3) by (simp add: entries_ok_def)
    then have "thread_holds ?u" using finish(4) by (simp add: entry_ok_def)
    moreover have "numbers_ok (ts[i := ?u]) cd'"
      by (rule numbers_keep [OF num i]) (simp_all add: finish)
    moreover have "owned (ts[i := ?u]) cd'"
      using finish(3) by (intro owned_update [OF own num i]) (auto simp: finish(1,5))
    ultimately show ?thesis using finish ent upd by (simp add: requests_ok_def)
  next
    case quiet
    note c = completes_table [OF quiet(2)]
    have e: "entries_ok cd'" by (rule completes_entries [OF quiet(2) ent])
    show ?thesis
    proof (cases t')
      case None
      have "numbers_ok ts cd'" using num c(1) by (simp add: numbers_ok_def)
      moreover have "owned ts cd'" using own c(2) by (simp add: owned_def)
      ultimately show ?thesis using None e c(1) hold by (simp add: requests_ok_def)
    next
      case (Some u)
      note q = quiet(1) [OF Some]
      have "numbers_ok (ts[i := u]) cd'" using q by (intro numbers_keep [OF num i c(1)]) auto
      moreover have "owned (ts[i := u]) cd'"
      proof (rule owned_update [OF own num i])
        fix r
        have "map_of (cd_pending cd) r \<noteq> None" if "owns (ts ! i) r"
          using own i that by (auto simp: owned_def)
        then show "map_of (cd_pending cd') r \<noteq> None \<longleftrightarrow>
            owns u r \<or> map_of (cd_pending cd) r \<noteq> None \<and> \<not> owns (ts ! i) r"
          using q c(2) [of r] by metis
      qed
      ultimately show ?thesis using Some e c(1) upd q by (simp add: requests_ok_def)
    qed
  qed
qed

section \<open>Runs of the server\<close>

definition server_run :: "nat \<Rightarrow> Server \<Rightarrow> bool" where
  "server_run n s \<longleftrightarrow> (\<exists>limits. (server_step ^^ n) (Server_start limits) s)"

abbreviation server_requests :: "Server \<Rightarrow> bool" where
  "server_requests s \<equiv> requests_ok (sv_threads s) (sv_cd s)"

lemma requests_append:
  assumes ok: "requests_ok ts cd" and t: "thread_req t = None" "\<not> thread_entry t" "thread_holds t"
  shows "requests_ok (ts @ [t]) cd"
proof -
  have all: "(\<exists>i < length (ts @ [t]). P ((ts @ [t]) ! i)) \<longleftrightarrow> (\<exists>i < length ts. P (ts ! i)) \<or> P t" for P
  proof -
    have "(\<exists>i < Suc n. Q i) \<longleftrightarrow> (\<exists>i < n. Q i) \<or> Q n" for n Q by (auto simp: less_Suc_eq)
    then show ?thesis by (simp add: nth_append cong: conj_cong)
  qed
  have "numbers_ok (ts @ [t]) cd"
    using ok t unfolding requests_ok_def numbers_ok_def
    by (auto simp: less_Suc_eq nth_append)
  moreover have "owned (ts @ [t]) cd"
    unfolding owned_def
  proof (intro allI)
    fix r
    show "map_of (cd_pending cd) r \<noteq> None \<longleftrightarrow> (\<exists>i < length (ts @ [t]). owns ((ts @ [t]) ! i) r)"
      using ok t all [of "\<lambda>u. owns u r"] by (simp add: requests_ok_def owned_def)
  qed
  ultimately show ?thesis using ok t by (auto simp: requests_ok_def less_Suc_eq nth_append)
qed

lemma server_step_requests:
  "server_step s s' \<Longrightarrow> server_requests s \<Longrightarrow> pool_sound s \<Longrightarrow> cd_next_req (sv_cd s) \<noteq> - 1 \<Longrightarrow>
     server_requests s' \<and> (cd_next_req (sv_cd s') = cd_next_req (sv_cd s) \<or>
       cd_next_req (sv_cd s') = cd_next_req (sv_cd s) + 1)"
proof (induction rule: server_step.induct)
  case (sv_accept_step s valid s')
  then show ?case
    by (auto simp: accept_next_def requests_append split: accept_state.splits if_splits)
next
  case (sv_stop_step s s')
  have "requests_ok (sv_threads s) (server_stop (sv_cd s)) = server_requests s"
    by (simp add: server_stop_def requests_ok_def numbers_ok_def owned_def entries_ok_def)
  with sv_stop_step show ?case
    by (auto simp: stop_next_def server_stop_def split: stop_state.splits if_splits)
next
  case (sv_thread_step s i frame sent t cd')
  then have "thread_sound (sv_threads s ! i)" by (simp add: pool_sound_def)
  with requests_step [OF sv_thread_step(4,2,3)] sv_thread_step show ?case by simp
next
  case (sv_terminate_step s i frame sent cd')
  then have "thread_sound (sv_threads s ! i)" by (simp add: pool_sound_def)
  with requests_step [OF sv_terminate_step(4,2,3)] sv_terminate_step show ?case by simp
qed

lemma server_run_requests:
  "server_run n s \<Longrightarrow> n < 2 ^ 64 - 1 \<Longrightarrow>
     server_requests s \<and> pool_sound s \<and> unat (cd_next_req (sv_cd s)) \<le> Suc n"
proof (induction n arbitrary: s)
  case 0
  then show ?case
    by (auto simp: server_run_def Server_start_def server_start_def CoordinatorServer_new_def
        requests_ok_def numbers_ok_def owned_def entries_ok_def pool_sound_def)
next
  case (Suc n)
  then obtain s0 where s0: "server_run n s0" "server_step s0 s"
    by (auto simp: server_run_def)
  with Suc have ih: "server_requests s0" "pool_sound s0" "unat (cd_next_req (sv_cd s0)) \<le> Suc n"
    by auto
  have top: "cd_next_req (sv_cd s0) \<noteq> - 1"
  proof
    assume "cd_next_req (sv_cd s0) = - 1"
    then have "unat (cd_next_req (sv_cd s0)) = unat (- 1 :: uint64_t)" by (rule arg_cong)
    also have "unat (- 1 :: uint64_t) = 2 ^ 64 - 1"
      by (simp add: unsigned_minus_1_eq_mask mask_eq_exp_minus_1)
    finally have "unat (cd_next_req (sv_cd s0)) = 2 ^ 64 - 1" .
    with ih(3) Suc.prems(2) show False by simp
  qed
  have "unat (cd_next_req (sv_cd s0) + 1) \<le> Suc (unat (cd_next_req (sv_cd s0)))"
    by (auto simp: unat_word_ariths(1) intro: mod_less_eq_dividend [THEN order_trans])
  with server_step_requests [OF s0(2) ih(1,2) top] server_step_sound [OF s0(2) ih(2)] ih(3)
  show ?case by auto
qed

text \<open>
  C6: In every run of fewer than 2^64 - 1 steps, a thread that waits for the answer to a request
  has the entry of that number in the table and is the only thread with the number; the entry is
  empty, or holds an answer that names the request, or the abort. The table holds no other entries
  than those of the threads between insertion and removal.
\<close>

theorem request_correlation:
  assumes "server_run n s" and "n < 2 ^ 64 - 1"
    and "i < length (sv_threads s)" and "sv_threads s ! i = TH_forward cn (FS_wait r) k"
  shows "(\<exists>p. map_of (cd_pending (sv_cd s)) r = Some p \<and>
      (if pd_done p then m_req_id (pd_result p) = r \<or> pd_result p = aborted
       else pd_result p = Message_default)) \<and>
    (\<forall>j < length (sv_threads s). j \<noteq> i \<longrightarrow> thread_req (sv_threads s ! j) \<noteq> Some r) \<and>
    (\<forall>r'. map_of (cd_pending (sv_cd s)) r' \<noteq> None \<longleftrightarrow>
      (\<exists>j < length (sv_threads s). thread_req (sv_threads s ! j) = Some r' \<and>
         thread_entry (sv_threads s ! j)))"
proof -
  have ok: "server_requests s" using server_run_requests assms(1,2) by blast
  have mine: "owns (sv_threads s ! i) r" by (simp add: assms(4))
  with ok assms(3) obtain p where p: "map_of (cd_pending (sv_cd s)) r = Some p"
    unfolding requests_ok_def owned_def by blast
  with ok have "entry_ok r p" by (simp add: requests_ok_def entries_ok_def)
  with p have 1: "\<exists>p. map_of (cd_pending (sv_cd s)) r = Some p \<and>
      (if pd_done p then m_req_id (pd_result p) = r \<or> pd_result p = aborted
       else pd_result p = Message_default)" by (auto simp: entry_ok_def answers_def split: if_splits)
  moreover have "thread_req (sv_threads s ! j) \<noteq> Some r" if "j < length (sv_threads s)" "j \<noteq> i" for j
    using ok assms(3) mine that unfolding requests_ok_def numbers_ok_def by blast
  moreover have "owned (sv_threads s) (sv_cd s)" using ok by (simp add: requests_ok_def)
  ultimately show ?thesis by (simp add: owned_def)
qed

section \<open>An answer is not lost\<close>

definition answered :: "uint64_t \<Rightarrow> Coordinator \<Rightarrow> bool" where
  "answered r cd \<longleftrightarrow> (case map_of (cd_pending cd) r of None \<Rightarrow> False | Some p \<Rightarrow> pd_done p)"

lemma wait_moves:
  "(\<exists>t cd'. thread_next frame sent (TH_forward cn (FS_wait r) k) cd = Some (Some t, cd')) \<longleftrightarrow>
     answered r cd"
  by (simp add: answered_def split: option.split)

lemma answered_completes: "completes cd cd' \<Longrightarrow> answered r cd \<Longrightarrow> answered r cd'"
  using completes_table(3) by (fastforce simp: answered_def split: option.splits)

lemma answered_step:
  assumes step: "thread_next frame sent t cd = Some (t', cd')" and sound: "thread_sound t"
    and other: "thread_req t \<noteq> Some r" and ans: "answered r cd"
  shows "answered r cd'"
  using step sound
proof (cases rule: request_effect)
  case quiet
  show ?thesis by (rule answered_completes [OF quiet(2) ans])
qed (use other ans in \<open>auto simp: answered_def\<close>)

lemma abort_answers:
  assumes "map_of (cd_pending cd) r \<noteq> None"
  shows "answered r (abort_pending_for_worker w cd)"
  using assms by (auto simp: answered_def abort_pending_for_worker_def)

text \<open>A step of any other thread, of the accept thread, or of \<open>stop\<close>.\<close>

definition others_step :: "nat \<Rightarrow> Server \<Rightarrow> Server \<Rightarrow> bool" where
  "others_step i s s' \<longleftrightarrow> server_step s s' \<and> sv_threads s' ! i = sv_threads s ! i"

lemma others_keep_answer:
  assumes run: "server_run n s" "n < 2 ^ 64 - 1" and i: "i < length (sv_threads s)"
    and me: "sv_threads s ! i = TH_forward cn (FS_wait r) k" and ans: "answered r (sv_cd s)"
    and step: "others_step i s s'"
  shows "answered r (sv_cd s') \<and> i < length (sv_threads s')"
proof -
  have ok: "server_requests s" and sound: "pool_sound s" using server_run_requests run by blast+
  from step have st: "server_step s s'" and same: "sv_threads s' ! i = sv_threads s ! i"
    by (simp_all add: others_step_def)
  from st show ?thesis
  proof (cases rule: server_step.cases)
    case (sv_accept_step valid)
    with ans i show ?thesis by (auto simp: accept_next_def split: accept_state.splits if_splits)
  next
    case sv_stop_step
    with ans i show ?thesis
      by (auto simp: stop_next_def server_stop_def answered_def split: stop_state.splits if_splits)
  next
    case (sv_thread_step j frame sent t cd')
    have ts: "thread_sound (sv_threads s ! j)" using sv_thread_step sound by (simp add: pool_sound_def)
    have "j \<noteq> i"
    proof
      assume "j = i"
      with sv_thread_step same i me show False by (auto split: option.splits if_splits)
    qed
    then have "thread_req (sv_threads s ! j) \<noteq> Some r"
      using ok i me sv_thread_step unfolding requests_ok_def numbers_ok_def by auto
    from answered_step [OF sv_thread_step(4) ts this ans] i sv_thread_step(1) show ?thesis by simp
  next
    case (sv_terminate_step j frame sent cd')
    have ts: "thread_sound (sv_threads s ! j)" using sv_terminate_step sound by (simp add: pool_sound_def)
    have "j \<noteq> i" using sv_terminate_step me by (auto split: option.splits if_splits)
    then have "thread_req (sv_threads s ! j) \<noteq> Some r"
      using ok i me sv_terminate_step unfolding requests_ok_def numbers_ok_def by auto
    from answered_step [OF sv_terminate_step(4) ts this ans] i sv_terminate_step(1) show ?thesis by simp
  qed
qed

text \<open>
  C7: Once the entry of a waiting thread is completed, by an answer or by an abort, the thread can
  go on, and whatever the others do it still can: no interleaving takes the answer away.
\<close>

theorem answer_not_lost:
  assumes "server_run n s" and "n + m < 2 ^ 64 - 1" and "i < length (sv_threads s)"
    and "sv_threads s ! i = TH_forward cn (FS_wait r) k" and "answered r (sv_cd s)"
    and "(others_step i ^^ m) s s'"
  shows "\<exists>t cd'. thread_next frame sent (sv_threads s' ! i) (sv_cd s') = Some (Some t, cd')"
proof -
  have "server_run (n + m) s' \<and> i < length (sv_threads s') \<and> answered r (sv_cd s') \<and>
      sv_threads s' ! i = TH_forward cn (FS_wait r) k"
    using assms(2,6)
  proof (induction m arbitrary: s')
    case 0
    with assms show ?case by simp
  next
    case (Suc m)
    then obtain s1 where s1: "(others_step i ^^ m) s s1" "others_step i s1 s'" by auto
    with Suc have ih: "server_run (n + m) s1" "i < length (sv_threads s1)" "answered r (sv_cd s1)"
      "sv_threads s1 ! i = TH_forward cn (FS_wait r) k" by auto
    have "server_run (n + Suc m) s'"
      using ih(1) s1(2) by (auto simp: server_run_def others_step_def)
    moreover have "sv_threads s' ! i = TH_forward cn (FS_wait r) k"
      using ih(4) s1(2) by (simp add: others_step_def)
    ultimately show ?case
      using others_keep_answer [OF ih(1) _ ih(2,4,3) s1(2)] Suc.prems by simp
  qed
  then show ?thesis using wait_moves by metis
qed

end
