(* ===== verification/AF_Scenario.thy ===== *)
theory AF_Scenario
  imports AF_Server
begin

text \<open>
  One run of the system, in full: a coordinator starts, an adapter is registered, a worker
  connects, the adapter is loaded on the worker and activated. The run shows that the hypotheses
  of the statements about histories can hold together, and is where they are applied.
\<close>

section \<open>The parties\<close>

definition run_id :: "byte \<Rightarrow> 'tag Id" where
  "run_id n = Id (Uuid_of (n # replicate 15 0))"

lemma run_id_inject [simp]: "run_id a = run_id b \<longleftrightarrow> a = b"
  by (simp add: run_id_def Uuid_of_inject)

lemma run_id_nil [simp]: "Id_is_nil (run_id n :: 'tag Id) \<longleftrightarrow> n = 0"
proof -
  have "Uuid_of (0 # replicate 15 0) = Uuid_nil"
    by (simp add: Uuid_nil_def numeral_eq_Suc)
  then have "(run_id 0 :: 'tag Id) = Id_nil" by (simp add: Id_nil_def run_id_def)
  then show ?thesis unfolding Id_is_nil_iff by (metis run_id_inject)
qed

definition run_adapter :: AdapterDescriptor where
  "run_adapter =
     \<lparr>ad_id = run_id 1, ad_revision = run_id 2, ad_artifact = run_id 3,
      ad_artifact_digest = ''d41d8cd98f00b204'', ad_kind = AK_lora, ad_name = ''assistant'',
      ad_base_model = run_id 4, ad_base_model_revision = run_id 5,
      ad_targets = [\<lparr>tm_name = ''q_proj'', tm_in_features = 4096, tm_out_features = 4096,
        tm_shape = [4096, 16]\<rparr>],
      ad_rank = 16, ad_dtype = DT_f16, ad_param_count = 131072, ad_param_bytes = 262144,
      ad_memory_bytes = 524288, ad_format = ''safetensors'', ad_format_version = 1,
      ad_dependencies = [], ad_capabilities = [], ad_constraints = [],
      ad_provenance = \<lparr>pv_source = [], pv_author = [], pv_timestamp = [], pv_origin_digest = [],
        pv_notes = []\<rparr>,
      ad_generation = Generation 1, ad_policy_generation = Generation 1,
      ad_validation = VS_valid\<rparr>"

definition run_worker :: WorkerRecord where
  "run_worker =
     \<lparr>wr_id = run_id 6, wr_boot = run_id 7, wr_address = ''w@host'', wr_node = Id_nil,
      wr_device = Id_nil, wr_connected = True, wr_epoch = gen_none, wr_capabilities = [],
      wr_device_memory_bytes = 0, wr_local_adapters = []\<rparr>"

definition run_fence :: AuthorityFence where
  "run_fence = AuthorityFence_default
     \<lparr>f_adapter := run_id 1, f_adapter_generation := Generation 1,
      f_composition_generation := Generation 1, f_residency_generation := Generation 1,
      f_artifact_generation := Generation 1, f_base_model_revision := run_id 5,
      f_worker := run_id 6, f_boot := run_id 7, f_attempt := run_id 8\<rparr>"

lemma run_fence_simps [simp]:
  "f_adapter run_fence = run_id 1" "f_worker run_fence = run_id 6" "f_boot run_fence = run_id 7"
  "f_attempt run_fence = run_id 8" "f_epoch run_fence = gen_none"
  "f_adapter_generation run_fence = Generation 1" "f_base_model_revision run_fence = run_id 5"
  "f_residency_generation run_fence = Generation 1"
  "f_composition_generation run_fence = Generation 1"
  "f_artifact_generation run_fence = Generation 1" "f_device run_fence = Id_nil"
  by (simp_all add: run_fence_def AuthorityFence_default_def)

lemma run_adapter_simps [simp]:
  "ad_id run_adapter = run_id 1" "ad_base_model_revision run_adapter = run_id 5"
  "ad_generation run_adapter = Generation 1" "ad_memory_bytes run_adapter = 524288"
  by (simp_all add: run_adapter_def)

lemma run_worker_simps [simp]:
  "wr_id run_worker = run_id 6" "wr_boot run_worker = run_id 7" "wr_connected run_worker"
  by (simp_all add: run_worker_def)

lemma run_records_ok: "descriptor_ok run_adapter" "worker_ok run_worker"
  by (simp_all add: run_adapter_def run_worker_def descriptor_ok_def worker_ok_def string_ok_def
      vec_ok_def is_kind_ok_def is_dtype_ok_def is_validation_ok_def target_ok_def
      provenance_ok_def gen_is_none_def)

section \<open>The fabric along the run\<close>

definition fabric_registered :: Fabric where
  "fabric_registered =
     reregister run_worker (snd (register_adapter run_adapter (Fabric_new [(LOC_device_memory, 100)])))"

definition fabric_loaded :: Fabric where
  "fabric_loaded = snd (snd (create_instance (run_id 1) (run_id 6) (run_id 7) Id_nil 524288 rng_instance
     fabric_registered))"

definition fabric_active :: Fabric where
  "fabric_active = snd (bind_authority (run_id 1) run_fence fabric_loaded)"

definition run_instance :: AdapterInstanceId where
  "run_instance = fst (Id_generate rng_instance)"

lemma registered_run_adapter:
  "register_adapter run_adapter fb = (Inr (run_adapter\<lparr>ad_generation := fb_next_adapter_gen fb\<rparr>),
     fb\<lparr>fb_next_adapter_gen := gen_next (fb_next_adapter_gen fb),
        fb_adapters := smap_set (Id_str (run_id 1 :: AdapterId))
          (run_adapter\<lparr>ad_generation := fb_next_adapter_gen fb\<rparr>) (fb_adapters fb)\<rparr>)"
  by (simp add: register_adapter_def run_adapter_def Let_def)

lemma run_adapter_generation [simp]: "run_adapter\<lparr>ad_generation := Generation 1\<rparr> = run_adapter"
  by (simp add: run_adapter_def)

lemma fabric_registered_fields:
  "adapter (run_id 1) fabric_registered = Some run_adapter"
  "worker (run_id 6) fabric_registered = Some run_worker"
  "fb_epoch fabric_registered = gen_none" "fb_authority fabric_registered = []"
  "fb_residencies fabric_registered = []" "fb_active_fence fabric_registered = None"
  "fb_current_attempt fabric_registered = []" "authority_record i fabric_registered = None"
  by (simp_all add: authority_record_def fabric_registered_def worker_reregister registered_run_adapter Fabric_new_def
      Fabric_empty_def)
    (simp_all add: reregister_def on_worker_restart_fields register_worker_def adapter_def
      revoke_matching_def smap_mapi_def)

lemma fabric_loaded_eq:
  "create_instance (run_id 1) (run_id 6) (run_id 7) Id_nil 524288 rng_instance fabric_registered =
     (Inr run_instance, snd (Id_generate rng_instance :: AdapterInstanceId \<times> Rng), fabric_loaded)"
  "fabric_loaded = fabric_registered
     \<lparr>fb_residencies := [(Id_str run_instance, fresh_residency (run_id 1) run_adapter run_instance
          (run_id 6) (run_id 7) Id_nil 524288 gen_none)],
      fb_authority := [(Id_str (run_id 1 :: AdapterId), fresh_authority (run_id 1) run_adapter run_instance
          (run_id 6) (run_id 7) Id_nil gen_none)]\<rparr>"
  by (simp_all add: fabric_loaded_def create_instance_def fabric_registered_fields run_instance_def
      case_prod_beta Let_def)

lemma fabric_loaded_fields:
  "adapter i fabric_loaded = adapter i fabric_registered"
  "worker w fabric_loaded = worker w fabric_registered"
  "fb_epoch fabric_loaded = gen_none" "fb_active_fence fabric_loaded = None"
  "fb_current_attempt fabric_loaded = []"
  "authority_record (run_id 1) fabric_loaded = Some (fresh_authority (run_id 1) run_adapter
     run_instance (run_id 6) (run_id 7) Id_nil gen_none)"
  "residency run_instance fabric_loaded = Some (fresh_residency (run_id 1) run_adapter run_instance
     (run_id 6) (run_id 7) Id_nil 524288 gen_none)"
  "fb_authority fabric_loaded = [(Id_str (run_id 1 :: AdapterId), fresh_authority (run_id 1)
     run_adapter run_instance (run_id 6) (run_id 7) Id_nil gen_none)]"
  by (simp_all add: fabric_loaded_eq(2) fabric_registered_fields adapter_def worker_def
      authority_record_def residency_def)

lemma run_fence_current:
  "fence_current run_fence fabric_registered" "fence_current run_fence fabric_loaded"
  by (simp_all add: fence_current_def fabric_loaded_fields fabric_registered_fields
      fresh_authority_def)

definition run_record :: AdapterAuthorityRecord where
  "run_record = (fresh_authority (run_id 1) run_adapter run_instance (run_id 6) (run_id 7) Id_nil
      gen_none)\<lparr>ar_fence := run_fence, ar_has_authority := True, ar_active := True,
        ar_lifecycle := Lifecycle_of L_active\<rparr>"

lemma fabric_active_eq:
  "bind_authority (run_id 1) run_fence fabric_loaded =
     (Inr (verdict AV_authorized ''fence current''), fabric_active)"
  "fabric_active = fabric_loaded
     \<lparr>fb_authority := [(Id_str (run_id 1 :: AdapterId), run_record)],
      fb_current_attempt := [(Id_str (run_id 1 :: AdapterId), run_id 8)],
      fb_active_fence := Some run_fence\<rparr>"
proof -
  have "bind_authority (run_id 1) run_fence fabric_loaded =
     (Inr (verdict AV_authorized ''fence current''), fabric_loaded
       \<lparr>fb_authority := [(Id_str (run_id 1 :: AdapterId), run_record)],
        fb_current_attempt := [(Id_str (run_id 1 :: AdapterId), run_id 8)],
        fb_active_fence := Some run_fence\<rparr>)"
    by (simp add: bind_authority_def check_fence_authorized run_fence_current fabric_loaded_fields
        Let_def run_record_def fresh_authority_def Lifecycle_of_def set_state_def)
  then show "bind_authority (run_id 1) run_fence fabric_loaded =
      (Inr (verdict AV_authorized ''fence current''), fabric_active)"
    "fabric_active = fabric_loaded
     \<lparr>fb_authority := [(Id_str (run_id 1 :: AdapterId), run_record)],
      fb_current_attempt := [(Id_str (run_id 1 :: AdapterId), run_id 8)],
      fb_active_fence := Some run_fence\<rparr>"
    by (simp_all add: fabric_active_def)
qed

lemma fabric_active_fields:
  "adapter i fabric_active = adapter i fabric_registered"
  "worker w fabric_active = worker w fabric_registered"
  "fb_epoch fabric_active = gen_none" "fb_active_fence fabric_active = Some run_fence"
  "authority_record (run_id 1) fabric_active = Some run_record"
  "residency run_instance fabric_active = residency run_instance fabric_loaded"
  by (simp_all add: fabric_active_eq(2) fabric_loaded_fields adapter_def worker_def
      authority_record_def residency_def fabric_loaded_eq(2) fabric_registered_fields)

lemma run_fence_active: "fence_current run_fence fabric_active"
  by (simp add: fence_current_def fabric_active_fields fabric_registered_fields run_record_def)
    (simp add: fabric_active_eq(2))

lemma fabric_active_reachable: "fabric_reachable fabric_active"
proof -
  have "fabric_step (Fabric_new [(LOC_device_memory, 100)])
      (snd (register_adapter run_adapter (Fabric_new [(LOC_device_memory, 100)])))"
    by (rule step_register) (rule run_records_ok)
  then have "fabric_reachable (snd (register_adapter run_adapter (Fabric_new [(LOC_device_memory, 100)])))"
    by (rule reach_step [OF reach_new])
  then have "fabric_reachable fabric_registered"
    unfolding fabric_registered_def
    by (rule fabric_reachable_steps [OF coord_step_fabric [OF coord_register [OF run_records_ok(2)]],
          rotated]) simp
  then have "fabric_reachable fabric_loaded"
    by (rule reach_step) (rule step_create [OF fabric_loaded_eq(1)])
  then have "fabric_reachable (snd (bind_authority (f_adapter run_fence) run_fence fabric_loaded))"
    by (rule reach_step) (rule step_bind)
  then show ?thesis by (simp add: fabric_active_def)
qed

section \<open>The coordinator along the run\<close>

text \<open>Forwarded commands are answered by a worker process.\<close>

definition run_forward :: forward where
  "run_forward r w m cd =
     ((case fst (handle_command (m\<lparr>m_req_id := r\<rparr>) (WorkerService_new default_options)) of
         [] \<Rightarrow> forward_fail ''no reply'' | reply # _ \<Rightarrow> reply), cd)"

definition register_request :: Message where
  "register_request = Message_default
     \<lparr>m_type := MT_ctl_register_adapter, m_payload := serialize_adapter run_adapter\<rparr>"

definition hello_message :: Message where
  "hello_message = Message_default
     \<lparr>m_type := MT_wk_register, m_text := Id_str (run_id 6 :: WorkerId),
      m_text2 := Id_str (run_id 7 :: WorkerBootId), m_text3 := ''w@host''\<rparr>"

definition load_request :: Message where
  "load_request = Message_default
     \<lparr>m_type := MT_ctl_load, m_text2 := Id_str (run_id 6 :: WorkerId),
      m_payload := encode_fence run_fence\<rparr>"

definition activate_request :: Message where
  "activate_request = Message_default
     \<lparr>m_type := MT_ctl_activate, m_text2 := Id_str (run_id 6 :: WorkerId),
      m_payload := encode_fence run_fence\<rparr>"

definition deactivate_request :: Message where
  "deactivate_request = Message_default
     \<lparr>m_type := MT_ctl_deactivate, m_text := Id_str (run_id 1 :: AdapterId),
      m_text2 := Id_str (run_id 6 :: WorkerId)\<rparr>"

definition coordinator_started :: Coordinator where
  "coordinator_started = CoordinatorServer_new [(LOC_device_memory, 100)]"

definition coordinator_ready :: Coordinator where
  "coordinator_ready = snd (handle_register 0 hello_message
     (snd (process_control id run_forward register_request coordinator_started)))"

definition coordinator_loaded :: Coordinator where
  "coordinator_loaded = snd (process_control id run_forward load_request coordinator_ready)"

definition coordinator_active :: Coordinator where
  "coordinator_active = snd (process_control id run_forward activate_request coordinator_loaded)"

lemma length_run_adapter: "length (serialize_adapter run_adapter) < 2 ^ 32"
  by (simp add: serialize_document write_document_layout out_def [of write_desc] write_desc_def
      BinWriter_empty_def run_adapter_def target.out_vec u32.out_vec dependency.out_vec
      capability.out_vec constraint.out_vec out_def [of write_target]
      write_target_def out_def [of write_provenance] write_provenance_def)
    (simp add: out_prims)

lemma run_messages_ok:
  "message_ok register_request" "message_ok hello_message" "message_ok load_request"
  "message_ok activate_request" "message_ok deactivate_request"
  using length_run_adapter
  by (simp_all add: message_ok_def string_ok_def register_request_def hello_message_def
      load_request_def activate_request_def deactivate_request_def Message_default_def
      length_encode_fence)

lemma run_sound: "gap_sound id" "forward_sound run_forward" "answers_from_worker run_forward"
proof -
  show "gap_sound id" "forward_sound run_forward"
    by (simp_all add: gap_sound_def forward_sound_def run_forward_def)
  show "answers_from_worker run_forward"
    unfolding answers_from_worker_def
    by (intro allI impI exI [of _ "WorkerService_new default_options"])
      (simp add: run_forward_def load_reply)
qed

lemma coordinator_run_reachable:
  "coordinator_reachable coordinator_ready" "coordinator_reachable coordinator_loaded"
  "coordinator_reachable coordinator_active"
proof -
  note control = cr_step [OF _ cs_control [OF _ run_sound(1,2)]]
  have "coordinator_reachable (snd (process_control id run_forward register_request coordinator_started))"
    unfolding coordinator_started_def by (rule control [OF cr_start run_messages_ok(1)])
  then show ready: "coordinator_reachable coordinator_ready"
    unfolding coordinator_ready_def by (rule cr_step [OF _ cs_register [OF run_messages_ok(2)]])
  then show loaded: "coordinator_reachable coordinator_loaded"
    unfolding coordinator_loaded_def by (rule control [OF _ run_messages_ok(3)])
  then show "coordinator_reachable coordinator_active"
    unfolding coordinator_active_def by (rule control [OF _ run_messages_ok(4)])
qed

lemma message_default_simps [simp]:
  "m_text Message_default = []" "m_text2 Message_default = []" "m_text3 Message_default = []"
  "m_text4 Message_default = []" "m_a Message_default = 0" "m_payload Message_default = []"
  by (simp_all add: Message_default_def)

lemma registration_run:
  "snd (process_control id run_forward register_request coordinator_started) =
     coordinator_started\<lparr>cd_fabric :=
       snd (register_adapter run_adapter (Fabric_new [(LOC_device_memory, 100)]))\<rparr>"
  by (simp add: process_control_def dispatch_def register_request_def ctl_register_adapter_def
      adapter_roundtrip [OF run_records_ok(1)] registered_run_adapter coordinator_started_def
      CoordinatorServer_new_def)

definition run_slot :: WorkerSlot where
  "run_slot = \<lparr>sl_id = run_id 6, sl_boot = run_id 7, sl_address = ''w@host'', sl_connected = True\<rparr>"

lemma coordinator_ready_fields:
  "cd_fabric coordinator_ready = fabric_registered" "cd_rng coordinator_ready = rng_instance"
  "cd_slots coordinator_ready = [(0, run_slot)]"
proof -
  let ?cd = "snd (process_control id run_forward register_request coordinator_started)"
  have rec: "\<lparr>wr_id = run_id 6, wr_boot = run_id 7, wr_address = ''w@host'', wr_node = Id_nil,
      wr_device = Id_nil, wr_connected = True, wr_epoch = fb_epoch (cd_fabric ?cd),
      wr_capabilities = [], wr_device_memory_bytes = 0, wr_local_adapters = []\<rparr> = run_worker"
    by (simp add: registration_run run_worker_def registered_run_adapter Fabric_new_def
        Fabric_empty_def)
  show "cd_fabric coordinator_ready = fabric_registered" "cd_rng coordinator_ready = rng_instance"
    "cd_slots coordinator_ready = [(0, run_slot)]"
    using rec by (simp_all add: coordinator_ready_def handle_register_def hello_message_def
        must_parse_def Let_def fabric_registered_def reregister_def registration_run run_slot_def)
      (simp_all add: coordinator_started_def CoordinatorServer_new_def)
qed

lemma run_forward_reply:
  "m_type m = MT_wk_load \<Longrightarrow> m_a m = 0 \<Longrightarrow> forward_next run_forward w m cd =
     (worker_reply (m\<lparr>m_req_id := cd_next_req cd\<rparr>) MT_wk_load_ack True 1 ''loaded'',
      cd\<lparr>cd_next_req := cd_next_req cd + 1\<rparr>)"
  "m_type m = MT_wk_activate \<Longrightarrow> forward_next run_forward w m cd =
     (worker_reply (m\<lparr>m_req_id := cd_next_req cd\<rparr>) MT_wk_activate_ack True 0 ''activated'',
      cd\<lparr>cd_next_req := cd_next_req cd + 1\<rparr>)"
  by (simp_all add: forward_next_def run_forward_def handle_command_def WorkerService_new_def
      Let_def)

lemma load_acked_fields [simp]:
  "fb_authority (load_acked inst n fb) = fb_authority fb"
  "fb_adapters (load_acked inst n fb) = fb_adapters fb"
  "fb_workers (load_acked inst n fb) = fb_workers fb"
  "fb_epoch (load_acked inst n fb) = fb_epoch fb"
  "fb_active_fence (load_acked inst n fb) = fb_active_fence fb"
  "fb_current_attempt (load_acked inst n fb) = fb_current_attempt fb"
  by (simp_all add: load_acked_def Let_def split: option.split)

lemma load_acked_record [simp]: "authority_record j (load_acked inst n fb) = authority_record j fb"
  by (simp add: authority_record_def)

lemma coordinator_loaded_fabric:
  "cd_fabric coordinator_loaded = set_lifecycle (run_id 1) L_ready (load_acked run_instance 1 fabric_loaded)"
  unfolding coordinator_loaded_def process_control_def dispatch_def
  by (simp add: load_request_def ctl_load_def coordinator_ready_fields fabric_registered_fields
      check_fence_authorized run_fence_current fabric_loaded_eq(1) run_forward_reply(1)
      worker_reply_def Let_def)

lemma loaded_run_fence:
  "fence_current run_fence (cd_fabric coordinator_loaded)"
  "fb_active_fence (cd_fabric coordinator_loaded) = None"
  "authority_record (run_id 1) (cd_fabric coordinator_loaded) \<noteq> None"
proof -
  have "fence_current run_fence (cd_fabric coordinator_loaded) \<longleftrightarrow> fence_current run_fence fabric_loaded"
    by (rule fence_current_cong)
      (simp_all add: coordinator_loaded_fabric set_lifecycle_authority set_lifecycle_def
        adapter_def worker_def authority_record_def split: option.split)
  then show "fence_current run_fence (cd_fabric coordinator_loaded)" by (simp add: run_fence_current)
  show "fb_active_fence (cd_fabric coordinator_loaded) = None"
    by (simp add: coordinator_loaded_fabric fabric_loaded_fields)
  show "authority_record (run_id 1) (cd_fabric coordinator_loaded) \<noteq> None"
    by (simp add: coordinator_loaded_fabric set_lifecycle_authority fabric_loaded_fields)
qed

lemma coordinator_active_run:
  "fb_active_fence (cd_fabric coordinator_active) = Some run_fence"
  "\<exists>ar. authority_record (run_id 1) (cd_fabric coordinator_active) = Some ar \<and> ar_active ar \<and>
     ar_has_authority ar"
proof -
  obtain ar where ar: "authority_record (run_id 1) (cd_fabric coordinator_loaded) = Some ar"
    using loaded_run_fence(3) by blast
  have bind: "bind_authority (run_id 1) run_fence (cd_fabric coordinator_loaded) =
      (Inr (verdict AV_authorized ''fence current''), (cd_fabric coordinator_loaded)
        \<lparr>fb_authority := smap_set (Id_str (run_id 1 :: AdapterId))
           (ar\<lparr>ar_fence := run_fence, ar_has_authority := True, ar_active := True,
               ar_lifecycle := set_state L_active (ar_lifecycle ar)\<rparr>)
           (fb_authority (cd_fabric coordinator_loaded)),
         fb_current_attempt := smap_set (Id_str (run_id 1 :: AdapterId)) (run_id 8)
           (fb_current_attempt (cd_fabric coordinator_loaded)),
         fb_active_fence := Some run_fence\<rparr>)"
    by (cases rule: bind_authority_cases [of run_fence "cd_fabric coordinator_loaded" "run_id 1"])
      (simp_all add: loaded_run_fence ar)
  have "cd_fabric coordinator_active =
      snd (bind_authority (run_id 1) run_fence (cd_fabric coordinator_loaded))"
    unfolding coordinator_active_def process_control_def dispatch_def
    by (simp add: activate_request_def ctl_activate_def check_fence_authorized loaded_run_fence
        run_forward_reply(2) worker_reply_def Let_def bind)
  with bind show "fb_active_fence (cd_fabric coordinator_active) = Some run_fence"
    "\<exists>ar. authority_record (run_id 1) (cd_fabric coordinator_active) = Some ar \<and> ar_active ar \<and>
     ar_has_authority ar"
    by (simp_all add: authority_record_def)
qed

section \<open>The statements on the run\<close>

theorem authority_safe_reachable_witness:
  "coordinator_reachable coordinator_active \<and> authority_safe (cd_fabric coordinator_active) \<and>
   fb_active_fence (cd_fabric coordinator_active) = Some run_fence"
  using authority_safe_reachable [OF coordinator_run_reachable(3)] coordinator_run_reachable(3)
    coordinator_active_run(1) by blast

theorem coordinator_refines_fabric_witness:
  "coord_step\<^sup>*\<^sup>* (cd_fabric coordinator_loaded) (cd_fabric coordinator_active) \<and>
   fb_active_fence (cd_fabric coordinator_loaded) \<noteq> fb_active_fence (cd_fabric coordinator_active)"
proof
  have "coordinator_step coordinator_loaded coordinator_active"
    unfolding coordinator_active_def by (rule cs_control [OF run_messages_ok(4) run_sound(1,2)])
  then show "coord_step\<^sup>*\<^sup>* (cd_fabric coordinator_loaded) (cd_fabric coordinator_active)"
    by (rule coordinator_refines_fabric)
qed (simp add: loaded_run_fence(2) coordinator_active_run(1))

theorem restart_fences_old_boot_witness:
  "authorized (check_fence run_fence fabric_active) \<and>
   \<not> authorized (check_fence run_fence (reregister (run_worker\<lparr>wr_boot := run_id 9\<rparr>) fabric_active))"
  using restart_fences_old_boot [of run_fence "run_worker\<lparr>wr_boot := run_id 9\<rparr>" fabric_active]
  by (simp add: check_fence_current run_fence_active)

theorem down_fences_worker_witness:
  "authorized (check_fence run_fence fabric_active) \<and>
   \<not> authorized (check_fence run_fence (on_worker_down (run_id 6) fabric_active)) \<and>
   fb_active_fence (on_worker_down (run_id 6) fabric_active) \<noteq> Some run_fence"
  using down_fences_worker [of run_fence "run_id 6" fabric_active]
  by (simp add: check_fence_current run_fence_active)

theorem epoch_fences_witness:
  "authorized (check_fence run_fence fabric_active) \<and>
   \<not> authorized (check_fence run_fence (((\<lambda>fb. snd (advance_epoch fb)) ^^ Suc 0) fabric_active))"
  using epoch_fences [of run_fence fabric_active 0]
  by (simp only: check_fence_current run_fence_active run_fence_simps fabric_active_fields)
    (simp add: gen_none_def uint64_max_def)

theorem invalidate_then_bind_witness:
  "authorized (check_fence run_fence (snd (invalidate (run_id 1) IT_manual ''stop'' fabric_active))) \<and>
   fst (bind_authority (run_id 1) run_fence
     (snd (invalidate (run_id 1) IT_manual ''stop'' fabric_active)))
     = Inr (verdict AV_authorized ''fence current'')"
  using invalidate_then_bind [OF run_fence_active, of run_record IT_manual "''stop''"]
  by (simp add: fabric_active_fields)

theorem attempt_forgotten_witness:
  "\<not> authorized (check_fence (run_fence\<lparr>f_attempt := run_id 9\<rparr>) fabric_active) \<and>
   authorized (check_fence (run_fence\<lparr>f_attempt := run_id 9\<rparr>)
     (reregister run_worker (on_worker_down (run_id 6) fabric_active)))"
proof
  show "\<not> authorized (check_fence (run_fence\<lparr>f_attempt := run_id 9\<rparr>) fabric_active)"
    by (simp add: check_fence_current fence_current_def) (simp add: fabric_active_eq(2))
  show "authorized (check_fence (run_fence\<lparr>f_attempt := run_id 9\<rparr>)
     (reregister run_worker (on_worker_down (run_id 6) fabric_active)))"
    using attempt_forgotten [OF fabric_active_reachable run_fence_active, of run_record run_worker "run_id 9"]
    by (simp add: fabric_active_fields run_record_def)
qed

theorem run_pins_coherent_witness:
  "\<exists>r. residency run_instance (run_pins run_instance [True, True, False] fabric_active) = Some r \<and>
     pin_coherent r 1 \<and> rr_active_refs r = 0"
  using run_pins_coherent [of run_instance fabric_active _ 0 "[True, True, False]"]
  by (simp add: fabric_active_fields fabric_loaded_fields fresh_residency_def pin_coherent_def)

lemma fabric_active_fits: "snapshot_fits fabric_active"
  by (simp add: snapshot_fits_def fabric_active_eq(2) fabric_loaded_eq(2) fabric_registered_def
      reregister_def on_worker_restart_fields register_worker_def registered_run_adapter
      Fabric_new_def Fabric_empty_def)
    (simp add: on_worker_restart_def Let_def revoke_matching_def)


theorem deactivate_keeps_authority_witness:
  "fb_active_fence (cd_fabric (snd (ctl_deactivate run_forward deactivate_request coordinator_active)))
     = Some run_fence"
proof -
  obtain ar where "authority_record (run_id 1) (cd_fabric coordinator_active) = Some ar" "ar_active ar"
    using coordinator_active_run(2) by blast
  from deactivate_keeps_authority [OF _ _ this, of deactivate_request run_forward] show ?thesis
    by (simp add: deactivate_request_def forward_next_def run_forward_def coordinator_active_run(1))
qed

text \<open>The worker of the run registers again, with a new boot, on a second connection.\<close>

definition second_hello :: Message where
  "second_hello = hello_message\<lparr>m_text2 := Id_str (run_id 9 :: WorkerBootId)\<rparr>"

definition coordinator_again :: Coordinator where
  "coordinator_again = snd (handle_register 1 second_hello coordinator_ready)"

lemma coordinator_again_fabric:
  "cd_fabric coordinator_again = reregister (run_worker\<lparr>wr_boot := run_id 9\<rparr>) fabric_registered"
  by (simp add: coordinator_again_def second_hello_def hello_message_def handle_register_def
      must_parse_def Let_def coordinator_ready_fields reregister_def run_worker_def
      fabric_registered_fields)

lemma second_fence_current:
  "fence_current (run_fence\<lparr>f_boot := run_id 9\<rparr>)
     (reregister (run_worker\<lparr>wr_boot := run_id 9\<rparr>) fabric_registered)"
proof -
  have "fb_authority (reregister r fabric_registered) = []"
    "fb_current_attempt (reregister r fabric_registered) = []"
    "adapter i (reregister r fabric_registered) = adapter i fabric_registered"
    "fb_epoch (reregister r fabric_registered) = gen_none" for r i
    by (simp_all add: reregister_def on_worker_restart_fields register_worker_def
        revoke_matching_def fabric_registered_fields smap_mapi_def adapter_def)
  then show ?thesis
    by (simp add: fence_current_def worker_reregister fabric_registered_fields authority_record_def)
qed

theorem late_disconnect_witness:
  "authorized (check_fence (run_fence\<lparr>f_boot := run_id 9\<rparr>) (cd_fabric coordinator_again)) \<and>
   \<not> authorized (check_fence (run_fence\<lparr>f_boot := run_id 9\<rparr>)
     (cd_fabric (handle_disconnect 0 coordinator_again)))"
proof
  show "authorized (check_fence (run_fence\<lparr>f_boot := run_id 9\<rparr>) (cd_fabric coordinator_again))"
    by (simp add: check_fence_current coordinator_again_fabric second_fence_current)
  show "\<not> authorized (check_fence (run_fence\<lparr>f_boot := run_id 9\<rparr>)
      (cd_fabric (handle_disconnect 0 coordinator_again)))"
    by (rule late_disconnect [of _ _ run_slot])
      (simp_all add: coordinator_again_def second_hello_def hello_message_def handle_register_def
        must_parse_def Let_def coordinator_ready_fields run_slot_def)
qed

theorem load_records_one_byte_witness:
  "\<exists>inst r. residency inst (cd_fabric (snd (ctl_load id run_forward load_request coordinator_ready)))
       = Some r \<and> rr_bytes r = 1 \<and> ad_memory_bytes run_adapter = 524288"
  using load_records_one_byte [OF run_sound(3), of load_request run_fence coordinator_ready]
  by (auto simp: run_forward_def load_request_def coordinator_ready_fields run_fence_current)

theorem snapshot_corruption_witness:
  "deserialize_snapshot ((serialize_snapshot (snapshot Fabric_default))[0 := 0])
     = throw EC_checksum_mismatch ''checksum mismatch''"
proof (rule snapshot_corruption)
  have first: "store_le 4 (1 :: uint32_t) ! 0 = 1" by code_simp
  have len: "length (store_le 4 (1 :: uint32_t)) = 4" by simp
  note layout = serialize_document write_document_layout out_def [of write_snapshot]
    write_snapshot_def BinWriter_empty_def
  show "0 < length (serialize_snapshot (snapshot Fabric_default))"
    by (simp add: layout)
  show "(0 :: byte) \<noteq> serialize_snapshot (snapshot Fabric_default) ! 0"
    by (simp add: layout) (simp add: out_prims kFormat_def nth_append len first)
qed

section \<open>Connections of the run\<close>

lemma run_others_sound: "others_sound id"
  by (simp add: others_sound_def)

theorem connection_keeps_authority_safe_witness:
  "authority_safe (cd_fabric (snd (snd (handle_connection id run_forward (\<lambda>_ _. True)
     [encode_message activate_request, []] Connection_new coordinator_loaded))))"
  using connection_keeps_authority_safe [OF coordinator_run_reachable(2) run_others_sound run_sound(2)]
  by blast


lemma empty_frame: "\<exists>e. decode_message [] = Inl e"
proof -
  have "isl (decode_message [])" by code_simp
  then show ?thesis by (cases "decode_message []") simp_all
qed

theorem worker_connection_end_witness:
  "\<exists>e cd'. handle_connection id run_forward (\<lambda>_ _. True) [[]] \<lparr>cn_is_worker = True, cn_slot = Some 0\<rparr>
       coordinator_ready = (e, [], cd') \<and> e = CE_returned \<and>
     authorized (check_fence run_fence (cd_fabric cd'))"
proof -
  let ?cn = "\<lparr>cn_is_worker = True, cn_slot = Some 0\<rparr>"
  obtain e w cd' where run: "handle_connection id run_forward (\<lambda>_ _. True) [[]] ?cn coordinator_ready
      = (e, w, cd')" by (metis prod_cases3)
  have up: "\<not> cd_shutdown coordinator_ready"
    by (simp add: coordinator_ready_def handle_register_def hello_message_def must_parse_def Let_def
        registration_run) (simp add: coordinator_started_def CoordinatorServer_new_def)
  have "others_calm id" by (simp add: others_calm_def)
  from worker_connection_end [OF _ _ _ up this run] empty_frame
  have "e = CE_returned" "w = []" "cd_fabric cd' = cd_fabric coordinator_ready"
    by (auto simp: coordinator_ready_fields frame_fine_def registers_def)
  then show ?thesis
    using run by (simp add: coordinator_ready_fields check_fence_authorized run_fence_current)
qed

end
