(* ===== verification/AF_Stop.thy ===== *)
theory AF_Stop
  imports AF_Requests AF_Scenario
begin

text \<open>
  What \<open>stop\<close> can count on. After the shutdown flag is up every thread has a bounded number of
  steps left, and two things can keep \<open>stop\<close> in its joins: a thread at a socket call that does not
  return (\<open>stop\<close> closes the listening socket and no connection, so an idle peer is enough) and a
  thread that waits for an answer nobody completes. \<open>pool_step\<close> is \<open>server_step\<close> with the calls
  that do not return taken out, for any choice of them.
\<close>

section \<open>How many steps a thread has left\<close>

inductive prog_within :: "nat \<Rightarrow> prog \<Rightarrow> bool" where
  pw_finish: "prog_within n (Finish r)"
| pw_section: "(\<And>cd. prog_within n (fst (f cd))) \<Longrightarrow> prog_within (Suc n) (Section f)"
| pw_forward: "(\<And>m. prog_within n (k m)) \<Longrightarrow> prog_within (n + 9) (Forward w m k)"

inductive_simps pw_finish_iff [simp]: "prog_within n (Finish r)"
inductive_cases pw_sectionE: "prog_within n (Section f)"
inductive_cases pw_forwardE: "prog_within n (Forward w m k)"

lemma pw_section_iff [simp]:
  "prog_within n (Section f) \<longleftrightarrow> 0 < n \<and> (\<forall>cd. prog_within (n - 1) (fst (f cd)))"
  by (cases n) (auto elim: pw_sectionE intro: pw_section)

lemma pw_forward_iff [simp]:
  "prog_within n (Forward w m k) \<longleftrightarrow> 9 \<le> n \<and> (\<forall>m. prog_within (n - 9) (k m))"
  using pw_forward [of "n - 9" k w m] by (auto elim: pw_forwardE)

lemma pw_simps [simp]:
  "prog_within n (return_prog m)" "prog_within n (fail_prog e)"
  "prog_within n (one_section f) \<longleftrightarrow> 0 < n"
  by (simp_all add: return_prog_def fail_prog_def one_section_def case_prod_beta)

lemma load_within: "prog_within 13 (load_prog req)"
proof -
  have "prog_within 2 (load_finish f inst ack)" for f inst ack
    by (simp add: load_finish_def Let_def)
  then have "prog_within 11 (fst (load_create req f cd))" for f cd
    by (simp add: load_create_def Let_def split: prod.split sum.split)
  then show ?thesis by (simp add: load_prog_def Let_def split: sum.split)
qed

lemma control_within: "prog_within 13 (control_prog req)"
proof -
  have "prog_within 3 (activate_bind f ack)" for f ack
    by (simp add: activate_bind_def split: sum.split prod.split)
  then have "prog_within 13 (activate_prog req)"
    by (simp add: activate_prog_def Let_def split: sum.split)
  moreover have "prog_within 13 (deactivate_prog req)" "prog_within 13 (migrate_prog req)"
    "prog_within 13 (invalidate_prog req)" "prog_within 13 (evict_prog req)"
    by (simp_all add: deactivate_prog_def migrate_prog_def invalidate_prog_def evict_prog_def
        case_prod_beta split: sum.split)
  ultimately show ?thesis
    unfolding control_prog_def Let_def using load_within by (simp add: case_prod_beta)
qed

fun stage_rank :: "stage \<Rightarrow> nat" where
  "stage_rank (FS_number w m) = 8"
| "stage_rank (FS_lookup r w m) = 7"
| "stage_rank (FS_connected r conn m) = 6"
| "stage_rank (FS_insert r conn m) = 5"
| "stage_rank (FS_send r conn m) = 4"
| "stage_rank (FS_wait r) = 3"
| "stage_rank (FS_unsent r) = 2"
| "stage_rank (FS_erase r m) = 2"
| "stage_rank (FS_result m) = 1"

fun thread_within :: "nat \<Rightarrow> thread \<Rightarrow> bool" where
  "thread_within n TH_exit \<longleftrightarrow> True"
| "thread_within n (TH_down slot) \<longleftrightarrow> 1 \<le> n"
| "thread_within n (TH_abort slot) \<longleftrightarrow> 2 \<le> n"
| "thread_within n (TH_lost slot) \<longleftrightarrow> 3 \<le> n"
| "thread_within n (TH_test cn) \<longleftrightarrow> 4 \<le> n"
| "thread_within n (TH_reply cn m) \<longleftrightarrow> 5 \<le> n"
| "thread_within n (TH_found cn m) \<longleftrightarrow> 5 \<le> n"
| "thread_within n (TH_answer cn m) \<longleftrightarrow> 6 \<le> n"
| "thread_within n (TH_register_ack slot) \<longleftrightarrow> 5 \<le> n"
| "thread_within n (TH_register_fabric slot sl m) \<longleftrightarrow> 6 \<le> n"
| "thread_within n (TH_register m) \<longleftrightarrow> 7 \<le> n"
| "thread_within n (TH_handle cn p) \<longleftrightarrow> (\<exists>b. prog_within b p \<and> 6 + b \<le> n)"
| "thread_within n (TH_forward cn st k) \<longleftrightarrow> (\<exists>b. (\<forall>m. prog_within b (k m)) \<and> 6 + b + stage_rank st \<le> n)"
| "thread_within n (TH_recv cn) \<longleftrightarrow> 20 \<le> n"

lemma thread_within_mono: "thread_within n t \<Longrightarrow> n \<le> m \<Longrightarrow> thread_within m t"
  by (cases t) (auto intro: order_trans)

lemma cleanup_within: "3 \<le> n \<Longrightarrow> thread_within n (cleanup_thread cn)"
  by (simp add: cleanup_thread_def split: option.split)

lemma frame_within: "thread_within 19 (frame_thread cn buf)"
  using control_within by (auto simp: frame_thread_def Let_def split: sum.split intro: exI [of _ 13])

lemma stage_rank_next:
  "stage_next sent st cd = Some (st', cd') \<Longrightarrow> stage_rank st' < stage_rank st"
  by (cases st) (auto split: option.splits if_splits)

text \<open>Once the flag is up, a step uses up one of the steps left; before, the bound stays 20.\<close>

lemma step_within:
  assumes "thread_next frame sent t cd = Some (Some u, cd')" and "thread_within n t"
  shows "if cd_shutdown cd then 0 < n \<and> thread_within (n - 1) u else n \<le> 20 \<longrightarrow> thread_within 20 u"
proof -
  have dec: "0 < n \<and> thread_within (n - 1) u" if "\<And>cn. t \<noteq> TH_test cn"
  proof (cases t)
    case (TH_handle cn p)
    then obtain b where b: "prog_within b p" "6 + b \<le> n" using assms(2) by auto
    show ?thesis
    proof (cases p)
      case (Section f)
      with TH_handle assms(1) b show ?thesis by (auto simp: case_prod_beta intro!: exI [of _ "b - 1"])
    next
      case (Forward w m k)
      with TH_handle assms(1) b show ?thesis by (auto intro!: exI [of _ "b - 9"])
    qed (use TH_handle assms b in auto)
  next
    case (TH_forward cn st k)
    then obtain b where b: "\<forall>m. prog_within b (k m)" "6 + b + stage_rank st \<le> n" using assms(2) by auto
    show ?thesis
    proof (cases "\<exists>a. st = FS_result a")
      case True
      then obtain a where "u = TH_handle cn (k a)" "7 + b \<le> n"
        using TH_forward assms(1) b by auto
      moreover from this(2) have "0 < n" "6 + b \<le> n - 1" by arith+
      ultimately show ?thesis using b(1) by auto
    next
      case False
      then obtain st' where st': "stage_next sent st cd = Some (st', cd')" "u = TH_forward cn st' k"
        using TH_forward assms(1) by (cases st) (auto split: option.splits if_splits)
      from stage_rank_next [OF st'(1)] b st'(2) show ?thesis by auto
    qed
  next
    case (TH_recv cn)
    have "thread_within 19 u"
      using TH_recv assms(1) frame_within cleanup_within [of 19] by (auto split: option.splits)
    with TH_recv assms(2) show ?thesis by (auto intro: thread_within_mono)
  qed (use assms that in \<open>auto simp: Let_def case_prod_beta split: option.splits sum.splits if_splits\<close>)
  show ?thesis
  proof (cases "\<exists>cn. t = TH_test cn")
    case True
    then obtain cn where t: "t = TH_test cn" by blast
    then have "4 \<le> n" using assms(2) by simp
    then have "thread_within (n - 1) (cleanup_thread cn)"
      using cleanup_within [of "n - 1"] by simp
    with t assms \<open>4 \<le> n\<close> show ?thesis by auto
  next
    case False
    with dec show ?thesis by (auto intro: thread_within_mono)
  qed
qed

lemma shutdown_kept:
  assumes "thread_next frame sent t cd = Some (t', cd')" and "thread_sound t" and "cd_shutdown cd"
  shows "cd_shutdown cd'"
proof (cases t)
  case (TH_handle cn p)
  with assms show ?thesis by (cases p) (auto simp: case_prod_beta section_sound_def)
next
  case (TH_forward cn st k)
  with assms show ?thesis by (cases st) (auto split: option.splits if_splits)
qed (use assms in \<open>auto simp: Let_def register_slot_def register_fabric_def abort_pending_for_worker_def
    split: option.splits sum.splits\<close>)

section \<open>Every run after a shutdown is short\<close>

definition accept_rank :: "accept_state \<Rightarrow> nat" where
  "accept_rank a = (case a of AC_over \<Rightarrow> 0 | AC_test \<Rightarrow> 1 | AC_accept \<Rightarrow> 6)"

definition stop_rank :: "stop_state \<Rightarrow> nat" where
  "stop_rank st = (case st of ST_returned \<Rightarrow> 0 | ST_joining \<Rightarrow> 1 | ST_running \<Rightarrow> 2)"

definition server_within :: "nat \<Rightarrow> Server \<Rightarrow> bool" where
  "server_within n s \<longleftrightarrow> (if sv_terminated s then True else
     \<exists>bs. list_all2 thread_within bs (sv_threads s) \<and>
       sum_list bs + accept_rank (sv_accept s) + stop_rank (sv_stop s) + 1 \<le> n)"

lemma server_step_within:
  assumes step: "server_step s s'" and sound: "pool_sound s" and down: "cd_shutdown (sv_cd s)"
    and within: "server_within n s"
  shows "0 < n \<and> server_within (n - 1) s' \<and> cd_shutdown (sv_cd s')"
proof -
  have live: "\<not> sv_terminated s" using step by (auto elim: server_step.cases)
  then obtain bs where bs: "list_all2 thread_within bs (sv_threads s)"
    "sum_list bs + accept_rank (sv_accept s) + stop_rank (sv_stop s) + 1 \<le> n"
    using within by (auto simp: server_within_def)
  from step show ?thesis
  proof (cases rule: server_step.cases)
    case (sv_accept_step valid)
    show ?thesis
    proof (cases "sv_accept s = AC_accept \<and> valid")
      case True
      with sv_accept_step have "s' = s\<lparr>sv_accept := AC_test,
          sv_threads := sv_threads s @ [TH_test Connection_new]\<rparr>" by (simp add: accept_next_def)
      with True live bs down show ?thesis
        by (auto simp: server_within_def accept_rank_def intro!: exI [of _ "bs @ [4]"] list_all2_appendI)
    next
      case False
      with sv_accept_step live bs down show ?thesis
        by (auto simp: server_within_def accept_next_def accept_rank_def intro!: exI [of _ bs]
            split: accept_state.splits if_splits)
    qed
  next
    case sv_stop_step
    with live bs down show ?thesis
      by (auto simp: server_within_def stop_next_def stop_rank_def server_stop_def intro!: exI [of _ bs]
          split: stop_state.splits if_splits)
  next
    case (sv_thread_step i frame sent t cd')
    have ts: "thread_sound (sv_threads s ! i)" using sv_thread_step(3) sound by (simp add: pool_sound_def)
    have len: "length bs = length (sv_threads s)" by (rule list_all2_lengthD [OF bs(1)])
    have "thread_within (bs ! i) (sv_threads s ! i)"
      using bs(1) sv_thread_step(3) len by (simp add: list_all2_nthD2)
    with step_within [OF sv_thread_step(4)] down
    have b: "0 < bs ! i" "thread_within (bs ! i - 1) t" by auto
    have le: "bs ! i \<le> sum_list bs" using sv_thread_step(3) len by (simp add: elem_le_sum_list)
    have "list_all2 thread_within (bs[i := bs ! i - 1]) ((sv_threads s)[i := t])"
      by (rule list_all2_update_cong [OF bs(1) b(2)])
    moreover have "Suc (sum_list (bs[i := bs ! i - 1])) = sum_list bs"
      using sv_thread_step(3) len b(1) le by (simp add: sum_list_update)
    ultimately have "server_within (n - 1) s'"
      using bs(2) sv_thread_step(1) live unfolding server_within_def
      by (auto intro!: exI [of _ "bs[i := bs ! i - 1]"])
    moreover have "cd_shutdown (sv_cd s')"
      using shutdown_kept [OF sv_thread_step(4) ts down] sv_thread_step(1) by simp
    ultimately show ?thesis using bs(2) by simp
  next
    case (sv_terminate_step i frame sent cd')
    have ts: "thread_sound (sv_threads s ! i)" using sv_terminate_step(3) sound by (simp add: pool_sound_def)
    with shutdown_kept [OF sv_terminate_step(4) ts down] sv_terminate_step(1) bs(2) show ?thesis
      by (simp add: server_within_def)
  qed
qed

text \<open>The standing bound on the threads, and what a returned \<open>stop\<close> means.\<close>

definition pool_within :: "Server \<Rightarrow> bool" where
  "pool_within s \<longleftrightarrow> (\<forall>t \<in> set (sv_threads s). thread_within 20 t) \<and>
     (sv_stop s = ST_returned \<longrightarrow> sv_accept s = AC_over \<and> (\<forall>t \<in> set (sv_threads s). t = TH_exit)) \<and>
     (sv_stop s \<noteq> ST_running \<longrightarrow> cd_shutdown (sv_cd s))"

lemma server_step_pool:
  "server_step s s' \<Longrightarrow> pool_sound s \<Longrightarrow> pool_within s \<Longrightarrow> pool_within s'"
proof (induction rule: server_step.induct)
  case (sv_accept_step s valid s')
  then show ?case
    by (auto simp: accept_next_def pool_within_def split: accept_state.splits if_splits)
next
  case (sv_stop_step s s')
  then show ?case
    by (auto simp: stop_next_def server_stop_def pool_within_def split: stop_state.splits if_splits)
next
  case (sv_thread_step s i frame sent t cd')
  then have i: "sv_threads s ! i \<in> set (sv_threads s)" by simp
  have w: "thread_within 20 t"
    using step_within [OF sv_thread_step(3), of 20] i sv_thread_step.prems(2)
    by (auto simp: pool_within_def intro: thread_within_mono split: if_splits)
  have "sv_threads s ! i \<noteq> TH_exit" using sv_thread_step(3) by auto
  then have "sv_stop s \<noteq> ST_returned" using i sv_thread_step.prems(2) by (auto simp: pool_within_def)
  with w shutdown_kept [OF sv_thread_step(3)] i sv_thread_step.prems show ?case
    by (auto simp: pool_within_def pool_sound_def dest: set_update_subset_insert [THEN subsetD])
next
  case (sv_terminate_step s i frame sent cd')
  then have i: "sv_threads s ! i \<in> set (sv_threads s)" by simp
  with shutdown_kept [OF sv_terminate_step(3)] sv_terminate_step.prems show ?case
    by (auto simp: pool_within_def pool_sound_def)
qed

lemma server_reachable_within: "server_reachable s \<Longrightarrow> pool_sound s \<and> pool_within s"
proof -
  have "server_step\<^sup>*\<^sup>* (Server_start limits) s \<Longrightarrow> pool_sound s \<and> pool_within s" for limits
  proof (induction rule: rtranclp_induct)
    case base
    show ?case by (simp add: Server_start_def pool_sound_def pool_within_def)
  next
    case (step s s')
    with server_step_sound server_step_pool show ?case by blast
  qed
  then show "server_reachable s \<Longrightarrow> pool_sound s \<and> pool_within s" by (auto simp: server_reachable_def)
qed

lemma run_within:
  "(server_step ^^ m) s s' \<Longrightarrow> pool_sound s \<Longrightarrow> pool_within s \<Longrightarrow> cd_shutdown (sv_cd s) \<Longrightarrow>
     server_within n s \<Longrightarrow> m \<le> n \<and> pool_within s' \<and> cd_shutdown (sv_cd s')"
proof (induction m arbitrary: n s)
  case (Suc m)
  from Suc.prems(1) obtain s1 where s1: "server_step s s1" "(server_step ^^ m) s1 s'"
    by (metis relpowp_Suc_E2)
  note w = server_step_within [OF s1(1) Suc.prems(2,4,5)]
  have "pool_sound s1" using server_step_sound [OF s1(1) Suc.prems(2)] by simp
  with Suc.IH [OF s1(2) this server_step_pool [OF s1(1) Suc.prems(2,3)], of "n - 1"] w show ?case by auto
qed auto

section \<open>Where a server can stand still\<close>

text \<open>The only thread that cannot move is one that waits without an answer, or is over.\<close>

lemma thread_stuck_iff:
  "(\<forall>frame sent. thread_next frame sent t cd = None) \<longleftrightarrow>
     t = TH_exit \<or> (\<exists>cn r k. t = TH_forward cn (FS_wait r) k \<and> \<not> answered r cd)"
proof (cases t)
  case (TH_forward cn st k)
  then show ?thesis by (cases st) (auto simp: answered_def split: option.splits)
next
  case (TH_handle cn p)
  then show ?thesis by (cases p) (auto simp: case_prod_beta)
qed (auto simp: Let_def case_prod_beta split: sum.split)

text \<open>
  A step of \<open>server_step\<close> at a socket call is the step of a call that returns. Whether it does is
  up to the peers: \<open>stop\<close> closes the listening socket, which ends an \<open>accept\<close>, and closes no
  connection, so \<open>recv_frame\<close> returns when its peer sends a frame or goes away, and \<open>send_frame\<close>
  when its peer takes the bytes (or when the thread that holds the lock of the socket is done with
  it). \<open>returns i\<close> says that the socket call thread \<open>i\<close> stands at returns, \<open>client\<close> that a client
  connects.
\<close>

fun at_socket :: "thread \<Rightarrow> bool" where
  "at_socket (TH_recv cn) \<longleftrightarrow> True"
| "at_socket (TH_reply cn m) \<longleftrightarrow> True"
| "at_socket (TH_register_ack slot) \<longleftrightarrow> True"
| "at_socket (TH_forward cn (FS_send r conn m) k) \<longleftrightarrow> True"
| "at_socket _ \<longleftrightarrow> False"

inductive pool_step :: "(nat \<Rightarrow> bool) \<Rightarrow> bool \<Rightarrow> Server \<Rightarrow> Server \<Rightarrow> bool"
  for returns :: "nat \<Rightarrow> bool" and client :: bool where
  ps_accept: "\<not> sv_terminated s \<Longrightarrow>
    (sv_accept s = AC_accept \<Longrightarrow> sv_stop s = ST_running \<Longrightarrow> client) \<Longrightarrow>
    accept_next valid s = Some s' \<Longrightarrow> pool_step returns client s s'"
| ps_stop: "\<not> sv_terminated s \<Longrightarrow> stop_next s = Some s' \<Longrightarrow> pool_step returns client s s'"
| ps_thread: "\<not> sv_terminated s \<Longrightarrow> i < length (sv_threads s) \<Longrightarrow>
    (at_socket (sv_threads s ! i) \<Longrightarrow> returns i) \<Longrightarrow>
    thread_next frame sent (sv_threads s ! i) (sv_cd s) = Some (Some t, cd') \<Longrightarrow>
    pool_step returns client s (s\<lparr>sv_cd := cd', sv_threads := (sv_threads s)[i := t]\<rparr>)"
| ps_terminate: "\<not> sv_terminated s \<Longrightarrow> i < length (sv_threads s) \<Longrightarrow>
    (at_socket (sv_threads s ! i) \<Longrightarrow> returns i) \<Longrightarrow>
    thread_next frame sent (sv_threads s ! i) (sv_cd s) = Some (None, cd') \<Longrightarrow>
    pool_step returns client s (s\<lparr>sv_cd := cd', sv_terminated := True\<rparr>)"

lemma pool_step_server: "pool_step returns client s s' \<Longrightarrow> server_step s s'"
  by (induction rule: pool_step.induct) (auto intro: server_step.intros)

text \<open>The steps of \<open>server_step\<close> are those of a server whose socket calls all return.\<close>

lemma server_step_pool_step: "server_step s s' \<longleftrightarrow> pool_step (\<lambda>_. True) True s s'"
proof
  show "server_step s s' \<Longrightarrow> pool_step (\<lambda>_. True) True s s'"
    by (induction rule: server_step.induct) (auto intro: pool_step.intros)
qed (rule pool_step_server)

lemma pool_run_server: "(pool_step returns client ^^ m) s s' \<Longrightarrow> (server_step ^^ m) s s'"
proof (induction m arbitrary: s')
  case (Suc m)
  then obtain s1 where "(pool_step returns client ^^ m) s s1" "pool_step returns client s1 s'" by auto
  with Suc.IH pool_step_server show ?case by (metis relpowp_Suc_I)
qed simp

definition standing :: "(nat \<Rightarrow> bool) \<Rightarrow> bool \<Rightarrow> Server \<Rightarrow> bool" where
  "standing returns client s \<longleftrightarrow> (\<forall>s'. \<not> pool_step returns client s s')"

text \<open>What a thread that cannot move is at.\<close>

definition blocked :: "bool \<Rightarrow> Coordinator \<Rightarrow> thread \<Rightarrow> bool" where
  "blocked ret cd t \<longleftrightarrow> t = TH_exit \<or> at_socket t \<and> \<not> ret \<or>
     (\<exists>cn r k. t = TH_forward cn (FS_wait r) k \<and> \<not> answered r cd)"

lemma blocked_iff:
  "blocked ret cd t \<longleftrightarrow> (\<forall>frame sent. (at_socket t \<longrightarrow> ret) \<longrightarrow> thread_next frame sent t cd = None)"
  using thread_stuck_iff [of t cd] by (cases "at_socket t \<longrightarrow> ret") (auto simp: blocked_def)

lemma standing_live:
  assumes "\<not> sv_terminated s"
  shows "standing returns client s \<longleftrightarrow>
    (sv_accept s = AC_over \<or> sv_accept s = AC_accept \<and> sv_stop s = ST_running \<and> \<not> client) \<and>
    stop_next s = None \<and>
    (\<forall>i < length (sv_threads s). blocked (returns i) (sv_cd s) (sv_threads s ! i))"
    (is "_ \<longleftrightarrow> ?A \<and> ?B \<and> ?C")
proof
  assume st: "standing returns client s"
  have ?A
  proof (rule ccontr)
    assume "\<not> ?A"
    then obtain s' where "accept_next True s = Some s'" "sv_accept s = AC_accept \<Longrightarrow> sv_stop s = ST_running \<Longrightarrow> client"
      by (cases "sv_accept s") (auto simp: accept_next_def)
    with st assms show False unfolding standing_def by (blast intro: ps_accept)
  qed
  moreover have ?B
    using st assms unfolding standing_def by (metis ps_stop not_None_eq)
  moreover have ?C
  proof (intro allI impI)
    fix i assume i: "i < length (sv_threads s)"
    have "thread_next frame sent (sv_threads s ! i) (sv_cd s) = None"
      if "at_socket (sv_threads s ! i) \<longrightarrow> returns i" for frame sent
    proof (rule ccontr)
      assume "thread_next frame sent (sv_threads s ! i) (sv_cd s) \<noteq> None"
      then obtain t' cd' where t': "thread_next frame sent (sv_threads s ! i) (sv_cd s) = Some (t', cd')"
        by auto
      show False
      proof (cases t')
        case None
        with t' that i st assms show False unfolding standing_def by (blast intro: ps_terminate)
      next
        case (Some t)
        with t' that i st assms show False unfolding standing_def by (blast intro: ps_thread)
      qed
    qed
    then show "blocked (returns i) (sv_cd s) (sv_threads s ! i)" by (simp add: blocked_iff)
  qed
  ultimately show "?A \<and> ?B \<and> ?C" by blast
next
  assume r: "?A \<and> ?B \<and> ?C"
  show "standing returns client s"
    unfolding standing_def
  proof (intro allI notI)
    fix s' assume "pool_step returns client s s'"
    then show False
    proof (cases rule: pool_step.cases)
      case (ps_accept valid)
      with r show False by (auto simp: accept_next_def)
    qed (use r in \<open>auto simp: blocked_iff\<close>)
  qed
qed

lemma standing_iff:
  assumes "pool_within s"
  shows "standing returns client s \<longleftrightarrow> sv_terminated s \<or> sv_stop s = ST_returned \<or>
    sv_stop s = ST_joining \<and> sv_accept s = AC_over \<and>
    (\<forall>i < length (sv_threads s). blocked (returns i) (sv_cd s) (sv_threads s ! i)) \<and>
    (\<exists>t \<in> set (sv_threads s). t \<noteq> TH_exit)" (is "_ \<longleftrightarrow> ?R")
proof (cases "sv_terminated s")
  case True
  then show ?thesis by (auto simp: standing_def elim!: pool_step.cases)
next
  case False
  have over: "blocked (returns i) (sv_cd s) (sv_threads s ! i)"
    if "\<forall>t \<in> set (sv_threads s). t = TH_exit" "i < length (sv_threads s)" for i
    using that by (simp add: blocked_def)
  show ?thesis
    using False assms over unfolding standing_live [OF False]
    by (cases "sv_stop s") (auto simp: stop_next_def pool_within_def split: if_splits)
qed

text \<open>
  C4: After the shutdown flag is up the server makes at most 20 more steps for each of its threads
  and nine of its own, under every schedule and whatever the peers do. Where it comes to stand
  still, the process has ended, or \<open>stop\<close> has returned, or \<open>stop\<close> is in its joins: the accept
  thread is over and every connection thread is over, stands at a socket call that does not
  return, or waits for the answer to a request that nobody has answered, and not all of them are
  over. It stands still in no other state and in each of these, for any set of calls that do not
  return; an idle client is enough to keep \<open>stop\<close> from returning, as it closes no connection.
\<close>

theorem stop_ends:
  assumes "server_reachable s" and "cd_shutdown (sv_cd s)" and "(server_step ^^ m) s s'"
  shows "m \<le> 20 * length (sv_threads s) + 9 \<and>
    (standing returns client s' \<longleftrightarrow> sv_terminated s' \<or> sv_stop s' = ST_returned \<or>
       sv_stop s' = ST_joining \<and> sv_accept s' = AC_over \<and>
       (\<forall>i < length (sv_threads s'). sv_threads s' ! i = TH_exit \<or>
          at_socket (sv_threads s' ! i) \<and> \<not> returns i \<or>
          (\<exists>cn r k. sv_threads s' ! i = TH_forward cn (FS_wait r) k \<and> \<not> answered r (sv_cd s'))) \<and>
       (\<exists>t \<in> set (sv_threads s'). t \<noteq> TH_exit))"
proof -
  note inv = server_reachable_within [OF assms(1)]
  have "list_all2 thread_within (replicate (length (sv_threads s)) 20) (sv_threads s)"
    using inv by (simp add: list_all2_conv_all_nth pool_within_def)
  then have "server_within (20 * length (sv_threads s) + 9) s"
    unfolding server_within_def
    by (auto simp: sum_list_replicate accept_rank_def stop_rank_def
        intro!: exI [of _ "replicate (length (sv_threads s)) 20"] split: accept_state.split stop_state.split)
  from run_within [OF assms(3) _ _ assms(2) this] inv have "m \<le> 20 * length (sv_threads s) + 9" "pool_within s'"
    by auto
  then show ?thesis by (simp add: standing_iff blocked_def)
qed

end
