(* ===== verification/AF_Schedule.thy ===== *)
theory AF_Schedule
  imports AF_Stop
begin

text \<open>
  Schedules: a list of events says which thread moves next, what its socket delivers and whether
  its write succeeds. They make the step relation executable, so that single interleavings can be
  followed to their end. Three are given: a request that is aborted in time, one whose abort
  comes too early, and an idle client at the time of a \<open>stop\<close>.
\<close>

section \<open>Schedules\<close>

datatype event =
    EV_accept bool
  | EV_stop
  | EV_thread nat "byte list option" bool

fun event_next :: "event \<Rightarrow> Server \<Rightarrow> Server option" where
  "event_next (EV_accept valid) s = (if sv_terminated s then None else accept_next valid s)"
| "event_next EV_stop s = (if sv_terminated s then None else stop_next s)"
| "event_next (EV_thread i frame sent) s =
    (if sv_terminated s \<or> length (sv_threads s) \<le> i then None
     else case thread_next frame sent (sv_threads s ! i) (sv_cd s) of
       None \<Rightarrow> None
     | Some (None, cd') \<Rightarrow> Some (s\<lparr>sv_cd := cd', sv_terminated := True\<rparr>)
     | Some (Some t, cd') \<Rightarrow> Some (s\<lparr>sv_cd := cd', sv_threads := (sv_threads s)[i := t]\<rparr>))"

fun schedule :: "event list \<Rightarrow> Server \<Rightarrow> Server option" where
  "schedule [] s = Some s"
| "schedule (e # es) s = (case event_next e s of None \<Rightarrow> None | Some s1 \<Rightarrow> schedule es s1)"

lemma event_step: "event_next e s = Some s' \<Longrightarrow> server_step s s'"
  by (cases e) (auto simp: not_le intro: server_step.intros split: if_splits option.splits)

lemma schedule_steps: "schedule es s = Some s' \<Longrightarrow> (server_step ^^ length es) s s'"
proof (induction es arbitrary: s)
  case (Cons e es)
  then obtain s1 where "event_next e s = Some s1" "schedule es s1 = Some s'"
    by (auto split: option.splits)
  with Cons.IH show ?case using event_step relpowp_Suc_I2 by fastforce
qed simp

lemma schedule_append:
  "schedule (xs @ ys) s = (case schedule xs s of None \<Rightarrow> None | Some s1 \<Rightarrow> schedule ys s1)"
  by (induction xs arbitrary: s) (auto split: option.split)

lemma schedule_run: "schedule es (Server_start limits) = Some s \<Longrightarrow> server_run (length es) s"
  using schedule_steps unfolding server_run_def by blast

lemma schedule_reachable: "schedule es (Server_start limits) = Some s \<Longrightarrow> server_reachable s"
  using schedule_steps relpowp_imp_rtranclp unfolding server_reachable_def by metis

section \<open>A worker that goes away\<close>

definition gone_register :: Message where
  "gone_register = Message_default\<lparr>m_type := MT_wk_register, m_text := Id_str (run_id 6 :: WorkerId),
     m_text2 := Id_str (run_id 7 :: WorkerBootId), m_text3 := ''w@host''\<rparr>"

definition gone_request :: Message where
  "gone_request = Message_default\<lparr>m_type := MT_ctl_deactivate, m_text := Id_str (run_id 1 :: AdapterId),
     m_text2 := Id_str (run_id 6 :: WorkerId)\<rparr>"

text \<open>Thread 0 is a control client's, thread 1 the worker's, which registers.\<close>

definition gone_start :: "event list" where
  "gone_start =
    [EV_accept True, EV_accept True, EV_accept True, EV_accept True,
     EV_thread 1 None True, EV_thread 1 (Some (encode_message gone_register)) True,
     EV_thread 1 None True, EV_thread 1 None True, EV_thread 1 None True, EV_thread 1 None True,
     EV_thread 0 None True, EV_thread 0 (Some (encode_message gone_request)) True,
     EV_thread 0 None True, EV_thread 0 None True, EV_thread 0 None True, EV_thread 0 None True]"

text \<open>The worker's connection ends, and its thread runs to its end.\<close>

definition gone_worker :: "event list" where
  "gone_worker = [EV_thread 1 None True, EV_thread 1 None True, EV_thread 1 None True, EV_thread 1 None True]"

text \<open>The caller enters its request, sends the frame and waits.\<close>

definition gone_wait :: "event list" where
  "gone_wait = [EV_thread 0 None True, EV_thread 0 None True]"

definition gone_stop :: "event list" where
  "gone_stop = [EV_stop, EV_accept False]"

lemma gone_messages:
  "decode_message (encode_message gone_register) = Inr gone_register"
  "decode_message (encode_message gone_request) = Inr gone_request"
  by (rule message_roundtrip,
    simp add: message_ok_def gone_register_def gone_request_def Message_default_def string_ok_def)+

definition gone_slot :: WorkerSlot where
  "gone_slot = \<lparr>sl_id = run_id 6, sl_boot = run_id 7, sl_address = ''w@host'', sl_connected = True\<rparr>"

definition gone_waiting :: "Message \<Rightarrow> prog" where
  "gone_waiting ack = Section (\<lambda>cd.
     (return_prog (ctl_reply (m_ok ack) (if m_ok ack then ''deactivated'' else m_text ack)),
      cd\<lparr>cd_fabric := set_lifecycle (run_id 1) L_ready (cd_fabric cd)\<rparr>))"

definition gone_forward :: Message where
  "gone_forward = Message_default\<lparr>m_type := MT_wk_deactivate, m_text := Id_str (run_id 1 :: AdapterId)\<rparr>"

lemma gone_fields [simp]:
  "m_type gone_register = MT_wk_register" "m_text gone_register = Id_str (run_id 6 :: WorkerId)"
  "m_text2 gone_register = Id_str (run_id 7 :: WorkerBootId)" "m_text3 gone_register = ''w@host''"
  "m_text4 gone_register = []" "m_type gone_request = MT_ctl_deactivate"
  "m_text gone_request = Id_str (run_id 1 :: AdapterId)"
  "m_text2 gone_request = Id_str (run_id 6 :: WorkerId)"
  "cn_is_worker Connection_new = False" "cn_slot Connection_new = None"
  by (simp_all add: gone_register_def gone_request_def Message_default_def Connection_new_def)

lemma gone_frames:
  "frame_thread cn (encode_message gone_register) = TH_register gone_register"
  "frame_thread Connection_new (encode_message gone_request) =
     TH_handle Connection_new (Forward (Id_str (run_id 6 :: WorkerId)) gone_forward gone_waiting)"
  by (simp_all add: frame_thread_def gone_messages control_prog_def deactivate_prog_def must_parse_def
      gone_waiting_def [abs_def] gone_forward_def)

lemma gone_sections:
  "register_slot conn gone_register cd = (Inr gone_slot,
     cd\<lparr>cd_slots := smap_set conn gone_slot (cd_slots cd),
        cd_workers := smap_set (Id_str (run_id 6 :: WorkerId)) conn (cd_workers cd)\<rparr>)"
  "\<exists>fb. register_fabric gone_slot gone_register cd = (Inr (), cd\<lparr>cd_fabric := fb\<rparr>)"
  by (auto simp: register_slot_def register_fabric_def gone_slot_def must_parse_def Let_def)

lemma gone_started:
  "\<exists>cd. schedule gone_start (Server_start []) = Some
     \<lparr>sv_cd = cd, sv_accept = AC_test,
      sv_threads = [TH_forward Connection_new (FS_insert 1 0 gone_forward) gone_waiting,
                    TH_recv \<lparr>cn_is_worker = True, cn_slot = Some 0\<rparr>],
      sv_stop = ST_running, sv_terminated = False\<rparr> \<and>
     cd_slots cd = [(0, gone_slot)] \<and> cd_pending cd = [] \<and> \<not> cd_shutdown cd"
proof -
  let ?cd = "(snd (server_start True (CoordinatorServer_new [])))
    \<lparr>cd_slots := [(0, gone_slot)], cd_workers := [(Id_str (run_id 6 :: WorkerId), 0)]\<rparr>"
  obtain fb where fb: "register_fabric gone_slot gone_register ?cd = (Inr (), ?cd\<lparr>cd_fabric := fb\<rparr>)"
    using gone_sections(2) by blast
  then show ?thesis
    by (simp add: gone_start_def Server_start_def server_start_def accept_next_def
        CoordinatorServer_new_def gone_frames gone_sections(1) fresh_slot_def gone_slot_def)
qed

lemma gone_early:
  "\<exists>s. schedule (gone_start @ gone_worker @ gone_wait @ gone_stop) (Server_start []) = Some s \<and>
     sv_threads s = [TH_forward Connection_new (FS_wait 1) gone_waiting, TH_exit] \<and>
     sv_accept s = AC_over \<and> sv_stop s = ST_joining \<and> \<not> sv_terminated s \<and>
     \<not> answered 1 (sv_cd s)"
proof -
  obtain cd where cd: "schedule gone_start (Server_start []) = Some
     \<lparr>sv_cd = cd, sv_accept = AC_test,
      sv_threads = [TH_forward Connection_new (FS_insert 1 0 gone_forward) gone_waiting,
                    TH_recv \<lparr>cn_is_worker = True, cn_slot = Some 0\<rparr>],
      sv_stop = ST_running, sv_terminated = False\<rparr>"
    "cd_slots cd = [(0, gone_slot)]" "cd_pending cd = []" "\<not> cd_shutdown cd"
    using gone_started by blast
  show ?thesis
    by (simp add: schedule_append cd gone_worker_def gone_wait_def gone_stop_def accept_next_def
        stop_next_def server_stop_def cleanup_thread_def smap_mapi_def abort_pending_for_worker_def
        answered_def)
qed

text \<open>The same events with the entry made before the worker's connection ends.\<close>

definition gone_finish :: "event list" where
  "gone_finish = replicate 5 (EV_thread 0 None True)"

definition gone_return :: "event list" where
  "gone_return = [EV_thread 0 None True, EV_thread 0 None True, EV_stop]"

lemma gone_late:
  "\<exists>s. schedule (gone_start @ gone_wait @ gone_worker) (Server_start []) = Some s \<and>
     sv_threads s = [TH_forward Connection_new (FS_wait 1) gone_waiting, TH_exit] \<and>
     answered 1 (sv_cd s) \<and> sv_stop s = ST_running \<and> \<not> sv_terminated s"
  "\<exists>s m. schedule (gone_start @ gone_wait @ gone_worker @ gone_finish) (Server_start []) = Some s \<and>
     sv_threads s = [TH_reply Connection_new m, TH_exit] \<and> \<not> m_ok m \<and>
     m_text m = ''worker disconnected''"
  "\<exists>s. schedule (gone_start @ gone_wait @ gone_worker @ gone_finish @ gone_stop @ gone_return)
       (Server_start []) = Some s \<and> sv_stop s = ST_returned"
proof -
  obtain cd where cd: "schedule gone_start (Server_start []) = Some
     \<lparr>sv_cd = cd, sv_accept = AC_test,
      sv_threads = [TH_forward Connection_new (FS_insert 1 0 gone_forward) gone_waiting,
                    TH_recv \<lparr>cn_is_worker = True, cn_slot = Some 0\<rparr>],
      sv_stop = ST_running, sv_terminated = False\<rparr>"
    "cd_slots cd = [(0, gone_slot)]" "cd_pending cd = []" "\<not> cd_shutdown cd"
    using gone_started by blast
  note defs = schedule_append cd gone_worker_def gone_wait_def gone_stop_def gone_finish_def
    gone_return_def accept_next_def stop_next_def server_stop_def cleanup_thread_def smap_mapi_def
    abort_pending_for_worker_def answered_def numeral_eq_Suc gone_waiting_def return_prog_def ctl_reply_def
  show "\<exists>s. schedule (gone_start @ gone_wait @ gone_worker) (Server_start []) = Some s \<and>
     sv_threads s = [TH_forward Connection_new (FS_wait 1) gone_waiting, TH_exit] \<and>
     answered 1 (sv_cd s) \<and> sv_stop s = ST_running \<and> \<not> sv_terminated s"
    by (simp add: defs)
  show "\<exists>s m. schedule (gone_start @ gone_wait @ gone_worker @ gone_finish) (Server_start []) = Some s \<and>
     sv_threads s = [TH_reply Connection_new m, TH_exit] \<and> \<not> m_ok m \<and>
     m_text m = ''worker disconnected''"
    by (simp add: defs)
  show "\<exists>s. schedule (gone_start @ gone_wait @ gone_worker @ gone_finish @ gone_stop @ gone_return)
       (Server_start []) = Some s \<and> sv_stop s = ST_returned"
    by (simp add: defs)
qed

text \<open>
  A wake-up that is lost in this run: when the worker's connection ends after its caller has checked
  \<open>connected\<close> and before the caller has entered its request, the abort misses the request. The
  frame is written, the caller waits, every other thread is over and the socket calls all return,
  and yet \<open>stop\<close> does not return. With the two in the other order the same events end with the
  client told of the disconnection and \<open>stop\<close> returned. (A later end of any other worker's
  connection would still complete the request, as the abort fails every open one.)
\<close>

lemma lost_wakeup:
  "(\<exists>s. schedule (gone_start @ gone_worker @ gone_wait @ gone_stop) (Server_start []) = Some s \<and>
     server_reachable s \<and> standing (\<lambda>_. True) True s \<and> \<not> sv_terminated s \<and> sv_stop s = ST_joining \<and>
     sv_threads s = [TH_forward Connection_new (FS_wait 1) gone_waiting, TH_exit]) \<and>
   (\<exists>s m. schedule (gone_start @ gone_wait @ gone_worker @ gone_finish) (Server_start []) = Some s \<and>
     sv_threads s = [TH_reply Connection_new m, TH_exit] \<and> \<not> m_ok m \<and>
     m_text m = ''worker disconnected'') \<and>
   (\<exists>s. schedule (gone_start @ gone_wait @ gone_worker @ gone_finish @ gone_stop @ gone_return)
       (Server_start []) = Some s \<and> sv_stop s = ST_returned)"
proof -
  obtain s where s: "schedule (gone_start @ gone_worker @ gone_wait @ gone_stop) (Server_start []) = Some s"
    "sv_threads s = [TH_forward Connection_new (FS_wait 1) gone_waiting, TH_exit]"
    "sv_accept s = AC_over" "sv_stop s = ST_joining" "\<not> sv_terminated s" "\<not> answered 1 (sv_cd s)"
    using gone_early by blast
  have r: "server_reachable s" by (rule schedule_reachable [OF s(1)])
  then have "standing (\<lambda>_. True) True s"
    using server_reachable_within s(2-6) by (auto simp: standing_iff blocked_def less_Suc_eq_0_disj)
  with s r gone_late(2,3) show ?thesis by blast
qed

text \<open>A client that connects and stays silent: its thread is in \<open>recv_frame\<close> when \<open>stop\<close> joins.\<close>

definition idle_client :: "event list" where
  "idle_client = [EV_accept True, EV_accept True, EV_accept True, EV_thread 0 None True, EV_stop]"

lemma idle_client_run:
  "\<exists>s. schedule (idle_client @ [EV_accept False]) (Server_start []) = Some s \<and>
     sv_threads s = [TH_recv Connection_new] \<and> sv_accept s = AC_over \<and> sv_stop s = ST_joining \<and>
     \<not> sv_terminated s \<and> cd_shutdown (sv_cd s)"
  by (simp add: idle_client_def Server_start_def server_start_def accept_next_def stop_next_def
      server_stop_def CoordinatorServer_new_def)

section \<open>The statements at these runs\<close>

theorem forward_stages_witness:
  "stage_run (\<lambda>conn bytes cd. True)
     (\<lambda>c. c\<lparr>cd_pending := [(1, \<lparr>pd_done = True, pd_result = Message_default\<rparr>)]\<rparr>) 6
     (FS_lookup 1 ''w'' Message_default) (CoordinatorServer_new []) =
   Some (forward_to_worker (\<lambda>conn bytes cd. True)
     (await_others (\<lambda>c. c\<lparr>cd_pending := [(1, \<lparr>pd_done = True, pd_result = Message_default\<rparr>)]\<rparr>))
     1 ''w'' Message_default (CoordinatorServer_new []))"
  by (rule forward_stages) simp

theorem threads_authority_safe_witness:
  "\<exists>s :: Server. sv_threads s = [TH_forward Connection_new (FS_wait 1) gone_waiting, TH_exit] \<and>
     authority_safe (cd_fabric (sv_cd s))"
proof -
  obtain s where s: "schedule (gone_start @ gone_worker @ gone_wait @ gone_stop) (Server_start []) = Some s"
    "sv_threads s = [TH_forward Connection_new (FS_wait 1) gone_waiting, TH_exit]"
    using gone_early by blast
  from threads_authority_safe [OF schedule_reachable [OF s(1)]] s(2) show ?thesis by blast
qed

theorem request_correlation_witness:
  "\<exists>s :: Server. (\<exists>p. map_of (cd_pending (sv_cd s)) 1 = Some p \<and>
      (if pd_done p then m_req_id (pd_result p) = 1 \<or> pd_result p = aborted
       else pd_result p = Message_default)) \<and> sv_threads s ! 1 = TH_exit"
proof -
  obtain s where s: "schedule (gone_start @ gone_wait @ gone_worker) (Server_start []) = Some s"
    "sv_threads s = [TH_forward Connection_new (FS_wait 1) gone_waiting, TH_exit]"
    using gone_late(1) by blast
  have "length (gone_start @ gone_wait @ gone_worker) < 2 ^ 64 - 1"
    by (simp add: gone_start_def gone_wait_def gone_worker_def)
  from request_correlation [OF schedule_run [OF s(1)] this, of 0 Connection_new 1 gone_waiting] s(2)
  have "\<exists>p. map_of (cd_pending (sv_cd s)) 1 = Some p \<and>
      (if pd_done p then m_req_id (pd_result p) = 1 \<or> pd_result p = aborted
       else pd_result p = Message_default)" by simp
  with s(2) show ?thesis by (intro exI [of _ s] conjI) simp_all
qed

theorem answer_not_lost_witness:
  "\<exists>(s :: Server) t cd'. sv_stop s = ST_joining \<and> sv_threads s ! 0 = TH_forward Connection_new (FS_wait 1) gone_waiting \<and>
     thread_next None True (sv_threads s ! 0) (sv_cd s) = Some (Some t, cd')"
proof -
  obtain s where s: "schedule (gone_start @ gone_wait @ gone_worker) (Server_start []) = Some s"
    "sv_threads s = [TH_forward Connection_new (FS_wait 1) gone_waiting, TH_exit]" "answered 1 (sv_cd s)"
    "sv_stop s = ST_running \<and> \<not> sv_terminated s"
    using gone_late(1) by blast
  let ?s = "s\<lparr>sv_cd := server_stop (sv_cd s), sv_stop := ST_joining\<rparr>"
  have "server_step s ?s" using s(4) by (intro sv_stop_step) (simp_all add: stop_next_def)
  then have "(others_step 0 ^^ 1) s ?s" by (simp add: others_step_def OO_def fun_eq_iff)
  moreover have "length (gone_start @ gone_wait @ gone_worker) + 1 < 2 ^ 64 - 1"
    by (simp add: gone_start_def gone_wait_def gone_worker_def)
  ultimately have "\<exists>t cd'. thread_next None True (sv_threads ?s ! 0) (sv_cd ?s) = Some (Some t, cd')"
    using answer_not_lost [OF schedule_run [OF s(1)], of 1 0 Connection_new 1 gone_waiting ?s None True] s(2,3)
    by simp
  then obtain t cd' where "thread_next None True (sv_threads ?s ! 0) (sv_cd ?s) = Some (Some t, cd')"
    by blast
  moreover have "sv_threads ?s ! 0 = TH_forward Connection_new (FS_wait 1) gone_waiting" using s(2) by simp
  ultimately show ?thesis by (intro exI [of _ ?s] exI [of _ t] exI [of _ cd'] conjI) simp_all
qed

theorem stop_ends_witness:
  "\<exists>s s'. cd_shutdown (sv_cd s) \<and> (server_step ^^ 1) s s' \<and> 1 \<le> 20 * length (sv_threads s) + 9 \<and>
     sv_threads s' = [TH_recv Connection_new] \<and> standing (\<lambda>_. False) False s' \<and>
     \<not> standing (\<lambda>_. True) False s'"
proof -
  obtain s' where s': "schedule (idle_client @ [EV_accept False]) (Server_start []) = Some s'"
    "sv_threads s' = [TH_recv Connection_new]" "sv_accept s' = AC_over" "sv_stop s' = ST_joining"
    "\<not> sv_terminated s'"
    using idle_client_run by blast
  then obtain s where s: "schedule idle_client (Server_start []) = Some s"
    "event_next (EV_accept False) s = Some s'"
    unfolding schedule_append by (auto split: option.splits)
  have step: "(server_step ^^ 1) s s'" using event_step [OF s(2)] by (simp add: OO_def fun_eq_iff)
  have reach: "server_reachable s" by (rule schedule_reachable [OF s(1)])
  have "sv_stop s = ST_joining"
    using s(2) s'(4) by (auto simp: accept_next_def split: accept_state.splits if_splits)
  with server_reachable_within [OF reach] have down: "cd_shutdown (sv_cd s)" by (auto simp: pool_within_def)
  from stop_ends [OF reach down step] s'(2-5) down step show ?thesis
    by (intro exI [of _ s] exI [of _ s']) auto
qed

end
