(* ===== verification/AF_Transport.thy ===== *)
theory AF_Transport
  imports AF_Codec
begin

text \<open>
  Framing over a byte stream (\<open>transport.cpp\<close>, \<open>send_all\<close> to \<open>recv_frame\<close>). The socket
  calls are parameters of the definitions, over any type of socket state: \<open>send\<close> returns
  \<open>None\<close> for \<open>SOCKET_ERROR\<close> and otherwise the number of bytes taken, \<open>recv\<close> returns \<open>None\<close>
  for \<open>SOCKET_ERROR\<close> and otherwise the bytes it stored (none when the peer has closed). The
  hypotheses \<open>send_stream\<close> and \<open>recv_stream\<close> state the documented behaviour of a connected
  stream socket: bytes are taken and delivered in order, in chunks of any positive size.
  The write lock makes \<open>send_frame\<close> one critical section, so a frame is one step here. The source
  casts the length it passes to the call to \<open>int\<close>; that is the length itself below 2^31 bytes, and
  the model is that of such payloads (the cap of \<open>recv_frame\<close> is 64 MiB).
\<close>

type_synonym 's send_call = "byte list \<Rightarrow> 's \<Rightarrow> nat option \<times> 's"
type_synonym 's recv_call = "nat \<Rightarrow> 's \<Rightarrow> byte list option \<times> 's"

function send_all :: "'s send_call \<Rightarrow> byte list \<Rightarrow> 's \<Rightarrow> bool \<times> 's" where
  "send_all snd_fn p s =
    (if p = [] then (True, s)
     else case snd_fn p s of
       (None, s') \<Rightarrow> (False, s')
     | (Some sent, s') \<Rightarrow> if sent = 0 then (False, s') else send_all snd_fn (drop sent p) s')"
  by pat_completeness auto
termination
  by (relation "measure (\<lambda>(f, p, s). length p)") auto

function recv_exact :: "'s recv_call \<Rightarrow> nat \<Rightarrow> 's \<Rightarrow> byte list option \<times> 's" where
  "recv_exact rcv n s =
    (if n = 0 then (Some [], s)
     else case rcv n s of
       (None, s') \<Rightarrow> (None, s')
     | (Some got, s') \<Rightarrow>
         if got = [] then (None, s')
         else case recv_exact rcv (n - length got) s' of
           (None, s'') \<Rightarrow> (None, s'')
         | (Some tl_bytes, s'') \<Rightarrow> (Some (got @ tl_bytes), s''))"
  by pat_completeness auto
termination
  by (relation "measure (\<lambda>(f, n, s). n)") auto

declare send_all.simps [simp del] recv_exact.simps [simp del]

definition frame_cap :: nat where
  "frame_cap = 64 * 1024 * 1024"

definition frame_header :: "byte list \<Rightarrow> byte list" where
  "frame_header payload = store_le 4 (of_nat (length payload) :: uint32_t)"

definition frame_check :: "byte list \<Rightarrow> byte list" where
  "frame_check payload = store_le 8 (fnv1a_64 1469598103934665603 payload)"

definition send_frame :: "bool \<Rightarrow> 's send_call \<Rightarrow> byte list \<Rightarrow> 's \<Rightarrow> bool \<times> 's" where
  "send_frame valid snd_fn payload s =
    (if \<not> valid then (False, s)
     else let (ok1, s1) = send_all snd_fn (frame_header payload) s in
       if \<not> ok1 then (False, s1)
       else let (ok2, s2) = (if payload = [] then (True, s1) else send_all snd_fn payload s1) in
         if \<not> ok2 then (False, s2)
         else send_all snd_fn (frame_check payload) s2)"

definition recv_frame :: "bool \<Rightarrow> 's recv_call \<Rightarrow> 's \<Rightarrow> byte list option \<times> 's" where
  "recv_frame valid rcv s =
    (if \<not> valid then (None, s)
     else case recv_exact rcv 4 s of
       (None, s1) \<Rightarrow> (None, s1)
     | (Some hdr, s1) \<Rightarrow>
         let len = unat (load_le 4 hdr 0 :: uint32_t) in
         if len > frame_cap then (None, s1)
         else case (if len = 0 then (Some [], s1) else recv_exact rcv len s1) of
           (None, s2) \<Rightarrow> (None, s2)
         | (Some payload, s2) \<Rightarrow>
             (case recv_exact rcv 8 s2 of
                (None, s3) \<Rightarrow> (None, s3)
              | (Some ck, s3) \<Rightarrow>
                  let stored = load_le 8 ck 0;
                      computed = fnv1a_64 1469598103934665603 payload
                  in (if stored = computed then Some payload else None, s3)))"

section \<open>The stream\<close>

text \<open>
  \<open>pending s\<close> is the sequence of bytes that have been sent and not yet received.
\<close>

definition send_stream :: "('s \<Rightarrow> byte list) \<Rightarrow> 's send_call \<Rightarrow> bool" where
  "send_stream pending snd_fn \<longleftrightarrow> (\<forall>p s. p \<noteq> [] \<longrightarrow> (\<exists>k s'. snd_fn p s = (Some k, s') \<and>
     0 < k \<and> k \<le> length p \<and> pending s' = pending s @ take k p))"

definition recv_stream :: "('s \<Rightarrow> byte list) \<Rightarrow> 's recv_call \<Rightarrow> bool" where
  "recv_stream pending rcv \<longleftrightarrow> (\<forall>n s. 0 < n \<longrightarrow> pending s \<noteq> [] \<longrightarrow>
     (\<exists>c s'. rcv n s = (Some c, s') \<and> c \<noteq> [] \<and> length c \<le> n \<and> pending s = c @ pending s'))"

definition frame :: "byte list \<Rightarrow> byte list" where
  "frame payload = frame_header payload @ payload @ frame_check payload"

lemma send_all_stream:
  assumes "send_stream pending snd_fn"
  shows "\<exists>s'. send_all snd_fn p s = (True, s') \<and> pending s' = pending s @ p"
proof (induction "length p" arbitrary: p s rule: less_induct)
  case less
  show ?case
  proof (cases "p = []")
    case True
    then show ?thesis by (simp add: send_all.simps)
  next
    case False
    with assms obtain k s1 where k: "snd_fn p s = (Some k, s1)" "0 < k" "k \<le> length p"
      "pending s1 = pending s @ take k p" unfolding send_stream_def by blast
    from less [of "drop k p" s1] False k(2) obtain s2 where
      "send_all snd_fn (drop k p) s1 = (True, s2)" "pending s2 = pending s1 @ drop k p" by auto
    with False k show ?thesis by (simp add: send_all.simps [of snd_fn p s])
  qed
qed

lemma recv_exact_stream:
  assumes "recv_stream pending rcv" and "pending s = bs @ rest"
  shows "\<exists>s'. recv_exact rcv (length bs) s = (Some bs, s') \<and> pending s' = rest"
  using assms(2)
proof (induction "length bs" arbitrary: bs s rule: less_induct)
  case less
  show ?case
  proof (cases "bs = []")
    case True
    with less.prems show ?thesis by (simp add: recv_exact.simps)
  next
    case False
    then have "0 < length bs" "pending s \<noteq> []" using less.prems by simp_all
    with assms(1) obtain c s1 where c: "rcv (length bs) s = (Some c, s1)" "c \<noteq> []"
      "length c \<le> length bs" "pending s = c @ pending s1" unfolding recv_stream_def by blast
    have bs: "bs = c @ drop (length c) bs" and p1: "pending s1 = drop (length c) bs @ rest"
      using c(3,4) less.prems by (auto simp: append_eq_append_conv2)
    from less.hyps [of "drop (length c) bs" s1] p1 False c(2) obtain s2 where
      "recv_exact rcv (length bs - length c) s1 = (Some (drop (length c) bs), s2)"
      "pending s2 = rest" by auto
    with False c(1,2) bs show ?thesis by (simp add: recv_exact.simps [of rcv "length bs" s])
  qed
qed

text \<open>Sending puts the whole frame on the stream, whatever the chunks.\<close>

lemma send_frame_stream:
  assumes "send_stream pending snd_fn"
  shows "\<exists>s'. send_frame True snd_fn payload s = (True, s') \<and> pending s' = pending s @ frame payload"
proof -
  note all = send_all_stream [OF assms]
  obtain s1 where s1: "send_all snd_fn (frame_header payload) s = (True, s1)"
    "pending s1 = pending s @ frame_header payload" using all by blast
  obtain s2 where s2: "send_all snd_fn payload s1 = (True, s2)" "pending s2 = pending s1 @ payload"
    using all by blast
  have e: "payload = [] \<Longrightarrow> s2 = s1" using s2(1) by (simp add: send_all.simps)
  obtain s3 where s3: "send_all snd_fn (frame_check payload) s2 = (True, s3)"
    "pending s3 = pending s2 @ frame_check payload" using all by blast
  from s1 s2 s3 e show ?thesis by (cases "payload = []") (simp_all add: send_frame_def frame_def)
qed

lemma load_header:
  "length payload < 2 ^ 32 \<Longrightarrow> unat (load_le 4 (frame_header payload) 0 :: uint32_t) = length payload"
  using load_store_le [where n = 4 and v = "of_nat (length payload) :: uint32_t" and pre = "[]"
      and suf = "[]"]
  by (simp add: frame_header_def unat_of_nat)

lemma load_check:
  "load_le 8 (store_le 8 v) 0 = (v :: uint64_t)"
  using load_store_le [where n = 8 and v = v and pre = "[]" and suf = "[]"] by simp

text \<open>What the receiver does with a header for \<open>length payload\<close> bytes, those bytes and any checksum.\<close>

lemma recv_frame_bytes:
  assumes "recv_stream pending rcv" and "length payload \<le> frame_cap" and "length ck = 8"
    and "pending s = frame_header payload @ data @ ck @ rest" and "length data = length payload"
  shows "\<exists>s'. pending s' = rest \<and> recv_frame True rcv s =
     (if load_le 8 ck 0 = fnv1a_64 fnv_basis data then Some data else None, s')"
proof -
  note rx = recv_exact_stream [OF assms(1)]
  have len: "unat (load_le 4 (frame_header payload) 0 :: uint32_t) = length payload"
    using assms(2) by (intro load_header) (simp add: frame_cap_def)
  obtain s1 where s1: "recv_exact rcv 4 s = (Some (frame_header payload), s1)"
    "pending s1 = data @ ck @ rest" using rx [OF assms(4)] by (auto simp: frame_header_def)
  obtain s2 where s2: "recv_exact rcv (length payload) s1 = (Some data, s2)"
    "pending s2 = ck @ rest" using rx [OF s1(2)] assms(5) by auto
  have e: "payload = [] \<Longrightarrow> s2 = s1 \<and> data = []"
    using s2(1) assms(5) by (auto simp: recv_exact.simps)
  obtain s3 where s3: "recv_exact rcv 8 s2 = (Some ck, s3)" "pending s3 = rest"
    using rx [OF s2(2)] assms(3) by auto
  from s1 s2 s3 e assms(2) len show ?thesis
    by (cases "payload = []") (auto simp: recv_frame_def Let_def fnv_basis_def)
qed

lemma recv_frame_stream:
  assumes "recv_stream pending rcv" and "pending s = frame payload @ rest"
    and "length payload \<le> frame_cap"
  shows "\<exists>s'. recv_frame True rcv s = (Some payload, s') \<and> pending s' = rest"
  using recv_frame_bytes [OF assms(1,3), of "frame_check payload" s payload rest] assms(2)
  by (auto simp: frame_def frame_check_def load_check fnv_basis_def)

text \<open>One changed byte of the payload or of the checksum: the frame is refused.\<close>

text \<open>
  A frame in which one byte of the payload or of the check was altered on the way is never
  delivered, however the stream is chunked.
\<close>

theorem recv_frame_corrupt:
  assumes "recv_stream pending rcv" and "length payload \<le> frame_cap"
    and "pending s = frame_header payload @ (payload @ frame_check payload)[i := b] @ rest"
    and "i < length (payload @ frame_check payload)"
    and "b \<noteq> (payload @ frame_check payload) ! i"
  shows "fst (recv_frame True rcv s) = None"
proof (cases "i < length payload")
  case True
  then have "pending s = frame_header payload @ payload[i := b] @ frame_check payload @ rest"
    using assms(3) by (simp add: list_update_append)
  from recv_frame_bytes [OF assms(1,2) _ this] obtain s' where
    "recv_frame True rcv s = (if load_le 8 (frame_check payload) 0 = fnv1a_64 fnv_basis (payload[i := b])
       then Some (payload[i := b]) else None, s')" by (auto simp: frame_check_def)
  moreover have "fnv1a_64 fnv_basis (payload[i := b]) \<noteq> fnv1a_64 fnv_basis payload"
    using True assms(5) by (intro fnv1a_list_update) (simp_all add: nth_append)
  ultimately show ?thesis by (simp add: frame_check_def load_check fnv_basis_def)
next
  case False
  let ?j = "i - length payload"
  let ?ck = "(frame_check payload)[?j := b]"
  have "pending s = frame_header payload @ payload @ ?ck @ rest"
    using False assms(3) by (simp add: list_update_append)
  from recv_frame_bytes [OF assms(1,2) _ this] obtain s' where
    r: "recv_frame True rcv s = (if load_le 8 ?ck 0 = fnv1a_64 fnv_basis payload
       then Some payload else None, s')" by (auto simp: frame_check_def)
  have "?ck ! ?j \<noteq> frame_check payload ! ?j"
    using False assms(4,5) by (simp add: nth_append)
  then have "?ck \<noteq> frame_check payload" by metis
  moreover have "store_le 8 (load_le 8 ?ck 0 :: uint64_t) = ?ck"
    using store_load_le [where n = 8 and p = 0 and d = ?ck and 'w = 64]
    by (simp add: frame_check_def)
  ultimately have "load_le 8 ?ck 0 \<noteq> fnv1a_64 fnv_basis payload"
    by (metis frame_check_def fnv_basis_def)
  with r show ?thesis by simp
qed

text \<open>
  \<open>send_frame\<close> does not enforce the cap of 64 MiB that \<open>recv_frame\<close> enforces: the frame of a
  larger payload, which the sender reports as sent (\<open>send_frame_stream\<close>), no receiver accepts.
\<close>

lemma oversized_frame:
  assumes "recv_stream pending rcv" and "pending s = frame payload @ rest"
    and "frame_cap < length payload" and "length payload < 2 ^ 32"
  shows "fst (recv_frame True rcv s) = None"
proof -
  obtain s1 where "recv_exact rcv 4 s = (Some (frame_header payload), s1)"
    using recv_exact_stream [OF assms(1), of s "frame_header payload"] assms(2)
    by (auto simp: frame_def frame_header_def)
  then show ?thesis using assms(3) load_header [OF assms(4)] by (simp add: recv_frame_def)
qed

section \<open>Sequences of frames\<close>

fun send_frames :: "'s send_call \<Rightarrow> byte list list \<Rightarrow> 's \<Rightarrow> bool \<times> 's" where
  "send_frames snd_fn [] s = (True, s)"
| "send_frames snd_fn (p # ps) s =
     (let (ok, s') = send_frame True snd_fn p s in if \<not> ok then (False, s') else send_frames snd_fn ps s')"

fun recv_frames :: "'s recv_call \<Rightarrow> nat \<Rightarrow> 's \<Rightarrow> byte list list option \<times> 's" where
  "recv_frames rcv 0 s = (Some [], s)"
| "recv_frames rcv (Suc n) s =
     (case recv_frame True rcv s of
        (None, s') \<Rightarrow> (None, s')
      | (Some p, s') \<Rightarrow> (case recv_frames rcv n s' of
          (None, s'') \<Rightarrow> (None, s'') | (Some ps, s'') \<Rightarrow> (Some (p # ps), s'')))"

lemma send_frames_stream:
  assumes "send_stream pending snd_fn"
  shows "\<exists>s'. send_frames snd_fn ps s = (True, s') \<and> pending s' = pending s @ concat (map frame ps)"
proof (induction ps arbitrary: s)
  case (Cons p ps)
  obtain s1 where s1: "send_frame True snd_fn p s = (True, s1)" "pending s1 = pending s @ frame p"
    using send_frame_stream [OF assms] by blast
  obtain s2 where "send_frames snd_fn ps s1 = (True, s2)"
    "pending s2 = pending s1 @ concat (map frame ps)" using Cons.IH by blast
  with s1 show ?case by simp
qed simp

lemma recv_frames_stream:
  assumes "recv_stream pending rcv" and "\<forall>p \<in> set ps. length p \<le> frame_cap"
    and "pending s = concat (map frame ps) @ rest"
  shows "\<exists>s'. recv_frames rcv (length ps) s = (Some ps, s') \<and> pending s' = rest"
  using assms(2,3)
proof (induction ps arbitrary: s)
  case (Cons p ps)
  then obtain s1 where s1: "recv_frame True rcv s = (Some p, s1)"
    "pending s1 = concat (map frame ps) @ rest"
    using recv_frame_stream [OF assms(1), of s p "concat (map frame ps) @ rest"] by auto
  with Cons obtain s2 where "recv_frames rcv (length ps) s1 = (Some ps, s2)" "pending s2 = rest"
    by auto
  with s1 show ?case by simp
qed simp

section \<open>The transport contract\<close>

text \<open>
  C25: Any sequence of payloads within the cap, sent as frames over a connected stream, is
  received as that sequence, in order and unchanged, whatever chunks the socket calls take and
  deliver, and nothing is left on the stream.
\<close>

theorem frames_delivered:
  assumes "send_stream pending snd_fn" and "recv_stream pending rcv" and "pending s = []"
    and "\<forall>p \<in> set ps. length p \<le> frame_cap"
  shows "\<exists>s1 s2. send_frames snd_fn ps s = (True, s1) \<and>
     recv_frames rcv (length ps) s1 = (Some ps, s2) \<and> pending s2 = []"
proof -
  obtain s1 where s1: "send_frames snd_fn ps s = (True, s1)"
    "pending s1 = pending s @ concat (map frame ps)"
    using send_frames_stream [OF assms(1)] by blast
  then have "pending s1 = concat (map frame ps) @ []" using assms(3) by simp
  from recv_frames_stream [OF assms(2,4) this] s1 show ?thesis by blast
qed

text \<open>A stream whose state is its pending bytes: one byte is taken, at most two are delivered.\<close>

definition byte_send :: "byte list send_call" where
  "byte_send p s = (Some 1, s @ take 1 p)"

definition byte_recv :: "byte list recv_call" where
  "byte_recv n s = (Some (take (min 2 n) s), drop (min 2 n) s)"

lemma byte_stream: "send_stream (\<lambda>s. s) byte_send" "recv_stream (\<lambda>s. s) byte_recv"
  by (auto simp: send_stream_def recv_stream_def byte_send_def byte_recv_def Suc_le_eq)

theorem frames_delivered_witness:
  "\<exists>s1 s2. send_frames byte_send [[1, 2, 3], [], [255]] [] = (True, s1) \<and>
     recv_frames byte_recv (length [[1, 2, 3], [], [255 :: byte]]) s1
       = (Some [[1, 2, 3], [], [255]], s2) \<and> s2 = []"
  by (rule frames_delivered [OF byte_stream]) (simp_all add: frame_cap_def)

theorem recv_frame_corrupt_witness:
  "fst (recv_frame True byte_recv
     (frame_header [1, 2, 3] @ ([1, 2, 3] @ frame_check [1, 2, 3])[1 := 9] @ [])) = None"
  by (rule recv_frame_corrupt [OF byte_stream(2) _ refl]) (simp_all add: frame_cap_def)

end
