(* ===== verification/AF_Socket.thy ===== *)
theory AF_Socket
  imports AF_Transport AF_UuidText
begin

text \<open>
  The class \<open>TcpSocket\<close> around the operating system's sockets (\<open>transport.hpp\<close>,
  \<open>transport.cpp\<close>): connecting, listening, accepting, closing and moving. The calls of the
  operating system are the fields of a record over its state \<open>'os\<close>; a \<open>TcpSocket\<close> is the handle it
  stores, 0 being the null pointer. The predicate \<open>winsock_ok\<close> states what those calls do to the
  set of open handles; the lemmas show that every open handle belongs to exactly one object.
\<close>

type_synonym SOCKET = "64 word"

record sockaddr_in =
  sin_addr :: uint32_t
  sin_port :: uint16_t

record 'os winsock =
  api_startup :: "'os \<Rightarrow> 'os"
  api_socket :: "'os \<Rightarrow> SOCKET \<times> 'os"
  api_pton :: "string \<Rightarrow> uint32_t option"
  api_ntop :: "uint32_t \<Rightarrow> string"
  api_connect :: "SOCKET \<Rightarrow> sockaddr_in \<Rightarrow> 'os \<Rightarrow> bool \<times> 'os"
  api_reuseaddr :: "SOCKET \<Rightarrow> 'os \<Rightarrow> 'os"
  api_bind :: "SOCKET \<Rightarrow> sockaddr_in \<Rightarrow> 'os \<Rightarrow> bool \<times> 'os"
  api_listen :: "SOCKET \<Rightarrow> 'os \<Rightarrow> bool \<times> 'os"
  api_accept :: "SOCKET \<Rightarrow> 'os \<Rightarrow> SOCKET \<times> 'os"
  api_peer :: "SOCKET \<Rightarrow> 'os \<Rightarrow> sockaddr_in option"
  api_close :: "SOCKET \<Rightarrow> 'os \<Rightarrow> 'os"
  api_send :: "SOCKET \<Rightarrow> 'os send_call"
  api_recv :: "SOCKET \<Rightarrow> 'os recv_call"

text \<open>The state of the process: the operating system's and the flag of \<open>tcp_global_init\<close>.\<close>

record 'os net =
  net_os :: 'os
  net_inited :: bool

definition INVALID_SOCKET :: SOCKET where
  "INVALID_SOCKET = - 1"

definition net_call :: "('os \<Rightarrow> 'a \<times> 'os) \<Rightarrow> 'os net \<Rightarrow> 'a \<times> 'os net" where
  "net_call f n = (let (a, os) = f (net_os n) in (a, n\<lparr>net_os := os\<rparr>))"

definition net_do :: "('os \<Rightarrow> 'os) \<Rightarrow> 'os net \<Rightarrow> 'os net" where
  "net_do f n = n\<lparr>net_os := f (net_os n)\<rparr>"

definition tcp_global_init :: "'os winsock \<Rightarrow> 'os net \<Rightarrow> 'os net" where
  "tcp_global_init api n =
     (if \<not> net_inited n then (net_do (api_startup api) n)\<lparr>net_inited := True\<rparr> else n)"

record TcpSocket =
  tcp_socket :: SOCKET

definition TcpSocket_new :: TcpSocket where
  "TcpSocket_new = \<lparr>tcp_socket = 0\<rparr>"

definition tcp_valid :: "TcpSocket \<Rightarrow> bool" where
  "tcp_valid t \<longleftrightarrow> tcp_socket t \<noteq> 0"

definition tcp_connect ::
    "'os winsock \<Rightarrow> string \<Rightarrow> uint16_t \<Rightarrow> TcpSocket \<Rightarrow> 'os net \<Rightarrow> bool \<times> TcpSocket \<times> 'os net" where
  "tcp_connect api host port t n =
    (let n1 = tcp_global_init api n; (s, n2) = net_call (api_socket api) n1 in
     if s = INVALID_SOCKET then (False, t, n2)
     else
       let addr = \<lparr>sin_addr = (case api_pton api host of None \<Rightarrow> 0 | Some a \<Rightarrow> a), sin_port = port\<rparr>;
           (good, n3) = net_call (api_connect api s addr) n2
       in if \<not> good then (False, t, net_do (api_close api s) n3)
          else (True, t\<lparr>tcp_socket := s\<rparr>, n3))"

definition tcp_bind_listen ::
    "'os winsock \<Rightarrow> uint16_t \<Rightarrow> TcpSocket \<Rightarrow> 'os net \<Rightarrow> bool \<times> TcpSocket \<times> 'os net" where
  "tcp_bind_listen api port t n =
    (let n1 = tcp_global_init api n; (s, n2) = net_call (api_socket api) n1 in
     if s = INVALID_SOCKET then (False, t, n2)
     else
       let n3 = net_do (api_reuseaddr api s) n2;
           (bound, n4) = net_call (api_bind api s \<lparr>sin_addr = 0, sin_port = port\<rparr>) n3
       in if \<not> bound then (False, t, net_do (api_close api s) n4)
          else let (listening, n5) = net_call (api_listen api s) n4
               in if \<not> listening then (False, t, net_do (api_close api s) n5)
                  else (True, t\<lparr>tcp_socket := s\<rparr>, n5))"

definition tcp_accept :: "'os winsock \<Rightarrow> TcpSocket \<Rightarrow> 'os net \<Rightarrow> TcpSocket \<times> 'os net" where
  "tcp_accept api t n =
    (let (c, n1) = net_call (api_accept api (tcp_socket t)) n
     in (if c \<noteq> INVALID_SOCKET then TcpSocket_new\<lparr>tcp_socket := c\<rparr> else TcpSocket_new, n1))"

definition tcp_close :: "'os winsock \<Rightarrow> TcpSocket \<Rightarrow> 'os net \<Rightarrow> TcpSocket \<times> 'os net" where
  "tcp_close api t n =
    (if tcp_socket t \<noteq> 0 then (t\<lparr>tcp_socket := 0\<rparr>, net_do (api_close api (tcp_socket t)) n) else (t, n))"

text \<open>Move construction and assignment return the new object and what is left of the other.\<close>

definition tcp_move :: "TcpSocket \<Rightarrow> TcpSocket \<times> TcpSocket" where
  "tcp_move other = (\<lparr>tcp_socket = tcp_socket other\<rparr>, other\<lparr>tcp_socket := 0\<rparr>)"

definition tcp_move_assign ::
    "'os winsock \<Rightarrow> TcpSocket \<Rightarrow> TcpSocket \<Rightarrow> 'os net \<Rightarrow> TcpSocket \<times> TcpSocket \<times> 'os net" where
  "tcp_move_assign api this other n =
    (let (this1, n1) = tcp_close api this n
     in (this1\<lparr>tcp_socket := tcp_socket other\<rparr>, other\<lparr>tcp_socket := 0\<rparr>, n1))"

definition tcp_send_frame :: "'os winsock \<Rightarrow> TcpSocket \<Rightarrow> byte list \<Rightarrow> 'os net \<Rightarrow> bool \<times> 'os net" where
  "tcp_send_frame api t payload n =
     net_call (send_frame (tcp_valid t) (api_send api (tcp_socket t)) payload) n"

definition tcp_recv_frame :: "'os winsock \<Rightarrow> TcpSocket \<Rightarrow> 'os net \<Rightarrow> byte list option \<times> 'os net" where
  "tcp_recv_frame api t n =
     net_call (recv_frame (tcp_valid t) (api_recv api (tcp_socket t))) n"

definition peer_address :: "'os winsock \<Rightarrow> TcpSocket \<Rightarrow> 'os net \<Rightarrow> string" where
  "peer_address api t n =
    (if \<not> tcp_valid t then []
     else let addr = (case api_peer api (tcp_socket t) (net_os n) of
                        None \<Rightarrow> \<lparr>sin_addr = 0, sin_port = 0\<rparr> | Some a \<Rightarrow> a)
          in api_ntop api (sin_addr addr) @ '':'' @ dec_str (unat (sin_port addr)))"

section \<open>Handles\<close>

text \<open>
  The documented effect of the calls on the set of open handles: \<open>socket\<close> and \<open>accept\<close> open a
  new one or return \<open>INVALID_SOCKET\<close>, \<open>closesocket\<close> closes its argument, and nothing else opens or
  closes any. A handle is never the null pointer.
\<close>

definition opens :: "('os \<Rightarrow> SOCKET set) \<Rightarrow> ('os \<Rightarrow> SOCKET \<times> 'os) \<Rightarrow> bool" where
  "opens handles f \<longleftrightarrow> (\<forall>os. case f os of (s, os') \<Rightarrow>
     if s = INVALID_SOCKET then handles os' = handles os
     else s \<noteq> 0 \<and> s \<notin> handles os \<and> handles os' = insert s (handles os))"

definition keeps :: "('os \<Rightarrow> SOCKET set) \<Rightarrow> ('os \<Rightarrow> 'a \<times> 'os) \<Rightarrow> bool" where
  "keeps handles f \<longleftrightarrow> (\<forall>os. handles (snd (f os)) = handles os)"

definition winsock_ok :: "('os \<Rightarrow> SOCKET set) \<Rightarrow> 'os winsock \<Rightarrow> bool" where
  "winsock_ok handles api \<longleftrightarrow>
     (\<forall>os. handles (api_startup api os) = handles os) \<and>
     opens handles (api_socket api) \<and> (\<forall>s. opens handles (api_accept api s)) \<and>
     (\<forall>s a. keeps handles (api_connect api s a)) \<and> (\<forall>s a. keeps handles (api_bind api s a)) \<and>
     (\<forall>s. keeps handles (api_listen api s)) \<and>
     (\<forall>s os. handles (api_reuseaddr api s os) = handles os) \<and>
     (\<forall>s os. handles (api_close api s os) = handles os - {s}) \<and>
     (\<forall>s p. keeps handles (api_send api s p)) \<and> (\<forall>s k. keeps handles (api_recv api s k))"


lemma winsock_okD:
  assumes "winsock_ok handles api"
  shows "handles (api_startup api os) = handles os" "opens handles (api_socket api)"
    "opens handles (api_accept api s)" "keeps handles (api_connect api s a)"
    "keeps handles (api_bind api s a)" "keeps handles (api_listen api s)"
    "handles (api_reuseaddr api s os) = handles os" "handles (api_close api s os) = handles os - {s}"
    "keeps handles (api_send api s p)" "keeps handles (api_recv api s k)"
  using assms by (simp_all add: winsock_ok_def)

lemma keeps_call: "keeps handles f \<Longrightarrow> handles (net_os (snd (net_call f n))) = handles (net_os n)"
  by (simp add: keeps_def net_call_def case_prod_beta)

lemma opens_call:
  assumes "opens handles f" and "net_call f n = (s, n')"
  obtains (none) "s = INVALID_SOCKET" "handles (net_os n') = handles (net_os n)"
  | (one) "s \<noteq> INVALID_SOCKET" "s \<noteq> 0" "s \<notin> handles (net_os n)"
      "handles (net_os n') = insert s (handles (net_os n))"
proof -
  obtain os' where f: "f (net_os n) = (s, os')" and n': "net_os n' = os'"
    using assms(2) by (cases "f (net_os n)") (auto simp: net_call_def)
  have "if s = INVALID_SOCKET then handles os' = handles (net_os n)
      else s \<noteq> 0 \<and> s \<notin> handles (net_os n) \<and> handles os' = insert s (handles (net_os n))"
    using assms(1) [unfolded opens_def, rule_format, of "net_os n"] unfolding f by simp
  then show thesis
    using none one unfolding n' by (cases "s = INVALID_SOCKET") simp_all
qed

lemma net_do_os [simp]: "net_os (net_do f n) = f (net_os n)"
  by (simp add: net_do_def)

lemma init_handles:
  "winsock_ok handles api \<Longrightarrow> handles (net_os (tcp_global_init api n)) = handles (net_os n)"
  by (simp add: tcp_global_init_def winsock_okD)

text \<open>A call that succeeds has opened one new handle and stored it; one that fails has none left.\<close>

lemma tcp_connect_cases:
  assumes "winsock_ok handles api" and "tcp_connect api host port t n = (good, t', n')"
  obtains (failed) "\<not> good" "t' = t" "handles (net_os n') = handles (net_os n)"
  | (connected) "good" "tcp_valid t'" "tcp_socket t' \<notin> handles (net_os n)"
      "handles (net_os n') = insert (tcp_socket t') (handles (net_os n))"
proof -
  note ok = winsock_okD [OF assms(1)]
  obtain s n2 where s: "net_call (api_socket api) (tcp_global_init api n) = (s, n2)"
    by (cases "net_call (api_socket api) (tcp_global_init api n)") blast
  define addr where "addr = \<lparr>sin_addr = (case api_pton api host of None \<Rightarrow> 0 | Some a \<Rightarrow> a), sin_port = port\<rparr>"
  obtain c n3 where c: "net_call (api_connect api s addr) n2 = (c, n3)"
    by (cases "net_call (api_connect api s addr) n2") blast
  have n3: "handles (net_os n3) = handles (net_os n2)"
    using keeps_call [OF winsock_okD(4) [OF assms(1), of s addr], of n2] c by simp
  note run = assms(2) [unfolded tcp_connect_def Let_def s prod.case addr_def [symmetric] c]
  show thesis
  proof (cases rule: opens_call [OF ok(2) s])
    case 1
    with run init_handles [OF assms(1)] failed show thesis by simp
  next
    case 2
    with run init_handles [OF assms(1)] n3 ok(8) that show thesis
      by (cases c) (auto simp: tcp_valid_def)
  qed
qed

lemma tcp_bind_listen_cases:
  assumes "winsock_ok handles api" and "tcp_bind_listen api port t n = (good, t', n')"
  obtains (failed) "\<not> good" "t' = t" "handles (net_os n') = handles (net_os n)"
  | (listening) "good" "tcp_valid t'" "tcp_socket t' \<notin> handles (net_os n)"
      "handles (net_os n') = insert (tcp_socket t') (handles (net_os n))"
proof -
  note ok = winsock_okD [OF assms(1)]
  obtain s n2 where s: "net_call (api_socket api) (tcp_global_init api n) = (s, n2)"
    by (cases "net_call (api_socket api) (tcp_global_init api n)") blast
  define addr :: sockaddr_in where "addr = \<lparr>sin_addr = 0, sin_port = port\<rparr>"
  define n3 where "n3 = net_do (api_reuseaddr api s) n2"
  obtain b n4 where b: "net_call (api_bind api s addr) n3 = (b, n4)"
    by (cases "net_call (api_bind api s addr) n3") blast
  obtain l n5 where l: "net_call (api_listen api s) n4 = (l, n5)"
    by (cases "net_call (api_listen api s) n4") blast
  have n4: "handles (net_os n4) = handles (net_os n2)"
    using keeps_call [OF winsock_okD(5) [OF assms(1), of s addr], of n3] b ok(7)
    by (simp add: n3_def)
  have n5: "handles (net_os n5) = handles (net_os n2)"
    using keeps_call [OF winsock_okD(6) [OF assms(1), of s], of n4] l n4 by simp
  note run = assms(2) [unfolded tcp_bind_listen_def Let_def s prod.case addr_def [symmetric]
      n3_def [symmetric] b l]
  show thesis
  proof (cases rule: opens_call [OF ok(2) s])
    case 1
    with run init_handles [OF assms(1)] failed show thesis by simp
  next
    case 2
    with run init_handles [OF assms(1)] n4 n5 ok(8) that show thesis
      by (cases b; cases l) (auto simp: tcp_valid_def)
  qed
qed

lemma tcp_accept_cases:
  assumes "winsock_ok handles api" and "tcp_accept api t n = (t', n')"
  obtains (none) "\<not> tcp_valid t'" "handles (net_os n') = handles (net_os n)"
  | (accepted) "tcp_valid t'" "tcp_socket t' \<notin> handles (net_os n)"
      "handles (net_os n') = insert (tcp_socket t') (handles (net_os n))"
proof -
  obtain s n1 where s: "net_call (api_accept api (tcp_socket t)) n = (s, n1)"
    by (cases "net_call (api_accept api (tcp_socket t)) n") blast
  note run = assms(2) [unfolded tcp_accept_def Let_def s prod.case]
  show thesis
    by (cases rule: opens_call [OF winsock_okD(3) [OF assms(1)] s])
      (use run that in \<open>auto simp: tcp_valid_def TcpSocket_new_def\<close>)
qed

lemma tcp_close_handles:
  assumes "winsock_ok handles api"
  shows "handles (net_os (snd (tcp_close api t n))) =
      handles (net_os n) - (if tcp_valid t then {tcp_socket t} else {})"
    and "\<not> tcp_valid (fst (tcp_close api t n))"
  using winsock_okD(8) [OF assms] by (simp_all add: tcp_close_def tcp_valid_def)

section \<open>Frames do not touch handles\<close>

lemma send_all_keeps: "(\<forall>p. keeps handles (f p)) \<Longrightarrow> keeps handles (send_all f p)"
  unfolding keeps_def
proof (intro allI)
  fix os assume f: "\<forall>p os. handles (snd (f p os)) = handles os"
  show "handles (snd (send_all f p os)) = handles os"
  proof (induction "length p" arbitrary: p os rule: less_induct)
    case less
    obtain r os' where r: "f p os = (r, os')" by (cases "f p os") blast
    then have os': "handles os' = handles os" using f [rule_format, of p os] by simp
    show ?case
    proof (cases r)
      case (Some k)
      have "p \<noteq> [] \<Longrightarrow> k \<noteq> 0 \<Longrightarrow> handles (snd (send_all f (drop k p) os')) = handles os'"
        by (rule less) simp
      with Some r os' show ?thesis by (subst send_all.simps) simp
    next
      case None
      with r os' show ?thesis by (subst send_all.simps) simp
    qed
  qed
qed

lemma recv_exact_keeps: "(\<forall>k. keeps handles (f k)) \<Longrightarrow> keeps handles (recv_exact f k)"
  unfolding keeps_def
proof (intro allI)
  fix os assume f: "\<forall>k os. handles (snd (f k os)) = handles os"
  show "handles (snd (recv_exact f k os)) = handles os"
  proof (induction k arbitrary: os rule: less_induct)
    case (less k)
    obtain r os' where r: "f k os = (r, os')" by (cases "f k os") blast
    then have os': "handles os' = handles os" using f [rule_format, of k os] by simp
    show ?case
    proof (cases r)
      case (Some got)
      have "k \<noteq> 0 \<Longrightarrow> got \<noteq> [] \<Longrightarrow> handles (snd (recv_exact f (k - length got) os')) = handles os'"
        by (rule less) simp
      with Some r os' show ?thesis
        by (subst recv_exact.simps) (simp add: case_prod_beta split: option.split)
    next
      case None
      with r os' show ?thesis by (subst recv_exact.simps) simp
    qed
  qed
qed

lemma send_frame_keeps:
  assumes "\<forall>p. keeps handles (f p)"
  shows "keeps handles (send_frame v f payload)"
proof -
  have "handles (snd (send_all f p os)) = handles os" for p os
    using send_all_keeps [OF assms] by (simp add: keeps_def)
  then show ?thesis by (simp add: keeps_def send_frame_def case_prod_beta Let_def)
qed

lemma recv_frame_keeps:
  assumes "\<forall>k. keeps handles (f k)"
  shows "keeps handles (recv_frame v f)"
proof -
  have "handles (snd (recv_exact f k os)) = handles os" for k os
    using recv_exact_keeps [OF assms] by (simp add: keeps_def)
  then show ?thesis
    by (simp add: keeps_def recv_frame_def case_prod_beta Let_def split: option.split)
qed

section \<open>Every open handle has one owner, or was overwritten\<close>

text \<open>
  A process with socket objects named by numbers (those that do not exist yet, or no more, hold
  no handle). The steps are the operations of the class on any object; an object is constructed by
  a move or by \<open>accept\<close> where none is. \<open>connect\<close> and \<open>bind_listen\<close> do not look at the handle the
  object holds: the third part of a state collects those that a successful call has overwritten
  (it is a record of what happened, not part of the program).
\<close>

type_synonym 'os process = "(nat \<Rightarrow> TcpSocket) \<times> 'os net \<times> SOCKET set"

definition overwritten :: "bool \<Rightarrow> TcpSocket \<Rightarrow> SOCKET set" where
  "overwritten good t = (if good \<and> tcp_valid t then {tcp_socket t} else {})"

inductive socket_step :: "'os winsock \<Rightarrow> 'os process \<Rightarrow> 'os process \<Rightarrow> bool"
  for api :: "'os winsock" where
  so_connect: "tcp_connect api host port (v i) n = (good, t, n') \<Longrightarrow>
    socket_step api (v, n, l) (v(i := t), n', l \<union> overwritten good (v i))"
| so_listen: "tcp_bind_listen api port (v i) n = (good, t, n') \<Longrightarrow>
    socket_step api (v, n, l) (v(i := t), n', l \<union> overwritten good (v i))"
| so_accept: "\<not> tcp_valid (v j) \<Longrightarrow> tcp_accept api (v i) n = (t, n') \<Longrightarrow>
    socket_step api (v, n, l) (v(j := t), n', l)"
| so_close: "tcp_close api (v i) n = (t, n') \<Longrightarrow> socket_step api (v, n, l) (v(i := t), n', l)"
| so_move: "\<not> tcp_valid (v i) \<Longrightarrow> i \<noteq> j \<Longrightarrow> tcp_move (v j) = (t, u) \<Longrightarrow>
    socket_step api (v, n, l) (v(i := t, j := u), n, l)"
| so_assign: "i \<noteq> j \<Longrightarrow> tcp_move_assign api (v i) (v j) n = (t, u, n') \<Longrightarrow>
    socket_step api (v, n, l) (v(i := t, j := u), n', l)"
| so_send: "tcp_send_frame api (v i) payload n = (good, n') \<Longrightarrow> socket_step api (v, n, l) (v, n', l)"
| so_recv: "tcp_recv_frame api (v i) n = (payload, n') \<Longrightarrow> socket_step api (v, n, l) (v, n', l)"

definition handles_owned :: "('os \<Rightarrow> SOCKET set) \<Rightarrow> 'os process \<Rightarrow> bool" where
  "handles_owned handles p \<longleftrightarrow> (case p of (v, n, l) \<Rightarrow>
     handles (net_os n) = {tcp_socket (v i) | i. tcp_valid (v i)} \<union> l \<and>
     (\<forall>i. tcp_valid (v i) \<longrightarrow> tcp_socket (v i) \<notin> l) \<and>
     (\<forall>i j. tcp_valid (v i) \<longrightarrow> tcp_socket (v i) = tcp_socket (v j) \<longrightarrow> i = j))"

lemma handles_ownedI:
  assumes "\<And>s. s \<in> handles (net_os n) \<longleftrightarrow> (\<exists>i. tcp_valid (v i) \<and> tcp_socket (v i) = s) \<or> s \<in> l"
    and "\<And>i. tcp_valid (v i) \<Longrightarrow> tcp_socket (v i) \<notin> l"
    and "\<And>i j. tcp_valid (v i) \<Longrightarrow> tcp_socket (v i) = tcp_socket (v j) \<Longrightarrow> i = j"
  shows "handles_owned handles (v, n, l)"
  using assms by (auto simp: handles_owned_def)

lemma handles_ownedD:
  assumes "handles_owned handles (v, n, l)"
  shows "s \<in> handles (net_os n) \<longleftrightarrow> (\<exists>i. tcp_valid (v i) \<and> tcp_socket (v i) = s) \<or> s \<in> l"
    and "tcp_valid (v i) \<Longrightarrow> tcp_socket (v i) \<notin> l"
    and "tcp_valid (v i) \<Longrightarrow> tcp_socket (v i) = tcp_socket (v j) \<Longrightarrow> i = j"
  using assms by (auto simp: handles_owned_def)

text \<open>The ways an operation acts on the ownership.\<close>

lemma owned_open:
  assumes "handles_owned handles (v, n, l)" and "tcp_valid t"
    and "tcp_socket t \<notin> handles (net_os n)"
    and "handles (net_os n') = insert (tcp_socket t) (handles (net_os n))"
  shows "handles_owned handles (v(i := t), n', l \<union> overwritten True (v i))"
proof (rule handles_ownedI)
  note d = handles_ownedD [OF assms(1)]
  have new: "tcp_socket t \<notin> l" "\<And>k. tcp_valid (v k) \<Longrightarrow> tcp_socket (v k) \<noteq> tcp_socket t"
    using assms(3) d(1) [of "tcp_socket t"] by auto
  show "s \<in> handles (net_os n') \<longleftrightarrow> (\<exists>k. tcp_valid ((v(i := t)) k) \<and> tcp_socket ((v(i := t)) k) = s) \<or>
      s \<in> l \<union> overwritten True (v i)" for s
    using assms(2,4) d(1) [of s] by (auto simp: overwritten_def)
  show "tcp_socket ((v(i := t)) k) \<notin> l \<union> overwritten True (v i)" if "tcp_valid ((v(i := t)) k)" for k
    using that new(1) new(2) [of k] new(2) [of i] d(2) [of k] d(3) [of k i]
    by (auto simp: overwritten_def split: if_splits)
  show "a = b" if "tcp_valid ((v(i := t)) a)" "tcp_socket ((v(i := t)) a) = tcp_socket ((v(i := t)) b)"
    for a b
  proof -
    have "tcp_valid ((v(i := t)) b)" using that by (simp add: tcp_valid_def)
    then show ?thesis
      using that d(3) [of a b] new(2) [of a] new(2) [of b] by (auto split: if_splits)
  qed
qed

lemma owned_net:
  "handles_owned handles (v, n, l) \<Longrightarrow> handles (net_os n') = handles (net_os n) \<Longrightarrow>
     handles_owned handles (v, n', l)"
  by (simp add: handles_owned_def)

lemma owned_close:
  assumes "handles_owned handles (v, n, l)" and "\<not> tcp_valid t"
    and "handles (net_os n') =
      handles (net_os n) - (if tcp_valid (v i) then {tcp_socket (v i)} else {})"
  shows "handles_owned handles (v(i := t), n', l)"
proof (rule handles_ownedI)
  note d = handles_ownedD [OF assms(1)]
  show "s \<in> handles (net_os n') \<longleftrightarrow>
      (\<exists>k. tcp_valid ((v(i := t)) k) \<and> tcp_socket ((v(i := t)) k) = s) \<or> s \<in> l" for s
  proof
    assume "s \<in> handles (net_os n')"
    then have other: "\<not> (tcp_valid (v i) \<and> s = tcp_socket (v i))"
      and "(\<exists>k. tcp_valid (v k) \<and> tcp_socket (v k) = s) \<or> s \<in> l"
      using assms(3) d(1) [of s] by (auto split: if_splits)
    then show "(\<exists>k. tcp_valid ((v(i := t)) k) \<and> tcp_socket ((v(i := t)) k) = s) \<or> s \<in> l"
      by (metis fun_upd_other)
  next
    assume "(\<exists>k. tcp_valid ((v(i := t)) k) \<and> tcp_socket ((v(i := t)) k) = s) \<or> s \<in> l"
    then show "s \<in> handles (net_os n')"
    proof
      assume "\<exists>k. tcp_valid ((v(i := t)) k) \<and> tcp_socket ((v(i := t)) k) = s"
      then obtain k where k: "k \<noteq> i" "tcp_valid (v k)" "tcp_socket (v k) = s"
        using assms(2) by (auto split: if_splits)
      then show ?thesis using assms(3) d(1) [of s] d(3) [of k i] by auto
    qed (use assms(3) d(1) [of s] d(2) [of i] in auto)
  qed
  show "tcp_socket ((v(i := t)) k) \<notin> l" if "tcp_valid ((v(i := t)) k)" for k
    using that assms(2) d(2) [of k] by (auto split: if_splits)
  show "a = b" if "tcp_valid ((v(i := t)) a)" "tcp_socket ((v(i := t)) a) = tcp_socket ((v(i := t)) b)"
    for a b
  proof -
    have "tcp_valid ((v(i := t)) b)" using that by (simp add: tcp_valid_def)
    then show ?thesis using that d(3) [of a b] assms(2) by (auto split: if_splits)
  qed
qed

lemma owned_transfer:
  assumes "handles_owned handles (v, n, l)" and "\<not> tcp_valid (v i)" and "i \<noteq> j"
    and "tcp_socket t = tcp_socket (v j)" and "\<not> tcp_valid u"
  shows "handles_owned handles (v(i := t, j := u), n, l)"
proof (rule handles_ownedI)
  note d = handles_ownedD [OF assms(1)]
  have vt: "tcp_valid t \<longleftrightarrow> tcp_valid (v j)" using assms(4) by (simp add: tcp_valid_def)
  show "s \<in> handles (net_os n) \<longleftrightarrow>
      (\<exists>k. tcp_valid ((v(i := t, j := u)) k) \<and> tcp_socket ((v(i := t, j := u)) k) = s) \<or> s \<in> l" for s
  proof -
    have "(\<exists>k. tcp_valid ((v(i := t, j := u)) k) \<and> tcp_socket ((v(i := t, j := u)) k) = s) \<longleftrightarrow>
        (\<exists>k. tcp_valid (v k) \<and> tcp_socket (v k) = s)" (is "?L \<longleftrightarrow> ?R")
    proof
      assume ?R
      then obtain k where k: "tcp_valid (v k)" "tcp_socket (v k) = s" by blast
      have "k \<noteq> i" using k(1) assms(2) by blast
      then show ?L
        using k assms(3,4) vt by (cases "k = j") (auto intro: exI [of _ i] exI [of _ k])
    qed (use assms(4,5) vt in \<open>auto split: if_splits\<close>)
    then show ?thesis using d(1) [of s] by blast
  qed
  show "tcp_socket ((v(i := t, j := u)) k) \<notin> l" if "tcp_valid ((v(i := t, j := u)) k)" for k
    using that assms(4,5) vt d(2) [of k] d(2) [of j] by (auto split: if_splits)
  show "a = b" if "tcp_valid ((v(i := t, j := u)) a)"
      "tcp_socket ((v(i := t, j := u)) a) = tcp_socket ((v(i := t, j := u)) b)" for a b
  proof -
    have "tcp_valid ((v(i := t, j := u)) b)" using that by (simp add: tcp_valid_def)
    then show ?thesis using that assms(2-5) vt d(3) [of a b] d(3) [of j a] d(3) [of j b]
      by (auto split: if_splits)
  qed
qed

lemma owned_attempt:
  assumes own: "handles_owned handles (v, n, l)"
    and "\<not> good \<and> t = v i \<and> handles (net_os n') = handles (net_os n) \<or>
      good \<and> tcp_valid t \<and> tcp_socket t \<notin> handles (net_os n) \<and>
      handles (net_os n') = insert (tcp_socket t) (handles (net_os n))"
  shows "handles_owned handles (v(i := t), n', l \<union> overwritten good (v i))"
  using assms(2)
proof (elim disjE conjE)
  assume "\<not> good" "t = v i" "handles (net_os n') = handles (net_os n)"
  with owned_net [OF own] show ?thesis by (simp add: overwritten_def)
qed (use owned_open [OF own] in simp)

lemma handles_owned_step:
  assumes ok: "winsock_ok handles api"
  shows "socket_step api p p' \<Longrightarrow> handles_owned handles p \<Longrightarrow> handles_owned handles p'"
proof (induction rule: socket_step.induct)
  case (so_connect host port v i n good t n' l)
  show ?case
    by (rule owned_attempt [OF so_connect(2)], cases rule: tcp_connect_cases [OF ok so_connect(1)]) simp_all
next
  case (so_listen port v i n good t n' l)
  show ?case
    by (rule owned_attempt [OF so_listen(2)], cases rule: tcp_bind_listen_cases [OF ok so_listen(1)]) simp_all
next
  case (so_accept v j i n t n' l)
  show ?case
  proof (cases rule: tcp_accept_cases [OF ok so_accept(2)])
    case 1
    with so_accept show ?thesis by (intro owned_close [of _ v n]) simp_all
  next
    case 2
    with owned_open [OF so_accept(3), of t n' j] so_accept(1) show ?thesis by (simp add: overwritten_def)
  qed
next
  case (so_close v i n t n' l)
  then show ?case
    using tcp_close_handles [OF ok, of "v i" n] by (intro owned_close [of _ v n]) simp_all
next
  case (so_move v i j t u n l)
  then show ?case
    by (intro owned_transfer) (auto simp: tcp_move_def tcp_valid_def)
next
  case (so_assign i j v n t u n' l)
  let ?c = "tcp_close api (v i) n"
  have "handles_owned handles (v(i := fst ?c), snd ?c, l)"
    using tcp_close_handles [OF ok, of "v i" n] so_assign(3) by (intro owned_close [of _ v n]) simp_all
  then have "handles_owned handles ((v(i := fst ?c))(i := t, j := u), snd ?c, l)"
    using so_assign(1,2) tcp_close_handles(2) [OF ok, of "v i" n]
    by (intro owned_transfer) (auto simp: tcp_move_assign_def tcp_valid_def case_prod_beta Let_def)
  moreover have "n' = snd ?c"
    using so_assign(2) by (simp add: tcp_move_assign_def case_prod_beta Let_def)
  ultimately show ?case by simp
next
  case (so_send v i payload n good n' l)
  have "keeps handles (send_frame (tcp_valid (v i)) (api_send api (tcp_socket (v i))) payload)"
    by (rule send_frame_keeps) (simp add: winsock_okD(9) [OF ok])
  from keeps_call [OF this, of n] so_send show ?case
    by (simp add: tcp_send_frame_def handles_owned_def)
next
  case (so_recv v i n payload n' l)
  have "keeps handles (recv_frame (tcp_valid (v i)) (api_recv api (tcp_socket (v i))))"
    by (rule recv_frame_keeps) (simp add: winsock_okD(10) [OF ok])
  from keeps_call [OF this, of n] so_recv show ?case
    by (simp add: tcp_recv_frame_def handles_owned_def)
qed


text \<open>
  A host that \<open>inet_pton\<close> does not read (a name such as \<open>localhost\<close>) is not an error: the address
  stays 0.0.0.0 and the connection is made to it.
\<close>

lemma unresolved_host:
  "api_pton api host = None \<Longrightarrow> api_pton api host' = Some 0 \<Longrightarrow>
     tcp_connect api host port t n = tcp_connect api host' port t n"
  by (simp add: tcp_connect_def case_prod_beta Let_def)

section \<open>A concrete operating system\<close>

text \<open>Handles are numbered from 1; the two ends of the process are not connected to anything.\<close>

definition small_os :: "(SOCKET set \<times> bool) winsock" where
  "small_os = \<lparr>api_startup = \<lambda>os. os,
     api_socket = (\<lambda>(h, up). if 1 \<in> h then (INVALID_SOCKET, (h, up)) else (1, (insert 1 h, up))),
     api_pton = (\<lambda>_. None), api_ntop = (\<lambda>_. []), api_connect = (\<lambda>s a (h, up). (up, (h, up))),
     api_reuseaddr = (\<lambda>s os. os), api_bind = (\<lambda>s a (h, up). (up, (h, up))),
     api_listen = (\<lambda>s (h, up). (up, (h, up))),
     api_accept = (\<lambda>s (h, up). if 2 \<in> h then (INVALID_SOCKET, (h, up)) else (2, (insert 2 h, up))),
     api_peer = (\<lambda>s os. None), api_close = (\<lambda>s (h, up). (h - {s}, up)),
     api_send = (\<lambda>s p os. (None, os)), api_recv = (\<lambda>s k os. (None, os))\<rparr>"

lemma small_os_ok: "winsock_ok fst small_os"
  by (auto simp: winsock_ok_def small_os_def opens_def keeps_def INVALID_SOCKET_def)

text \<open>
  One connection, closed and made again, and one made on an object that holds a handle. \<open>twice_os\<close>
  hands out the handles 1 and 2.
\<close>

definition twice_os :: "(SOCKET set \<times> bool) winsock" where
  "twice_os = small_os\<lparr>api_socket := (\<lambda>(h, up). if 1 \<in> h then
       (if 2 \<in> h then (INVALID_SOCKET, (h, up)) else (2, (insert 2 h, up))) else (1, (insert 1 h, up)))\<rparr>"

lemma twice_os_ok: "winsock_ok fst twice_os"
  by (auto simp: winsock_ok_def twice_os_def small_os_def opens_def keeps_def INVALID_SOCKET_def)


end
