(* ===== verification/AF_Limits.thy ===== *)
theory AF_Limits
  imports AF_Transport AF_Scenario
begin

text \<open>
  Sizes on the wire: how many bytes a message and a snapshot take, which inputs are too short to be
  one, and what the 64 MiB cap of \<open>recv_frame\<close> (\<open>transport.cpp\<close>) means for the answers of the
  coordinator (\<open>coordinator.cpp\<close>). \<open>send_frame\<close> has no such cap, so the limit is one of the receiver.
\<close>

section \<open>Messages\<close>

definition message_size :: "Message \<Rightarrow> nat" where
  "message_size m = 62 + length (m_text m) + length (m_text2 m) + length (m_text3 m)
     + length (m_text4 m) + length (m_payload m)"

lemma length_out_payload [simp]: "length (out w_payload p) = 4 + length p"
  by (simp add: out_def [of w_payload] w_payload_def BinWriter_empty_def out_prims)

lemma length_encode_message [simp]: "length (encode_message m) = message_size m"
  by (simp add: protocol_document write_document_layout out_def [of write_message] write_message_def
      BinWriter_empty_def message_size_def out_prims)

text \<open>What a document of a reader is, for any relation that its reads keep.\<close>

lemma document_reads:
  assumes "reads R get" and "read_document get data = Inr x"
  obtains c where "R x c" "length data = length c + 8"
proof (cases rule: reader_new_cases [of data])
  case (good payload)
  let ?tail = "store_le 8 (fnv1a_64 fnv_basis payload)"
  obtain r where g: "get (Rd [] payload ?tail) = Inr (x, r)"
    and e: "rd_pos r = length (rd_data r) - 8"
    using assms(2) good(1) unfolding read_document_def good(2)
    by (auto simp: bindE_Inr_iff r_expect_end_def throw_def split: if_splits)
  from readsD [OF assms(1) g] obtain c suf where
    c: "payload = c @ suf" "r = Rd ([] @ c) suf ?tail" "R x c" by blast
  with e have "suf = []" by simp
  with c good(1) show ?thesis by (intro that [of c]) simp_all
qed (use assms(2) in \<open>auto simp: read_document_def throw_def\<close>)

lemma u8_size: "reads (\<lambda>v c. length c = 1) r_u8"
  by (rule reads_weaken [OF u8.get_exact]) (simp add: out_prims)

lemma u64_size: "reads (\<lambda>v c. length c = 8) r_u64"
  by (rule reads_weaken [OF u64.get_exact]) (simp add: out_prims)

lemma string_size: "reads (\<lambda>s c. length c = 4 + length s) r_string"
  by (rule reads_weaken [OF str.get_exact]) (simp add: out_prims)

lemma bool_size: "reads (\<lambda>b c. length c = 1) r_bool"
  unfolding r_bool_def by (rule reads_bind [OF u8_size], rule reads_return) simp

lemma payload_size: "reads (\<lambda>p c. length c = 4 + length p) r_payload"
  unfolding r_payload_def
proof (rule reads_bind [OF u32.get_exact], rule readsI)
  fix n :: uint32_t and c pre bs tail p r'
  assume c: "c = out w_u32 n"
    and "(if unat n > length (rd_data (Rd pre bs tail))
      then throw EC_malformed ''payload length exceeds message''
      else r_bytes (unat n) (Rd pre bs tail)) = Inr (p, r')"
  then have "r_bytes (unat n) (Rd pre bs tail) = Inr (p, r')"
    by (auto simp: throw_def split: if_splits)
  from readsD [OF r_bytes_reads this] obtain d suf where
    "bs = d @ suf" "r' = Rd (pre @ d) suf tail" "p = d \<and> length d = unat n" by blast
  with c show "\<exists>d suf. bs = d @ suf \<and> r' = Rd (pre @ d) suf tail \<and> length (c @ d) = 4 + length p"
    by (intro exI [of _ d] exI [of _ suf]) (simp add: out_prims)
qed

lemmas sizes = u8_size u64_size string_size bool_size payload_size

lemma read_message_size: "reads (\<lambda>m c. length c + 8 = message_size m) read_message"
  unfolding read_message_def
  by (rule reads_bind, rule sizes)+ (rule reads_return, simp add: message_size_def)

lemma decode_message_size:
  assumes "decode_message data = Inr m"
  shows "length data = message_size m"
  using document_reads [OF read_message_size assms [unfolded protocol_document]] by metis

lemma short_message: "length data < 62 \<Longrightarrow> \<exists>e. decode_message data = Inl e"
  using decode_message_size [of data] by (cases "decode_message data") (auto simp: message_size_def)

lemma message_size_ok: "message_size m < 2 ^ 32 \<Longrightarrow> message_ok m"
  by (simp add: message_size_def message_ok_def string_ok_def)

text \<open>What a receiver makes of the frame of a message.\<close>

lemma message_received:
  assumes "recv_stream pending rcv" and "pending s = frame (encode_message m) @ rest"
    and "message_size m < 2 ^ 32"
  shows "map_option decode_message (fst (recv_frame True rcv s)) =
    (if message_size m \<le> frame_cap then Some (Inr m) else None)"
proof (cases "message_size m \<le> frame_cap")
  case True
  then obtain s' where "recv_frame True rcv s = (Some (encode_message m), s')"
    using recv_frame_stream [OF assms(1,2)] by auto
  with True show ?thesis using message_roundtrip [OF message_size_ok [OF assms(3)]] by simp
next
  case False
  then show ?thesis using oversized_frame [OF assms(1,2)] assms(3) by simp
qed

section \<open>Snapshots\<close>

lemma u32_size: "reads (\<lambda>v c. length c = 4) r_u32"
  by (rule reads_weaken [OF u32.get_exact]) (simp add: out_prims)

lemma gen_size: "reads (\<lambda>g c. length c = 8) r_gen"
  unfolding r_gen_def by (rule reads_bind [OF u64_size], rule reads_return) simp

lemma unique_vec_size:
  assumes "\<And>n. reads (\<lambda>xs c. R xs) (r_unique key dup get n {})"
  shows "reads (\<lambda>xs c. 4 \<le> length c) (r_unique_vec most large key dup get)"
  unfolding r_unique_vec_def
  by (rule reads_bind [OF u32_size], rule reads_if, rule reads_fail, rule reads_weaken [OF assms]) simp

lemma read_snapshot_size: "reads (\<lambda>s c. 40 \<le> length c) read_snapshot"
  unfolding read_snapshot_def
  by (rule reads_bind [OF u32_size], rule reads_if, rule reads_fail, (rule reads_bind [OF gen_size])+,
      rule reads_bind [OF unique_vec_size [OF reads_weaken [OF desc.unique_reads]]], rule TrueI,
      rule reads_bind [OF unique_vec_size [OF reads_weaken [OF composition.unique_reads]]], rule TrueI,
      rule reads_bind [OF unique_vec_size [OF reads_weaken [OF worker.unique_reads]]], rule TrueI,
      rule reads_return) simp

lemma short_snapshot: "length data < 48 \<Longrightarrow> \<exists>e. deserialize_snapshot data = Inl e"
proof (cases "deserialize_snapshot data")
  case (Inr s)
  assume "length data < 48"
  moreover obtain c :: "byte list" where "40 \<le> length c" "length data = length c + 8"
    using document_reads [OF read_snapshot_size Inr [unfolded serialize_document]] by metis
  ultimately show ?thesis by simp
qed simp

text \<open>The answer to a snapshot request, on a control connection.\<close>

lemma snapshot_answer:
  assumes "m_type req = MT_ctl_snapshot"
  shows "process_control gap fw req cd =
    (Some ((ctl_reply True ''snapshot'')\<lparr>m_payload := serialize_snapshot (snapshot (cd_fabric cd))\<rparr>), cd)"
  using assms by (simp add: process_control_def dispatch_def ctl_snapshot_def)

lemma snapshot_answer_size:
  "message_size ((ctl_reply True ''snapshot'')\<lparr>m_payload := data\<rparr>) = 70 + length data"
  by (simp add: message_size_def ctl_reply_def ctl_out_def Message_default_def)


definition snapshot_request :: Message where
  "snapshot_request = Message_default\<lparr>m_type := MT_ctl_snapshot\<rparr>"

lemma fabric_registered_snapshot:
  "snapshot fabric_registered = \<lparr>fs_epoch = gen_none, fs_next_adapter_generation = Generation 2,
     fs_next_composition_generation = Generation 1, fs_adapters = [run_adapter], fs_compositions = [],
     fs_workers = [run_worker]\<rparr>"
  by (simp add: snapshot_def fabric_registered_def reregister_def on_worker_restart_fields
      register_worker_def registered_run_adapter Fabric_new_def Fabric_empty_def smap_values_def)
    (simp add: on_worker_restart_def Let_def revoke_matching_def gen_next_def uint64_max_def)

lemma length_run_snapshot: "length (serialize_snapshot (snapshot fabric_registered)) \<le> 1000"
  by (simp add: fabric_registered_snapshot serialize_document write_document_layout
      out_def [of write_snapshot] write_snapshot_def BinWriter_empty_def desc.out_vec composition.out_vec
      worker.out_vec out_def [of write_desc] write_desc_def run_adapter_def target.out_vec u32.out_vec
      dependency.out_vec capability.out_vec constraint.out_vec out_def [of write_target]
      write_target_def out_def [of write_provenance] write_provenance_def out_def [of write_worker]
      write_worker_def run_worker_def worker_capability.out_vec idc.out_vec)
    (simp add: out_prims)


end
