(* ===== verification/AF_Cuda.thy ===== *)
theory AF_Cuda
  imports AF_Prelude "HOL-Library.Multiset"
begin

text \<open>
  The accelerator backend (\<open>cuda.hpp\<close>, \<open>cuda_backend.cpp\<close>, \<open>cuda_impl.cu\<close>): device buffers, the
  host wrapper with its checks, the two versions of the layer \<open>detail\<close> (without and with the CUDA
  runtime) and the LoRA kernel, compared with the loop on the host that \<open>proof_cuda.cpp\<close> verifies
  it with.

  Device memory is a map from the base pointers of allocations to arrays of \<open>float\<close> cells of four
  bytes. The values are of any type \<open>'f\<close>; \<open>madd a x y\<close> is the compiled \<open>a + x * y\<close> (with one
  rounding or two, as the compiler chooses). The calls of the CUDA runtime are the fields of
  \<open>'f cuda_rt\<close>: the model performs their effects, the parameter decides whether they succeed and in
  which order the threads of a launch run. A launch is refused where the runtime refuses it
  (\<open>rt_launch\<close>) and where the grid is beyond the limits CUDA documents, \<open>2 ^ 31 - 1\<close> blocks in \<open>x\<close> and
  65535 in \<open>y\<close>; the code does not ask for the error of a launch, and the synchronization behind it
  reports none. \<open>None\<close> is undefined behaviour: an index outside of its array or an overflow of \<open>int\<close>.
\<close>

type_synonym 'f device = "nat \<Rightarrow> 'f list option"

record DeviceInfo =
  di_available :: bool
  di_count :: int
  di_name :: string
  di_cc_major :: int
  di_cc_minor :: int
  di_total_memory :: uint64_t

definition DeviceInfo_default :: DeviceInfo where
  "DeviceInfo_default = \<lparr>di_available = False, di_count = 0, di_name = [], di_cc_major = 0,
     di_cc_minor = 0, di_total_memory = 0\<rparr>"

record DeviceBuffer =
  db_ptr :: "nat option"
  db_bytes :: uint64_t

definition DeviceBuffer_default :: DeviceBuffer where
  "DeviceBuffer_default = \<lparr>db_ptr = None, db_bytes = 0\<rparr>"

definition db_valid :: "DeviceBuffer \<Rightarrow> bool" where
  "db_valid b \<longleftrightarrow> db_ptr b \<noteq> None \<and> db_bytes b > 0"

section \<open>The kernel\<close>

definition as_int32 :: "int \<Rightarrow> int option" where
  "as_int32 z = (if - (2 ^ 31) \<le> z \<and> z < 2 ^ 31 then Some z else None)"

text \<open>The index expression \<open>a * b + c\<close> on \<open>int\<close>.\<close>

definition index_at :: "int \<Rightarrow> int \<Rightarrow> int \<Rightarrow> int option" where
  "index_at a b c = (case as_int32 (a * b) of None \<Rightarrow> None | Some p \<Rightarrow> as_int32 (p + c))"

definition load_cell :: "'f device \<Rightarrow> nat option \<Rightarrow> int \<Rightarrow> 'f option" where
  "load_cell h p i =
    (case p of None \<Rightarrow> None | Some a \<Rightarrow>
       (case h a of None \<Rightarrow> None
        | Some xs \<Rightarrow> if 0 \<le> i \<and> i < int (length xs) then Some (xs ! nat i) else None))"

definition store_cell :: "'f device \<Rightarrow> nat option \<Rightarrow> int \<Rightarrow> 'f \<Rightarrow> 'f device option" where
  "store_cell h p i x =
    (case p of None \<Rightarrow> None | Some a \<Rightarrow>
       (case h a of None \<Rightarrow> None
        | Some xs \<Rightarrow> if 0 \<le> i \<and> i < int (length xs) then Some (h(a \<mapsto> xs[nat i := x])) else None))"

fun lora_dot ::
    "('f \<Rightarrow> 'f \<Rightarrow> 'f \<Rightarrow> 'f) \<Rightarrow> 'f device \<Rightarrow> nat option \<Rightarrow> nat option \<Rightarrow> int \<Rightarrow> int \<Rightarrow> int \<Rightarrow> int \<Rightarrow>
     nat list \<Rightarrow> 'f \<Rightarrow> 'f option" where
  "lora_dot madd h wup wdown row j N R [] a = Some a"
| "lora_dot madd h wup wdown row j N R (r # rs) a =
     Option.bind (index_at row R (int r)) (\<lambda>di. Option.bind (load_cell h wdown di) (\<lambda>d.
     Option.bind (index_at (int r) N j) (\<lambda>ui. Option.bind (load_cell h wup ui) (\<lambda>u.
     lora_dot madd h wup wdown row j N R rs (madd a d u)))))"

text \<open>One thread: \<open>t\<close> is \<open>(blockIdx.x, blockIdx.y, threadIdx.x)\<close>, a block has 256 threads.\<close>

definition lora_kernel ::
    "('f::zero \<Rightarrow> 'f \<Rightarrow> 'f \<Rightarrow> 'f) \<Rightarrow> nat option \<Rightarrow> nat option \<Rightarrow> nat option \<Rightarrow> nat option \<Rightarrow> int \<Rightarrow> int \<Rightarrow>
     'f \<Rightarrow> nat \<times> nat \<times> nat \<Rightarrow> 'f device \<Rightarrow> 'f device option" where
  "lora_kernel madd inp outp wup wdown N R scale t h =
    (case t of (bx, by, tx) \<Rightarrow>
     let row = int bx; j = int (by * 256 + tx) in
     if j < N then
       Option.bind (lora_dot madd h wup wdown row j N R [0..<nat R] 0) (\<lambda>a.
       Option.bind (index_at row N j) (\<lambda>k.
       Option.bind (load_cell h inp k) (\<lambda>x.
       store_cell h outp k (madd x scale a))))
     else Some h)"

fun run_threads :: "('t \<Rightarrow> 'm \<Rightarrow> 'm option) \<Rightarrow> 't list \<Rightarrow> 'm \<Rightarrow> 'm option" where
  "run_threads k [] h = Some h"
| "run_threads k (t # ts) h = Option.bind (k t h) (run_threads k ts)"

definition grid_threads :: "int \<Rightarrow> int \<Rightarrow> (nat \<times> nat \<times> nat) list" where
  "grid_threads gx gy = List.product [0..<nat gx] (List.product [0..<nat gy] [0..<256])"

section \<open>The layer below the host wrapper\<close>

record 'f cuda_rt =
  rt_count :: "'f device \<Rightarrow> bool \<times> int"
  rt_props :: "int \<Rightarrow> (string \<times> int \<times> int \<times> uint64_t) option"
  rt_malloc :: "'f device \<Rightarrow> uint64_t \<Rightarrow> (nat \<times> 'f list) option"
  rt_memcpy :: "'f device \<Rightarrow> bool"
  rt_sync :: "'f device \<Rightarrow> bool"
  rt_launch :: "'f device \<Rightarrow> bool"
  rt_schedule :: "(nat \<times> nat \<times> nat) list \<Rightarrow> (nat \<times> nat \<times> nat) list"

record 'f detail =
  det_available :: "'f device \<Rightarrow> bool"
  det_reason :: "'f device \<Rightarrow> string"
  det_info :: "int \<Rightarrow> 'f device \<Rightarrow> DeviceInfo"
  det_alloc :: "uint64_t \<Rightarrow> 'f device \<Rightarrow> nat option \<times> 'f device"
  det_free :: "nat option \<Rightarrow> 'f device \<Rightarrow> 'f device"
  det_h2d :: "nat option \<Rightarrow> 'f list \<Rightarrow> uint64_t \<Rightarrow> 'f device \<Rightarrow> bool \<times> 'f device"
  det_d2h :: "'f list \<Rightarrow> nat option \<Rightarrow> uint64_t \<Rightarrow> 'f device \<Rightarrow> bool \<times> 'f list"
  det_lora_run :: "nat option \<Rightarrow> nat option \<Rightarrow> nat option \<Rightarrow> nat option \<Rightarrow> int \<Rightarrow> int \<Rightarrow> int \<Rightarrow> 'f \<Rightarrow>
    'f device \<Rightarrow> (bool \<times> 'f device) option"

text \<open>Without the runtime.\<close>

definition stub_detail :: "'f detail" where
  "stub_detail =
     \<lparr>det_available = (\<lambda>_. False), det_reason = (\<lambda>_. ''CUDA runtime not linked''),
      det_info = (\<lambda>_ _. DeviceInfo_default), det_alloc = (\<lambda>_ g. (None, g)), det_free = (\<lambda>_ g. g),
      det_h2d = (\<lambda>_ _ _ g. (False, g)), det_d2h = (\<lambda>host _ _ g. (False, host)),
      det_lora_run = (\<lambda>_ _ _ _ _ _ _ _ g. Some (False, g))\<rparr>"

definition cuda_is_available :: "'f cuda_rt \<Rightarrow> 'f device \<Rightarrow> bool" where
  "cuda_is_available rt g = (case rt_count rt g of (good, c) \<Rightarrow> good \<and> c > 0)"

definition cuda_info :: "'f cuda_rt \<Rightarrow> int \<Rightarrow> 'f device \<Rightarrow> DeviceInfo" where
  "cuda_info rt device g =
    (let count = (case rt_count rt g of (good, c) \<Rightarrow> if good then c else 0);
         d = DeviceInfo_default\<lparr>di_count := count\<rparr>
     in if count \<le> 0 \<or> device < 0 \<or> device \<ge> count then d
        else case rt_props rt device of
          None \<Rightarrow> d
        | Some (name, major, minor, memory) \<Rightarrow>
            d\<lparr>di_available := True, di_name := name, di_cc_major := major, di_cc_minor := minor,
              di_total_memory := memory\<rparr>)"

definition cuda_alloc :: "'f cuda_rt \<Rightarrow> uint64_t \<Rightarrow> 'f device \<Rightarrow> nat option \<times> 'f device" where
  "cuda_alloc rt n g =
    (case rt_malloc rt g n of None \<Rightarrow> (None, g) | Some (p, xs) \<Rightarrow> (Some p, g(p \<mapsto> xs)))"

definition cuda_free :: "nat option \<Rightarrow> 'f device \<Rightarrow> 'f device" where
  "cuda_free p g = (case p of None \<Rightarrow> g | Some a \<Rightarrow> g(a := None))"

definition float_count :: "uint64_t \<Rightarrow> nat" where
  "float_count n = unat n div 4"

definition cuda_h2d ::
    "'f cuda_rt \<Rightarrow> nat option \<Rightarrow> 'f list \<Rightarrow> uint64_t \<Rightarrow> 'f device \<Rightarrow> bool \<times> 'f device" where
  "cuda_h2d rt dev host n g =
    (if \<not> rt_memcpy rt g then (False, g)
     else case Option.bind dev g of
       None \<Rightarrow> (False, g)
     | Some xs \<Rightarrow>
         let g1 = g(the dev \<mapsto> take (float_count n) host @ drop (float_count n) xs)
         in (rt_sync rt g1, g1))"

definition cuda_d2h ::
    "'f cuda_rt \<Rightarrow> 'f list \<Rightarrow> nat option \<Rightarrow> uint64_t \<Rightarrow> 'f device \<Rightarrow> bool \<times> 'f list" where
  "cuda_d2h rt host dev n g =
    (if \<not> rt_memcpy rt g then (False, host)
     else case Option.bind dev g of
       None \<Rightarrow> (False, host)
     | Some xs \<Rightarrow> (rt_sync rt g, take (float_count n) xs @ drop (float_count n) host))"

text \<open>The limits on the extents of a grid.\<close>

definition grid_limits :: "int \<Rightarrow> int \<Rightarrow> bool" where
  "grid_limits gx gy \<longleftrightarrow> 1 \<le> gx \<and> gx < 2 ^ 31 \<and> 1 \<le> gy \<and> gy \<le> 65535"

definition cuda_lora_run ::
    "('f::zero \<Rightarrow> 'f \<Rightarrow> 'f \<Rightarrow> 'f) \<Rightarrow> 'f cuda_rt \<Rightarrow> nat option \<Rightarrow> nat option \<Rightarrow> nat option \<Rightarrow> nat option \<Rightarrow>
     int \<Rightarrow> int \<Rightarrow> int \<Rightarrow> 'f \<Rightarrow> 'f device \<Rightarrow> (bool \<times> 'f device) option" where
  "cuda_lora_run madd rt inp wup wdown outp M N R scale g =
    (if M \<le> 0 \<or> N \<le> 0 \<or> R \<le> 0 then Some (False, g)
     else Option.bind (as_int32 (N + 255)) (\<lambda>n255.
       Option.bind
         (if grid_limits M (n255 div 256) \<and> rt_launch rt g
          then run_threads (lora_kernel madd inp outp wup wdown N R scale)
                 (rt_schedule rt (grid_threads M (n255 div 256))) g
          else Some g)
         (\<lambda>g1. Some (rt_sync rt g1, g1))))"

definition cuda_detail :: "('f::zero \<Rightarrow> 'f \<Rightarrow> 'f \<Rightarrow> 'f) \<Rightarrow> 'f cuda_rt \<Rightarrow> 'f detail" where
  "cuda_detail madd rt =
     \<lparr>det_available = cuda_is_available rt,
      det_reason = (\<lambda>g. if cuda_is_available rt g then ''CUDA available'' else ''no CUDA device''),
      det_info = cuda_info rt, det_alloc = cuda_alloc rt, det_free = cuda_free,
      det_h2d = cuda_h2d rt, det_d2h = cuda_d2h rt, det_lora_run = cuda_lora_run madd rt\<rparr>"

section \<open>The host wrapper\<close>

definition cuda_allocate :: "'f detail \<Rightarrow> uint64_t \<Rightarrow> 'f device \<Rightarrow> DeviceBuffer \<times> 'f device" where
  "cuda_allocate det n g = (case det_alloc det n g of (p, g1) \<Rightarrow> (\<lparr>db_ptr = p, db_bytes = n\<rparr>, g1))"

definition cuda_release :: "'f detail \<Rightarrow> DeviceBuffer \<Rightarrow> 'f device \<Rightarrow> DeviceBuffer \<times> 'f device" where
  "cuda_release det buf g = (DeviceBuffer_default, det_free det (db_ptr buf) g)"

definition cuda_upload ::
    "'f detail \<Rightarrow> DeviceBuffer \<Rightarrow> 'f list \<Rightarrow> uint64_t \<Rightarrow> 'f device \<Rightarrow> bool \<times> 'f device" where
  "cuda_upload det buf host n g =
    (if \<not> db_valid buf \<or> n > db_bytes buf then (False, g) else det_h2d det (db_ptr buf) host n g)"

definition cuda_download ::
    "'f detail \<Rightarrow> DeviceBuffer \<Rightarrow> 'f list \<Rightarrow> uint64_t \<Rightarrow> 'f device \<Rightarrow> bool \<times> 'f list" where
  "cuda_download det buf host n g =
    (if \<not> db_valid buf \<or> n > db_bytes buf then (False, host) else det_d2h det host (db_ptr buf) n g)"

definition apply_lora ::
    "'f detail \<Rightarrow> DeviceBuffer \<Rightarrow> DeviceBuffer \<Rightarrow> DeviceBuffer \<Rightarrow> DeviceBuffer \<Rightarrow> int \<Rightarrow> int \<Rightarrow> int \<Rightarrow> 'f \<Rightarrow>
     'f device \<Rightarrow> (bool \<times> 'f device) option" where
  "apply_lora det input wup wdown output M N R scale g =
    (if \<not> db_valid input \<or> \<not> db_valid wup \<or> \<not> db_valid wdown \<or> \<not> db_valid output then Some (False, g)
     else let need = (of_int M :: uint64_t) * of_int N * 4 in
       if db_bytes output < need \<or> db_bytes input < need then Some (False, g)
       else det_lora_run det (db_ptr input) (db_ptr wup) (db_ptr wdown) (db_ptr output) M N R scale g)"

section \<open>The reference on the host\<close>

definition cpu_dot :: "('f::zero \<Rightarrow> 'f \<Rightarrow> 'f \<Rightarrow> 'f) \<Rightarrow> 'f list \<Rightarrow> 'f list \<Rightarrow> nat \<Rightarrow> nat \<Rightarrow> nat \<Rightarrow> nat \<Rightarrow> 'f" where
  "cpu_dot madd wup wdown N R i j =
     foldl (\<lambda>a r. madd a (wdown ! (i * R + r)) (wup ! (r * N + j))) 0 [0..<R]"

definition cpu_lora ::
    "('f::zero \<Rightarrow> 'f \<Rightarrow> 'f \<Rightarrow> 'f) \<Rightarrow> 'f list \<Rightarrow> 'f list \<Rightarrow> 'f list \<Rightarrow> nat \<Rightarrow> nat \<Rightarrow> nat \<Rightarrow> 'f \<Rightarrow> 'f list" where
  "cpu_lora madd x wup wdown M N R scale =
     foldl (\<lambda>ref (i, j). ref[i * N + j := madd (x ! (i * N + j)) scale (cpu_dot madd wup wdown N R i j)])
       (replicate (M * N) 0) (List.product [0..<M] [0..<N])"


section \<open>What a launch computes\<close>

text \<open>Writing cells in any order, each with a value of its own index.\<close>

lemma length_write_cells [simp]: "length (foldl (\<lambda>os k. os[k := f k]) os ks) = length os"
  by (induction ks arbitrary: os) simp_all

lemma nth_write_cells:
  "k < length os \<Longrightarrow> foldl (\<lambda>os k. os[k := f k]) os ks ! k = (if k \<in> set ks then f k else os ! k)"
  by (induction ks arbitrary: os) (auto simp: nth_list_update)

lemma index_at_nat:
  assumes "a * b + c < 2 ^ 31"
  shows "index_at (int a) (int b) (int c) = Some (int (a * b + c))"
proof -
  have "int (a * b + c) < 2 ^ 31" using assms by (metis of_nat_less_iff of_nat_numeral of_nat_power)
  moreover have "- (2 ^ 31) \<le> int n" for n
    by (rule order_trans [of _ 0]) simp_all
  from this [of "a * b"] this [of "a * b + c"]
  have "- (2 ^ 31) \<le> int a * int b" "- (2 ^ 31) \<le> int a * int b + int c"
    by (simp_all only: of_nat_add of_nat_mult)
  ultimately have "- (2 ^ 31) \<le> int a * int b" "int a * int b < 2 ^ 31"
    "- (2 ^ 31) \<le> int a * int b + int c" "int a * int b + int c < 2 ^ 31" by simp_all
  then show ?thesis by (simp add: index_at_def as_int32_def)
qed

lemma load_cell_nat: "h p = Some xs \<Longrightarrow> i < length xs \<Longrightarrow> load_cell h (Some p) (int i) = Some (xs ! i)"
  by (simp add: load_cell_def)

lemma store_cell_nat:
  "h p = Some xs \<Longrightarrow> i < length xs \<Longrightarrow> store_cell h (Some p) (int i) v = Some (h(p \<mapsto> xs[i := v]))"
  by (simp add: store_cell_def)

lemma row_bound: "(i::nat) < m \<Longrightarrow> j < n \<Longrightarrow> i * n + j < m * n"
proof -
  assume "i < m" "j < n"
  then have "i * n + j < i * n + n" by simp
  also have "\<dots> = Suc i * n" by simp
  also have "\<dots> \<le> m * n" using \<open>i < m\<close> by (intro mult_right_mono) simp_all
  finally show ?thesis .
qed

text \<open>The sizes and arrays of a launch.\<close>

definition launch_ok :: "nat \<Rightarrow> nat \<Rightarrow> nat \<Rightarrow> 'f list \<Rightarrow> 'f list \<Rightarrow> 'f list \<Rightarrow> bool" where
  "launch_ok M N R x us ds \<longleftrightarrow> 0 < M \<and> 0 < N \<and> 0 < R \<and>
     M * N < 2 ^ 31 \<and> R * N < 2 ^ 31 \<and> M * R < 2 ^ 31 \<and> N + 255 < 2 ^ 31 \<and>
     M * N \<le> length x \<and> R * N \<le> length us \<and> M * R \<le> length ds"

definition lora_cell :: "('f::zero \<Rightarrow> 'f \<Rightarrow> 'f \<Rightarrow> 'f) \<Rightarrow> 'f list \<Rightarrow> 'f list \<Rightarrow> 'f list \<Rightarrow> nat \<Rightarrow> nat \<Rightarrow> 'f \<Rightarrow> nat \<Rightarrow> 'f" where
  "lora_cell madd x us ds N R scale k =
     madd (x ! k) scale (cpu_dot madd us ds N R (k div N) (k mod N))"

lemma lora_dot_cpu:
  assumes ok: "launch_ok M N R x us ds" and h: "h pu = Some us" "h pd = Some ds"
    and ij: "i < M" "j < N"
  shows "set rs \<subseteq> {..<R} \<Longrightarrow> lora_dot madd h (Some pu) (Some pd) (int i) (int j) (int N) (int R) rs a =
     Some (foldl (\<lambda>a r. madd a (ds ! (i * R + r)) (us ! (r * N + j))) a rs)"
proof (induction rs arbitrary: a)
  case (Cons r rs)
  then have r: "r < R" by simp
  have d: "i * R + r < M * R" using ij(1) r by (rule row_bound)
  have u: "r * N + j < R * N" using r ij(2) by (rule row_bound)
  have "index_at (int i) (int R) (int r) = Some (int (i * R + r))"
    "index_at (int r) (int N) (int j) = Some (int (r * N + j))"
    using d u ok by (intro index_at_nat; simp add: launch_ok_def)+
  moreover have "load_cell h (Some pd) (int (i * R + r)) = Some (ds ! (i * R + r))"
    using d ok by (intro load_cell_nat [of h, OF h(2)]) (simp add: launch_ok_def)
  moreover have "load_cell h (Some pu) (int (r * N + j)) = Some (us ! (r * N + j))"
    using u ok by (intro load_cell_nat [of h, OF h(1)]) (simp add: launch_ok_def)
  ultimately show ?case using Cons by simp
qed simp

lemma lora_kernel_cell:
  assumes ok: "launch_ok M N R x us ds"
    and h: "h px = Some x" "h pu = Some us" "h pd = Some ds" "h po = Some os" and os: "M * N \<le> length os"
    and i: "bx < M"
  shows "lora_kernel madd (Some px) (Some po) (Some pu) (Some pd) (int N) (int R) scale (bx, by', tx) h =
    Some (if by' * 256 + tx < N
      then h(po \<mapsto> os[bx * N + (by' * 256 + tx) := lora_cell madd x us ds N R scale (bx * N + (by' * 256 + tx))])
      else h)"
proof (cases "by' * 256 + tx < N")
  case True
  let ?j = "by' * 256 + tx"
  let ?k = "bx * N + ?j"
  have k: "?k < M * N" using i True by (rule row_bound)
  have jN: "int ?j < int N" using True by (simp only: of_nat_less_iff)
  have dot: "lora_dot madd h (Some pu) (Some pd) (int bx) (int ?j) (int N) (int R) [0..<nat (int R)] 0 =
      Some (cpu_dot madd us ds N R bx ?j)"
    using lora_dot_cpu [OF ok h(2,3) i True, of "[0..<R]" madd 0]
    by (simp add: cpu_dot_def atLeast0LessThan)
  have idx: "index_at (int bx) (int N) (int ?j) = Some (int ?k)"
    using k ok by (intro index_at_nat) (simp add: launch_ok_def)
  have cell: "lora_cell madd x us ds N R scale ?k = madd (x ! ?k) scale (cpu_dot madd us ds N R bx ?j)"
    using True by (simp add: lora_cell_def)
  have ld: "load_cell h (Some px) (int ?k) = Some (x ! ?k)"
    using k ok by (intro load_cell_nat [of h, OF h(1)]) (simp add: launch_ok_def)
  have st: "store_cell h (Some po) (int ?k) v = Some (h(po \<mapsto> os[?k := v]))" for v
    using k os by (intro store_cell_nat [of h, OF h(4)]) simp
  show ?thesis
    unfolding lora_kernel_def prod.case Let_def dot using True jN idx ld st cell
    by (simp del: of_nat_add of_nat_mult)
next
  case False
  then have "\<not> int (by' * 256 + tx) < int N" by (simp only: of_nat_less_iff not_False_eq_True)
  with False show ?thesis unfolding lora_kernel_def prod.case Let_def by simp
qed

definition thread_cells :: "nat \<Rightarrow> (nat \<times> nat \<times> nat) list \<Rightarrow> nat list" where
  "thread_cells N ts = concat (map (\<lambda>(bx, by', tx).
     if by' * 256 + tx < N then [bx * N + (by' * 256 + tx)] else []) ts)"

lemma thread_cells_simps [simp]:
  "thread_cells N [] = []"
  "thread_cells N ((bx, by', tx) # ts) =
     (if by' * 256 + tx < N then [bx * N + (by' * 256 + tx)] else []) @ thread_cells N ts"
  by (simp_all add: thread_cells_def)

lemma set_thread_cells:
  "k \<in> set (thread_cells N ts) \<longleftrightarrow>
     (\<exists>bx by' tx. (bx, by', tx) \<in> set ts \<and> by' * 256 + tx < N \<and> k = bx * N + (by' * 256 + tx))"
  unfolding thread_cells_def by (force split: if_splits)

lemma thread_cells_cong: "set ts = set us \<Longrightarrow> set (thread_cells N ts) = set (thread_cells N us)"
  by (simp add: thread_cells_def)

lemma run_threads_cells:
  assumes ok: "launch_ok M N R x us ds" and ne: "po \<notin> {px, pu, pd}"
  shows "h px = Some x \<Longrightarrow> h pu = Some us \<Longrightarrow> h pd = Some ds \<Longrightarrow> h po = Some os \<Longrightarrow>
    M * N \<le> length os \<Longrightarrow> \<forall>t \<in> set ts. fst t < M \<Longrightarrow>
    run_threads (lora_kernel madd (Some px) (Some po) (Some pu) (Some pd) (int N) (int R) scale) ts h =
      Some (h(po \<mapsto> foldl (\<lambda>os k. os[k := lora_cell madd x us ds N R scale k]) os (thread_cells N ts)))"
proof (induction ts arbitrary: h os)
  case Nil
  then show ?case by (simp add: fun_upd_idem)
next
  case (Cons t ts)
  obtain bx by' tx where t: "t = (bx, by', tx)" by (cases t) auto
  let ?k = "bx * N + (by' * 256 + tx)"
  let ?os = "if by' * 256 + tx < N then os[?k := lora_cell madd x us ds N R scale ?k] else os"
  have step: "lora_kernel madd (Some px) (Some po) (Some pu) (Some pd) (int N) (int R) scale t h =
      Some (h(po \<mapsto> ?os))"
    using lora_kernel_cell [OF ok Cons.prems(1-5), of bx madd scale by' tx] Cons.prems(4,6)
    by (simp add: t fun_upd_idem)
  have "run_threads (lora_kernel madd (Some px) (Some po) (Some pu) (Some pd) (int N) (int R) scale) ts
      (h(po \<mapsto> ?os)) = Some ((h(po \<mapsto> ?os))(po \<mapsto>
        foldl (\<lambda>os k. os[k := lora_cell madd x us ds N R scale k]) ?os (thread_cells N ts)))"
    by (rule Cons.IH) (use Cons.prems ne in auto)
  then show ?case using step by (cases "by' * 256 + tx < N") (simp_all add: t fun_eq_iff)
qed

text \<open>The grid covers every cell: one thread for each, and idle threads at the end of a row.\<close>

lemma grid_covers:
  assumes "0 < N"
  shows "set (thread_cells N (grid_threads (int M) ((int N + 255) div 256))) = {..<M * N}"
proof (intro equalityI subsetI)
  fix k assume "k \<in> set (thread_cells N (grid_threads (int M) ((int N + 255) div 256)))"
  then show "k \<in> {..<M * N}"
    by (auto simp: set_thread_cells grid_threads_def intro: row_bound)
next
  fix k assume "k \<in> {..<M * N}"
  then have k: "k < M * N" by simp
  let ?j = "k mod N"
  have j: "?j < N" using assms by simp
  have i: "k div N < M" using k by (simp add: less_mult_imp_div_less)
  have "?j div 256 < (N + 255) div 256" using j by linarith
  then have b: "?j div 256 < nat ((int N + 255) div 256)" by (simp add: nat_div_distrib)
  have "(k div N, ?j div 256, ?j mod 256) \<in> set (grid_threads (int M) ((int N + 255) div 256))"
    using i b by (simp add: grid_threads_def)
  moreover have "?j div 256 * 256 + ?j mod 256 = ?j" by (rule div_mult_mod_eq)
  moreover have "k div N * N + ?j = k" by (rule div_mult_mod_eq)
  ultimately show "k \<in> set (thread_cells N (grid_threads (int M) ((int N + 255) div 256)))"
    using j unfolding set_thread_cells by metis
qed

text \<open>The loop of the host writes the same cells.\<close>

lemma cpu_lora_cells:
  assumes "0 < N"
  shows "cpu_lora madd x us ds M N R scale =
    foldl (\<lambda>os k. os[k := lora_cell madd x us ds N R scale k]) (replicate (M * N) 0)
      (map (\<lambda>(i, j). i * N + j) (List.product [0..<M] [0..<N]))"
proof -
  have "\<forall>(i, j) \<in> set ps. j < N \<Longrightarrow>
      foldl (\<lambda>ref (i, j). ref[i * N + j := madd (x ! (i * N + j)) scale (cpu_dot madd us ds N R i j)]) os ps =
      foldl (\<lambda>os k. os[k := lora_cell madd x us ds N R scale k]) os (map (\<lambda>(i, j). i * N + j) ps)"
    for ps os by (induction ps arbitrary: os) (auto simp: lora_cell_def)
  from this [of "List.product [0..<M] [0..<N]"] show ?thesis by (auto simp: cpu_lora_def)
qed

lemma product_cells: "0 < N \<Longrightarrow> set (map (\<lambda>(i, j). i * N + j) (List.product [0..<M] [0..<N])) = {..<M * N}"
proof (intro equalityI subsetI)
  fix k assume N: "0 < N" and "k \<in> {..<M * N}"
  then have "k div N < M" "k mod N < N" "k div N * N + k mod N = k"
    by (simp_all add: less_mult_imp_div_less)
  then show "k \<in> set (map (\<lambda>(i, j). i * N + j) (List.product [0..<M] [0..<N]))"
    by (auto intro!: image_eqI [of _ _ "(k div N, k mod N)"])
qed (auto intro: row_bound)

lemma cpu_lora_nth:
  assumes "0 < N"
  shows "length (cpu_lora madd x us ds M N R scale) = M * N"
    and "k < M * N \<Longrightarrow> cpu_lora madd x us ds M N R scale ! k = lora_cell madd x us ds N R scale k"
proof -
  show "length (cpu_lora madd x us ds M N R scale) = M * N" by (simp add: cpu_lora_cells [OF assms])
  show "cpu_lora madd x us ds M N R scale ! k = lora_cell madd x us ds N R scale k" if "k < M * N"
    unfolding cpu_lora_cells [OF assms]
    by (subst nth_write_cells) (simp_all only: length_replicate product_cells [OF assms] that lessThan_iff if_True)
qed


section \<open>The launch\<close>

text \<open>The documented execution of a launch: every thread of the grid once, in some order.\<close>

definition schedule_ok :: "'f cuda_rt \<Rightarrow> bool" where
  "schedule_ok rt \<longleftrightarrow> (\<forall>ts. mset (rt_schedule rt ts) = mset ts)"

lemma schedule_set: "schedule_ok rt \<Longrightarrow> set (rt_schedule rt ts) = set ts"
  unfolding schedule_ok_def by (metis set_mset_mset)

lemma as_int32_nat: "n < 2 ^ 31 \<Longrightarrow> as_int32 (int n) = Some (int n)"
  using index_at_nat [of 0 0 n] by (simp add: index_at_def as_int32_def)

lemma grid_limits_nat:
  assumes "0 < M" and "M < 2 ^ 31" and "0 < N"
  shows "grid_limits (int M) ((int N + 255) div 256) \<longleftrightarrow> N \<le> 16776960"
  using assms by (auto simp: grid_limits_def)

lemma cuda_lora_run_refused:
  assumes "0 < M" and "M < 2 ^ 31" and "0 < N" and "N + 255 < 2 ^ 31" and "0 < R"
    and "\<not> (N \<le> 16776960 \<and> rt_launch rt g)"
  shows "cuda_lora_run madd rt p1 p2 p3 p4 (int M) (int N) (int R) scale g = Some (rt_sync rt g, g)"
  using assms as_int32_nat [OF assms(4)]
  by (auto simp: cuda_lora_run_def grid_limits_nat [OF assms(1-3)])

lemma cuda_lora_run_exact:
  assumes ok: "launch_ok M N R x us ds" and sched: "schedule_ok rt"
    and M: "M < 2 ^ 31" and launch: "N \<le> 16776960" "rt_launch rt g"
    and g: "g px = Some x" "g pu = Some us" "g pd = Some ds" "g po = Some os"
    and os: "M * N \<le> length os" and ne: "po \<notin> {px, pu, pd}"
  shows "cuda_lora_run madd rt (Some px) (Some pu) (Some pd) (Some po) (int M) (int N) (int R) scale g =
    (let g' = g(po \<mapsto> cpu_lora madd x us ds M N R scale @ drop (M * N) os) in Some (rt_sync rt g', g'))"
proof -
  have N: "0 < N" and pos: "0 < M" "0 < R" and N255: "N + 255 < 2 ^ 31" using ok by (simp_all add: launch_ok_def)
  let ?ts = "rt_schedule rt (grid_threads (int M) ((int N + 255) div 256))"
  have "set (thread_cells N ?ts) = {..<M * N}"
    using grid_covers [OF N, of M] thread_cells_cong [OF schedule_set [OF sched], of N] by simp
  then have cells: "foldl (\<lambda>os k. os[k := lora_cell madd x us ds N R scale k]) os (thread_cells N ?ts) =
      cpu_lora madd x us ds M N R scale @ drop (M * N) os"
    using os by (intro nth_equalityI)
      (simp_all add: nth_write_cells nth_append cpu_lora_nth [OF N])
  have "\<forall>t \<in> set ?ts. fst t < M" by (auto simp: schedule_set [OF sched] grid_threads_def)
  from run_threads_cells [OF ok ne g os this] cells
  have run: "run_threads (lora_kernel madd (Some px) (Some po) (Some pu) (Some pd) (int N) (int R) scale) ?ts g =
      Some (g(po \<mapsto> cpu_lora madd x us ds M N R scale @ drop (M * N) os))" by simp
  have "as_int32 (int N + 255) = Some (int N + 255)" using as_int32_nat [OF N255] by simp
  with run N pos launch show ?thesis
    by (simp add: cuda_lora_run_def grid_limits_nat [OF pos(1) M N] Let_def)
qed

text \<open>A buffer that holds an array.\<close>

definition holds :: "'f device \<Rightarrow> DeviceBuffer \<Rightarrow> 'f list \<Rightarrow> bool" where
  "holds g b xs \<longleftrightarrow> (\<exists>p. db_ptr b = Some p \<and> g p = Some xs \<and> unat (db_bytes b) = 4 * length xs \<and> xs \<noteq> [])"

lemma holds_valid: "holds g b xs \<Longrightarrow> db_valid b"
  by (cases "db_bytes b = 0") (auto simp: holds_def db_valid_def word_gt_0)

lemma lora_need:
  assumes "M * N < 2 ^ 31"
  shows "unat ((of_int (int M) :: uint64_t) * of_int (int N) * 4) = 4 * (M * N)"
proof -
  have "(of_int (int M) :: uint64_t) * of_int (int N) * 4 = of_nat (4 * (M * N))" by simp
  moreover have "unat (of_nat (4 * (M * N)) :: uint64_t) = 4 * (M * N)"
    using assms by (simp add: unat_of_nat del: of_nat_mult)
  ultimately show ?thesis by (simp only:)
qed


lemma index_at_natD:
  assumes "index_at (int a) (int b) (int c) = Some i"
  shows "i = int (a * b + c)"
  using assms by (auto simp: index_at_def as_int32_def split: option.splits if_splits)

lemma load_cell_natD:
  assumes "load_cell h (Some p) (int i) = Some v" and "h p = Some xs"
  shows "i < length xs"
proof -
  have "int i < int (length xs)" using assms by (auto simp: load_cell_def split: if_splits)
  then show ?thesis by (simp only: of_nat_less_iff)
qed

lemma lora_dot_defined:
  assumes "h pd = Some ds" and "h pu = Some us"
  shows "lora_dot madd h (Some pu) (Some pd) (int i) (int j) (int N) (int R) rs a = Some v \<Longrightarrow> r \<in> set rs \<Longrightarrow>
    i * R + r < length ds \<and> r * N + j < length us"
proof (induction rs arbitrary: a)
  case (Cons q rs)
  obtain di d ui u where di: "index_at (int i) (int R) (int q) = Some di" "load_cell h (Some pd) di = Some d"
    and ui: "index_at (int q) (int N) (int j) = Some ui" "load_cell h (Some pu) ui = Some u"
    using Cons.prems(1) by (auto simp: bind_eq_Some_conv)
  have "i * R + q < length ds" using di assms(1) index_at_natD load_cell_natD by metis
  moreover have "q * N + j < length us" using ui assms(2) index_at_natD load_cell_natD by metis
  ultimately show ?case using Cons by (auto simp: bind_eq_Some_conv)
qed simp

lemma lora_kernel_defined:
  assumes "lora_kernel madd pi' (Some po) (Some pu) (Some pd) (int N) (int R) scale (bx, by', tx) h = Some h'"
    and "h pd = Some ds" and "h pu = Some us" and "po \<notin> {pu, pd}"
  shows "h' pd = Some ds \<and> h' pu = Some us"
    and "by' * 256 + tx < N \<Longrightarrow> r < R \<Longrightarrow> bx * R + r < length ds \<and> r * N + (by' * 256 + tx) < length us"
proof -
  show "h' pd = Some ds \<and> h' pu = Some us"
    using assms by (auto simp: lora_kernel_def Let_def store_cell_def bind_eq_Some_conv
        split: if_splits option.splits)
  show "bx * R + r < length ds \<and> r * N + (by' * 256 + tx) < length us" if "by' * 256 + tx < N" "r < R"
  proof -
    have "int (by' * 256 + tx) < int N" using that by (simp only: of_nat_less_iff)
    then obtain a where "lora_dot madd h (Some pu) (Some pd) (int bx) (int (by' * 256 + tx)) (int N) (int R)
        [0..<nat (int R)] 0 = Some a"
      using assms(1) unfolding lora_kernel_def prod.case Let_def by (auto simp: bind_eq_Some_conv)
    from lora_dot_defined [OF assms(2,3) this, of r] that show ?thesis by simp
  qed
qed

lemma run_threads_defined:
  assumes "po \<notin> {pu, pd}"
  shows "run_threads (lora_kernel madd pi' (Some po) (Some pu) (Some pd) (int N) (int R) scale) ts h = Some h' \<Longrightarrow>
    h pd = Some ds \<Longrightarrow> h pu = Some us \<Longrightarrow> (bx, by', tx) \<in> set ts \<Longrightarrow> by' * 256 + tx < N \<Longrightarrow> r < R \<Longrightarrow>
    bx * R + r < length ds \<and> r * N + (by' * 256 + tx) < length us"
proof (induction ts arbitrary: h)
  case (Cons t ts)
  obtain h1 where h1: "lora_kernel madd pi' (Some po) (Some pu) (Some pd) (int N) (int R) scale t h = Some h1"
    and rest: "run_threads (lora_kernel madd pi' (Some po) (Some pu) (Some pd) (int N) (int R) scale) ts h1 = Some h'"
    using Cons.prems(1) by (auto simp: bind_eq_Some_conv)
  obtain a b c where t: "t = (a, b, c)" by (cases t) auto
  note k = lora_kernel_defined [OF h1 [unfolded t] Cons.prems(2,3) assms]
  show ?case
  proof (cases "(bx, by', tx) = t")
    case True
    with k(2) t Cons.prems(5,6) show ?thesis by simp
  next
    case False
    with Cons.IH [OF rest] k(1) Cons.prems show ?thesis by auto
  qed
qed simp

text \<open>Weights that are too short: some thread of the grid reads behind the end of one of them.\<close>

lemma cuda_lora_run_short:
  assumes sched: "schedule_ok rt" and g: "g pu = Some us" "g pd = Some ds" and ne: "po \<notin> {pu, pd}"
    and pos: "0 < M" "M < 2 ^ 31" "0 < N" "N + 255 < 2 ^ 31" "0 < R"
    and launch: "N \<le> 16776960" "rt_launch rt g"
    and short: "length us < R * N \<or> length ds < M * R"
  shows "cuda_lora_run madd rt px (Some pu) (Some pd) (Some po) (int M) (int N) (int R) scale g = None"
proof -
  let ?ts = "rt_schedule rt (grid_threads (int M) ((int N + 255) div 256))"
  have cell: "(i, j div 256, j mod 256) \<in> set ?ts" if "i < M" "j < N" for i j
  proof -
    have "j div 256 < (N + 255) div 256" using that(2) by linarith
    then have "j div 256 < nat ((int N + 255) div 256)" by (simp add: nat_div_distrib)
    with that(1) show ?thesis by (simp add: schedule_set [OF sched] grid_threads_def)
  qed
  have "run_threads (lora_kernel madd px (Some po) (Some pu) (Some pd) (int N) (int R) scale) ?ts g = None"
  proof (rule ccontr)
    assume "\<not> ?thesis"
    then obtain g' where run: "run_threads (lora_kernel madd px (Some po) (Some pu) (Some pd) (int N) (int R) scale) ?ts g = Some g'"
      by auto
    have bound: "i * R + r < length ds \<and> r * N + j < length us" if "i < M" "j < N" "r < R" for i j r
      using run_threads_defined [OF ne run g(2,1) cell [OF that(1,2)], of r] that by simp
    show False
    proof (cases "length us < R * N")
      case True
      then have "length us div N < R" "length us mod N < N"
        using pos(3) by (simp_all add: div_less_iff_less_mult)
      from bound [OF pos(1) this(2,1)] show False by simp
    next
      case False
      with short have "length ds div R < M" "length ds mod R < R"
        using pos(5) by (simp_all add: div_less_iff_less_mult)
      from bound [OF this(1) pos(3) this(2)] show False by simp
    qed
  qed
  then show ?thesis
    using pos launch as_int32_nat [OF pos(4)]
    by (simp add: cuda_lora_run_def grid_limits_nat [OF pos(1-3)])
qed

section \<open>The wrapper\<close>

lemma apply_lora_run:
  assumes "holds g input x" and "holds g wup us" and "holds g wdown ds" and "holds g output os"
    and "db_ptr output \<notin> {db_ptr input, db_ptr wup, db_ptr wdown}" and "schedule_ok rt"
    and "0 < M" and "0 < N" and "0 < R" and "M * N < 2 ^ 31" and "R * N < 2 ^ 31" and "M * R < 2 ^ 31"
    and "N + 255 < 2 ^ 31"
  shows "apply_lora (cuda_detail madd rt) input wup wdown output (int M) (int N) (int R) scale g =
    (if length os < M * N \<or> length x < M * N then Some (False, g)
     else if \<not> (N \<le> 16776960 \<and> rt_launch rt g) then Some (rt_sync rt g, g)
     else if length us < R * N \<or> length ds < M * R then None
     else let g' = g(the (db_ptr output) \<mapsto> cpu_lora madd x us ds M N R scale @ drop (M * N) os)
          in Some (rt_sync rt g', g'))"
proof -
  obtain px pu pd po where p: "db_ptr input = Some px" "db_ptr wup = Some pu" "db_ptr wdown = Some pd"
      "db_ptr output = Some po" and g: "g px = Some x" "g pu = Some us" "g pd = Some ds" "g po = Some os"
    and sizes: "unat (db_bytes output) = 4 * length os" "unat (db_bytes input) = 4 * length x"
    using assms(1-4) unfolding holds_def by blast
  note valid = assms(1-4) [THEN holds_valid]
  have ne: "po \<notin> {px, pu, pd}" "po \<notin> {pu, pd}" using assms(5) p by auto
  have M: "M < 2 ^ 31"
    using assms(8,10) by (metis le_less_trans mult_le_mono2 nat_mult_1_right Suc_leI One_nat_def)
  have small: "db_bytes b < of_int (int M) * of_int (int N) * 4 \<longleftrightarrow> length zs < M * N"
    if "unat (db_bytes b) = 4 * length zs" for b and zs :: "'a list"
    unfolding word_less_nat_alt lora_need [OF assms(10)] that by simp
  let ?run = "cuda_lora_run madd rt (Some px) (Some pu) (Some pd) (Some po) (int M) (int N) (int R) scale g"
  have wrap: "apply_lora (cuda_detail madd rt) input wup wdown output (int M) (int N) (int R) scale g =
      (if length os < M * N \<or> length x < M * N then Some (False, g) else ?run)"
    unfolding apply_lora_def Let_def small [OF sizes(1)] small [OF sizes(2)]
    using valid by (simp add: cuda_detail_def p)
  have run: "?run = (if \<not> (N \<le> 16776960 \<and> rt_launch rt g) then Some (rt_sync rt g, g)
      else if length us < R * N \<or> length ds < M * R then None
      else let g' = g(po \<mapsto> cpu_lora madd x us ds M N R scale @ drop (M * N) os) in Some (rt_sync rt g', g'))"
    if big: "\<not> (length os < M * N \<or> length x < M * N)"
  proof (cases "N \<le> 16776960 \<and> rt_launch rt g")
    case launch: True
    show ?thesis
    proof (cases "length us < R * N \<or> length ds < M * R")
      case True
      with launch cuda_lora_run_short [OF assms(6) g(2,3) ne(2) assms(7) M assms(8,13,9)] show ?thesis by simp
    next
      case False
      with big have "launch_ok M N R x us ds" using assms(7-13) by (simp add: launch_ok_def)
      from cuda_lora_run_exact [OF this assms(6) M _ _ g _ ne(1)] launch False big show ?thesis by simp
    qed
  next
    case False
    then show ?thesis using cuda_lora_run_refused [OF assms(7) M assms(8,13,9) False] by simp
  qed
  show ?thesis unfolding wrap using run p(4) by simp
qed

text \<open>
  C20: \<open>apply_lora\<close> on valid buffers that hold arrays, the output in memory of its own, for sizes
  whose index expressions fit an \<open>int\<close>, in every order of the threads. If input or output has fewer
  than \<open>M * N\<close> cells the call is refused. Otherwise, if \<open>N\<close> is above \<open>16776960\<close>, where the grid would
  have more than 65535 blocks in \<open>y\<close>, or the runtime refuses the launch, nothing is written, and the
  call still reports what the synchronization reports. Otherwise, if one of the weight arrays is
  shorter than the code assumes without a check (\<open>R * N\<close> and \<open>M * R\<close> cells), a thread reads behind its
  end. Otherwise the output becomes exactly what the loop on the host computes with the device's
  rounding, and the cells behind it and all other memory stay.
\<close>

theorem apply_lora_exact:
  assumes "holds g input x" and "holds g wup us" and "holds g wdown ds" and "holds g output os"
    and "db_ptr output \<notin> {db_ptr input, db_ptr wup, db_ptr wdown}" and "schedule_ok rt"
    and "0 < M" and "0 < N" and "0 < R" and "M * N < 2 ^ 31" and "R * N < 2 ^ 31" and "M * R < 2 ^ 31"
    and "N + 255 < 2 ^ 31"
  shows "apply_lora (cuda_detail madd rt) input wup wdown output (int M) (int N) (int R) scale g =
    (if length os < M * N \<or> length x < M * N then Some (False, g)
     else if \<not> (N \<le> 16776960 \<and> rt_launch rt g) then Some (rt_sync rt g, g)
     else if length us < R * N \<or> length ds < M * R then None
     else let g' = g(the (db_ptr output) \<mapsto> cpu_lora madd x us ds M N R scale @ drop (M * N) os)
          in Some (rt_sync rt g', g'))"
  by (rule apply_lora_run [OF assms])

text \<open>
  A download after an upload of the same size gives the uploaded floats back, for every buffer
  and size; both are refused on an invalid buffer or one that is too small, and then nothing
  changes.
\<close>

theorem upload_download:
  assumes "cuda_upload (cuda_detail madd rt) buf xs n g = (ok1, g1)"
    and "cuda_download (cuda_detail madd rt) buf ys n g1 = (ok2, zs)"
    and "length xs = float_count n" and "length ys = float_count n"
  shows "if db_valid buf \<and> n \<le> db_bytes buf
    then (ok1 \<and> ok2 \<longrightarrow> zs = xs) \<and> (\<forall>p. db_ptr buf \<noteq> Some p \<longrightarrow> g1 p = g p)
    else \<not> ok1 \<and> \<not> ok2 \<and> g1 = g \<and> zs = ys"
proof (cases "db_valid buf \<and> n \<le> db_bytes buf")
  case True
  then obtain p where p: "db_ptr buf = Some p" by (auto simp: db_valid_def)
  show ?thesis
    using assms True
    by (cases "g p"; cases "g1 p")
      (auto simp: cuda_upload_def cuda_download_def cuda_detail_def cuda_h2d_def cuda_d2h_def p Let_def
        split: if_splits)
next
  case False
  then show ?thesis
    using assms by (auto simp: cuda_upload_def cuda_download_def not_le)
qed

text \<open>An index outside of the devices is reported as not available, with their number.\<close>

lemma device_info_range:
  "rt_count rt g = (True, c) \<Longrightarrow> i < 0 \<or> c \<le> i \<Longrightarrow>
     det_info (cuda_detail madd rt) i g = DeviceInfo_default\<lparr>di_count := c\<rparr>"
  by (auto simp: cuda_detail_def cuda_info_def Let_def)

text \<open>Without the runtime every operation of the wrapper refuses and nothing changes.\<close>

lemma stub_refuses:
  "\<not> det_available stub_detail g" "\<not> db_valid (fst (cuda_allocate stub_detail n g))"
  "cuda_upload stub_detail b host n g = (False, g)"
  "cuda_download stub_detail b host n g = (False, host)"
  "apply_lora stub_detail a b c d M N R scale g = Some (False, g)"
  by (simp_all add: stub_detail_def cuda_allocate_def db_valid_def cuda_upload_def cuda_download_def
      apply_lora_def Let_def)

text \<open>A released buffer is invalid, and releasing it again frees nothing.\<close>

lemma release_twice:
  assumes "cuda_release (cuda_detail madd rt) b g = (b1, g1)"
  shows "\<not> db_valid b1 \<and> cuda_release (cuda_detail madd rt) b1 g1 = (b1, g1)"
  using assms by (auto simp: cuda_release_def cuda_detail_def cuda_free_def DeviceBuffer_default_def db_valid_def)

section \<open>A concrete device\<close>

text \<open>Integers for floats, threads in reverse order, a batch of one row of two columns with rank 2.\<close>

definition small_rt :: "int cuda_rt" where
  "small_rt = \<lparr>rt_count = \<lambda>_. (True, 1), rt_props = \<lambda>_. Some (''gpu'', 12, 0, 1024),
     rt_malloc = \<lambda>g n. None, rt_memcpy = \<lambda>_. True, rt_sync = \<lambda>_. True, rt_launch = \<lambda>_. True, rt_schedule = rev\<rparr>"

definition small_mem :: "int device" where
  "small_mem = [0 \<mapsto> [10, 20], 1 \<mapsto> [1, 2, 3, 4], 2 \<mapsto> [5, 6], 3 \<mapsto> [0, 0, 7]]"

definition small_buf :: "nat \<Rightarrow> uint64_t \<Rightarrow> DeviceBuffer" where
  "small_buf p n = \<lparr>db_ptr = Some p, db_bytes = n\<rparr>"

lemma small_schedule: "schedule_ok small_rt"
  by (simp add: schedule_ok_def small_rt_def)

lemma small_holds:
  "holds small_mem (small_buf 0 8) [10, 20]" "holds small_mem (small_buf 1 16) [1, 2, 3, 4]"
  "holds small_mem (small_buf 2 8) [5, 6]" "holds small_mem (small_buf 3 12) [0, 0, 7]"
  by (simp_all add: holds_def small_mem_def small_buf_def)

theorem apply_lora_exact_witness:
  "apply_lora (cuda_detail (\<lambda>a x y. a + x * y) small_rt) (small_buf 0 8) (small_buf 1 16) (small_buf 2 8)
     (small_buf 3 12) 1 2 2 10 small_mem = Some (True, small_mem(3 \<mapsto> [240, 360, 7]))"
proof -
  have cpu: "cpu_lora (\<lambda>a x y. a + x * y) [10, 20] [1, 2, 3, 4] [5, 6] 1 2 2 (10::int) = [240, 360]"
    by code_simp
  have "apply_lora (cuda_detail (\<lambda>a x y. a + x * y) small_rt) (small_buf 0 8) (small_buf 1 16)
      (small_buf 2 8) (small_buf 3 12) (int 1) (int 2) (int 2) 10 small_mem =
    (if length [0, 0, 7 :: int] < 1 * 2 \<or> length [10, 20 :: int] < 1 * 2 then Some (False, small_mem)
     else if \<not> (2 \<le> (16776960 :: nat) \<and> rt_launch small_rt small_mem) then Some (rt_sync small_rt small_mem, small_mem)
     else if length [1, 2, 3, 4 :: int] < 2 * 2 \<or> length [5, 6 :: int] < 1 * 2 then None
     else let g' = small_mem(the (db_ptr (small_buf 3 12)) \<mapsto>
            cpu_lora (\<lambda>a x y. a + x * y) [10, 20] [1, 2, 3, 4] [5, 6] 1 2 2 10 @ drop (1 * 2) [0, 0, 7])
          in Some (rt_sync small_rt g', g'))"
    by (rule apply_lora_exact [OF small_holds _ small_schedule]) (simp_all add: small_buf_def)
  then show ?thesis by (simp add: cpu [unfolded One_nat_def] small_buf_def small_rt_def Let_def)
qed

text \<open>Three ranks on weights for two: undefined behaviour.\<close>

lemma apply_lora_short_weights:
  "apply_lora (cuda_detail (\<lambda>a x y. a + x * y) small_rt) (small_buf 0 8) (small_buf 1 16) (small_buf 2 8)
     (small_buf 3 12) 1 2 3 10 small_mem = None"
  using apply_lora_run [OF small_holds _ small_schedule, of 1 2 3 "\<lambda>a x y. a + x * y" 10]
  by (simp add: small_buf_def small_rt_def)

theorem upload_download_witness:
  "\<exists>g. cuda_upload (cuda_detail (\<lambda>a x y. a + x * y) small_rt) (small_buf 3 12) [8, 9] 8 small_mem = (True, g) \<and>
     cuda_download (cuda_detail (\<lambda>a x y. a + x * y) small_rt) (small_buf 3 12) [0, 0] 8 g = (True, [8, 9])"
proof -
  let ?det = "cuda_detail (\<lambda>a x y. a + x * y) small_rt"
  obtain ok1 g where u: "cuda_upload ?det (small_buf 3 12) [8, 9] 8 small_mem = (ok1, g)"
    by (cases "cuda_upload ?det (small_buf 3 12) [8, 9] 8 small_mem") blast
  obtain ok2 zs where d: "cuda_download ?det (small_buf 3 12) [0, 0] 8 g = (ok2, zs)"
    by (cases "cuda_download ?det (small_buf 3 12) [0, 0] 8 g") blast
  have good: "ok1" "ok2"
    using u d by (auto simp: cuda_upload_def cuda_download_def cuda_detail_def cuda_h2d_def cuda_d2h_def
        small_buf_def small_rt_def small_mem_def db_valid_def Let_def)
  have "if db_valid (small_buf 3 12) \<and> 8 \<le> db_bytes (small_buf 3 12)
    then (ok1 \<and> ok2 \<longrightarrow> zs = [8, 9]) \<and> (\<forall>p. db_ptr (small_buf 3 12) \<noteq> Some p \<longrightarrow> g p = small_mem p)
    else \<not> ok1 \<and> \<not> ok2 \<and> g = small_mem \<and> zs = [0, 0]"
    by (rule upload_download [OF u d]) (simp_all add: float_count_def)
  with u d good show ?thesis by (simp add: small_buf_def db_valid_def)
qed

end
