(* ===== verification/AF_CudaProof.thy ===== *)
theory AF_CudaProof
  imports AF_Cuda
begin

text \<open>
  The self-test of the accelerator (\<open>run_cuda_proof\<close> of \<open>proof_cuda.cpp\<close>): random arrays are
  uploaded, adapted by the kernel and compared with the loop on the host, then once more on the
  resident buffers, then released and reloaded. The random engine is the parameter \<open>draw\<close>; what the
  host compiles for floating point is the record \<open>'f fops\<close>: \<open>fo_madd a x y\<close> is its \<open>a + x * y\<close>,
  \<open>fo_err\<close> the absolute difference and \<open>fo_gt\<close> the comparison. The device may round differently: its
  \<open>madd\<close> is a parameter of its own. \<open>None\<close> is undefined behaviour, as in \<open>AF_Cuda\<close>.
\<close>

record 'f fops =
  fo_madd :: "'f \<Rightarrow> 'f \<Rightarrow> 'f \<Rightarrow> 'f"
  fo_err :: "'f \<Rightarrow> 'f \<Rightarrow> 'f"
  fo_gt :: "'f \<Rightarrow> 'f \<Rightarrow> bool"
  fo_scale :: 'f
  fo_limit :: 'f

fun draw_list :: "('g \<Rightarrow> 'f \<times> 'g) \<Rightarrow> nat \<Rightarrow> 'g \<Rightarrow> 'f list \<times> 'g" where
  "draw_list draw 0 gen = ([], gen)"
| "draw_list draw (Suc n) gen =
     (case draw gen of (v, gen1) \<Rightarrow> (case draw_list draw n gen1 of (vs, gen2) \<Rightarrow> (v # vs, gen2)))"

definition lora_M :: nat where "lora_M = 16"
definition lora_N :: nat where "lora_N = 32"
definition lora_R :: nat where "lora_R = 4"

text \<open>The arrays \<open>x\<close>, \<open>wup\<close> and \<open>wdown\<close>, filled in this order.\<close>

definition fill_inputs :: "('g \<Rightarrow> 'f \<times> 'g) \<Rightarrow> 'g \<Rightarrow> ('f list \<times> 'f list \<times> 'f list) \<times> 'g" where
  "fill_inputs draw gen =
    (let (x, gen1) = draw_list draw (lora_M * lora_N) gen;
         (us, gen2) = draw_list draw (lora_R * lora_N) gen1;
         (ds, gen3) = draw_list draw (lora_M * lora_R) gen2
     in ((x, us, ds), gen3))"

definition max_error :: "'f::zero fops \<Rightarrow> 'f list \<Rightarrow> 'f list \<Rightarrow> 'f" where
  "max_error fo y ref =
     foldl (\<lambda>m (a, b). let e = fo_err fo a b in if fo_gt fo e m then e else m) 0 (zip y ref)"

definition too_far :: "'f::zero fops \<Rightarrow> 'f list \<Rightarrow> 'f list \<Rightarrow> bool" where
  "too_far fo y ref \<longleftrightarrow> fo_gt fo (max_error fo y ref) (fo_limit fo)"

definition float_bytes :: "nat \<Rightarrow> uint64_t" where
  "float_bytes n = of_nat n * 4"

text \<open>The four buffers: input, wup, wdown, output.\<close>

type_synonym buffers = "DeviceBuffer \<times> DeviceBuffer \<times> DeviceBuffer \<times> DeviceBuffer"

definition allocate_buffers :: "'f detail \<Rightarrow> 'f device \<Rightarrow> buffers \<times> 'f device" where
  "allocate_buffers det g =
    (let (b1, g1) = cuda_allocate det (float_bytes (lora_M * lora_N)) g;
         (b2, g2) = cuda_allocate det (float_bytes (lora_R * lora_N)) g1;
         (b3, g3) = cuda_allocate det (float_bytes (lora_M * lora_R)) g2;
         (b4, g4) = cuda_allocate det (float_bytes (lora_M * lora_N)) g3
     in ((b1, b2, b3, b4), g4))"

definition all_valid :: "buffers \<Rightarrow> bool" where
  "all_valid bs = (case bs of (b1, b2, b3, b4) \<Rightarrow> db_valid b1 \<and> db_valid b2 \<and> db_valid b3 \<and> db_valid b4)"

definition release_buffers :: "'f detail \<Rightarrow> buffers \<Rightarrow> 'f device \<Rightarrow> 'f device" where
  "release_buffers det bs g =
    (case bs of (b1, b2, b3, b4) \<Rightarrow> snd (cuda_release det b4 (snd (cuda_release det b3
       (snd (cuda_release det b2 (snd (cuda_release det b1 g))))))))"

definition execute ::
    "'f detail \<Rightarrow> 'f fops \<Rightarrow> buffers \<Rightarrow> 'f device \<Rightarrow> (bool \<times> 'f device) option" where
  "execute det fo bs g =
    (case bs of (b1, b2, b3, b4) \<Rightarrow>
       apply_lora det b1 b2 b3 b4 (int lora_M) (int lora_N) (int lora_R) (fo_scale fo) g)"

definition fetch :: "'f detail \<Rightarrow> buffers \<Rightarrow> 'f list \<Rightarrow> 'f device \<Rightarrow> bool \<times> 'f list" where
  "fetch det bs y g = (case bs of (b1, b2, b3, b4) \<Rightarrow> cuda_download det b4 y (float_bytes (length y)) g)"

text \<open>
  The cold run stops at the first step that fails, the reload ignores what its steps return, and
  so does the warm run, which executes again and fetches.
\<close>

definition cold_run ::
    "'f detail \<Rightarrow> 'f fops \<Rightarrow> buffers \<Rightarrow> 'f list \<times> 'f list \<times> 'f list \<Rightarrow> 'f list \<Rightarrow> 'f device \<Rightarrow>
     (bool \<times> 'f list \<times> 'f device) option" where
  "cold_run det fo bs inputs y g =
    (case (bs, inputs) of ((b1, b2, b3, b4), (x, us, ds)) \<Rightarrow>
     let (ok1, g1) = cuda_upload det b1 x (float_bytes (length x)) g;
         (ok2, g2) = (if ok1 then cuda_upload det b2 us (float_bytes (length us)) g1 else (False, g1));
         (ok3, g3) = (if ok2 then cuda_upload det b3 ds (float_bytes (length ds)) g2 else (False, g2))
     in if \<not> ok3 then Some (False, y, g3)
        else Option.bind (execute det fo bs g3) (\<lambda>(ok4, g4).
          if \<not> ok4 then Some (False, y, g4)
          else (case fetch det bs y g4 of (ok5, y1) \<Rightarrow> Some (ok5, y1, g4))))"

definition warm_run ::
    "'f detail \<Rightarrow> 'f fops \<Rightarrow> buffers \<Rightarrow> 'f list \<Rightarrow> 'f device \<Rightarrow> ('f list \<times> 'f device) option" where
  "warm_run det fo bs y g =
     Option.bind (execute det fo bs g) (\<lambda>(ok, g1). Some (snd (fetch det bs y g1), g1))"

definition reload_run ::
    "'f detail \<Rightarrow> 'f fops \<Rightarrow> buffers \<Rightarrow> 'f list \<times> 'f list \<times> 'f list \<Rightarrow> 'f list \<Rightarrow> 'f device \<Rightarrow>
     ('f list \<times> 'f device) option" where
  "reload_run det fo bs inputs y g =
    (case (bs, inputs) of ((b1, b2, b3, b4), (x, us, ds)) \<Rightarrow>
       warm_run det fo bs y
         (snd (cuda_upload det b3 ds (float_bytes (length ds))
           (snd (cuda_upload det b2 us (float_bytes (length us))
             (snd (cuda_upload det b1 x (float_bytes (length x)) g)))))))"

definition host_reference :: "'f::zero fops \<Rightarrow> 'f list \<times> 'f list \<times> 'f list \<Rightarrow> 'f list" where
  "host_reference fo inputs =
     (case inputs of (x, us, ds) \<Rightarrow> cpu_lora (fo_madd fo) x us ds lora_M lora_N lora_R (fo_scale fo))"

text \<open>
  The part after the release of the first buffers: memory is available again, and new arrays on
  new buffers.
\<close>

definition reload_part ::
    "'f detail \<Rightarrow> 'f::zero fops \<Rightarrow> ('g \<Rightarrow> 'f \<times> 'g) \<Rightarrow> 'g \<Rightarrow> 'f list \<Rightarrow> 'f device \<Rightarrow> (int \<times> 'f device) option" where
  "reload_part det fo draw gen y g =
    (let (big, g1) = cuda_allocate det (64 * 1024 * 1024) g in
     if \<not> db_valid big then Some (1, g1)
     else let g2 = snd (cuda_release det big g1);
              (inputs, gen1) = fill_inputs draw gen;
              (bs, g3) = allocate_buffers det g2
          in if \<not> all_valid bs then Some (1, g3)
             else Option.bind (reload_run det fo bs inputs y g3) (\<lambda>(y1, g4).
               let g5 = release_buffers det bs g4
               in Some (if too_far fo y1 (host_reference fo inputs) then 1 else 0, g5)))"

definition run_cuda_proof ::
    "'f detail \<Rightarrow> 'f::zero fops \<Rightarrow> ('g \<Rightarrow> 'f \<times> 'g) \<Rightarrow> 'g \<Rightarrow> 'f device \<Rightarrow> (int \<times> 'f device) option" where
  "run_cuda_proof det fo draw gen g =
    (if \<not> det_available det g then Some (1, g)
     else if \<not> di_available (det_info det 0 g) then Some (1, g)
     else let (inputs, gen1) = fill_inputs draw gen;
              (bs, g1) = allocate_buffers det g
          in if \<not> all_valid bs then Some (1, g1)
             else Option.bind (cold_run det fo bs inputs (replicate (lora_M * lora_N) 0) g1) (\<lambda>(okc, y, g2).
               if \<not> okc \<or> too_far fo y (host_reference fo inputs) then Some (1, g2)
               else Option.bind (warm_run det fo bs y g2) (\<lambda>(y1, g3).
                 if too_far fo y1 (host_reference fo inputs) then Some (1, g3)
                 else reload_part det fo draw gen1 y1 (release_buffers det bs g3))))"

section \<open>A run that passes\<close>

text \<open>
  The runtime has a device, copies, launches and synchronizes, runs every thread of a launch once,
  and while fewer than \<open>k\<close> allocations are in use it allocates the sizes the self-test asks for (its
  arrays and the 64 MiB of the recovery check) in memory that was not in use.
\<close>

definition proof_sizes :: "nat set" where
  "proof_sizes = {lora_M * lora_N, lora_R * lora_N, lora_M * lora_R, 2 ^ 24}"

definition runtime_ok :: "nat \<Rightarrow> 'f cuda_rt \<Rightarrow> bool" where
  "runtime_ok k rt \<longleftrightarrow> schedule_ok rt \<and>
     (\<forall>g. rt_memcpy rt g \<and> rt_sync rt g \<and> rt_launch rt g \<and> cuda_is_available rt g) \<and> rt_props rt 0 \<noteq> None \<and>
     (\<forall>g. \<forall>n \<in> proof_sizes. finite (dom g) \<longrightarrow> card (dom g) < k \<longrightarrow>
        (\<exists>p xs. rt_malloc rt g (float_bytes n) = Some (p, xs) \<and> g p = None \<and> length xs = n))"

lemma length_draw_list: "length (fst (draw_list draw n gen)) = n"
  by (induction n arbitrary: gen) (simp_all add: case_prod_beta)

lemma fill_inputs_lengths:
  assumes "fill_inputs draw gen = ((x, us, ds), gen1)"
  shows "length x = lora_M * lora_N" "length us = lora_R * lora_N" "length ds = lora_M * lora_R"
  using assms length_draw_list [of draw]
  by (auto simp: fill_inputs_def case_prod_beta Let_def simp del: draw_list.simps)

text \<open>Four buffers of the right sizes on four different pointers, and what they hold.\<close>

type_synonym 'f arrays = "'f list \<times> 'f list \<times> 'f list \<times> 'f list"

definition sized :: "'f arrays \<Rightarrow> bool" where
  "sized as = (case as of (a1, a2, a3, a4) \<Rightarrow> length a1 = lora_M * lora_N \<and> length a2 = lora_R * lora_N \<and>
     length a3 = lora_M * lora_R \<and> length a4 = lora_M * lora_N)"

definition buffers_on :: "nat \<times> nat \<times> nat \<times> nat \<Rightarrow> buffers" where
  "buffers_on ps = (case ps of (p1, p2, p3, p4) \<Rightarrow>
     (\<lparr>db_ptr = Some p1, db_bytes = float_bytes (lora_M * lora_N)\<rparr>,
      \<lparr>db_ptr = Some p2, db_bytes = float_bytes (lora_R * lora_N)\<rparr>,
      \<lparr>db_ptr = Some p3, db_bytes = float_bytes (lora_M * lora_R)\<rparr>,
      \<lparr>db_ptr = Some p4, db_bytes = float_bytes (lora_M * lora_N)\<rparr>))"

definition put_arrays :: "nat \<times> nat \<times> nat \<times> nat \<Rightarrow> 'f arrays \<Rightarrow> 'f device \<Rightarrow> 'f device" where
  "put_arrays ps as g = (case (ps, as) of ((p1, p2, p3, p4), (a1, a2, a3, a4)) \<Rightarrow>
     g(p1 \<mapsto> a1, p2 \<mapsto> a2, p3 \<mapsto> a3, p4 \<mapsto> a4))"

definition fresh_pointers :: "nat \<times> nat \<times> nat \<times> nat \<Rightarrow> 'f device \<Rightarrow> bool" where
  "fresh_pointers ps g = (case ps of (p1, p2, p3, p4) \<Rightarrow> distinct [p1, p2, p3, p4] \<and>
     g p1 = None \<and> g p2 = None \<and> g p3 = None \<and> g p4 = None)"

lemma lora_sizes: "lora_M * lora_N = 512" "lora_R * lora_N = 128" "lora_M * lora_R = 64"
  "lora_M = 16" "lora_N = 32" "lora_R = 4"
  by (simp_all add: lora_M_def lora_N_def lora_R_def)

lemma unat_float_bytes: "n < 2 ^ 31 \<Longrightarrow> unat (float_bytes n) = 4 * n"
  by (simp add: float_bytes_def unat_word_ariths unat_of_nat)

lemma float_count_bytes [simp]: "n < 2 ^ 31 \<Longrightarrow> float_count (float_bytes n) = n"
  by (simp add: float_count_def unat_float_bytes)

text \<open>Room for \<open>j\<close> more allocations.\<close>

definition room :: "nat \<Rightarrow> nat \<Rightarrow> 'f device \<Rightarrow> bool" where
  "room j k g \<longleftrightarrow> finite (dom g) \<and> card (dom g) + j \<le> k"

lemma allocate_one:
  assumes "runtime_ok k rt" and "room (Suc j) k g" and n: "n \<in> proof_sizes"
  obtains p xs where "cuda_allocate (cuda_detail madd rt) (float_bytes n) g =
      (\<lparr>db_ptr = Some p, db_bytes = float_bytes n\<rparr>, g(p \<mapsto> xs))"
    and "g p = None" and "length xs = n" and "room j k (g(p \<mapsto> xs))"
proof -
  have "finite (dom g)" "card (dom g) < k" using assms(2) by (simp_all add: room_def)
  then obtain p xs where px: "rt_malloc rt g (float_bytes n) = Some (p, xs)" "g p = None" "length xs = n"
    using assms(1) n unfolding runtime_ok_def by blast
  have "room j k (g(p \<mapsto> xs))" using assms(2) px(2) by (auto simp: room_def domIff)
  with px show ?thesis
    by (intro that [of p xs]) (simp_all add: cuda_allocate_def cuda_detail_def cuda_alloc_def)
qed

lemma allocate_four:
  assumes rt: "runtime_ok k rt" and free: "room 4 k g"
  obtains ps as where "allocate_buffers (cuda_detail madd rt) g = (buffers_on ps, put_arrays ps as g)"
    and "fresh_pointers ps g" and "sized as"
proof -
  let ?det = "cuda_detail madd rt"
  have sizes: "lora_M * lora_N \<in> proof_sizes" "lora_R * lora_N \<in> proof_sizes" "lora_M * lora_R \<in> proof_sizes"
    by (simp_all add: proof_sizes_def)
  from free have r4: "room (Suc (Suc (Suc (Suc 0)))) k g" by (simp add: eval_nat_numeral)
  obtain p1 a1 where 1: "cuda_allocate ?det (float_bytes (lora_M * lora_N)) g =
      (\<lparr>db_ptr = Some p1, db_bytes = float_bytes (lora_M * lora_N)\<rparr>, g(p1 \<mapsto> a1))" "g p1 = None"
      "length a1 = lora_M * lora_N" and r3: "room (Suc (Suc (Suc 0))) k (g(p1 \<mapsto> a1))"
    by (rule allocate_one [OF rt r4 sizes(1)])
  obtain p2 a2 where 2: "cuda_allocate ?det (float_bytes (lora_R * lora_N)) (g(p1 \<mapsto> a1)) =
      (\<lparr>db_ptr = Some p2, db_bytes = float_bytes (lora_R * lora_N)\<rparr>, g(p1 \<mapsto> a1, p2 \<mapsto> a2))"
      "(g(p1 \<mapsto> a1)) p2 = None" "length a2 = lora_R * lora_N" and r2: "room (Suc (Suc 0)) k (g(p1 \<mapsto> a1, p2 \<mapsto> a2))"
    by (rule allocate_one [OF rt r3 sizes(2)])
  obtain p3 a3 where 3: "cuda_allocate ?det (float_bytes (lora_M * lora_R)) (g(p1 \<mapsto> a1, p2 \<mapsto> a2)) =
      (\<lparr>db_ptr = Some p3, db_bytes = float_bytes (lora_M * lora_R)\<rparr>, g(p1 \<mapsto> a1, p2 \<mapsto> a2, p3 \<mapsto> a3))"
      "(g(p1 \<mapsto> a1, p2 \<mapsto> a2)) p3 = None" "length a3 = lora_M * lora_R"
      and r1: "room (Suc 0) k (g(p1 \<mapsto> a1, p2 \<mapsto> a2, p3 \<mapsto> a3))"
    by (rule allocate_one [OF rt r2 sizes(3)])
  obtain p4 a4 where 4: "cuda_allocate ?det (float_bytes (lora_M * lora_N)) (g(p1 \<mapsto> a1, p2 \<mapsto> a2, p3 \<mapsto> a3)) =
      (\<lparr>db_ptr = Some p4, db_bytes = float_bytes (lora_M * lora_N)\<rparr>, g(p1 \<mapsto> a1, p2 \<mapsto> a2, p3 \<mapsto> a3, p4 \<mapsto> a4))"
      "(g(p1 \<mapsto> a1, p2 \<mapsto> a2, p3 \<mapsto> a3)) p4 = None" "length a4 = lora_M * lora_N"
    by (rule allocate_one [OF rt r1 sizes(1)])
  show ?thesis
    using 1 2 3 4
    by (intro that [of "(p1, p2, p3, p4)" "(a1, a2, a3, a4)"])
      (auto simp: allocate_buffers_def buffers_on_def put_arrays_def fresh_pointers_def sized_def Let_def
        split: if_splits)
qed

lemma release_four:
  "fresh_pointers ps g \<Longrightarrow> release_buffers (cuda_detail madd rt) (buffers_on ps) (put_arrays ps as g) = g"
  by (auto simp: release_buffers_def buffers_on_def put_arrays_def fresh_pointers_def cuda_release_def
      cuda_detail_def cuda_free_def split: prod.splits)

text \<open>Steps on buffers that are in place.\<close>

lemma buffers_hold:
  assumes "fresh_pointers (p1, p2, p3, p4) g" and "sized (a1, a2, a3, a4)"
  defines "bs \<equiv> buffers_on (p1, p2, p3, p4)" and "h \<equiv> put_arrays (p1, p2, p3, p4) (a1, a2, a3, a4) g"
  shows "holds h (fst bs) a1" "holds h (fst (snd bs)) a2" "holds h (fst (snd (snd bs))) a3"
    "holds h (snd (snd (snd bs))) a4"
  using assms(1,2)
  by (auto simp: holds_def bs_def h_def buffers_on_def put_arrays_def sized_def fresh_pointers_def
      unat_float_bytes lora_sizes)

lemma upload_exact:
  assumes "runtime_ok k rt" and "db_ptr b = Some p" and "g p = Some old" and "length old = length host"
    and "db_bytes b = float_bytes (length host)" and "0 < length host" and "length host < 2 ^ 31"
  shows "cuda_upload (cuda_detail madd rt) b host (float_bytes (length host)) g = (True, g(p \<mapsto> host))"
proof -
  have "0 < unat (float_bytes (length host))" using unat_float_bytes [OF assms(7)] assms(6) by simp
  then have "db_valid b" using assms(2,5) by (simp add: db_valid_def unat_gt_0 word_gt_0)
  with assms show ?thesis
    by (simp add: cuda_upload_def cuda_detail_def cuda_h2d_def runtime_ok_def Let_def)
qed

definition device_result :: "('f::zero \<Rightarrow> 'f \<Rightarrow> 'f \<Rightarrow> 'f) \<Rightarrow> 'f fops \<Rightarrow> 'f list \<times> 'f list \<times> 'f list \<Rightarrow> 'f list" where
  "device_result madd fo inputs =
     (case inputs of (x, us, ds) \<Rightarrow> cpu_lora madd x us ds lora_M lora_N lora_R (fo_scale fo))"

lemma length_device_result: "length (device_result madd fo inputs) = lora_M * lora_N"
  by (cases inputs) (simp add: device_result_def cpu_lora_nth(1) lora_sizes)

lemma execute_exact:
  assumes rt: "runtime_ok k rt" and ps: "fresh_pointers ps g" and sz: "sized (x, us, ds, a)"
  shows "execute (cuda_detail madd rt) fo (buffers_on ps) (put_arrays ps (x, us, ds, a) g) =
    Some (True, put_arrays ps (x, us, ds, device_result madd fo (x, us, ds)) g)"
proof -
  obtain p1 p2 p3 p4 where p: "ps = (p1, p2, p3, p4)" by (cases ps) auto
  let ?h = "put_arrays ps (x, us, ds, a) g"
  note hold = buffers_hold [OF ps [unfolded p] sz, folded p]
  have sched: "schedule_ok rt" using rt by (simp add: runtime_ok_def)
  have lens: "length x = 512" "length us = 128" "length ds = 64" "length a = 512"
    using sz by (simp_all add: sized_def lora_sizes)
  have "apply_lora (cuda_detail madd rt) (fst (buffers_on ps)) (fst (snd (buffers_on ps)))
      (fst (snd (snd (buffers_on ps)))) (snd (snd (snd (buffers_on ps)))) (int lora_M) (int lora_N) (int lora_R)
      (fo_scale fo) ?h =
    (if length a < lora_M * lora_N \<or> length x < lora_M * lora_N then Some (False, ?h)
     else if \<not> (lora_N \<le> 16776960 \<and> rt_launch rt ?h) then Some (rt_sync rt ?h, ?h)
     else if length us < lora_R * lora_N \<or> length ds < lora_M * lora_R then None
     else let g' = ?h(the (db_ptr (snd (snd (snd (buffers_on ps))))) \<mapsto>
            cpu_lora madd x us ds lora_M lora_N lora_R (fo_scale fo) @ drop (lora_M * lora_N) a)
          in Some (rt_sync rt g', g'))"
    by (rule apply_lora_run [OF hold _ sched])
      (use ps lens in \<open>auto simp: p buffers_on_def fresh_pointers_def lora_sizes\<close>)
  with rt lens show ?thesis
    by (simp add: execute_def p buffers_on_def put_arrays_def lora_sizes runtime_ok_def device_result_def Let_def)
qed

lemma fetch_exact:
  assumes rt: "runtime_ok k rt" and ps: "fresh_pointers ps g" and "length a = lora_M * lora_N" "length y = lora_M * lora_N"
  shows "fetch (cuda_detail madd rt) (buffers_on ps) y (put_arrays ps (x, us, ds, a) g) = (True, a)"
  using assms unat_float_bytes [of 512]
  by (auto simp: fetch_def buffers_on_def put_arrays_def cuda_download_def cuda_detail_def cuda_d2h_def
      runtime_ok_def db_valid_def lora_sizes unat_gt_0 word_gt_0 split: prod.splits)

lemma uploads_exact:
  assumes rt: "runtime_ok k rt" and ps: "fresh_pointers (p1, p2, p3, p4) g" and old: "sized (a1, a2, a3, a4)"
    and new: "sized (x, us, ds, a4)" and b: "buffers_on (p1, p2, p3, p4) = (b1, b2, b3, b4)"
  shows "cuda_upload (cuda_detail madd rt) b1 x (float_bytes (length x)) (put_arrays (p1, p2, p3, p4) (a1, a2, a3, a4) g) =
      (True, put_arrays (p1, p2, p3, p4) (x, a2, a3, a4) g)"
    "cuda_upload (cuda_detail madd rt) b2 us (float_bytes (length us)) (put_arrays (p1, p2, p3, p4) (x, a2, a3, a4) g) =
      (True, put_arrays (p1, p2, p3, p4) (x, us, a3, a4) g)"
    "cuda_upload (cuda_detail madd rt) b3 ds (float_bytes (length ds)) (put_arrays (p1, p2, p3, p4) (x, us, a3, a4) g) =
      (True, put_arrays (p1, p2, p3, p4) (x, us, ds, a4) g)"
  using ps old new b
  by (subst upload_exact [OF rt];
      force simp: buffers_on_def put_arrays_def sized_def fresh_pointers_def lora_sizes fun_upd_twist)+

text \<open>The three runs on buffers in place.\<close>

lemma warm_run_exact:
  assumes rt: "runtime_ok k rt" and ps: "fresh_pointers ps g" and sz: "sized (x, us, ds, a)"
    and y: "length y = lora_M * lora_N"
  shows "warm_run (cuda_detail madd rt) fo (buffers_on ps) y (put_arrays ps (x, us, ds, a) g) =
    Some (device_result madd fo (x, us, ds), put_arrays ps (x, us, ds, device_result madd fo (x, us, ds)) g)"
  by (simp add: warm_run_def execute_exact [OF rt ps sz] fetch_exact [OF rt ps length_device_result y])

lemma cold_run_exact:
  assumes rt: "runtime_ok k rt" and ps: "fresh_pointers ps g" and old: "sized (a1, a2, a3, a4)"
    and new: "sized (x, us, ds, a4)" and y: "length y = lora_M * lora_N"
  shows "cold_run (cuda_detail madd rt) fo (buffers_on ps) (x, us, ds) y (put_arrays ps (a1, a2, a3, a4) g) =
    Some (True, device_result madd fo (x, us, ds), put_arrays ps (x, us, ds, device_result madd fo (x, us, ds)) g)"
proof -
  obtain p1 p2 p3 p4 where p: "ps = (p1, p2, p3, p4)" by (cases ps) auto
  obtain b1 b2 b3 b4 where b: "buffers_on (p1, p2, p3, p4) = (b1, b2, b3, b4)" by (cases "buffers_on (p1, p2, p3, p4)") auto
  note up = uploads_exact [OF rt ps [unfolded p] old new b]
  note ex = execute_exact [OF rt ps new, unfolded p b] and fe = fetch_exact [OF rt ps length_device_result y, unfolded p b]
  show ?thesis by (simp add: cold_run_def p b up ex fe)
qed

lemma reload_run_exact:
  assumes rt: "runtime_ok k rt" and ps: "fresh_pointers ps g" and old: "sized (a1, a2, a3, a4)"
    and new: "sized (x, us, ds, a4)" and y: "length y = lora_M * lora_N"
  shows "reload_run (cuda_detail madd rt) fo (buffers_on ps) (x, us, ds) y (put_arrays ps (a1, a2, a3, a4) g) =
    Some (device_result madd fo (x, us, ds), put_arrays ps (x, us, ds, device_result madd fo (x, us, ds)) g)"
proof -
  obtain p1 p2 p3 p4 where p: "ps = (p1, p2, p3, p4)" by (cases ps) auto
  obtain b1 b2 b3 b4 where b: "buffers_on (p1, p2, p3, p4) = (b1, b2, b3, b4)" by (cases "buffers_on (p1, p2, p3, p4)") auto
  note up = uploads_exact [OF rt ps [unfolded p] old new b]
  show ?thesis using warm_run_exact [OF rt ps new y, unfolded p b] by (simp add: reload_run_def p b up)
qed

text \<open>On these arrays the device computes within the tolerance of the host.\<close>

definition agrees_on :: "('f::zero \<Rightarrow> 'f \<Rightarrow> 'f \<Rightarrow> 'f) \<Rightarrow> 'f fops \<Rightarrow> 'f list \<times> 'f list \<times> 'f list \<Rightarrow> bool" where
  "agrees_on madd fo inputs \<longleftrightarrow> \<not> too_far fo (device_result madd fo inputs) (host_reference fo inputs)"

lemma sized_inputs: "fill_inputs draw gen = ((x, us, ds), gen1) \<Longrightarrow> sized (a1, a2, a3, a4) \<Longrightarrow> sized (x, us, ds, a4)"
  using fill_inputs_lengths [of draw gen x us ds gen1] by (simp add: sized_def)

lemma reload_part_exact:
  assumes rt: "runtime_ok k rt" and free: "room 4 k g" and y: "length y = lora_M * lora_N"
  shows "reload_part (cuda_detail madd rt) fo draw gen y g =
    Some (if agrees_on madd fo (fst (fill_inputs draw gen)) then 0 else 1, g)"
proof -
  let ?det = "cuda_detail madd rt"
  have one: "room (Suc 3) k g" using free by (simp add: room_def)
  have big: "float_bytes (2 ^ 24) = 67108864" by (simp add: float_bytes_def)
  obtain p xs where al: "cuda_allocate ?det (float_bytes (2 ^ 24)) g =
      (\<lparr>db_ptr = Some p, db_bytes = float_bytes (2 ^ 24)\<rparr>, g(p \<mapsto> xs))" and p: "g p = None"
    by (rule allocate_one [OF rt one, of "2 ^ 24"]) (simp_all add: proof_sizes_def)
  have valid: "db_valid \<lparr>db_ptr = Some p, db_bytes = float_bytes (2 ^ 24)\<rparr>"
    by (simp add: db_valid_def float_bytes_def)
  have rel: "cuda_release ?det \<lparr>db_ptr = Some p, db_bytes = float_bytes (2 ^ 24)\<rparr> (g(p \<mapsto> xs)) = (DeviceBuffer_default, g)"
    using p by (auto simp: cuda_release_def cuda_detail_def cuda_free_def)
  obtain x us ds gen1 where fill: "fill_inputs draw gen = ((x, us, ds), gen1)" by (metis prod.exhaust)
  obtain ps as where four: "allocate_buffers ?det g = (buffers_on ps, put_arrays ps as g)" "fresh_pointers ps g" "sized as"
    by (rule allocate_four [OF rt free])
  obtain a1 a2 a3 a4 where as: "as = (a1, a2, a3, a4)" by (metis prod.exhaust)
  have ok: "all_valid (buffers_on ps)"
    by (auto simp: all_valid_def buffers_on_def db_valid_def float_bytes_def lora_sizes split: prod.splits)
  note run = reload_run_exact [OF rt four(2) four(3) [unfolded as] sized_inputs [OF fill four(3) [unfolded as]] y]
  show ?thesis
    using release_four [OF four(2)]
    by (simp add: reload_part_def al [unfolded big] valid [unfolded big] rel [unfolded big] fill four(1) as ok run
        Let_def agrees_on_def)
qed

lemma card_put_arrays:
  assumes "fresh_pointers ps g" and "finite (dom g)"
  shows "card (dom (put_arrays ps as g)) = card (dom g) + 4"
proof -
  obtain p1 p2 p3 p4 where p: "ps = (p1, p2, p3, p4)" by (cases ps) auto
  have "dom (put_arrays ps as g) = insert p4 (insert p3 (insert p2 (insert p1 (dom g))))"
    by (cases as) (auto simp: p put_arrays_def split: if_splits)
  with assms show ?thesis by (auto simp: p fresh_pointers_def domIff)
qed

text \<open>
  C21: The accelerator's self-test on a runtime whose copies, launches and synchronizations succeed
  and whose allocations of the sizes asked for succeed while fewer than \<open>k\<close> are in use, with room
  for four more, for every sequence of random numbers and every order of the threads. It returns 0
  exactly when the device's result is within the tolerance of the host's on the first arrays drawn
  and on the second. If the first comparison fails it returns 1 and leaves its four buffers
  allocated; otherwise the device memory is as it was, everything it allocates is released, also
  when the second comparison fails and it returns 1.
\<close>

theorem cuda_proof_passes:
  assumes "runtime_ok k rt" and "room 4 k g" and "fill_inputs draw gen = (inputs, gen1)"
  shows "if agrees_on madd fo inputs
    then run_cuda_proof (cuda_detail madd rt) fo draw gen g =
      Some (if agrees_on madd fo (fst (fill_inputs draw gen1)) then 0 else 1, g)
    else \<exists>g'. run_cuda_proof (cuda_detail madd rt) fo draw gen g = Some (1, g') \<and>
      card (dom g') = card (dom g) + 4"
proof -
  let ?det = "cuda_detail madd rt" and ?y0 = "replicate (lora_M * lora_N) (0 :: 'a)"
  note rt = assms(1)
  obtain c where count: "rt_count rt g = (True, c)" "0 < c"
  proof (cases "rt_count rt g")
    case (Pair good c)
    have "cuda_is_available rt g" using rt by (simp add: runtime_ok_def)
    with Pair show ?thesis by (intro that [of c]) (simp_all add: cuda_is_available_def)
  qed
  have av: "det_available ?det g" "di_available (det_info ?det 0 g)"
    using rt count by (auto simp: cuda_detail_def cuda_info_def runtime_ok_def cuda_is_available_def Let_def)
  obtain x us ds where inp: "inputs = (x, us, ds)" by (metis prod.exhaust)
  note fill = assms(3) [unfolded inp]
  obtain ps as where four: "allocate_buffers ?det g = (buffers_on ps, put_arrays ps as g)" "fresh_pointers ps g" "sized as"
    by (rule allocate_four [OF rt assms(2)])
  obtain a1 a2 a3 a4 where as: "as = (a1, a2, a3, a4)" by (metis prod.exhaust)
  have ok: "all_valid (buffers_on ps)"
    by (auto simp: all_valid_def buffers_on_def db_valid_def float_bytes_def lora_sizes split: prod.splits)
  note old = four(3) [unfolded as] and new = sized_inputs [OF fill four(3) [unfolded as]]
  have new2: "sized (x, us, ds, device_result madd fo (x, us, ds))"
    using new length_device_result [of madd fo "(x, us, ds)"] by (simp add: sized_def)
  note cold = cold_run_exact [OF rt four(2) old new, of ?y0, simplified length_replicate, OF refl]
    and warm = warm_run_exact [OF rt four(2) new2 length_device_result]
    and part = reload_part_exact [OF rt assms(2) length_device_result]
  have left: "card (dom (put_arrays ps zs g)) = card (dom g) + 4" for zs
    using card_put_arrays [OF four(2)] assms(2) by (simp add: room_def)
  show ?thesis
    by (simp add: run_cuda_proof_def av fill four(1) as ok cold warm part release_four [OF four(2)] Let_def
        agrees_on_def inp left)
qed

text \<open>
  The warm check cannot fail after the cold one: if the second launch is refused and changes
  nothing, the output buffer still holds the first result, and the check passes on it.
\<close>

theorem warm_check_vacuous:
  assumes rt: "runtime_ok k rt" and ps: "fresh_pointers ps g" and sz: "sized (x, us, ds, y)"
    and refused: "execute det fo (buffers_on ps) (put_arrays ps (x, us, ds, y) g) = Some (False, put_arrays ps (x, us, ds, y) g)"
    and down: "det_d2h det = det_d2h (cuda_detail madd rt)"
    and cold: "\<not> too_far fo y ref"
  shows "\<exists>y1. warm_run det fo (buffers_on ps) y (put_arrays ps (x, us, ds, y) g) = Some (y1, put_arrays ps (x, us, ds, y) g) \<and>
     \<not> too_far fo y1 ref"
proof -
  have "length y = lora_M * lora_N" using sz by (simp add: sized_def)
  from fetch_exact [OF rt ps this this, where madd = madd and x = x and us = us and ds = ds]
  have "fetch det (buffers_on ps) y (put_arrays ps (x, us, ds, y) g) = (True, y)"
    using down by (cases "buffers_on ps") (auto simp: fetch_def cuda_download_def split: if_splits)
  with refused cold show ?thesis by (simp add: warm_run_def)
qed

section \<open>A concrete device\<close>

text \<open>
  Integers for floats, a device of four arrays that hands out the first free one, threads in
  reverse order.
\<close>

definition pool_rt :: "int cuda_rt" where
  "pool_rt = small_rt\<lparr>rt_malloc := \<lambda>g n.
     (case filter (\<lambda>p. g p = None) [0..<4] of [] \<Rightarrow> None | p # _ \<Rightarrow> Some (p, replicate (float_count n) 0))\<rparr>"

definition int_ops :: "int fops" where
  "int_ops = \<lparr>fo_madd = \<lambda>a x y. a + x * y, fo_err = \<lambda>a b. \<bar>a - b\<bar>, fo_gt = (>), fo_scale = 2, fo_limit = 0\<rparr>"

lemma pool_rt_ok: "runtime_ok 4 pool_rt"
proof -
  have free: "\<exists>p ps. filter (\<lambda>p. g p = None) [0..<4] = p # ps" if "finite (dom g)" "card (dom g) < 4" for g :: "int device"
  proof (rule ccontr)
    assume "\<not> ?thesis"
    then have "filter (\<lambda>p. g p = None) [0..<4] = []" by (cases "filter (\<lambda>p. g p = None) [0..<4]") auto
    then have "{0..<4} \<subseteq> dom g" by (auto simp: filter_empty_conv)
    from card_mono [OF that(1) this] that(2) show False by simp
  qed
  have "\<exists>p xs. rt_malloc pool_rt g (float_bytes n) = Some (p, xs) \<and> g p = None \<and> length xs = n"
    if fin: "finite (dom g)" "card (dom g) < 4" and n: "n \<in> proof_sizes" for g n
  proof -
    obtain p ps where p: "filter (\<lambda>p. g p = None) [0..<4] = p # ps" using free [OF fin] by blast
    then have "p \<in> set (filter (\<lambda>p. g p = None) [0..<4])" by simp
    then have "g p = None" by (simp only: set_filter mem_Collect_eq)
    moreover have "n < 2 ^ 31" using n by (auto simp: proof_sizes_def lora_sizes)
    ultimately show ?thesis using p by (simp add: pool_rt_def)
  qed
  then show ?thesis
    by (auto simp: runtime_ok_def pool_rt_def small_rt_def schedule_ok_def cuda_is_available_def)
qed

lemma int_ops_agree: "agrees_on (\<lambda>a x y. a + x * y) int_ops inputs"
proof -
  have "max_error int_ops y y = 0" for y
    unfolding max_error_def by (induction y) (simp_all add: int_ops_def Let_def)
  then show ?thesis
    by (cases inputs) (simp add: agrees_on_def too_far_def device_result_def host_reference_def int_ops_def)
qed

theorem cuda_proof_passes_witness:
  "run_cuda_proof (cuda_detail (\<lambda>a x y. a + x * y) pool_rt) int_ops (\<lambda>n. (n mod 7, n + 1)) 5 Map.empty =
     Some (0, Map.empty)"
proof -
  obtain inputs gen1 where fill: "fill_inputs (\<lambda>n. (n mod 7, n + 1)) (5 :: int) = (inputs, gen1)"
    by (metis prod.exhaust)
  have "room 4 4 (Map.empty :: int device)" by (simp add: room_def)
  from cuda_proof_passes [OF pool_rt_ok this fill, of "\<lambda>a x y. a + x * y" int_ops]
  show ?thesis by (simp add: int_ops_agree)
qed

end
