(* ===== verification/AF_Apps.thy ===== *)
theory AF_Apps
  imports AF_Server AF_Durable
begin

text \<open>
  The executables (\<open>apps/af_coordinator.cpp\<close>, \<open>apps/af_worker.cpp\<close>, \<open>apps/af_cli.cpp\<close>): their
  arguments, exit codes and output. \<open>args\<close> is \<open>argv\<close> without the program name. A generator is
  seeded anew in every process, so each \<open>main\<close> starts from \<open>rng_instance\<close>. The sources evaluate
  the two \<open>generate()\<close> arguments of \<open>make_desc\<close> in an unspecified order; here it is from left to
  right.
\<close>

section \<open>Numbers of the command line\<close>

definition c_space :: "char \<Rightarrow> bool" where
  "c_space c \<longleftrightarrow> c = CHR '' '' \<or> (of_char c :: nat) \<in> {9..13}"

text \<open>White space, an optional sign, and the longest run of digits (0 when there is none).\<close>

definition c_integer :: "string \<Rightarrow> bool \<times> nat" where
  "c_integer s =
    (let t = dropWhile c_space s in
     case t of
       [] \<Rightarrow> (False, 0)
     | c # u \<Rightarrow>
         if c = CHR ''-'' then (True, dec_val (takeWhile dec_char u))
         else if c = CHR ''+'' then (False, dec_val (takeWhile dec_char u))
         else (False, dec_val (takeWhile dec_char t)))"

text \<open>\<open>atoi\<close> is undefined (\<open>None\<close>) for values that no \<open>int\<close> has; \<open>strtoull\<close> saturates.\<close>

definition c_atoi :: "string \<Rightarrow> int option" where
  "c_atoi s =
    (case c_integer s of (neg, n) \<Rightarrow>
       let z = (if neg then - int n else int n)
       in if - (2 ^ 31) \<le> z \<and> z < 2 ^ 31 then Some z else None)"

definition c_strtoull :: "string \<Rightarrow> uint64_t" where
  "c_strtoull s =
    (case c_integer s of (neg, n) \<Rightarrow>
       if n \<ge> 2 ^ 64 then - 1 else if neg then - of_nat n else of_nat n)"

section \<open>Options\<close>

datatype 's parsed = P_done 's | P_help | P_undefined

text \<open>
  The loop over \<open>argv\<close>: a flag takes the next argument when there is one; a flag at the end and
  an unknown argument are skipped.
\<close>

fun scan_args ::
    "(string \<times> (string \<Rightarrow> 's \<Rightarrow> 's option)) list \<Rightarrow> string list \<Rightarrow> string list \<Rightarrow> 's \<Rightarrow> 's parsed" where
  "scan_args flags help [] s = P_done s"
| "scan_args flags help [a] s =
     (if map_of flags a = None \<and> a \<in> set help then P_help else P_done s)"
| "scan_args flags help (a # v # rest) s =
     (case map_of flags a of
        Some f \<Rightarrow> (case f v s of None \<Rightarrow> P_undefined | Some s' \<Rightarrow> scan_args flags help rest s')
      | None \<Rightarrow> if a \<in> set help then P_help else scan_args flags help (v # rest) s)"

definition atoi_port :: "string \<Rightarrow> uint16_t option" where
  "atoi_port v = map_option of_int (c_atoi v)"

datatype main_end =
    Exit int
  | Terminated Error
  | Undefined

definition nl :: string where
  "nl = [CHR 0x0A]"

section \<open>The coordinator executable\<close>

text \<open>
  \<open>listening\<close> is the result of \<open>bind_listen\<close> for the port. A coordinator that starts is returned as
  it serves; when it stops running the program returns 0.
\<close>

definition coordinator_args :: "string list \<Rightarrow> uint16_t parsed" where
  "coordinator_args args = scan_args [(''--port'', \<lambda>v _. atoi_port v)] [''--help''] args 24000"

definition coordinator_main ::
    "string list \<Rightarrow> (uint16_t \<Rightarrow> bool) \<Rightarrow> (main_end + Coordinator) \<times> string \<times> string" where
  "coordinator_main args listening =
    (case coordinator_args args of
       P_undefined \<Rightarrow> (Inl Undefined, [], [])
     | P_help \<Rightarrow> (Inl (Exit 0), ''usage: af_coordinator --port <port>'' @ nl, [])
     | P_done port \<Rightarrow>
       (case server_start (listening port) (CoordinatorServer_new []) of
          (False, _) \<Rightarrow> (Inl (Exit 1), [], ''coordinator failed to start on port ''
                            @ dec_str (unat port) @ nl)
        | (True, cd) \<Rightarrow> (Inr cd, ''ADAPTER_FABRIC_COORDINATOR port='' @ dec_str (unat port) @ nl, [])))"

section \<open>The worker executable\<close>

definition worker_flags :: "(string \<times> (string \<Rightarrow> WorkerOptions \<Rightarrow> WorkerOptions option)) list" where
  "worker_flags =
     [(''--port'', \<lambda>v opts. map_option (\<lambda>p. opts\<lparr>wo_coordinator_port := p\<rparr>) (atoi_port v)),
      (''--host'', \<lambda>v opts. Some (opts\<lparr>wo_coordinator_host := v\<rparr>)),
      (''--name'', \<lambda>v opts. Some (opts\<lparr>wo_name := v\<rparr>)),
      (''--seed'', \<lambda>v opts. Some (opts\<lparr>wo_boot_seed := c_strtoull v\<rparr>))]"

definition worker_start_options :: WorkerOptions where
  "worker_start_options = default_options
     \<lparr>wo_coordinator_host := ''127.0.0.1'', wo_coordinator_port := 24000, wo_name := ''worker'',
      wo_boot_seed := 1\<rparr>"

text \<open>The executable of its own has one flag more, whose value is kept in \<open>id_str\<close>.\<close>

definition worker_args :: "string list \<Rightarrow> (WorkerOptions \<times> string) parsed" where
  "worker_args args =
     scan_args
       (map (\<lambda>(k, f). (k, \<lambda>v (opts, s). map_option (\<lambda>opts'. (opts', s)) (f v opts))) worker_flags
        @ [(''--id'', \<lambda>v (opts, s). Some (opts, v))])
       [''--help''] args (worker_start_options, [])"

definition worker_identity :: "WorkerOptions \<Rightarrow> string \<Rightarrow> Rng \<Rightarrow> WorkerOptions \<times> Rng" where
  "worker_identity opts id_str rng =
    (let (opts1, rng1) =
           (if id_str \<noteq> [] then
              ((case Id_parse id_str of Inl _ \<Rightarrow> opts | Inr i \<Rightarrow> opts\<lparr>wo_id := i\<rparr>), rng)
            else (let (i, r) = Id_generate rng in (opts\<lparr>wo_id := i\<rparr>, r)));
         (node, rng2) = Id_generate rng1; (device, rng3) = Id_generate rng2
     in (opts1\<lparr>wo_node := node, wo_device := device\<rparr>, rng3))"

text \<open>
  \<open>connected\<close>, \<open>exchange\<close> and \<open>frames\<close> are those of \<open>connect_and_register\<close> and \<open>worker_run\<close>; the
  service that ran and what it sent are the last component.
\<close>

definition worker_main ::
    "string list \<Rightarrow> bool \<Rightarrow> (byte list \<Rightarrow> byte list option option) \<Rightarrow> byte list list \<Rightarrow>
     main_end \<times> string \<times> string \<times> (Message list \<times> WorkerService) option" where
  "worker_main args connected exchange frames =
    (case worker_args args of
       P_undefined \<Rightarrow> (Undefined, [], [], None)
     | P_help \<Rightarrow> (Exit 0,
         ''usage: af_worker --port <port> --name <name> --seed <n> --id <uuid>'' @ nl, [], None)
     | P_done (opts, id_str) \<Rightarrow>
       let ws = WorkerService_new (fst (worker_identity opts id_str rng_instance)) in
       (case connect_and_register connected exchange ws of
          (Inl e, ws1) \<Rightarrow> (Terminated e, [], [], None)
        | (Inr False, ws1) \<Rightarrow>
            (Exit 1, [], ''worker '' @ Id_str (ws_boot ws1) @ '' failed to register'' @ nl, None)
        | (Inr True, ws1) \<Rightarrow>
            (Exit 0, ''ADAPTER_FABRIC_WORKER id='' @ Id_str (ws_boot ws1) @ nl, [],
             Some (worker_run frames ws1))))"


section \<open>Reading numbers\<close>

lemma dec_char_sign: "dec_char c \<Longrightarrow> \<not> c_space c \<and> c \<noteq> CHR ''-'' \<and> c \<noteq> CHR ''+''"
  by (auto simp: dec_char_def c_space_def)

lemma c_integer_dec [simp]: "c_integer (dec_str n) = (False, n)"
proof -
  obtain c s where cs: "dec_str n = c # s" by (cases "dec_str n") simp_all
  have "\<forall>x \<in> set (dec_str n). dec_char x" using dec_str_chars by blast
  then have "dec_char c" and run: "takeWhile dec_char (dec_str n) = dec_str n"
    by (simp_all add: cs takeWhile_eq_all_conv)
  from dec_char_sign [OF this(1)] have "c_integer (dec_str n) = (False, dec_val (takeWhile dec_char (dec_str n)))"
    by (simp add: c_integer_def cs)
  then show ?thesis by (simp add: run)
qed

lemma c_atoi_dec: "c_atoi (dec_str n) = (if n < 2 ^ 31 then Some (int n) else None)"
proof -
  have "int n < 2 ^ 31 \<longleftrightarrow> n < 2 ^ 31" by (metis of_nat_less_iff of_nat_numeral of_nat_power)
  moreover have "- (2 ^ 31) \<le> int n" by (rule order_trans [of _ 0]) simp_all
  ultimately show ?thesis by (simp add: c_atoi_def)
qed

lemma c_strtoull_dec: "c_strtoull (dec_str n) = (if n < 2 ^ 64 then of_nat n else - 1)"
  by (simp add: c_strtoull_def)

text \<open>
  The port of the coordinator is the given number modulo 65536: a number above 65535 is no error
  but another port, and from 2147483648 on the conversion is undefined.
\<close>

theorem coordinator_port:
  "coordinator_args [''--port'', dec_str n] =
     (if n < 2 ^ 31 then P_done (of_nat (n mod 65536)) else P_undefined)"
proof -
  have "(of_nat (n mod 65536) :: uint16_t) = of_nat n"
    by (rule word_unat_eq_iff [THEN iffD2]) (simp add: unat_of_nat)
  then show ?thesis by (simp add: coordinator_args_def atoi_port_def c_atoi_dec)
qed

text \<open>The number a flag gets is read back: \<open>--seed\<close> with any 64-bit number sets that seed.\<close>

lemma worker_seed:
  "worker_args [''--seed'', dec_str (unat w)] = P_done (worker_start_options\<lparr>wo_boot_seed := w\<rparr>, [])"
proof -
  have "unat w < 2 ^ 64" using unsigned_less [of w] by simp
  then show ?thesis by (simp add: worker_args_def worker_flags_def c_strtoull_dec)
qed

section \<open>The identity of a worker process\<close>

text \<open>
  Two worker processes started without \<open>--id\<close> and with the same seed (the default, for
  instance) register under the same worker identity and the same boot identity: the generator of
  every process has the same seed. To the coordinator they are one worker.
\<close>

theorem worker_identity_shared:
  assumes "worker_args args1 = P_done (opts1, [])" and "worker_args args2 = P_done (opts2, [])"
    and "wo_boot_seed opts1 = wo_boot_seed opts2"
  shows "\<exists>w b.
    (\<forall>opts \<in> {opts1, opts2}. let ws = WorkerService_new (fst (worker_identity opts [] rng_instance)) in
       m_text (register_message (ws_opts ws) (ws_boot (snd (connect_and_register True exchange ws))))
         = Id_str (w :: WorkerId) \<and>
       m_text2 (register_message (ws_opts ws) (ws_boot (snd (connect_and_register True exchange ws))))
         = Id_str (b :: WorkerBootId))"
proof -
  have wid: "wo_id (fst (worker_identity opts [] rng_instance)) = fst (Id_generate rng_instance)" for opts
    by (simp add: worker_identity_def case_prod_beta Let_def)
  have seed: "wo_boot_seed (fst (worker_identity opts [] rng_instance)) = wo_boot_seed opts" for opts
    by (simp add: worker_identity_def case_prod_beta Let_def)
  show ?thesis
    by (rule exI [of _ "fst (Id_generate rng_instance)"], rule exI [of _ "boot_of_seed (wo_boot_seed opts1)"])
      (simp add: register_message_def boot_depends_on_seed WorkerService_new_def wid seed assms(3))
qed

text \<open>A value of \<open>--id\<close> that does not parse is not reported: the worker has the nil identity.\<close>

lemma malformed_id_is_nil:
  assumes "(Id_parse s :: string + WorkerId) = Inl e" and "s \<noteq> []"
  shows "\<exists>opts. worker_args [''--id'', s] = P_done (opts, s) \<and>
     wo_id (fst (worker_identity opts s rng)) = Id_nil"
  using assms
  by (simp add: worker_args_def worker_flags_def worker_identity_def worker_start_options_def
      default_options_def case_prod_beta Let_def)

theorem worker_identity_shared_witness:
  "\<exists>w b.
    (\<forall>opts \<in> {worker_start_options, worker_start_options\<lparr>wo_name := ''b''\<rparr>}.
       let ws = WorkerService_new (fst (worker_identity opts [] rng_instance)) in
       m_text (register_message (ws_opts ws) (ws_boot (snd (connect_and_register True (\<lambda>_. None) ws))))
         = Id_str (w :: WorkerId) \<and>
       m_text2 (register_message (ws_opts ws) (ws_boot (snd (connect_and_register True (\<lambda>_. None) ws))))
         = Id_str (b :: WorkerBootId))"
  by (rule worker_identity_shared [of "[]" _ "[''--name'', ''b'']"])
    (simp_all add: worker_args_def worker_flags_def)

end
