(* ===== verification/AF_Cli.thy ===== *)
theory AF_Cli
  imports AF_Apps
begin

text \<open>
  The command line client (\<open>apps/af_cli.cpp\<close>). The commands that serve, run a worker or start one
  of the self-tests are returned as requests; every other command works on a fabric of its own
  process, which starts empty but for one worker, and its result is the exit code, the two output
  streams and the file it writes. \<open>file\<close> is the content of the file system. \<open>None\<close> is undefined
  behaviour: a missing argument is the null pointer \<open>argv[argc]\<close>, passed on as a string.
\<close>

definition AdapterDescriptor_default :: AdapterDescriptor where
  "AdapterDescriptor_default =
     \<lparr>ad_id = Id_nil, ad_revision = Id_nil, ad_artifact = Id_nil, ad_artifact_digest = [],
      ad_kind = AK_generic, ad_name = [], ad_base_model = Id_nil, ad_base_model_revision = Id_nil,
      ad_targets = [], ad_rank = 0, ad_dtype = DT_unknown, ad_param_count = 0, ad_param_bytes = 0,
      ad_memory_bytes = 0, ad_format = [], ad_format_version = 1, ad_dependencies = [],
      ad_capabilities = [], ad_constraints = [],
      ad_provenance = \<lparr>pv_source = [], pv_author = [], pv_timestamp = [], pv_origin_digest = [],
        pv_notes = []\<rparr>,
      ad_generation = gen_none, ad_policy_generation = gen_none, ad_validation = VS_none\<rparr>"

definition q_proj :: TargetModule where
  "q_proj = \<lparr>tm_name = ''q_proj'', tm_in_features = 4096, tm_out_features = 4096,
     tm_shape = [4096, 4096]\<rparr>"

definition make_desc ::
    "string \<Rightarrow> BaseModelId \<Rightarrow> ModelRevisionId \<Rightarrow> uint64_t \<Rightarrow> Rng \<Rightarrow> AdapterDescriptor \<times> Rng" where
  "make_desc name bm mr mem rng =
    (let (i, rng1) = Id_generate rng; (revision, rng2) = Id_generate rng1;
         (artifact, rng3) = Id_generate rng2
     in (AdapterDescriptor_default
          \<lparr>ad_id := i, ad_revision := revision, ad_artifact := artifact,
           ad_artifact_digest := ''0123456789abcdef0123456789abcdef0123456789abcdef0123456789abcdef'',
           ad_kind := AK_lora, ad_name := name, ad_base_model := bm, ad_base_model_revision := mr,
           ad_targets := [q_proj], ad_rank := 8, ad_dtype := DT_f16,
           ad_memory_bytes := (if mem \<noteq> 0 then mem else 8192), ad_format := ''lora/v1'',
           ad_format_version := 1, ad_validation := VS_valid\<rparr>, rng3))"

record cli_done =
  cli_exit :: int
  cli_out :: string
  cli_err :: string
  cli_file :: "(string \<times> byte list) option"

datatype cli_result =
    CLI_done cli_done
  | CLI_serve uint16_t
  | CLI_worker WorkerOptions
  | CLI_multiprocess string string uint16_t
  | CLI_cuda
  | CLI_benchmark

definition printed :: "int \<Rightarrow> string \<Rightarrow> cli_done" where
  "printed code s = \<lparr>cli_exit = code, cli_out = s, cli_err = [], cli_file = None\<rparr>"

definition complained :: "int \<Rightarrow> string \<Rightarrow> cli_done" where
  "complained code s = \<lparr>cli_exit = code, cli_out = [], cli_err = s, cli_file = None\<rparr>"

section \<open>The fabric of the process\<close>

record cli_env =
  env_fabric :: Fabric
  env_worker :: WorkerId
  env_boot :: WorkerBootId
  env_device :: DeviceId
  env_rng :: Rng

definition cli_start :: cli_env where
  "cli_start =
    (let (w, rng1) = Id_generate rng_instance; (b, rng2) = Id_generate rng1;
         (d, rng3) = Id_generate rng2;
         wrec = \<lparr>wr_id = w, wr_boot = b, wr_address = [], wr_node = Id_nil, wr_device = d,
                 wr_connected = True, wr_epoch = gen_none, wr_capabilities = [],
                 wr_device_memory_bytes = 0, wr_local_adapters = []\<rparr>
     in \<lparr>env_fabric = register_worker wrec Fabric_default, env_worker = w, env_boot = b,
         env_device = d, env_rng = rng3\<rparr>)"

section \<open>Commands\<close>

text \<open>
  A command gets the arguments behind its name; the result is the return value of \<open>main\<close> or the
  exception that the handler around the commands prints.
\<close>

type_synonym cli_command = "string list \<Rightarrow> cli_env \<Rightarrow> (Error + cli_done) option"

definition cli_must_parse :: "string \<Rightarrow> Error + 'tag Id" where
  "cli_must_parse s =
     (case Id_parse s of Inr i \<Rightarrow> Inr i | Inl _ \<Rightarrow> throw EC_invalid_identity ''invalid identity'')"

fun cli_parse_all :: "string list \<Rightarrow> Error + 'tag Id list" where
  "cli_parse_all [] = Inr []"
| "cli_parse_all (s # ss) = bindE (cli_must_parse s) (\<lambda>i. bindE (cli_parse_all ss) (\<lambda>is. Inr (i # is)))"

definition with_id :: "('tag Id \<Rightarrow> string list \<Rightarrow> cli_env \<Rightarrow> (Error + cli_done) option) \<Rightarrow> cli_command" where
  "with_id cmd args env =
    (case args of
       [] \<Rightarrow> None
     | s # rest \<Rightarrow> (case cli_must_parse s of Inl e \<Rightarrow> Some (Inl e) | Inr i \<Rightarrow> cmd i rest env))"

definition with_adapter ::
    "(AdapterId \<Rightarrow> AdapterDescriptor \<Rightarrow> cli_env \<Rightarrow> Error + cli_done) \<Rightarrow> cli_command" where
  "with_adapter cmd = with_id (\<lambda>i rest env.
     case adapter i (env_fabric env) of
       None \<Rightarrow> Some (Inr (complained 1 (''unknown adapter'' @ nl)))
     | Some d \<Rightarrow> Some (cmd i d env))"

definition gen_str :: "'tag Generation \<Rightarrow> string" where
  "gen_str g = dec_str (unat (gen_value g))"

definition cli_register :: cli_command where
  "cli_register args env =
    (let name = (case args of [] \<Rightarrow> ''adapter'' | s # _ \<Rightarrow> s);
         (bm, rng1) = Id_generate (env_rng env); (mr, rng2) = Id_generate rng1;
         (d, rng3) = make_desc name bm mr 8192 rng2
     in Some (bindE (fst (register_adapter d (env_fabric env))) (\<lambda>d.
          Inr (printed 0 (''registered '' @ ad_name d @ '' id='' @ Id_str (ad_id d) @ '' gen=''
            @ gen_str (ad_generation d) @ nl)))))"

definition cli_list :: cli_command where
  "cli_list args env =
     Some (Inr (printed 0 (concat (map (\<lambda>a. Id_str (ad_id a) @ ''  gen='' @ gen_str (ad_generation a)
       @ ''  '' @ ad_name a @ ''  '' @ dec_str (unat (ad_memory_bytes a)) @ ''B'' @ nl)
       (adapters (env_fabric env))))))"

definition cli_inspect :: cli_command where
  "cli_inspect = with_adapter (\<lambda>i d env.
     Inr (printed 0 (''name='' @ ad_name d @ '' kind='' @ AdapterKind_to_string (ad_kind d)
       @ '' rank='' @ dec_str (unat (ad_rank d)) @ '' mem='' @ dec_str (unat (ad_memory_bytes d))
       @ '' gen='' @ gen_str (ad_generation d) @ nl)))"

definition cli_target :: "AdapterDescriptor \<Rightarrow> (string, string) smap \<Rightarrow> CompatibilityTarget" where
  "cli_target d caps =
     \<lparr>ct_base_model = ad_base_model d, ct_base_model_revision = ad_base_model_revision d,
      ct_architecture = [], ct_device_arch = [], ct_device = Id_nil,
      ct_runtime_capabilities = caps, ct_policy = [], ct_policy_generation = Generation 1\<rparr>"

definition cli_validate :: cli_command where
  "cli_validate = with_adapter (\<lambda>i d env.
     bindE (validate i (cli_target d (smap_set ''sm_120'' ''supported'' (smap_set ''fp16'' ''supported'' [])))
              (env_fabric env)) (\<lambda>rep.
     Inr (printed (if cr_compatible rep then 0 else 1)
       ((if cr_compatible rep then ''compatible'' else ''incompatible'') @ '': '' @ cr_summary rep @ nl
        @ to_json_report rep @ nl))))"

definition cli_explain :: cli_command where
  "cli_explain = with_adapter (\<lambda>i d env.
     bindE (validate i (cli_target d (smap_set ''fp16'' ''supported'' [])) (env_fabric env)) (\<lambda>rep.
     let ex = explain_compatibility rep in Inr (printed 0 (ex_text ex @ nl @ ex_json ex @ nl))))"

definition cli_compose :: cli_command where
  "cli_compose args env =
    (case cli_parse_all args of
       Inl e \<Rightarrow> Some (Inl e)
     | Inr ids \<Rightarrow>
       (case publish_composition ids ''default'' (env_rng env) (env_fabric env) of
          (r, _, _) \<Rightarrow> map_option (\<lambda>x. bindE x (\<lambda>c.
            Inr (printed 0 (''composition id='' @ Id_str (co_id c) @ '' gen='' @ gen_str (co_generation c)
              @ '' digest='' @ co_digest c @ '' mem='' @ dec_str (unat (co_total_memory_bytes c)) @ nl)))) r))"

definition cli_load :: cli_command where
  "cli_load = with_id (\<lambda>i rest env.
     let mem = (case adapter i (env_fabric env) of None \<Rightarrow> 0 | Some d \<Rightarrow> ad_memory_bytes d) in
     case create_instance i (env_worker env) (env_boot env) (env_device env) mem (env_rng env)
            (env_fabric env) of
       (r, _, _) \<Rightarrow> Some (bindE r (\<lambda>inst. Inr (printed 0 (''loaded instance='' @ Id_str inst @ nl)))))"

definition cli_activate :: cli_command where
  "cli_activate = with_adapter (\<lambda>i d env.
     let fe = AuthorityFence_default
           \<lparr>f_adapter := i, f_adapter_generation := ad_generation d,
            f_base_model_revision := ad_base_model_revision d, f_epoch := fb_epoch (env_fabric env),
            f_worker := env_worker env, f_boot := env_boot env, f_device := env_device env,
            f_attempt := fst (Id_generate (env_rng env)), f_residency_generation := Generation 1,
            f_composition_generation := Generation 1, f_artifact_generation := Generation 1\<rparr>
     in bindE (fst (bind_authority i fe (env_fabric env))) (\<lambda>chk.
        Inr (printed (if authorized chk then 0 else 1)
          ((if authorized chk then ''activated'' else ''DENIED: '' @ ac_reason chk) @ nl))))"

definition cli_deactivate :: cli_command where
  "cli_deactivate = with_id (\<lambda>(i :: AdapterId) rest env. Some (Inr (printed 0 (''deactivated'' @ nl))))"

definition cli_invalidate :: cli_command where
  "cli_invalidate = with_id (\<lambda>i rest env.
     let reason = (case rest of [] \<Rightarrow> ''manual'' | s # _ \<Rightarrow> s);
         r = fst (invalidate i IT_manual reason (env_fabric env))
     in Some (Inr (printed 0 (''invalidated: '' @ iv_reason r @ nl))))"

definition cli_evict :: cli_command where
  "cli_evict = with_id (\<lambda>inst rest env.
     case fst (evict inst (env_fabric env)) of (good, reason) \<Rightarrow>
       Some (Inr (printed (if good then 0 else 1)
         ((if good then ''evicted: '' else ''DENIED: '') @ reason @ nl))))"

definition cli_pin :: "bool \<Rightarrow> cli_command" where
  "cli_pin up = with_id (\<lambda>inst rest env.
     Some (bindE (fst (if up then pin inst (env_fabric env) else unpin inst (env_fabric env))) (\<lambda>_.
       Inr (printed 0 ((if up then ''pinned'' else ''unpinned'') @ nl)))))"

definition cli_snapshot :: cli_command where
  "cli_snapshot args env =
    (let bs = serialize_snapshot (snapshot (env_fabric env))
     in Some (Inr (printed 0 (''snapshot '' @ dec_str (length bs) @ '' bytes'' @ nl))))"

definition snap_file :: "string list \<Rightarrow> string" where
  "snap_file args = (case args of [] \<Rightarrow> ''snap.bin'' | s # _ \<Rightarrow> s)"

definition cli_save :: cli_command where
  "cli_save args env =
    (let bs = serialize_snapshot (snapshot (env_fabric env))
     in Some (Inr ((printed 0 (''saved '' @ dec_str (length bs) @ '' bytes to '' @ snap_file args @ nl))
          \<lparr>cli_file := Some (snap_file args, bs)\<rparr>)))"

text \<open>A file that is not there reads as no bytes.\<close>

definition cli_recover :: "(string \<Rightarrow> byte list option) \<Rightarrow> cli_command" where
  "cli_recover file args env =
    (let bs = (case file (snap_file args) of None \<Rightarrow> [] | Some bs \<Rightarrow> bs)
     in Some (bindE (deserialize_snapshot bs) (\<lambda>s.
          let fb = recover s (env_fabric env)
          in Inr (printed 0 (''recovered from '' @ snap_file args @ '' ('' @ dec_str (length bs)
               @ '' bytes)'' @ nl)))))"

definition cli_commands :: "(string \<Rightarrow> byte list option) \<Rightarrow> (string \<times> cli_command) list" where
  "cli_commands file =
     [(''register'', cli_register), (''list'', cli_list), (''inspect'', cli_inspect),
      (''validate'', cli_validate), (''compose'', cli_compose), (''explain'', cli_explain),
      (''load'', cli_load), (''activate'', cli_activate), (''deactivate'', cli_deactivate),
      (''invalidate'', cli_invalidate), (''evict'', cli_evict), (''pin'', cli_pin True),
      (''unpin'', cli_pin False), (''snapshot'', cli_snapshot), (''save'', cli_save),
      (''recover'', cli_recover file)]"

text \<open>The handler around the commands.\<close>

definition cli_caught :: "Error + cli_done \<Rightarrow> cli_done" where
  "cli_caught r =
     (case r of Inl e \<Rightarrow> complained 1 (''error: '' @ err_what e @ nl) | Inr res \<Rightarrow> res)"

definition cli_local :: "(string \<Rightarrow> byte list option) \<Rightarrow> string \<Rightarrow> string list \<Rightarrow> cli_done option" where
  "cli_local file cmd args =
    (case map_of (cli_commands file) cmd of
       None \<Rightarrow> Some (complained 2 (''unknown command: '' @ cmd @ nl))
     | Some f \<Rightarrow> map_option cli_caught (f args cli_start))"

definition cli_main :: "(string \<Rightarrow> byte list option) \<Rightarrow> string list \<Rightarrow> cli_result option" where
  "cli_main file args =
    (case args of
       [] \<Rightarrow> Some (CLI_done (complained 2 (''usage: af_cli <command> [args]'' @ nl)))
     | cmd # rest \<Rightarrow>
       if cmd = ''serve'' then
         (case scan_args [(''--port'', \<lambda>v _. atoi_port v)] [] rest 24000 of
            P_done port \<Rightarrow> Some (CLI_serve port) | _ \<Rightarrow> None)
       else if cmd = ''worker'' then
         (case scan_args worker_flags [] rest worker_start_options of
            P_done opts \<Rightarrow>
              let (i, rng1) = Id_generate rng_instance; (node, rng2) = Id_generate rng1;
                  (device, rng3) = Id_generate rng2
              in Some (CLI_worker (opts\<lparr>wo_id := i, wo_node := node, wo_device := device\<rparr>))
          | _ \<Rightarrow> None)
       else if cmd = ''multiprocess'' then
         (case rest of
            c # w # _ \<Rightarrow> Some (CLI_multiprocess c w 23002)
          | _ \<Rightarrow> Some (CLI_done (complained 2
                   (''usage: af_cli multiprocess <coord_exe> <worker_exe>'' @ nl))))
       else if cmd = ''cuda'' then Some CLI_cuda
       else if cmd = ''benchmark'' then Some CLI_benchmark
       else map_option CLI_done (cli_local file cmd rest))"


section \<open>What the commands can do\<close>

text \<open>The fabric of the process has no adapter, so no instance, no authority and no composition.\<close>

lemma cli_start_empty [simp]:
  "adapter i (env_fabric cli_start) = None"
  "fb_residencies (env_fabric cli_start) = []"
  by (simp_all add: cli_start_def register_worker_def Fabric_default_def Fabric_empty_def
      adapter_def case_prod_beta Let_def)

lemma adapter_commands:
  "\<exists>c. cli_inspect = with_adapter c" "\<exists>c. cli_validate = with_adapter c"
  "\<exists>c. cli_explain = with_adapter c" "\<exists>c. cli_activate = with_adapter c"
  by (unfold cli_inspect_def cli_validate_def cli_explain_def cli_activate_def) (rule exI, rule refl)+

lemma adapter_commands_of:
  "cmd \<in> {''inspect'', ''validate'', ''explain'', ''activate''} \<Longrightarrow>
     \<exists>c. map_of (cli_commands file) cmd = Some (with_adapter c)"
  by (elim insertE emptyE) (simp_all add: cli_commands_def adapter_commands)

lemma cli_local_known:
  "map_of (cli_commands file) cmd = Some f \<Longrightarrow> cmd \<notin> {''serve'', ''worker'', ''multiprocess'', ''cuda'', ''benchmark''} \<Longrightarrow>
   cli_main file (cmd # args) = map_option (\<lambda>r. CLI_done (cli_caught r)) (f args cli_start)"
  by (cases "f args cli_start") (simp_all add: cli_main_def cli_local_def)

lemma with_adapter_refuses:
  "with_adapter cmd (s # rest) cli_start = Some
     (case (Id_parse s :: string + AdapterId) of
        Inl _ \<Rightarrow> throw EC_invalid_identity ''invalid identity''
      | Inr _ \<Rightarrow> Inr (complained 1 (''unknown adapter'' @ nl)))"
  by (simp add: with_adapter_def with_id_def cli_must_parse_def throw_def split: sum.split)

text \<open>
  No argument makes one of the commands on an adapter succeed: each process starts with an
  empty registry and \<open>recover\<close> is a command of its own, so \<open>inspect\<close>, \<open>validate\<close>, \<open>explain\<close> and
  \<open>activate\<close> exit with 1, the identity being malformed or unknown.
\<close>

theorem cli_adapter_commands_fail:
  assumes "cmd \<in> {''inspect'', ''validate'', ''explain'', ''activate''}"
  shows "cli_main file (cmd # s # rest) = Some (CLI_done (complained 1
    (if isl (Id_parse s :: string + AdapterId) then ''error: invalid identity'' @ nl
     else ''unknown adapter'' @ nl)))"
proof -
  obtain c where f: "map_of (cli_commands file) cmd = Some (with_adapter c)"
    using adapter_commands_of [OF assms] by blast
  have "cmd \<notin> {''serve'', ''worker'', ''multiprocess'', ''cuda'', ''benchmark''}" using assms by auto
  from cli_local_known [OF f this, of "s # rest"] show ?thesis
    by (auto simp: with_adapter_refuses throw_def cli_caught_def split: sum.split)
qed

lemma cli_start_durable:
  "fabric_reachable (env_fabric cli_start)" "snapshot_fits (env_fabric cli_start)"
proof -
  obtain w where w: "env_fabric cli_start = register_worker w Fabric_default" "worker_ok w"
    by (auto simp: cli_start_def case_prod_beta Let_def worker_ok_def string_ok_def vec_ok_def)
  show "fabric_reachable (env_fabric cli_start)"
    unfolding w(1) by (rule reach_step [OF reach_default step_worker [OF w(2)]])
  show "snapshot_fits (env_fabric cli_start)"
    by (simp add: w(1) snapshot_fits_def register_worker_def Fabric_default_def Fabric_empty_def)
qed

text \<open>
  C30: What \<open>save\<close> writes, \<open>recover\<close> reads: with the saved file in place \<open>recover\<close> exits with 0 and
  reports its size.
\<close>

theorem cli_save_recover:
  assumes "cli_main file (''save'' # args) = Some (CLI_done r)" and "cli_file r = Some (name, bs)"
    and "file' name = Some bs"
  shows "cli_main file' [''recover'', name] = Some (CLI_done (printed 0 (''recovered from '' @ name
     @ '' ('' @ dec_str (length bs) @ '' bytes)'' @ nl)))"
proof -
  have save: "map_of (cli_commands file) ''save'' = Some cli_save"
    and rec: "map_of (cli_commands file') ''recover'' = Some (cli_recover file')"
    by (simp_all add: cli_commands_def)
  have bs: "bs = serialize_snapshot (snapshot (env_fabric cli_start))"
    using assms(1,2) cli_local_known [OF save, of args] by (auto simp: cli_save_def cli_caught_def printed_def Let_def)
  obtain s where "deserialize_snapshot bs = Inr s"
    using snapshot_roundtrip [OF snapshot_ok_reachable [OF cli_start_durable]] bs by blast
  then show ?thesis
    using cli_local_known [OF rec, of "[name]"] assms(3)
    by (simp add: cli_recover_def snap_file_def cli_caught_def Let_def)
qed


theorem cli_adapter_commands_fail_witness:
  "cli_main (\<lambda>_. None) [''activate'', ''x''] = Some (CLI_done (complained 1 (''error: invalid identity'' @ nl)))"
proof -
  have "isl (Id_parse ''x'' :: string + AdapterId)" by code_simp
  with cli_adapter_commands_fail [of "''activate''" "\<lambda>_. None" "''x''" "[]"] show ?thesis by simp
qed

theorem cli_save_recover_witness:
  "\<exists>bs. cli_main (\<lambda>_. Some bs) [''recover'', ''f''] =
     Some (CLI_done (printed 0 (''recovered from f ('' @ dec_str (length bs) @ '' bytes)'' @ nl)))"
proof -
  let ?bs = "serialize_snapshot (snapshot (env_fabric cli_start))"
  have "map_of (cli_commands (\<lambda>_. None)) ''save'' = Some cli_save" by (simp add: cli_commands_def)
  from cli_local_known [OF this, of "[''f'']"]
  have "cli_main (\<lambda>_. None) [''save'', ''f''] = Some (CLI_done
      ((printed 0 (''saved '' @ dec_str (length ?bs) @ '' bytes to f'' @ nl))\<lparr>cli_file := Some (''f'', ?bs)\<rparr>))"
    by (simp add: cli_save_def snap_file_def cli_caught_def Let_def)
  from cli_save_recover [OF this, of "''f''" ?bs "\<lambda>_. Some ?bs"] show ?thesis by auto
qed

end
