(* ===== verification/AF_Proof.thy ===== *)
theory AF_Proof
  imports AF_Cli
begin

text \<open>
  The self-test over processes (\<open>proof.cpp\<close>): the control client and \<open>run_multiprocess_proof\<close>,
  which starts a coordinator and two workers, loads and activates an adapter, replays stale fences,
  kills and restarts a worker, and demands that everything stale is refused and everything current
  accepted. The processes, the clock and the connection are the fields of \<open>'e proof_env\<close> over a
  state \<open>'e\<close>; a process handle is \<open>None\<close> when it was not created.
\<close>

record 'e proof_env =
  pe_spawn :: "string \<Rightarrow> 'e \<Rightarrow> nat option \<times> 'e"
  pe_terminate :: "nat \<Rightarrow> 'e \<Rightarrow> 'e"
  pe_sleep :: "nat \<Rightarrow> 'e \<Rightarrow> 'e"
  pe_connect :: "string \<Rightarrow> uint16_t \<Rightarrow> 'e \<Rightarrow> bool \<times> 'e"
  pe_send :: "byte list \<Rightarrow> 'e \<Rightarrow> bool \<times> 'e"
  pe_recv :: "'e \<Rightarrow> byte list option \<times> 'e"

text \<open>
  \<open>spawn\<close> over the system's \<open>CreateProcess\<close>, which takes the command line as characters with a
  final zero and gives handle and number of the process, or fails.
\<close>

record ChildProcess =
  cp_handle :: "nat option"
  cp_pid :: uint32_t

definition spawn ::
    "(string \<Rightarrow> 'e \<Rightarrow> (nat \<times> uint32_t) option \<times> 'e) \<Rightarrow> string \<Rightarrow> 'e \<Rightarrow> ChildProcess \<times> 'e" where
  "spawn create_process cmd s =
    (let c = \<lparr>cp_handle = None, cp_pid = 0\<rparr> in
     case create_process (cmd @ [CHR 0x00]) s of
       (None, s') \<Rightarrow> (c, s')
     | (Some (h, pid), s') \<Rightarrow> (c\<lparr>cp_handle := Some h, cp_pid := pid\<rparr>, s'))"

text \<open>The handles of \<open>spawn\<close> as the process creation of an environment.\<close>

definition spawning ::
    "(string \<Rightarrow> 'e \<Rightarrow> (nat \<times> uint32_t) option \<times> 'e) \<Rightarrow> 'e proof_env \<Rightarrow> 'e proof_env" where
  "spawning create_process env = env\<lparr>pe_spawn := \<lambda>cmd s. apfst cp_handle (spawn create_process cmd s)\<rparr>"

datatype proof_end = PE_fail string | PE_throw Error

type_synonym ('e, 'a) driver = "'e \<Rightarrow> (proof_end + 'a) \<times> 'e"

definition dreturn :: "'a \<Rightarrow> ('e, 'a) driver" where
  "dreturn x s = (Inr x, s)"

definition dbind :: "('e, 'a) driver \<Rightarrow> ('a \<Rightarrow> ('e, 'b) driver) \<Rightarrow> ('e, 'b) driver" where
  "dbind m f s = (case m s of (Inl e, s') \<Rightarrow> (Inl e, s') | (Inr x, s') \<Rightarrow> f x s')"

definition dfail :: "string \<Rightarrow> ('e, 'a) driver" where
  "dfail msg s = (Inl (PE_fail msg), s)"

definition ddo :: "('e \<Rightarrow> 'e) \<Rightarrow> ('e, unit) driver" where
  "ddo f s = (Inr (), f s)"

definition dcall :: "('e \<Rightarrow> 'a \<times> 'e) \<Rightarrow> ('e, 'a) driver" where
  "dcall f s = (case f s of (x, s') \<Rightarrow> (Inr x, s'))"

text \<open>\<open>terminate\<close> does nothing for a process that was not created.\<close>

fun kill_all :: "'e proof_env \<Rightarrow> nat option list \<Rightarrow> 'e \<Rightarrow> 'e" where
  "kill_all env [] s = s"
| "kill_all env (p # ps) s = kill_all env ps (case p of None \<Rightarrow> s | Some h \<Rightarrow> pe_terminate env h s)"

definition give_up :: "'e proof_env \<Rightarrow> nat option list \<Rightarrow> string \<Rightarrow> ('e, 'a) driver" where
  "give_up env ps msg = dbind (ddo (kill_all env ps)) (\<lambda>_. dfail msg)"

section \<open>The control client\<close>

fun connect_retry :: "'e proof_env \<Rightarrow> string \<Rightarrow> uint16_t \<Rightarrow> nat \<Rightarrow> 'e \<Rightarrow> bool \<times> 'e" where
  "connect_retry env host port 0 s = (False, s)"
| "connect_retry env host port (Suc tries) s =
     (case pe_connect env host port s of
        (True, s') \<Rightarrow> (True, s')
      | (False, s') \<Rightarrow> connect_retry env host port tries (pe_sleep env 100 s'))"

definition client_fail :: "string \<Rightarrow> Message" where
  "client_fail msg = Message_default\<lparr>m_ok := False, m_text := msg\<rparr>"

definition client_request :: "'e proof_env \<Rightarrow> Message \<Rightarrow> 'e \<Rightarrow> Message \<times> 'e" where
  "client_request env req s =
    (case pe_send env (encode_message req) s of
       (False, s1) \<Rightarrow> (client_fail ''send failed'', s1)
     | (True, s1) \<Rightarrow>
       (case pe_recv env s1 of
          (None, s2) \<Rightarrow> (client_fail ''recv failed'', s2)
        | (Some buf, s2) \<Rightarrow>
            ((case decode_message buf of Inl _ \<Rightarrow> client_fail ''decode failed'' | Inr m \<Rightarrow> m), s2)))"

definition must_accept :: "'e proof_env \<Rightarrow> nat option list \<Rightarrow> string \<Rightarrow> Message \<Rightarrow> ('e, Message) driver" where
  "must_accept env ps msg req =
     dbind (dcall (client_request env req)) (\<lambda>r. if \<not> m_ok r then give_up env ps msg else dreturn r)"

definition must_refuse :: "'e proof_env \<Rightarrow> string \<Rightarrow> Message \<Rightarrow> ('e, unit) driver" where
  "must_refuse env msg req =
     dbind (dcall (client_request env req)) (\<lambda>r. if m_ok r then dfail msg else dreturn ())"

section \<open>The adapter, the fences and the requests\<close>

definition boot_for :: "uint64_t \<Rightarrow> WorkerBootId" where
  "boot_for seed = fst (Id_generate \<lparr>rng_state = seed\<rparr>)"

text \<open>The driver computes the boot of a worker as the worker does.\<close>

lemma boot_for_worker: "boot_for = boot_of_seed"
  by (simp add: fun_eq_iff boot_for_def boot_of_seed_def)

definition attempt_for :: "uint64_t \<Rightarrow> AttemptId" where
  "attempt_for seed = fst (Id_generate \<lparr>rng_state = seed\<rparr>)"

definition make_proof_adapter :: "BaseModelId \<Rightarrow> ModelRevisionId \<Rightarrow> Rng \<Rightarrow> AdapterDescriptor \<times> Rng" where
  "make_proof_adapter bm mr rng =
    (let (i, rng1) = Id_generate rng; (revision, rng2) = Id_generate rng1;
         (artifact, rng3) = Id_generate rng2
     in (AdapterDescriptor_default
          \<lparr>ad_id := i, ad_revision := revision, ad_artifact := artifact,
           ad_artifact_digest := ''deadbeefdeadbeefdeadbeefdeadbeefdeadbeefdeadbeefdeadbeefdeadbeef'',
           ad_kind := AK_lora, ad_name := ''proof-lora'', ad_base_model := bm,
           ad_base_model_revision := mr, ad_targets := [q_proj], ad_rank := 8, ad_dtype := DT_f16,
           ad_memory_bytes := 8192, ad_format := ''lora/v1'', ad_format_version := 1,
           ad_generation := Generation 1, ad_validation := VS_valid,
           ad_capabilities := [\<lparr>cap_name = ''sm_120'', cap_value = ''supported'', cap_required = True\<rparr>]\<rparr>,
         rng3))"

definition make_fence ::
    "AdapterDescriptor \<Rightarrow> WorkerId \<Rightarrow> WorkerBootId \<Rightarrow> DeviceId \<Rightarrow> uint64_t \<Rightarrow> uint64_t \<Rightarrow> AuthorityFence" where
  "make_fence d w b dev epoch attempt_seed = AuthorityFence_default
     \<lparr>f_adapter := ad_id d, f_adapter_generation := ad_generation d,
      f_base_model_revision := ad_base_model_revision d, f_epoch := Generation epoch,
      f_worker := w, f_boot := b, f_device := dev, f_attempt := attempt_for attempt_seed,
      f_residency_generation := Generation 1, f_composition_generation := Generation 1,
      f_artifact_generation := Generation 1\<rparr>"

definition register_req :: "AdapterDescriptor \<Rightarrow> Message" where
  "register_req d = Message_default\<lparr>m_type := MT_ctl_register_adapter, m_payload := serialize_adapter d\<rparr>"

definition validate_req :: "AdapterDescriptor \<Rightarrow> BaseModelId \<Rightarrow> ModelRevisionId \<Rightarrow> Message" where
  "validate_req d bm mr = Message_default\<lparr>m_type := MT_ctl_validate, m_text := Id_str (ad_id d),
     m_text2 := Id_str bm, m_text3 := Id_str mr\<rparr>"

definition fence_req :: "MsgType \<Rightarrow> AdapterDescriptor \<Rightarrow> WorkerId \<Rightarrow> AuthorityFence \<Rightarrow> Message" where
  "fence_req ty d w f = Message_default\<lparr>m_type := ty, m_text := Id_str (ad_id d), m_text2 := Id_str w,
     m_payload := encode_fence f\<rparr>"

definition deactivate_req :: "AdapterDescriptor \<Rightarrow> WorkerId \<Rightarrow> Message" where
  "deactivate_req d w = Message_default\<lparr>m_type := MT_ctl_deactivate, m_text := Id_str (ad_id d),
     m_text2 := Id_str w\<rparr>"

definition plain_req :: "MsgType \<Rightarrow> Message" where
  "plain_req ty = Message_default\<lparr>m_type := ty\<rparr>"

section \<open>The self-test\<close>

text \<open>The identities the driver draws, in the order of the source.\<close>

record proof_ids =
  pi_workerA :: WorkerId
  pi_workerB :: WorkerId
  pi_devA :: DeviceId
  pi_bm :: BaseModelId
  pi_mr :: ModelRevisionId
  pi_desc :: AdapterDescriptor

definition draw_ids :: "Rng \<Rightarrow> proof_ids" where
  "draw_ids rng =
    (let (wA, rng1) = Id_generate rng; (wB, rng2) = Id_generate rng1;
         (dA, rng3) = Id_generate rng2; (dB :: DeviceId, rng4) = Id_generate rng3;
         (bm, rng5) = Id_generate rng4; (mr, rng6) = Id_generate rng5
     in \<lparr>pi_workerA = wA, pi_workerB = wB, pi_devA = dA, pi_bm = bm, pi_mr = mr,
         pi_desc = fst (make_proof_adapter bm mr rng6)\<rparr>)"

definition quoted :: "string \<Rightarrow> string" where
  "quoted s = CHR 0x22 # s @ [CHR 0x22]"

definition coord_cmd :: "string \<Rightarrow> uint16_t \<Rightarrow> string" where
  "coord_cmd exe port = quoted exe @ '' --port '' @ dec_str (unat port)"

definition worker_cmd :: "string \<Rightarrow> uint16_t \<Rightarrow> WorkerId \<Rightarrow> string \<Rightarrow> string \<Rightarrow> string" where
  "worker_cmd exe port i seed name = quoted exe @ '' --port '' @ dec_str (unat port) @ '' --id ''
     @ Id_str i @ '' --seed '' @ seed @ '' --name '' @ name"

text \<open>Registration and validation, which may throw on an answer that does not decode.\<close>

definition proof_register ::
    "'e proof_env \<Rightarrow> nat option list \<Rightarrow> proof_ids \<Rightarrow> ('e, AdapterDescriptor) driver" where
  "proof_register env ps ids =
    dbind (must_accept env ps ''register adapter failed'' (register_req (pi_desc ids))) (\<lambda>r.
    case deserialize_adapter (m_payload r) of
      Inl e \<Rightarrow> (\<lambda>s. (Inl (PE_throw e), s))
    | Inr desc \<Rightarrow>
        dbind (must_accept env ps ''validate failed'' (validate_req desc (pi_bm ids) (pi_mr ids))) (\<lambda>_.
        dreturn desc))"

text \<open>The fences that differ from the current one in one component.\<close>

definition proof_stale ::
    "'e proof_env \<Rightarrow> AdapterDescriptor \<Rightarrow> WorkerId \<Rightarrow> AuthorityFence \<Rightarrow> ('e, unit) driver" where
  "proof_stale env desc w f =
    dbind (must_refuse env ''stale attempt accepted''
      (fence_req MT_ctl_activate desc w (f\<lparr>f_attempt := attempt_for 9999\<rparr>))) (\<lambda>_.
    dbind (must_refuse env ''stale adapter generation accepted''
      (fence_req MT_ctl_activate desc w
        (f\<lparr>f_adapter_generation := Generation (gen_value (f_adapter_generation f) + 1)\<rparr>))) (\<lambda>_.
    dbind (must_refuse env ''stale residency generation accepted''
      (fence_req MT_ctl_activate desc w (f\<lparr>f_residency_generation := Generation 2\<rparr>))) (\<lambda>_.
    must_refuse env ''stale composition generation accepted''
      (fence_req MT_ctl_activate desc w (f\<lparr>f_composition_generation := Generation 2\<rparr>)))))"

text \<open>The new epoch: that of the answer, or the old one when the request fails.\<close>

definition proof_epoch :: "'e proof_env \<Rightarrow> uint64_t \<Rightarrow> ('e, uint64_t) driver" where
  "proof_epoch env epoch =
    dbind (dcall (client_request env (plain_req MT_ctl_epoch))) (\<lambda>r.
    dreturn (if m_ok r then m_a r else epoch))"

text \<open>The work under the authority of the restarted worker.\<close>

definition proof_fresh ::
    "'e proof_env \<Rightarrow> AdapterDescriptor \<Rightarrow> WorkerId \<Rightarrow> AuthorityFence \<Rightarrow> ('e, string) driver" where
  "proof_fresh env desc w fresh =
    dbind (must_accept env [] ''fresh load failed'' (fence_req MT_ctl_load desc w fresh)) (\<lambda>_.
    dbind (must_accept env [] ''fresh activate failed'' (fence_req MT_ctl_activate desc w fresh)) (\<lambda>_.
    dbind (must_accept env [] ''complete fresh work failed'' (fence_req MT_ctl_activate desc w fresh)) (\<lambda>_.
    dbind (must_accept env [] ''deactivate failed'' (deactivate_req desc w)) (\<lambda>_.
    dbind (must_accept env [] ''capacity query failed'' (plain_req MT_ctl_capacity)) (\<lambda>r.
    dreturn (m_text r))))))"

definition run_multiprocess_proof ::
    "'e proof_env \<Rightarrow> string \<Rightarrow> string \<Rightarrow> uint16_t \<Rightarrow> ('e, string) driver" where
  "run_multiprocess_proof env coord_exe worker_exe port =
    (let ids = draw_ids rng_instance; wA = pi_workerA ids; wB = pi_workerB ids;
         bootA = boot_of_seed 1 in
     dbind (dcall (pe_spawn env (coord_cmd coord_exe port))) (\<lambda>coord.
     if coord = None then dfail ''failed to spawn coordinator'' else
     dbind (dcall (connect_retry env ''127.0.0.1'' port 50)) (\<lambda>up.
     if \<not> up then give_up env [coord] ''coordinator did not come up'' else
     dbind (dcall (pe_spawn env (worker_cmd worker_exe port wA ''1'' ''A''))) (\<lambda>pa.
     dbind (dcall (pe_spawn env (worker_cmd worker_exe port wB ''2'' ''B''))) (\<lambda>pb.
     if pa = None \<or> pb = None then give_up env [coord] ''failed to spawn workers'' else
     dbind (ddo (pe_sleep env 1200)) (\<lambda>_.
     dbind (proof_register env [pa, pb, coord] ids) (\<lambda>desc.
     let fence = make_fence desc wA bootA (pi_devA ids) 0 1001 in
     dbind (must_accept env [pa, pb, coord] ''load failed'' (fence_req MT_ctl_load desc wA fence)) (\<lambda>_.
     dbind (must_accept env [pa, pb, coord] ''activate failed'' (fence_req MT_ctl_activate desc wA fence)) (\<lambda>_.
     dbind (proof_stale env desc wA fence) (\<lambda>_.
     dbind (proof_epoch env 0) (\<lambda>epoch.
     dbind (must_refuse env ''stale epoch accepted''
       (fence_req MT_ctl_activate desc wA (fence\<lparr>f_epoch := Generation (epoch - 1)\<rparr>))) (\<lambda>_.
     dbind (ddo (kill_all env [pa])) (\<lambda>_. dbind (ddo (pe_sleep env 800)) (\<lambda>_.
     dbind (must_refuse env ''activated on a dead worker''
       (fence_req MT_ctl_activate desc wA (fence\<lparr>f_epoch := Generation epoch\<rparr>))) (\<lambda>_.
     dbind (dcall (pe_spawn env (worker_cmd worker_exe port wA ''11'' ''A2''))) (\<lambda>pa2.
     if pa2 = None then give_up env [pb, coord] ''failed to restart worker A'' else
     dbind (ddo (pe_sleep env 1200)) (\<lambda>_.
     dbind (must_refuse env ''stale boot accepted''
       (fence_req MT_ctl_activate desc wA (fence\<lparr>f_epoch := Generation epoch, f_boot := bootA\<rparr>))) (\<lambda>_.
     dbind (proof_fresh env desc wA (make_fence desc wA (boot_of_seed 11) (pi_devA ids) epoch 2001)) (\<lambda>capacity.
     dbind (ddo (kill_all env [pa2, pb, coord])) (\<lambda>_.
     dreturn capacity))))))))))))))))))))"

text \<open>The return value: 0 when every step went as demanded, 1 at the first that did not.\<close>

definition proof_exit :: "proof_end + string \<Rightarrow> int option" where
  "proof_exit r = (case r of Inl (PE_fail _) \<Rightarrow> Some 1 | Inl (PE_throw _) \<Rightarrow> None | Inr _ \<Rightarrow> Some 0)"

section \<open>The run of a self-test that passes\<close>

text \<open>
  The steps of a run as the environment sees them, with what has come back: a process started with
  its handle, the connection made within its 50 tries, a process ended, a pause, a request with its
  reply, and a request that was accepted or not accepted. \<open>went\<close> follows them from one state of the
  environment to the next.
\<close>

datatype proof_step =
    PS_spawn string nat
  | PS_up string uint16_t
  | PS_kill nat
  | PS_sleep nat
  | PS_ask Message Message
  | PS_accept Message
  | PS_refuse Message

fun went :: "'e proof_env \<Rightarrow> proof_step list \<Rightarrow> 'e \<Rightarrow> 'e \<Rightarrow> bool" where
  "went env [] s s' \<longleftrightarrow> s' = s"
| "went env (PS_spawn cmd h # ps) s s' \<longleftrightarrow>
     fst (pe_spawn env cmd s) = Some h \<and> went env ps (snd (pe_spawn env cmd s)) s'"
| "went env (PS_up host port # ps) s s' \<longleftrightarrow>
     fst (connect_retry env host port 50 s) \<and> went env ps (snd (connect_retry env host port 50 s)) s'"
| "went env (PS_kill h # ps) s s' \<longleftrightarrow> went env ps (pe_terminate env h s) s'"
| "went env (PS_sleep n # ps) s s' \<longleftrightarrow> went env ps (pe_sleep env n s) s'"
| "went env (PS_ask req r # ps) s s' \<longleftrightarrow>
     fst (client_request env req s) = r \<and> went env ps (snd (client_request env req s)) s'"
| "went env (PS_accept req # ps) s s' \<longleftrightarrow>
     m_ok (fst (client_request env req s)) \<and> went env ps (snd (client_request env req s)) s'"
| "went env (PS_refuse req # ps) s s' \<longleftrightarrow>
     \<not> m_ok (fst (client_request env req s)) \<and> went env ps (snd (client_request env req s)) s'"

text \<open>
  The requests of a run. \<open>f\<close> is the current fence of worker A; the stale ones differ from it in one
  component. \<open>r\<close> is the reply to the registration and \<open>re\<close> the one to the epoch request, \<open>desc\<close> the
  adapter as it came back and \<open>e\<close> the epoch after it.
\<close>

definition stale_fences :: "AuthorityFence \<Rightarrow> AuthorityFence list" where
  "stale_fences f =
     [f\<lparr>f_attempt := attempt_for 9999\<rparr>,
      f\<lparr>f_adapter_generation := Generation (gen_value (f_adapter_generation f) + 1)\<rparr>,
      f\<lparr>f_residency_generation := Generation 2\<rparr>, f\<lparr>f_composition_generation := Generation 2\<rparr>]"

definition proof_script ::
    "string \<Rightarrow> string \<Rightarrow> uint16_t \<Rightarrow> proof_ids \<Rightarrow> nat \<times> nat \<times> nat \<times> nat \<Rightarrow> Message \<Rightarrow> Message \<Rightarrow>
     AdapterDescriptor \<Rightarrow> proof_step list" where
  "proof_script coord_exe worker_exe port ids handles r re desc =
    (case handles of (coord, pa, pb, pa2) \<Rightarrow>
     let w = pi_workerA ids; e = (if m_ok re then m_a re else 0);
         f = make_fence desc w (boot_of_seed 1) (pi_devA ids) 0 1001;
         fresh = make_fence desc w (boot_of_seed 11) (pi_devA ids) e 2001
     in [PS_spawn (coord_cmd coord_exe port) coord, PS_up ''127.0.0.1'' port,
         PS_spawn (worker_cmd worker_exe port w ''1'' ''A'') pa,
         PS_spawn (worker_cmd worker_exe port (pi_workerB ids) ''2'' ''B'') pb, PS_sleep 1200,
         PS_ask (register_req (pi_desc ids)) r, PS_accept (validate_req desc (pi_bm ids) (pi_mr ids)),
         PS_accept (fence_req MT_ctl_load desc w f), PS_accept (fence_req MT_ctl_activate desc w f)] @
        map (\<lambda>g. PS_refuse (fence_req MT_ctl_activate desc w g)) (stale_fences f) @
        [PS_ask (plain_req MT_ctl_epoch) re,
         PS_refuse (fence_req MT_ctl_activate desc w (f\<lparr>f_epoch := Generation (e - 1)\<rparr>)),
         PS_kill pa, PS_sleep 800,
         PS_refuse (fence_req MT_ctl_activate desc w (f\<lparr>f_epoch := Generation e\<rparr>)),
         PS_spawn (worker_cmd worker_exe port w ''11'' ''A2'') pa2, PS_sleep 1200,
         PS_refuse (fence_req MT_ctl_activate desc w (f\<lparr>f_epoch := Generation e, f_boot := boot_of_seed 1\<rparr>)),
         PS_accept (fence_req MT_ctl_load desc w fresh), PS_accept (fence_req MT_ctl_activate desc w fresh),
         PS_accept (fence_req MT_ctl_activate desc w fresh), PS_accept (deactivate_req desc w),
         PS_accept (plain_req MT_ctl_capacity), PS_kill pa2, PS_kill pb, PS_kill coord])"

text \<open>When a driver comes to its end, combinator by combinator.\<close>

definition passes :: "('e, 'a) driver \<Rightarrow> 'e \<Rightarrow> 'e \<Rightarrow> bool" where
  "passes p s s' \<longleftrightarrow> (\<exists>x. p s = (Inr x, s'))"

lemma passes_end [simp]:
  "passes (dreturn x) s s' \<longleftrightarrow> s' = s"
  "\<not> passes (dfail msg) s s'"
  "\<not> passes (give_up env ps msg) s s'"
  by (auto simp: passes_def dreturn_def dfail_def give_up_def dbind_def ddo_def)

lemma passes_bind [simp]:
  "passes (dbind (dbind p q) h) s s' \<longleftrightarrow> passes (dbind p (\<lambda>x. dbind (q x) h)) s s'"
  "passes (dbind (dreturn x) h1) s s' \<longleftrightarrow> passes (h1 x) s s'"
  "passes (dbind (ddo f) h2) s s' \<longleftrightarrow> passes (h2 ()) (f s) s'"
  "passes (dbind (\<lambda>s. (Inl (PE_throw e), s)) h4) s s' \<longleftrightarrow> False"
  by (auto simp: passes_def dbind_def dreturn_def ddo_def split: prod.splits sum.splits)

lemma passes_call:
  "passes (dbind (dcall g) h) s s' \<longleftrightarrow> (\<exists>x s1. g s = (x, s1) \<and> passes (h x) s1 s')"
  by (auto simp: passes_def dbind_def dcall_def split: prod.splits)

lemma passes_accept:
  "passes (dbind (must_accept env ps msg req) h) s s' \<longleftrightarrow>
     (\<exists>r s1. client_request env req s = (r, s1) \<and> m_ok r \<and> passes (h r) s1 s')"
  by (auto simp: passes_def must_accept_def dbind_def dcall_def dreturn_def give_up_def ddo_def dfail_def
      split: prod.splits)

lemma passes_refuse:
  "passes (dbind (must_refuse env msg req) h) s s' \<longleftrightarrow>
     (\<exists>r s1. client_request env req s = (r, s1) \<and> \<not> m_ok r \<and> passes (h ()) s1 s')"
  by (auto simp: passes_def must_refuse_def dbind_def dcall_def dreturn_def dfail_def split: prod.splits)

lemma passes_guard [simp]:
  "passes (if b then dfail msg else p) s s' \<longleftrightarrow> \<not> b \<and> passes p s s'"
  "passes (if b then give_up env ps msg else p) s s' \<longleftrightarrow> \<not> b \<and> passes p s s'"
  by simp_all

lemma passes_sum:
  "passes (dbind (case x of Inl e \<Rightarrow> (\<lambda>s. (Inl (PE_throw e), s)) | Inr d \<Rightarrow> q d) h) s s' \<longleftrightarrow>
     (\<exists>d. x = Inr d \<and> passes (dbind (q d) h) s s')"
  by (cases x) simp_all

lemmas passes_steps = passes_call passes_accept passes_refuse passes_sum

lemma went_steps:
  "went env (PS_spawn cmd h # ps) s s' \<longleftrightarrow> (\<exists>s1. pe_spawn env cmd s = (Some h, s1) \<and> went env ps s1 s')"
  "went env (PS_up host port # ps) s s' \<longleftrightarrow>
     (\<exists>s1. connect_retry env host port 50 s = (True, s1) \<and> went env ps s1 s')"
  "went env (PS_ask req r # ps) s s' \<longleftrightarrow> (\<exists>s1. client_request env req s = (r, s1) \<and> went env ps s1 s')"
  "went env (PS_accept req # ps) s s' \<longleftrightarrow>
     (\<exists>r s1. client_request env req s = (r, s1) \<and> m_ok r \<and> went env ps s1 s')"
  "went env (PS_refuse req # ps) s s' \<longleftrightarrow>
     (\<exists>r s1. client_request env req s = (r, s1) \<and> \<not> m_ok r \<and> went env ps s1 s')"
  by (auto simp: prod_eq_iff)

lemma run_passes:
  "passes (run_multiprocess_proof env coord_exe worker_exe port) s s' \<longleftrightarrow>
   (\<exists>coord pa pb pa2 r re desc. m_ok r \<and> deserialize_adapter (m_payload r) = Inr desc \<and>
      went env (proof_script coord_exe worker_exe port (draw_ids rng_instance) (coord, pa, pb, pa2) r re desc) s s')"
  (is "?L \<longleftrightarrow> ?R")
proof
  assume ?L
  then show ?R
    unfolding run_multiprocess_proof_def Let_def
    by (simp add: passes_steps proof_register_def proof_stale_def proof_epoch_def proof_fresh_def split del: if_split)
      (elim exE conjE, intro exI conjI, assumption, assumption,
        simp only: proof_script_def stale_fences_def Let_def prod.case list.map append.simps,
        (rule went.simps(1) [THEN iffD2] went.simps(4) [THEN iffD2] went.simps(5) [THEN iffD2]
            went_steps [THEN iffD2] exI conjI | assumption | simp)+)
next
  assume ?R
  then show ?L
    unfolding run_multiprocess_proof_def Let_def
    by (simp only: proof_script_def stale_fences_def Let_def prod.case list.map append.simps went_steps went.simps(1,4,5))
      (elim exE conjE, simp only: passes_steps passes_bind passes_end passes_guard proof_register_def proof_stale_def
         proof_epoch_def proof_fresh_def kill_all.simps option.case,
       (rule exI conjI refl | assumption | (simp split del: if_split; fail))+)
qed

text \<open>
  C31: What a passed self-test says. The driver returns 0 exactly when its run is the script: the
  coordinator starts and is reached, both workers start, the adapter is registered, its registration
  comes back, it is validated, loaded and activated for worker A, and then, one after the other on
  the states of this run, the four stale fences are not accepted, the epoch is asked for, the old
  epoch is not accepted, nothing is accepted while worker A is dead, worker A is started again, its
  old boot is not accepted, and under the fence of the new boot the adapter is loaded, activated
  twice and deactivated, the capacity is answered, and the processes are ended. A request counts as
  not accepted when its reply has no \<open>ok\<close>, and also when it could not be sent, answered or decoded,
  which the driver does not tell apart.
\<close>

theorem proof_pass_sound:
  "proof_exit (fst (run_multiprocess_proof env coord_exe worker_exe port s)) = Some 0 \<longleftrightarrow>
   (\<exists>coord pa pb pa2 r re desc. m_ok r \<and> deserialize_adapter (m_payload r) = Inr desc \<and>
      went env (proof_script coord_exe worker_exe port (draw_ids rng_instance) (coord, pa, pb, pa2) r re desc) s
        (snd (run_multiprocess_proof env coord_exe worker_exe port s)))"
proof -
  let ?run = "run_multiprocess_proof env coord_exe worker_exe port s"
  have "proof_exit (fst ?run) = Some 0 \<longleftrightarrow> passes (run_multiprocess_proof env coord_exe worker_exe port) s (snd ?run)"
    by (cases ?run) (auto simp: proof_exit_def passes_def split: sum.splits proof_end.splits)
  then show ?thesis by (simp add: run_passes)
qed

end
