(* ===== verification/AF_SelfTest.thy ===== *)
theory AF_SelfTest
  imports AF_Proof AF_Scenario
begin

text \<open>
  The self-test of \<open>AF_Proof\<close>, run on the modelled processes: the coordinator executable, worker
  executables that register and answer commands, and connections that carry encoded messages. A
  process that is created has done its registration when the driver goes on (the source waits for
  it by sleeping), and a killed worker's connection has ended. The result is that the self-test
  passes.
\<close>

section \<open>The processes\<close>

text \<open>
  Live workers by the slot of their connection. The handle of the coordinator is 0, that of a
  worker the successor of its slot.
\<close>

record world =
  wd_coord :: "Coordinator option"
  wd_live :: "(nat \<times> WorkerService) list"
  wd_reply :: "byte list option"

text \<open>The arguments of a command line, which contains no quoted blanks.\<close>

fun split_words :: "string \<Rightarrow> string \<Rightarrow> string list" where
  "split_words cur [] = (if cur = [] then [] else [rev cur])"
| "split_words cur (c # s) =
     (if c = CHR '' '' then (if cur = [] then split_words [] s else rev cur # split_words [] s)
      else split_words (c # cur) s)"

text \<open>A forwarded command is answered by the worker on the slot.\<close>

definition worker_answer :: "(nat \<times> WorkerService) list \<Rightarrow> nat \<Rightarrow> Message \<Rightarrow> Message" where
  "worker_answer live c msg =
    (case map_of live c of
       None \<Rightarrow> Message_default
     | Some ws \<Rightarrow> (case fst (handle_command msg ws) of [] \<Rightarrow> Message_default | a # _ \<Rightarrow> a))"

definition world_forward :: "(nat \<times> WorkerService) list \<Rightarrow> forward" where
  "world_forward live r w m cd =
     forward_to_worker (\<lambda>c bs cd. map_of live c \<noteq> None)
       (\<lambda>r cd. (worker_answer live (the (map_of (cd_workers cd) w)) (m\<lparr>m_req_id := r\<rparr>), cd)) r w m cd"

definition world_frame ::
    "byte list \<Rightarrow> (nat \<times> WorkerService) list \<Rightarrow> Coordinator \<Rightarrow> (conn_end + Connection) \<times> byte list list \<times> Coordinator" where
  "world_frame bs live cd = connection_frame id (world_forward live) (\<lambda>_ _. True) bs Connection_new cd"

definition world_worker :: "string list \<Rightarrow> world \<Rightarrow> nat option \<times> world" where
  "world_worker args wd =
    (case worker_args args of
       P_done (opts, id_str) \<Rightarrow>
         (case wd_coord wd of
            None \<Rightarrow> (None, wd)
          | Some cd \<Rightarrow>
            let ws = WorkerService_new (fst (worker_identity opts id_str rng_instance));
                slot = fresh_slot cd;
                hello = encode_message (register_message (ws_opts ws)
                          (boot_of_seed (wo_boot_seed (ws_opts ws))))
            in case world_frame hello (wd_live wd) cd of
                 (r, [], cd1) \<Rightarrow> (None, wd)
               | (r, ack # _, cd1) \<Rightarrow>
                 (case connect_and_register True (\<lambda>_. Some (Some ack)) ws of
                    (res, ws1) \<Rightarrow> (Some (Suc slot), wd\<lparr>wd_coord := Some cd1,
                       wd_live := (if res = Inr True then [(slot, ws1)] else []) @ wd_live wd\<rparr>)))
     | _ \<Rightarrow> (None, wd))"

definition world_spawn :: "string \<Rightarrow> string \<Rightarrow> string \<Rightarrow> world \<Rightarrow> nat option \<times> world" where
  "world_spawn coord_exe worker_exe cmd wd =
    (case split_words [] cmd of
       [] \<Rightarrow> (None, wd)
     | exe # args \<Rightarrow>
       if exe = quoted coord_exe then
         (case fst (coordinator_main args (\<lambda>_. True)) of
            Inl _ \<Rightarrow> (None, wd) | Inr cd \<Rightarrow> (Some 0, wd\<lparr>wd_coord := Some cd\<rparr>))
       else if exe = quoted worker_exe then world_worker args wd
       else (None, wd))"

definition world_terminate :: "nat \<Rightarrow> world \<Rightarrow> world" where
  "world_terminate h wd =
    (case h of
       0 \<Rightarrow> wd\<lparr>wd_coord := None\<rparr>
     | Suc c \<Rightarrow> wd\<lparr>wd_coord := map_option (connection_cleanup \<lparr>cn_is_worker = True, cn_slot = Some c\<rparr>)
                    (wd_coord wd),
                  wd_live := filter (\<lambda>p. fst p \<noteq> c) (wd_live wd)\<rparr>)"

definition world_send :: "byte list \<Rightarrow> world \<Rightarrow> bool \<times> world" where
  "world_send bs wd =
    (case wd_coord wd of
       None \<Rightarrow> (False, wd)
     | Some cd \<Rightarrow>
       (case world_frame bs (wd_live wd) cd of (_, written, cd1) \<Rightarrow>
          (True, wd\<lparr>wd_coord := Some cd1,
                   wd_reply := (case written of [] \<Rightarrow> None | a # _ \<Rightarrow> Some a)\<rparr>)))"

definition world_env :: "string \<Rightarrow> string \<Rightarrow> world proof_env" where
  "world_env coord_exe worker_exe =
     \<lparr>pe_spawn = world_spawn coord_exe worker_exe, pe_terminate = world_terminate, pe_sleep = \<lambda>_ wd. wd,
      pe_connect = \<lambda>_ _ wd. (wd_coord wd \<noteq> None, wd), pe_send = world_send,
      pe_recv = \<lambda>wd. (wd_reply wd, wd\<lparr>wd_reply := None\<rparr>)\<rparr>"

lemma world_env_simps [simp]:
  "pe_spawn (world_env cx wx) = world_spawn cx wx" "pe_terminate (world_env cx wx) = world_terminate"
  "pe_sleep (world_env cx wx) n wd = wd" "pe_connect (world_env cx wx) h p wd = (wd_coord wd \<noteq> None, wd)"
  "pe_send (world_env cx wx) = world_send" "pe_recv (world_env cx wx) wd = (wd_reply wd, wd\<lparr>wd_reply := None\<rparr>)"
  by (simp_all add: world_env_def)

section \<open>Command lines\<close>

lemma split_words_run:
  "CHR '' '' \<notin> set a \<Longrightarrow> split_words cur (a @ s) = split_words (rev a @ cur) s"
  by (induction a arbitrary: cur) auto

text \<open>Words without blanks, one blank between two of them.\<close>

fun unwords :: "string list \<Rightarrow> string" where
  "unwords [] = []"
| "unwords [w] = w"
| "unwords (w # v # ws) = w @ CHR '' '' # unwords (v # ws)"

definition word_ok :: "string \<Rightarrow> bool" where
  "word_ok w \<longleftrightarrow> w \<noteq> [] \<and> CHR '' '' \<notin> set w"

lemma split_unwords: "\<forall>w \<in> set ws. word_ok w \<Longrightarrow> split_words [] (unwords ws) = ws"
proof (induction ws rule: unwords.induct)
  case (2 w)
  then show ?case using split_words_run [of w "[]" "[]"] by (simp add: word_ok_def)
next
  case (3 w v ws)
  then have "split_words [] (w @ CHR '' '' # unwords (v # ws)) = w # split_words [] (unwords (v # ws))"
    using split_words_run [of w "[]" "CHR '' '' # unwords (v # ws)"] by (simp add: word_ok_def)
  with 3 show ?case by simp
qed simp

lemma no_blank_dec: "CHR '' '' \<notin> set (dec_str n)"
  using dec_str_chars by (force simp: dec_char_def)

lemma no_blank_id: "CHR '' '' \<notin> set (Id_str i)"
  using Uuid_str_chars [of "uuid i"] by (auto simp: Id_str_def hex_table_def)

lemma word_ok_simps [simp]:
  "word_ok (dec_str n)" "word_ok (Id_str i)" "word_ok (quoted s) \<longleftrightarrow> CHR '' '' \<notin> set s"
  using no_blank_dec no_blank_id by (auto simp: word_ok_def quoted_def)

lemma split_coord_cmd:
  assumes "CHR '' '' \<notin> set exe"
  shows "split_words [] (coord_cmd exe port) = [quoted exe, ''--port'', dec_str (unat port)]"
proof -
  have "coord_cmd exe port = unwords [quoted exe, ''--port'', dec_str (unat port)]"
    by (simp add: coord_cmd_def)
  then show ?thesis
    by (simp only:) (rule split_unwords, use assms in \<open>simp add: word_ok_def no_blank_dec no_blank_id quoted_def\<close>)
qed

lemma split_worker_cmd:
  assumes "CHR '' '' \<notin> set exe" and "word_ok seed" and "word_ok name"
  shows "split_words [] (worker_cmd exe port i seed name) = [quoted exe, ''--port'', dec_str (unat port),
    ''--id'', Id_str i, ''--seed'', seed, ''--name'', name]"
proof -
  have "worker_cmd exe port i seed name = unwords [quoted exe, ''--port'', dec_str (unat port),
      ''--id'', Id_str i, ''--seed'', seed, ''--name'', name]"
    by (simp add: worker_cmd_def)
  then show ?thesis
    by (simp only:) (rule split_unwords, use assms in \<open>simp add: word_ok_def no_blank_dec no_blank_id quoted_def\<close>)
qed

text \<open>The options a worker of the self-test starts with.\<close>

definition spawned_options :: "uint16_t \<Rightarrow> WorkerId \<Rightarrow> uint64_t \<Rightarrow> string \<Rightarrow> WorkerOptions" where
  "spawned_options port i seed name =
     (let (node, rng1) = Id_generate rng_instance; (device, rng2) = Id_generate rng1
      in worker_start_options\<lparr>wo_coordinator_port := port, wo_boot_seed := seed, wo_name := name,
           wo_id := i, wo_node := node, wo_device := device\<rparr>)"

lemma spawned_worker_args:
  "\<exists>opts. worker_args [''--port'', dec_str (unat port), ''--id'', Id_str i, ''--seed'', dec_str (unat seed),
      ''--name'', name] = P_done (opts, Id_str i) \<and>
     fst (worker_identity opts (Id_str i) rng_instance) = spawned_options port i seed name"
proof -
  have "unat port < 2 ^ 16" "unat seed < 2 ^ 64"
    using unsigned_less [of port] unsigned_less [of seed] by simp_all
  then show ?thesis
    by (simp add: worker_args_def worker_flags_def c_atoi_dec c_strtoull_dec atoi_port_def
        worker_identity_def spawned_options_def case_prod_beta Let_def)
qed

section \<open>Starting the processes\<close>

lemma length_dec_port: "length (dec_str (unat (p :: uint16_t))) \<le> 5"
proof -
  have "unat p < 2 ^ 16" using unsigned_less [where 'b = 16 and 'a = nat, of p] by simp
  then show ?thesis by (intro length_dec_str) simp_all
qed

lemma length_dec_u64: "length (dec_str (unat (w :: uint64_t))) \<le> 20"
proof -
  have "unat w < 2 ^ 64" using unsigned_less [where 'b = 64 and 'a = nat, of w] by simp
  then show ?thesis by (intro length_dec_str) simp_all
qed

lemma spawn_coordinator:
  assumes "CHR '' '' \<notin> set cx"
  shows "world_spawn cx wx (coord_cmd cx port) wd =
     (Some 0, wd\<lparr>wd_coord := Some ((CoordinatorServer_new [])\<lparr>cd_running := True\<rparr>)\<rparr>)"
proof -
  have "unat port < 2 ^ 16" using unsigned_less [of port] by simp
  then show ?thesis
    by (simp add: world_spawn_def split_coord_cmd [OF assms] coordinator_main_def coordinator_args_def
        atoi_port_def c_atoi_dec server_start_def)
qed

lemma quoted_inject [simp]: "quoted a = quoted b \<longleftrightarrow> a = b"
  by (simp add: quoted_def)

text \<open>What a spawned worker is to the coordinator.\<close>

definition registers ::
    "Coordinator \<Rightarrow> WorkerId \<Rightarrow> WorkerBootId \<Rightarrow> Coordinator \<Rightarrow> bool" where
  "registers cd i b cd' \<longleftrightarrow> coordinator_step cd cd' \<and>
     (\<exists>r. cd_fabric cd' = reregister r (cd_fabric cd) \<and> wr_id r = i \<and> wr_boot r = b \<and> wr_connected r) \<and>
     cd_workers cd' = smap_set (Id_str i) (fresh_slot cd) (cd_workers cd) \<and>
     (\<exists>sl. cd_slots cd' = smap_set (fresh_slot cd) sl (cd_slots cd) \<and> sl_id sl = i \<and> sl_connected sl)"

lemma registers_steps: "registers cd i b cd' \<Longrightarrow> coord_step\<^sup>*\<^sup>* (cd_fabric cd) (cd_fabric cd')"
  unfolding registers_def by (elim conjE) (rule coordinator_step_steps)

lemma handle_register_effect:
  assumes "m_text msg = Id_str (i :: WorkerId)" and "m_text2 msg = Id_str (b :: WorkerBootId)"
    and "m_text4 msg = Id_str (n :: NodeId)" and "message_ok msg"
  shows "\<exists>ack cd'. handle_register (fresh_slot cd) msg cd = (Inr ack, cd') \<and> m_ok ack \<and> message_ok ack \<and>
     registers cd i b cd'"
proof -
  define r where "r = \<lparr>wr_id = i, wr_boot = b, wr_address = m_text3 msg, wr_node = n, wr_device = Id_nil,
      wr_connected = True, wr_epoch = fb_epoch (cd_fabric cd), wr_capabilities = [],
      wr_device_memory_bytes = 0, wr_local_adapters = []\<rparr>"
  define cd1 where "cd1 = cd\<lparr>cd_slots := smap_set (fresh_slot cd)
        \<lparr>sl_id = i, sl_boot = b, sl_address = m_text3 msg, sl_connected = True\<rparr> (cd_slots cd),
      cd_workers := smap_set (Id_str i) (fresh_slot cd) (cd_workers cd),
      cd_fabric := reregister r (cd_fabric cd)\<rparr>"
  define e where "e = gen_value (fb_epoch (cd_fabric cd1))"
  have run: "handle_register (fresh_slot cd) msg cd = (Inr (Message_default\<lparr>m_type := MT_wk_register_ack,
      m_ok := True, m_a := e, m_text := dec_str (unat e)\<rparr>), cd1)"
    by (simp add: handle_register_def must_parse_def assms(1-3) Let_def cd1_def r_def e_def reregister_def)
  have "message_ok (Message_default\<lparr>m_type := MT_wk_register_ack,
      m_ok := True, m_a := e, m_text := dec_str (unat e)\<rparr>)"
    using length_dec_u64 [of e] by (simp add: message_ok_def string_ok_def Message_default_def)
  moreover have "registers cd i b cd1"
    unfolding registers_def
  proof (intro conjI exI)
    have "coordinator_step cd (snd (handle_register (fresh_slot cd) msg cd))"
      by (rule cs_register [OF assms(4)])
    then show "coordinator_step cd cd1" by (simp add: run)
    show "cd_fabric cd1 = reregister r (cd_fabric cd)" by (simp add: cd1_def)
    show "cd_slots cd1 = smap_set (fresh_slot cd) \<lparr>sl_id = i, sl_boot = b,
        sl_address = m_text3 msg, sl_connected = True\<rparr> (cd_slots cd)" by (simp add: cd1_def)
  qed (simp_all add: r_def cd1_def)
  ultimately show ?thesis using run by (intro exI conjI) (assumption | simp)+
qed

lemma register_message_ok:
  assumes "length name \<le> 10"
  shows "message_ok (register_message (spawned_options port i seed name) b)"
  using assms length_dec_port [of port]
  by (simp add: message_ok_def string_ok_def register_message_def spawned_options_def
      Message_default_def worker_start_options_def default_options_def case_prod_beta Let_def)

lemma spawn_worker:
  assumes cd: "wd_coord wd = Some cd" and exe: "CHR '' '' \<notin> set wx" "wx \<noteq> cx"
    and name: "word_ok name" "length name \<le> 10"
  shows "\<exists>ws cd'. world_spawn cx wx (worker_cmd wx port i (dec_str (unat seed)) name) wd =
      (Some (Suc (fresh_slot cd)), wd\<lparr>wd_coord := Some cd', wd_live := (fresh_slot cd, ws) # wd_live wd\<rparr>) \<and>
     registers cd i (boot_of_seed seed) cd'"
proof -
  let ?so = "spawned_options port i seed name"
  let ?hello = "register_message ?so (boot_of_seed seed)"
  let ?ws = "WorkerService_new ?so"
  have so: "wo_boot_seed ?so = seed" "wo_id ?so = i"
    by (simp_all add: spawned_options_def case_prod_beta Let_def)
  have ok: "message_ok ?hello" by (rule register_message_ok [OF name(2)])
  obtain ack cd' where reg: "handle_register (fresh_slot cd) ?hello cd = (Inr ack, cd')"
    and ack: "m_ok ack" "message_ok ack" and regs: "registers cd i (boot_of_seed seed) cd'"
    using handle_register_effect [of ?hello i "boot_of_seed seed" "wo_node ?so" cd, OF _ _ _ ok]
    by (auto simp: register_message_def so)
  have frame: "world_frame (encode_message ?hello) (wd_live wd) cd =
      (Inr \<lparr>cn_is_worker = True, cn_slot = Some (fresh_slot cd)\<rparr>, [encode_message ack], cd')"
    by (simp add: world_frame_def connection_frame_def message_roundtrip [OF ok] reg Let_def)
      (simp add: register_message_def)
  obtain ws1 where conn: "connect_and_register True (\<lambda>_. Some (Some (encode_message ack))) ?ws = (Inr True, ws1)"
    using ack by (simp add: connect_and_register_def message_roundtrip Let_def)
  obtain opts where args: "worker_args [''--port'', dec_str (unat port), ''--id'', Id_str i, ''--seed'',
      dec_str (unat seed), ''--name'', name] = P_done (opts, Id_str i)"
    and opts: "fst (worker_identity opts (Id_str i) rng_instance) = ?so"
    using spawned_worker_args by blast
  have opts_ws: "ws_opts ?ws = ?so" by (simp add: WorkerService_new_def)
  have split: "split_words [] (worker_cmd wx port i (dec_str (unat seed)) name) =
      [quoted wx, ''--port'', dec_str (unat port), ''--id'', Id_str i, ''--seed'', dec_str (unat seed),
       ''--name'', name]"
    by (rule split_worker_cmd [OF exe(1) _ name(1)]) simp
  show ?thesis
    using regs exe(2)
    by (intro exI [of _ ws1] exI [of _ cd'])
      (simp add: world_spawn_def split world_worker_def args opts cd Let_def opts_ws so frame conn)
qed

section \<open>Requests\<close>

text \<open>A request of the client is a control message that the coordinator processes.\<close>

lemma client_request_control:
  assumes "wd_coord wd = Some cd" and "message_ok req" and "m_type req \<noteq> MT_wk_register"
    and "process_control id (world_forward (wd_live wd)) req cd = (Some m, cd')" and "message_ok m"
  shows "client_request (world_env cx wx) req wd = (m, wd\<lparr>wd_coord := Some cd', wd_reply := None\<rparr>)"
  using assms
  by (simp add: client_request_def world_send_def world_frame_def connection_frame_def
      message_roundtrip Connection_new_def)

lemma reply_ok: "string_ok txt \<Longrightarrow> message_ok (ctl_reply good txt)"
  by (simp add: message_ok_def string_ok_def ctl_reply_def ctl_out_def Message_default_def)

lemma fence_req_ok [simp]: "message_ok (fence_req ty d w f)"
  by (simp add: message_ok_def string_ok_def fence_req_def Message_default_def length_encode_fence)

lemma fence_req_simps [simp]:
  "m_type (fence_req ty d w f) = ty" "m_text (fence_req ty d w f) = Id_str (ad_id d)"
  "m_text2 (fence_req ty d w f) = Id_str w" "m_payload (fence_req ty d w f) = encode_fence f"
  by (simp_all add: fence_req_def)

lemma check_reason_ok: "string_ok (ac_reason (check_fence f fb))"
  by (simp add: check_fence_def verdict_def string_ok_def Let_def split: option.split)

section \<open>The state the self-test moves through\<close>

definition gens_one :: "AuthorityFence \<Rightarrow> bool" where
  "gens_one f \<longleftrightarrow> f_residency_generation f = Generation 1 \<and>
     f_composition_generation f = Generation 1 \<and> f_artifact_generation f = Generation 1"

text \<open>
  The part of the state the test depends on: the adapter \<open>d\<close> is registered, the worker \<open>w\<close> has the
  boot \<open>b\<close>, is connected or not (\<open>up\<close>) and is reached over the slot \<open>c\<close>, \<open>e\<close> is the epoch, \<open>att\<close>
  the current attempt and \<open>loaded\<close> tells whether there is an authority record.
\<close>

definition fabric_at ::
    "AdapterDescriptor \<Rightarrow> WorkerId \<Rightarrow> WorkerBootId \<Rightarrow> bool \<Rightarrow> uint64_t \<Rightarrow> AttemptId option \<Rightarrow> bool \<Rightarrow> Fabric \<Rightarrow> bool" where
  "fabric_at d w b up e att loaded fb \<longleftrightarrow>
     adapter (ad_id d) fb = Some d \<and> fb_epoch fb = Generation e \<and>
     (\<exists>r. worker w fb = Some r \<and> wr_boot r = b \<and> wr_connected r = up) \<and>
     map_of (fb_current_attempt fb) (Id_str (ad_id d)) = att \<and>
     (case authority_record (ad_id d) fb of None \<Rightarrow> \<not> loaded
      | Some ar \<Rightarrow> loaded \<and> gens_one (ar_fence ar) \<and> f_worker (ar_fence ar) = w) \<and>
     (case fb_active_fence fb of None \<Rightarrow> True | Some a \<Rightarrow> f_adapter a = ad_id d \<and> f_worker a = w)"

definition world_at ::
    "AdapterDescriptor \<Rightarrow> WorkerId \<Rightarrow> nat \<Rightarrow> WorkerBootId \<Rightarrow> bool \<Rightarrow> uint64_t \<Rightarrow> AttemptId option \<Rightarrow> bool \<Rightarrow> world \<Rightarrow> bool" where
  "world_at d w c b up e att loaded wd \<longleftrightarrow> (\<exists>cd sl. wd_coord wd = Some cd \<and>
     fabric_reachable (cd_fabric cd) \<and> fabric_at d w b up e att loaded (cd_fabric cd) \<and>
     map_of (cd_workers cd) (Id_str w) = Some c \<and> map_of (cd_slots cd) c = Some sl \<and>
     sl_id sl = w \<and> sl_connected sl = up \<and> (up \<longrightarrow> map_of (wd_live wd) c \<noteq> None))"

lemma fence_at:
  assumes "fabric_at d w b up e att loaded fb" and "f_adapter f = ad_id d" and "f_worker f = w"
  shows "fence_current f fb \<longleftrightarrow> up \<and> f_boot f = b \<and> f_epoch f = Generation e \<and>
     f_adapter_generation f = ad_generation d \<and> f_base_model_revision f = ad_base_model_revision d \<and>
     (case att of None \<Rightarrow> True | Some a \<Rightarrow> a = f_attempt f) \<and> gens_one f \<and>
     \<not> Id_is_nil (ad_id d) \<and> \<not> Id_is_nil w \<and> \<not> Id_is_nil (f_boot f) \<and> \<not> Id_is_nil (f_attempt f)"
  using assms
  by (cases "authority_record (ad_id d) fb"; cases att)
    (auto simp: fabric_at_def fence_current_def gens_one_def split: option.splits)

text \<open>A stale fence is refused and changes nothing.\<close>

lemma stale_activation:
  assumes "world_at d w c b up e att loaded wd" and "\<And>fb. fabric_at d w b up e att loaded fb \<Longrightarrow> \<not> fence_current f fb"
  shows "\<exists>m. client_request (world_env cx wx) (fence_req MT_ctl_activate d w f) wd = (m, wd\<lparr>wd_reply := None\<rparr>) \<and>
     \<not> m_ok m"
proof -
  obtain cd where cd: "wd_coord wd = Some cd" and fab: "fabric_at d w b up e att loaded (cd_fabric cd)"
    using assms(1) by (auto simp: world_at_def)
  have no: "\<not> authorized (check_fence f (cd_fabric cd))"
    using assms(2) [OF fab] by (simp add: check_fence_current)
  let ?m = "ctl_reply False (ac_reason (check_fence f (cd_fabric cd)))"
  have "process_control id (world_forward (wd_live wd)) (fence_req MT_ctl_activate d w f) cd = (Some ?m, cd)"
    using no by (simp add: process_control_def dispatch_def ctl_activate_def Let_def)
  from client_request_control [OF cd _ _ this reply_ok [OF check_reason_ok]]
  have "client_request (world_env cx wx) (fence_req MT_ctl_activate d w f) wd =
      (?m, wd\<lparr>wd_coord := Some cd, wd_reply := None\<rparr>)" by simp
  moreover have "wd\<lparr>wd_coord := Some cd, wd_reply := None\<rparr> = wd\<lparr>wd_reply := None\<rparr>" using cd by simp
  ultimately show ?thesis by (intro exI [of _ ?m]) (simp add: ctl_reply_def)
qed

section \<open>Accepted requests\<close>

lemma world_forward_sound: "forward_sound (world_forward live)"
  unfolding forward_sound_def world_forward_def
proof (intro allI)
  fix r and w :: string and m and cd :: Coordinator
  let ?await = "\<lambda>r cd'. (worker_answer live (the (map_of (cd_workers cd') w)) (m\<lparr>m_req_id := r\<rparr>), cd')"
  have "forward_sound (forward_to_worker (\<lambda>c bs cd. map_of live c \<noteq> None) ?await)"
    by (rule forward_to_worker_sound) simp
  then show "coord_step\<^sup>*\<^sup>* (cd_fabric cd) (cd_fabric (snd (forward_to_worker
      (\<lambda>c bs cd. map_of live c \<noteq> None) ?await r w m cd)))"
    unfolding forward_sound_def by blast
qed

lemma control_reachable:
  assumes "fabric_reachable (cd_fabric cd)" and "message_ok req"
    and "process_control id (world_forward live) req cd = (r, cd')"
  shows "fabric_reachable (cd_fabric cd')"
proof -
  have "coord_step\<^sup>*\<^sup>* (cd_fabric cd) (cd_fabric (snd (process_control id (world_forward live) req cd)))"
    by (rule process_control_steps [OF assms(2) run_sound(1) world_forward_sound])
  then show ?thesis using assms(1,3) coord_steps_fabric fabric_reachable_steps by fastforce
qed

text \<open>A live worker answers, and forwarding leaves the fabric and the tables of workers alone.\<close>

lemma worker_answers:
  assumes "map_of live c \<noteq> None" and "m_type msg \<in> {MT_wk_load, MT_wk_activate, MT_wk_deactivate}"
  shows "m_ok (worker_answer live c msg)"
proof -
  obtain ws where ws: "map_of live c = Some ws" using assms(1) by blast
  have "fst (handle_command msg ws) \<noteq> []" using assms(2) by (auto simp: handle_command_def Let_def)
  then obtain a as where "fst (handle_command msg ws) = a # as" by (cases "fst (handle_command msg ws)") simp_all
  with handle_command_replies [of msg ws] show ?thesis by (simp add: worker_answer_def ws)
qed

lemma forward_live:
  assumes "map_of (cd_workers cd) w = Some c" and "map_of (cd_slots cd) c = Some sl" and "sl_connected sl"
    and "map_of live c \<noteq> None" and "m_type msg \<in> {MT_wk_load, MT_wk_activate, MT_wk_deactivate}"
  shows "\<exists>a nr pd. forward_next (world_forward live) w msg cd =
      (a, cd\<lparr>cd_next_req := nr, cd_pending := pd\<rparr>) \<and> m_ok a"
proof -
  have "m_ok (worker_answer live c (msg\<lparr>m_req_id := cd_next_req cd\<rparr>))"
    by (rule worker_answers [OF assms(4)]) (use assms(5) in simp)
  then show ?thesis
    using assms by (auto simp: forward_next_def world_forward_def forward_to_worker_def Let_def)
qed

lemma load_accepted:
  assumes at: "world_at d w c b True e att loaded wd"
    and cur: "\<And>fb. fabric_at d w b True e att loaded fb \<Longrightarrow> fence_current f fb"
    and f: "f_adapter f = ad_id d" "f_worker f = w" "f_boot f = b"
  shows "\<exists>m wd'. client_request (world_env cx wx) (fence_req MT_ctl_load d w f) wd = (m, wd') \<and> m_ok m \<and>
     world_at d w c b True e att True wd'"
proof -
  obtain cd sl where cd: "wd_coord wd = Some cd" and reach: "fabric_reachable (cd_fabric cd)"
    and fab: "fabric_at d w b True e att loaded (cd_fabric cd)"
    and route: "map_of (cd_workers cd) (Id_str w) = Some c" "map_of (cd_slots cd) c = Some sl"
      "sl_id sl = w" "sl_connected sl" "map_of (wd_live wd) c \<noteq> None"
    using at by (auto simp: world_at_def)
  let ?fb = "cd_fabric cd" and ?fw = "world_forward (wd_live wd)"
  have d: "adapter (ad_id d) ?fb = Some d" using fab by (simp add: fabric_at_def)
  obtain inst rng' where cr: "create_instance (ad_id d) w b (f_device f) (ad_memory_bytes d) (cd_rng cd) ?fb =
      (Inr inst, rng', ?fb\<lparr>fb_residencies := smap_set (Id_str inst)
          (fresh_residency (ad_id d) d inst w b (f_device f) (ad_memory_bytes d) (fb_epoch ?fb)) (fb_residencies ?fb),
        fb_authority := smap_set (Id_str (ad_id d))
          (fresh_authority (ad_id d) d inst w b (f_device f) (fb_epoch ?fb)) (fb_authority ?fb)\<rparr>)"
    by (simp add: create_instance_def d case_prod_beta Let_def)
  define fb1 where "fb1 = ?fb\<lparr>fb_residencies := smap_set (Id_str inst)
          (fresh_residency (ad_id d) d inst w b (f_device f) (ad_memory_bytes d) (fb_epoch ?fb)) (fb_residencies ?fb),
        fb_authority := smap_set (Id_str (ad_id d))
          (fresh_authority (ad_id d) d inst w b (f_device f) (fb_epoch ?fb)) (fb_authority ?fb)\<rparr>"
  define cd2 where "cd2 = cd\<lparr>cd_rng := rng', cd_fabric := fb1\<rparr>"
  define fwd where "fwd = Message_default\<lparr>m_type := MT_wk_load, m_text := Id_str (ad_id d),
      m_text2 := Id_str inst, m_payload := encode_fence f\<rparr>"
  obtain a nr pd where fw: "forward_next ?fw (Id_str w) fwd cd2 = (a, cd2\<lparr>cd_next_req := nr, cd_pending := pd\<rparr>)"
    and a: "m_ok a"
    using forward_live [of cd2 "Id_str w" c sl "wd_live wd" fwd] route by (auto simp: cd2_def fwd_def)
  define cd' where "cd' = cd2\<lparr>cd_next_req := nr, cd_pending := pd,
      cd_fabric := set_lifecycle (ad_id d) L_ready (load_acked inst (m_a a) fb1)\<rparr>"
  let ?m = "(ctl_reply True ''loaded'')\<lparr>m_text2 := Id_str inst\<rparr>"
  have pc: "process_control id ?fw (fence_req MT_ctl_load d w f) cd = (Some ?m, cd')"
    using check_fence_authorized [OF cur [OF fab]]
    by (simp add: process_control_def dispatch_def ctl_load_def Let_def f d cr fb1_def [symmetric]
        cd2_def [symmetric] fwd_def [symmetric] fw a)
      (simp add: cd'_def cd2_def)
  have mok: "message_ok ?m"
    by (simp add: message_ok_def string_ok_def ctl_reply_def ctl_out_def Message_default_def)
  have req: "client_request (world_env cx wx) (fence_req MT_ctl_load d w f) wd =
      (?m, wd\<lparr>wd_coord := Some cd', wd_reply := None\<rparr>)"
    by (rule client_request_control [OF cd fence_req_ok _ pc mok]) simp
  have "fabric_reachable (cd_fabric cd')" by (rule control_reachable [OF reach fence_req_ok pc])
  moreover have "fabric_at d w b True e att True (cd_fabric cd')"
    using fab by (simp add: fabric_at_def cd'_def set_lifecycle_authority fb1_def authority_record_def
        adapter_def worker_def set_lifecycle_def fresh_authority_def gens_one_def split: option.split)
  ultimately have "world_at d w c b True e att True (wd\<lparr>wd_coord := Some cd', wd_reply := None\<rparr>)"
    using route by (auto simp: world_at_def cd'_def cd2_def)
  with req show ?thesis by (intro exI [of _ ?m]) (simp add: ctl_reply_def)
qed


text \<open>The reply to a forwarded command, and the coordinator after it.\<close>

lemma activate_accepted:
  assumes at: "world_at d w c b True e att True wd"
    and cur: "\<And>fb. fabric_at d w b True e att True fb \<Longrightarrow> fence_current f fb"
    and f: "f_adapter f = ad_id d" "f_worker f = w" "gens_one f"
  shows "\<exists>m wd'. client_request (world_env cx wx) (fence_req MT_ctl_activate d w f) wd = (m, wd') \<and> m_ok m \<and>
     world_at d w c b True e (Some (f_attempt f)) True wd'"
proof -
  obtain cd sl where cd: "wd_coord wd = Some cd" and reach: "fabric_reachable (cd_fabric cd)"
    and fab: "fabric_at d w b True e att True (cd_fabric cd)"
    and route: "map_of (cd_workers cd) (Id_str w) = Some c" "map_of (cd_slots cd) c = Some sl"
      "sl_id sl = w" "sl_connected sl" "map_of (wd_live wd) c \<noteq> None"
    using at by (auto simp: world_at_def)
  let ?fw = "world_forward (wd_live wd)"
  define fwd where "fwd = Message_default\<lparr>m_type := MT_wk_activate, m_text := Id_str (ad_id d),
      m_payload := encode_fence f\<rparr>"
  obtain a nr pd where fw: "forward_next ?fw (Id_str w) fwd cd = (a, cd\<lparr>cd_next_req := nr, cd_pending := pd\<rparr>)"
    and a: "m_ok a"
    using forward_live [of cd "Id_str w" c sl "wd_live wd" fwd] route by (auto simp: fwd_def)
  let ?fb = "cd_fabric cd"
  obtain ar where ar: "authority_record (ad_id d) ?fb = Some ar"
    using fab by (auto simp: fabric_at_def split: option.splits)
  have act: "\<And>x. fb_active_fence ?fb = Some x \<Longrightarrow> f_adapter x = ad_id d"
    using fab by (auto simp: fabric_at_def split: option.splits)
  define fb1 where "fb1 = ?fb\<lparr>fb_authority := smap_set (Id_str (ad_id d))
        (ar\<lparr>ar_fence := f, ar_has_authority := True, ar_active := True,
            ar_lifecycle := set_state L_active (ar_lifecycle ar)\<rparr>) (fb_authority ?fb),
      fb_current_attempt := smap_set (Id_str (ad_id d)) (f_attempt f) (fb_current_attempt ?fb),
      fb_active_fence := Some f\<rparr>"
  have bind: "bind_authority (ad_id d) f ?fb = (Inr (verdict AV_authorized ''fence current''), fb1)"
    using cur [OF fab] act ar
    by (cases rule: bind_authority_cases [of f ?fb "ad_id d"]) (auto simp: fb1_def)
  define cd' where "cd' = cd\<lparr>cd_next_req := nr, cd_pending := pd, cd_fabric := fb1\<rparr>"
  have pc: "process_control id ?fw (fence_req MT_ctl_activate d w f) cd =
      (Some (ctl_reply True ''fence current''), cd')"
    using check_fence_authorized [OF cur [OF fab]]
    by (simp add: process_control_def dispatch_def ctl_activate_def Let_def f
        fwd_def [symmetric] fw a bind verdict_def authorized_def) (simp add: cd'_def)
  have req: "client_request (world_env cx wx) (fence_req MT_ctl_activate d w f) wd =
      (ctl_reply True ''fence current'', wd\<lparr>wd_coord := Some cd', wd_reply := None\<rparr>)"
    by (rule client_request_control [OF cd fence_req_ok _ pc reply_ok]) (simp_all add: string_ok_def)
  have "fabric_reachable (cd_fabric cd')" by (rule control_reachable [OF reach fence_req_ok pc])
  moreover have "fabric_at d w b True e (Some (f_attempt f)) True (cd_fabric cd')"
    using fab f by (simp add: fabric_at_def cd'_def fb1_def authority_record_def adapter_def worker_def)
  ultimately have "world_at d w c b True e (Some (f_attempt f)) True (wd\<lparr>wd_coord := Some cd', wd_reply := None\<rparr>)"
    using route by (auto simp: world_at_def cd'_def)
  with req show ?thesis by (intro exI [of _ "ctl_reply True ''fence current''"]) (simp add: ctl_reply_def)
qed

lemma gen_next_zero: "gen_next (Generation 0) = Generation 1"
  by (simp add: gen_next_def uint64_max_def)

lemma plain_req_ok [simp]: "message_ok (plain_req ty)" "m_type (plain_req ty) = ty"
  by (simp_all add: plain_req_def message_ok_def string_ok_def Message_default_def)

lemma epoch_accepted:
  assumes at: "world_at d w c b up 0 att loaded wd"
  shows "\<exists>m wd'. client_request (world_env cx wx) (plain_req MT_ctl_epoch) wd = (m, wd') \<and> m_ok m \<and>
     m_a m = 1 \<and> world_at d w c b up 1 att loaded wd'"
proof -
  obtain cd where cd: "wd_coord wd = Some cd" and reach: "fabric_reachable (cd_fabric cd)"
    and fab: "fabric_at d w b up 0 att loaded (cd_fabric cd)"
    using at by (auto simp: world_at_def)
  define cd' where "cd' = cd\<lparr>cd_fabric := cd_fabric cd\<lparr>fb_epoch := Generation 1\<rparr>\<rparr>"
  let ?m = "(ctl_reply True (dec_str (unat (1 :: uint64_t))))\<lparr>m_a := 1\<rparr>"
  have pc: "process_control id (world_forward (wd_live wd)) (plain_req MT_ctl_epoch) cd = (Some ?m, cd')"
    using fab
    by (simp add: gen_next_zero process_control_def dispatch_def ctl_epoch_def advance_epoch_def Let_def fabric_at_def cd'_def)
  have mok: "message_ok ?m"
    using length_dec_u64 [of 1]
    by (simp add: message_ok_def string_ok_def ctl_reply_def ctl_out_def Message_default_def)
  have req: "client_request (world_env cx wx) (plain_req MT_ctl_epoch) wd =
      (?m, wd\<lparr>wd_coord := Some cd', wd_reply := None\<rparr>)"
    by (rule client_request_control [OF cd _ _ pc mok]) simp_all
  have "fabric_reachable (cd_fabric cd')" by (rule control_reachable [OF reach _ pc]) (rule plain_req_ok)
  moreover have "fabric_at d w b up 1 att loaded (cd_fabric cd')"
    using fab by (simp add: fabric_at_def cd'_def adapter_def worker_def authority_record_def)
  ultimately have "world_at d w c b up 1 att loaded (wd\<lparr>wd_coord := Some cd', wd_reply := None\<rparr>)"
    using at cd by (auto simp: world_at_def cd'_def)
  with req show ?thesis by (intro exI [of _ ?m]) (simp add: ctl_reply_def)
qed

lemma deactivate_req_ok: "message_ok (deactivate_req d w)"
  by (simp add: deactivate_req_def message_ok_def string_ok_def Message_default_def)

lemma deactivate_accepted:
  assumes at: "world_at d w c b True e att loaded wd"
  shows "\<exists>m wd'. client_request (world_env cx wx) (deactivate_req d w) wd = (m, wd') \<and> m_ok m \<and>
     world_at d w c b True e att loaded wd'"
proof -
  obtain cd sl where cd: "wd_coord wd = Some cd" and reach: "fabric_reachable (cd_fabric cd)"
    and fab: "fabric_at d w b True e att loaded (cd_fabric cd)"
    and route: "map_of (cd_workers cd) (Id_str w) = Some c" "map_of (cd_slots cd) c = Some sl"
      "sl_id sl = w" "sl_connected sl" "map_of (wd_live wd) c \<noteq> None"
    using at by (auto simp: world_at_def)
  let ?fw = "world_forward (wd_live wd)"
  define fwd where "fwd = Message_default\<lparr>m_type := MT_wk_deactivate, m_text := Id_str (ad_id d)\<rparr>"
  obtain a nr pd where fw: "forward_next ?fw (Id_str w) fwd cd = (a, cd\<lparr>cd_next_req := nr, cd_pending := pd\<rparr>)"
    and a: "m_ok a"
    using forward_live [of cd "Id_str w" c sl "wd_live wd" fwd] route by (auto simp: fwd_def)
  define cd' where "cd' = cd\<lparr>cd_next_req := nr, cd_pending := pd,
      cd_fabric := set_lifecycle (ad_id d) L_ready (cd_fabric cd)\<rparr>"
  let ?m = "ctl_reply True ''deactivated''"
  have ty: "m_type (deactivate_req d w) = MT_ctl_deactivate" by (simp add: deactivate_req_def)
  have pc: "process_control id ?fw (deactivate_req d w) cd = (Some ?m, cd')"
    using fw a by (simp add: process_control_def dispatch_def ctl_deactivate_def Let_def ty)
      (simp add: deactivate_req_def must_parse_def fwd_def [symmetric] cd'_def)
  have req: "client_request (world_env cx wx) (deactivate_req d w) wd =
      (?m, wd\<lparr>wd_coord := Some cd', wd_reply := None\<rparr>)"
    by (rule client_request_control [OF cd deactivate_req_ok _ pc reply_ok]) (simp_all add: ty string_ok_def)
  have "fabric_reachable (cd_fabric cd')" by (rule control_reachable [OF reach deactivate_req_ok pc])
  moreover have "fabric_at d w b True e att loaded (cd_fabric cd')"
    using fab by (simp add: fabric_at_def cd'_def set_lifecycle_authority authority_record_def
        adapter_def worker_def set_lifecycle_def split: option.splits)
  ultimately have "world_at d w c b True e att loaded (wd\<lparr>wd_coord := Some cd', wd_reply := None\<rparr>)"
    using route by (auto simp: world_at_def cd'_def)
  with req show ?thesis by (intro exI [of _ ?m]) (simp add: ctl_reply_def)
qed

lemma capacity_accepted:
  assumes "wd_coord wd = Some cd"
  shows "\<exists>m wd'. client_request (world_env cx wx) (plain_req MT_ctl_capacity) wd = (m, wd') \<and> m_ok m"
proof -
  let ?txt = "m_text (projr (fst (ctl_capacity cd)))"
  have run: "ctl_capacity cd = (Inr (ctl_reply True ?txt), cd)"
    by (simp add: ctl_capacity_def Let_def ctl_reply_def)
  have ok: "string_ok ?txt"
    using length_dec_u64
    by (auto simp: ctl_capacity_def Let_def ctl_reply_def string_ok_def
        intro!: order_le_less_trans [OF add_mono [OF length_dec_u64 add_mono [OF length_dec_u64
          add_mono [OF length_dec_u64 add_mono [OF length_dec_u64 add_mono [OF length_dec_u64
          length_dec_u64]]]]]])
  have "process_control id (world_forward (wd_live wd)) (plain_req MT_ctl_capacity) cd =
      (Some (ctl_reply True ?txt), cd)"
    by (subst (1) process_control_def, subst (1) dispatch_def) (simp add: run [symmetric] Let_def, subst run, simp)
  from client_request_control [OF assms _ _ this reply_ok [OF ok]] show ?thesis
    by (auto simp: ctl_reply_def)
qed

section \<open>Killing and restarting a worker\<close>

lemma revoke_fence [simp]: "ar_fence (revoke ar) = ar_fence ar"
  by (simp add: revoke_def)

lemma killed_worker:
  assumes at: "world_at d w c b True e att True wd"
  shows "world_at d w c b False e None True (world_terminate (Suc c) wd)"
proof -
  obtain cd sl where cd: "wd_coord wd = Some cd" and reach: "fabric_reachable (cd_fabric cd)"
    and fab: "fabric_at d w b True e att True (cd_fabric cd)"
    and route: "map_of (cd_workers cd) (Id_str w) = Some c" "map_of (cd_slots cd) c = Some sl" "sl_id sl = w"
    using at by (auto simp: world_at_def)
  let ?cd = "handle_disconnect c cd"
  have "coord_step\<^sup>*\<^sup>* (cd_fabric cd) (cd_fabric ?cd)"
    by (rule coordinator_step_steps [OF cs_disconnect])
  then have reach': "fabric_reachable (cd_fabric ?cd)"
    using reach coord_steps_fabric fabric_reachable_steps by blast
  have fb': "cd_fabric ?cd = on_worker_down w (cd_fabric cd)"
    using route by (simp add: handle_disconnect_def Let_def abort_pending_for_worker_def)
  obtain ar where ar: "map_of (fb_authority (cd_fabric cd)) (Id_str (ad_id d)) = Some ar"
    "gens_one (ar_fence ar)" "f_worker (ar_fence ar) = w"
    using fab by (auto simp: fabric_at_def authority_record_def split: option.splits)
  have "fabric_at d w b False e None True (cd_fabric ?cd)"
    using fab ar maps_ok_reachable [OF reach]
    by (auto simp: fabric_at_def fb' adapter_def on_worker_down_fields worker_after_down
        revoke_matching_attempt revoke_matching_authority authority_record_def split: option.splits)
  then show ?thesis
    using reach' route
    by (auto simp: world_at_def world_terminate_def cd connection_cleanup_def
        handle_disconnect_def Let_def abort_pending_for_worker_def)
qed

lemma reregister_reads:
  "fb_epoch (reregister r fb) = fb_epoch fb" "fb_adapters (reregister r fb) = fb_adapters fb"
  "map_of (fb_authority (reregister r fb)) k = map_option (\<lambda>ar.
     if f_worker (ar_fence ar) = wr_id r \<and> f_boot (ar_fence ar) \<noteq> wr_boot r then revoke ar else ar)
     (map_of (fb_authority fb) k)"
  "fb_active_fence (reregister r fb) = (case fb_active_fence fb of None \<Rightarrow> None | Some a \<Rightarrow>
     if f_worker a = wr_id r \<and> f_boot a \<noteq> wr_boot r then None else Some a)"
  by (simp_all add: reregister_def on_worker_restart_fields register_worker_def revoke_matching_authority)

lemma reregister_attempt:
  assumes "maps_ok fb" and "map_of (fb_current_attempt fb) k = None"
  shows "map_of (fb_current_attempt (reregister r fb)) k = None"
proof -
  have ok: "maps_ok (register_worker r fb)"
    using assms(1) by (auto simp: maps_ok_def register_worker_def intro: keyed_by_set smap_ok_set)
  have "fb_current_attempt (register_worker r fb) = fb_current_attempt fb" by (simp add: register_worker_def)
  then show ?thesis
    using assms(2)
    by (simp add: reregister_def on_worker_restart_fields revoke_matching_attempt [OF ok] split: option.split)
qed

lemma restarted_worker:
  assumes at: "world_at d w c b False e None True wd"
    and exe: "CHR '' '' \<notin> set wx" "wx \<noteq> cx" and name: "word_ok name" "length name \<le> 10"
  shows "\<exists>c' wd'. world_spawn cx wx (worker_cmd wx port w (dec_str (unat seed)) name) wd = (Some (Suc c'), wd') \<and>
     world_at d w c' (boot_of_seed seed) True e None True wd'"
proof -
  obtain cd where cd: "wd_coord wd = Some cd" and reach: "fabric_reachable (cd_fabric cd)"
    and fab: "fabric_at d w b False e None True (cd_fabric cd)"
    using at by (auto simp: world_at_def)
  let ?c = "fresh_slot cd"
  obtain ws cd' where spawn: "world_spawn cx wx (worker_cmd wx port w (dec_str (unat seed)) name) wd =
      (Some (Suc ?c), wd\<lparr>wd_coord := Some cd', wd_live := (?c, ws) # wd_live wd\<rparr>)"
    and regs: "registers cd w (boot_of_seed seed) cd'"
    using spawn_worker [OF cd exe name] by blast
  obtain r where r: "cd_fabric cd' = reregister r (cd_fabric cd)" "wr_id r = w" "wr_boot r = boot_of_seed seed"
    "wr_connected r"
    using regs by (auto simp: registers_def)
  have "coord_step\<^sup>*\<^sup>* (cd_fabric cd) (cd_fabric cd')"
    by (rule registers_steps [OF regs])
  then have reach': "fabric_reachable (cd_fabric cd')"
    using reach coord_steps_fabric fabric_reachable_steps by blast
  have "fabric_at d w (boot_of_seed seed) True e None True (cd_fabric cd')"
    using fab r reregister_attempt [OF maps_ok_reachable [OF reach], of "Id_str (ad_id d)" r]
    by (auto simp: fabric_at_def worker_reregister authority_record_def reregister_reads adapter_def
        split: option.splits)
  then have "world_at d w ?c (boot_of_seed seed) True e None True
      (wd\<lparr>wd_coord := Some cd', wd_live := (?c, ws) # wd_live wd\<rparr>)"
    using regs reach' by (auto simp: world_at_def registers_def)
  with spawn show ?thesis by blast
qed

section \<open>Registration of the adapter\<close>

definition proof_desc :: "BaseModelId \<Rightarrow> ModelRevisionId \<Rightarrow> AdapterDescriptor \<Rightarrow> bool" where
  "proof_desc bm mr d \<longleftrightarrow> (\<exists>rng. d = fst (make_proof_adapter bm mr rng))"

lemma length_proof_desc: "proof_desc bm mr d \<Longrightarrow> length (serialize_adapter d) < 2 ^ 32"
  unfolding proof_desc_def
  by (auto simp: serialize_document write_document_layout out_def [of write_desc] write_desc_def
      BinWriter_empty_def make_proof_adapter_def AdapterDescriptor_default_def case_prod_beta Let_def q_proj_def
      target.out_vec u32.out_vec dependency.out_vec
      capability.out_vec constraint.out_vec out_def [of write_target]
      write_target_def out_def [of write_provenance] write_provenance_def out_def [of write_capability]
      write_capability_def)
    (simp add: out_prims)

lemma proof_desc_ok: "proof_desc bm mr d \<Longrightarrow> descriptor_ok d"
  unfolding proof_desc_def
  by (auto simp: descriptor_ok_def make_proof_adapter_def AdapterDescriptor_default_def case_prod_beta Let_def
     q_proj_def string_ok_def
     vec_ok_def is_kind_ok_def is_dtype_ok_def is_validation_ok_def target_ok_def capability_ok_def
      provenance_ok_def gen_is_none_def)

text \<open>The answer to the validation is short enough for a message.\<close>

lemma length_json_escape: "length (json_escape s) \<le> 2 * length s"
proof (induction s)
  case (Cons c s)
  have "length (json_escape_char c) \<le> 2" by (simp add: json_escape_char_def)
  with Cons show ?case by (simp add: json_escape_def)
qed (simp add: json_escape_def)

lemma length_factor_json:
  "length (factor_json f) \<le> 70 + 2 * (length (cf_name f) + length (cf_detail f) + length (cf_reason f))"
proof -
  have "length (FactorStatus_to_string (cf_status f)) \<le> 8" by (cases "cf_status f") simp_all
  then show ?thesis
    using length_json_escape [of "cf_name f"] length_json_escape [of "cf_detail f"]
      length_json_escape [of "cf_reason f"]
    by (simp add: factor_json_def jstr_def)
qed

lemma length_join: "length (join xs) \<le> sum_list (map (\<lambda>x. length x + 1) xs)"
  by (induction xs rule: join.induct) auto

lemma length_report_json:
  "length (to_json_report r) \<le> 60 + 2 * length (cr_summary r) + sum_list (map (\<lambda>f.
     71 + 2 * (length (cf_name f) + length (cf_detail f) + length (cf_reason f))) (cr_factors r))"
proof -
  have "sum_list (map (\<lambda>x. length x + 1) (map factor_json fs)) \<le> sum_list (map (\<lambda>f.
      71 + 2 * (length (cf_name f) + length (cf_detail f) + length (cf_reason f))) fs)" for fs
  proof (induction fs)
    case (Cons f fs)
    then show ?case using length_factor_json [of f] by simp
  qed simp
  from order_trans [OF length_join this [of "cr_factors r"]] show ?thesis
    using length_json_escape [of "cr_summary r"] by (simp add: to_json_report_def jstr_def jbool_def)
qed

definition proof_target :: "BaseModelId \<Rightarrow> ModelRevisionId \<Rightarrow> CompatibilityTarget" where
  "proof_target bm mr = \<lparr>ct_base_model = bm, ct_base_model_revision = mr, ct_architecture = [],
     ct_device_arch = [], ct_device = Id_nil, ct_runtime_capabilities =
       smap_set ''sm_120'' ''supported'' (smap_set ''fp16'' ''supported'' []),
     ct_policy = [], ct_policy_generation = Generation 1\<rparr>"

lemma proof_desc_factors:
  assumes "proof_desc bm mr d" and "\<not> Id_is_nil bm" and "\<not> Id_is_nil mr"
  shows "compat_factors d (proof_target bm mr) =
    [acc ''base_model'' ''adapter base model matches target'',
     acc ''base_model_revision'' ''adapter revision matches target'',
     acc ''targets'' (''adapter declares '' @ dec_str 1 @ '' target module(s)''),
     acc ''rank'' (''adapter rank '' @ dec_str 8 @ ''>0''),
     acc ''dtype'' ''half precision supported by target'',
     acc ''device_capability'' ''capability sm_120 satisfied'',
     acc ''dependencies'' ''no dependencies declared'',
     acc ''artifact'' ''artifact digest present'',
     acc ''validation'' ''adapter artifact validated'']"
proof -
  obtain rng where d: "d = fst (make_proof_adapter bm mr rng)" using assms(1) by (auto simp: proof_desc_def)
  show ?thesis
    using assms(2,3)
    by (simp add: d compat_factors_def make_proof_adapter_def proof_target_def
     AdapterDescriptor_default_def case_prod_beta Let_def q_proj_def base_model_factor_def
     base_model_revision_factor_def targets_factor_def rank_factor_def dtype_factor_def
     capability_factor_def capability_factors_def dependency_factors_def artifact_factor_def
     validation_factor_def)
qed

lemma proof_desc_report:
  assumes "proof_desc bm mr d" and "\<not> Id_is_nil bm" and "\<not> Id_is_nil mr"
  defines "rep \<equiv> evaluate_compatibility d (proof_target bm mr)"
  shows "cr_compatible rep" "cr_summary rep = ''compatible''" "length (to_json_report rep) < 10000"
proof -
  note fs = proof_desc_factors [OF assms(1-3)]
  have rep: "cr_factors rep = compat_factors d (proof_target bm mr)" "cr_compatible rep"
    "cr_summary rep = ''compatible''"
    by (simp_all add: rep_def evaluate_compatibility_def fs acc_def)
  then show "cr_compatible rep" "cr_summary rep = ''compatible''" by simp_all
  have "length (dec_str 1) \<le> 5" "length (dec_str 8) \<le> 5" by (simp_all add: length_dec_str)
  then show "length (to_json_report rep) < 10000"
    by (intro order_le_less_trans [OF length_report_json]) (simp add: rep fs acc_def)
qed

section \<open>The identities of the self-test\<close>

text \<open>Generated identities differ when the first words drawn differ in their low byte.\<close>


lemma store_le_head: "store_le 8 (v :: uint64_t) ! 0 = ucast v"
proof (rule bit_word_eqI)
  fix k assume "k < LENGTH(8)"
  then show "bit (store_le 8 v ! 0) k \<longleftrightarrow> bit (ucast v :: byte) k"
    by (simp add: bit_store_le_nth bit_ucast_iff)
qed

lemma generate_byte:
  "bytes (uuid (fst (Id_generate rng))) ! 0 = ucast (splitmix (rng_state rng + 0x9E3779B97F4A7C15))"
  "rng_state (snd (Id_generate rng)) = rng_state rng + 2 * 0x9E3779B97F4A7C15"
  using length_rng_fill [of 16 rng]
  by (simp_all add: Id_generate_def Uuid_generate_def case_prod_beta Let_def
     rng_fill.simps [of 16] rng_fill.simps [of 8] rng_fill.simps [of 0] rng_next_def nth_append store_le_head)

lemma generate_distinct:
  assumes "(ucast (splitmix (rng_state r + 0x9E3779B97F4A7C15)) :: byte) \<noteq>
     ucast (splitmix (rng_state s + 0x9E3779B97F4A7C15))"
  shows "fst (Id_generate r) \<noteq> fst (Id_generate s)"
  using assms generate_byte(1) by metis

lemma proof_seeds:
  "boot_of_seed 1 \<noteq> boot_of_seed 11" "attempt_for 1001 \<noteq> attempt_for 9999"
  by (simp_all add: boot_of_seed_def attempt_for_def generate_distinct splitmix_def)

lemma proof_workers: "pi_workerA (draw_ids rng_instance) \<noteq> pi_workerB (draw_ids rng_instance)"
  by (simp add: draw_ids_def case_prod_beta Let_def make_proof_adapter_def generate_distinct splitmix_def generate_byte
     rng_instance_def rng_instance_seed_def)

section \<open>Starting up and registering\<close>

text \<open>A coordinator in its first epoch whose only worker of interest is connected.\<close>

definition ready_at :: "WorkerId \<Rightarrow> nat \<Rightarrow> WorkerBootId \<Rightarrow> world \<Rightarrow> bool" where
  "ready_at w c b wd \<longleftrightarrow> (\<exists>cd sl r. wd_coord wd = Some cd \<and>
     fabric_reachable (cd_fabric cd) \<and> fb_epoch (cd_fabric cd) = Generation 0 \<and>
     fb_next_adapter_gen (cd_fabric cd) = Generation 1 \<and> fb_authority (cd_fabric cd) = [] \<and>
     fb_current_attempt (cd_fabric cd) = [] \<and> fb_active_fence (cd_fabric cd) = None \<and>
     worker w (cd_fabric cd) = Some r \<and> wr_boot r = b \<and> wr_connected r \<and>
     map_of (cd_workers cd) (Id_str w) = Some c \<and> map_of (cd_slots cd) c = Some sl \<and>
     sl_id sl = w \<and> sl_connected sl \<and> map_of (wd_live wd) c \<noteq> None)"

lemma reregister_fresh:
  assumes "fb_authority fb = []"
  shows "fb_authority (reregister r fb) = []" "fb_current_attempt (reregister r fb) = fb_current_attempt fb"
    "fb_next_adapter_gen (reregister r fb) = fb_next_adapter_gen fb"
  using assms
  by (simp_all add: reregister_def on_worker_restart_fields revoke_matching_def register_worker_def
      on_worker_restart_def smap_mapi_def Let_def split: option.split)

lemma workers_started:
  assumes exe: "CHR '' '' \<notin> set wx" "wx \<noteq> cx" and ne: "wA \<noteq> wB"
    and start: "wd_coord wd = Some ((CoordinatorServer_new [])\<lparr>cd_running := True\<rparr>)"
  shows "\<exists>c pb wd1 wd2. world_spawn cx wx (worker_cmd wx port wA ''1'' ''A'') wd = (Some (Suc c), wd1) \<and>
     world_spawn cx wx (worker_cmd wx port wB ''2'' ''B'') wd1 = (Some pb, wd2) \<and>
     ready_at wA c (boot_of_seed 1) wd2"
proof -
  let ?cd = "(CoordinatorServer_new [])\<lparr>cd_running := True\<rparr>"
  have seeds: "dec_str (unat (1 :: uint64_t)) = ''1''" "dec_str (unat (2 :: uint64_t)) = ''2''"
    by code_simp+
  have ok: "word_ok ''A''" "word_ok ''B''" by (simp_all add: word_ok_def)
  obtain ws1 cdA where A: "world_spawn cx wx (worker_cmd wx port wA ''1'' ''A'') wd =
      (Some (Suc (fresh_slot ?cd)), wd\<lparr>wd_coord := Some cdA, wd_live := (fresh_slot ?cd, ws1) # wd_live wd\<rparr>)"
    and rA: "registers ?cd wA (boot_of_seed 1) cdA"
    using spawn_worker [OF start exe ok(1), where seed = 1 and port = port and i = wA, unfolded seeds] by auto
  define wd1 where "wd1 = wd\<lparr>wd_coord := Some cdA, wd_live := (fresh_slot ?cd, ws1) # wd_live wd\<rparr>"
  have cdA: "wd_coord wd1 = Some cdA" by (simp add: wd1_def)
  obtain ws2 cdB where B: "world_spawn cx wx (worker_cmd wx port wB ''2'' ''B'') wd1 =
      (Some (Suc (fresh_slot cdA)), wd1\<lparr>wd_coord := Some cdB, wd_live := (fresh_slot cdA, ws2) # wd_live wd1\<rparr>)"
    and rB: "registers cdA wB (boot_of_seed 2) cdB"
    using spawn_worker [OF cdA exe ok(2), where seed = 2 and port = port and i = wB, unfolded seeds] by auto
  have "coord_step\<^sup>*\<^sup>* (cd_fabric ?cd) (cd_fabric cdA)" "coord_step\<^sup>*\<^sup>* (cd_fabric cdA) (cd_fabric cdB)"
    by (rule registers_steps [OF rA], rule registers_steps [OF rB])
  then have "coord_step\<^sup>*\<^sup>* (cd_fabric ?cd) (cd_fabric cdB)" by simp
  moreover have "fabric_reachable (cd_fabric ?cd)"
    by (simp add: CoordinatorServer_new_def reach_new)
  ultimately have reach: "fabric_reachable (cd_fabric cdB)"
    using coord_steps_fabric fabric_reachable_steps by blast
  have slots: "fresh_slot ?cd = 0" "cd_slots ?cd = []" by (simp_all add: fresh_slot_def CoordinatorServer_new_def)
  then have "fresh_slot cdA = 1"
    using rA by (auto simp: registers_def fresh_slot_def)
  then have "ready_at wA 0 (boot_of_seed 1)
      (wd1\<lparr>wd_coord := Some cdB, wd_live := (fresh_slot cdA, ws2) # wd_live wd1\<rparr>)"
    using rA rB reach ne slots
    by (auto simp: ready_at_def registers_def worker_reregister reregister_fresh reregister_reads
        CoordinatorServer_new_def Fabric_new_def Fabric_empty_def wd1_def gen_none_def)
  with A B slots show ?thesis by (auto simp: wd1_def)
qed


lemma proof_desc_fields:
  assumes "proof_desc bm mr d"
  shows "ad_base_model d = bm" "ad_base_model_revision d = mr" "ad_generation d = Generation 1"
    "ad_artifact_digest d \<noteq> []" "ad_memory_bytes d \<noteq> 0" "\<not> Id_is_nil (ad_id d)"
    "d\<lparr>ad_generation := Generation 1\<rparr> = d"
  using assms
  by (auto simp: proof_desc_def make_proof_adapter_def case_prod_beta Let_def Id_generate_not_nil)

lemma register_accepted:
  assumes at: "ready_at w c b wd" and d: "proof_desc bm mr d" and nn: "\<not> Id_is_nil bm" "\<not> Id_is_nil mr"
  shows "\<exists>m wd'. client_request (world_env cx wx) (register_req d) wd = (m, wd') \<and> m_ok m \<and>
     deserialize_adapter (m_payload m) = Inr d \<and> world_at d w c b True 0 None False wd'"
proof -
  obtain cd sl r where cd: "wd_coord wd = Some cd" and reach: "fabric_reachable (cd_fabric cd)"
    and fb: "fb_epoch (cd_fabric cd) = Generation 0" "fb_next_adapter_gen (cd_fabric cd) = Generation 1"
     "fb_authority (cd_fabric cd) = []" "fb_current_attempt (cd_fabric cd) = []"
     "fb_active_fence (cd_fabric cd) = None" "worker w (cd_fabric cd) = Some r" "wr_boot r = b" "wr_connected r"
    and route: "map_of (cd_workers cd) (Id_str w) = Some c" "map_of (cd_slots cd) c = Some sl"
     "sl_id sl = w" "sl_connected sl" "map_of (wd_live wd) c \<noteq> None"
    using at by (auto simp: ready_at_def)
  note f = proof_desc_fields [OF d]
  have codec: "deserialize_adapter (serialize_adapter d) = Inr d"
    by (rule adapter_roundtrip [OF proof_desc_ok [OF d]])
  define cd' where "cd' = cd\<lparr>cd_fabric := (cd_fabric cd)\<lparr>fb_next_adapter_gen := gen_next (Generation 1),
      fb_adapters := smap_set (Id_str (ad_id d)) d (fb_adapters (cd_fabric cd))\<rparr>\<rparr>"
  let ?m = "ctl_out\<lparr>m_ok := True, m_text := Id_str (ad_id d), m_a := 1, m_payload := serialize_adapter d\<rparr>"
  have reg: "register_adapter d (cd_fabric cd) = (Inr d, cd_fabric cd')"
    using nn by (simp add: register_adapter_def f fb Let_def cd'_def)
  have ty: "m_type (register_req d) = MT_ctl_register_adapter" "m_payload (register_req d) = serialize_adapter d"
    by (simp_all add: register_req_def)
  have pc: "process_control id (world_forward (wd_live wd)) (register_req d) cd = (Some ?m, cd')"
    by (simp add: process_control_def dispatch_def ctl_register_adapter_def ty codec reg f) (simp add: cd'_def)
  have ok: "message_ok (register_req d)" "message_ok ?m"
    using length_proof_desc [OF d]
    by (simp_all add: register_req_def ctl_out_def message_ok_def string_ok_def Message_default_def)
  have req: "client_request (world_env cx wx) (register_req d) wd =
      (?m, wd\<lparr>wd_coord := Some cd', wd_reply := None\<rparr>)"
    by (rule client_request_control [OF cd ok(1) _ pc ok(2)]) (simp add: ty)
  have "fabric_reachable (cd_fabric cd')" by (rule control_reachable [OF reach ok(1) pc])
  moreover have "fabric_at d w b True 0 None False (cd_fabric cd')"
    using fb by (simp add: fabric_at_def cd'_def adapter_def worker_def authority_record_def)
  ultimately have "world_at d w c b True 0 None False (wd\<lparr>wd_coord := Some cd', wd_reply := None\<rparr>)"
    using route by (auto simp: world_at_def cd'_def)
  with req codec show ?thesis by (intro exI [of _ ?m]) simp
qed

lemma validate_accepted:
  assumes at: "world_at d w c b up e att loaded wd" and d: "proof_desc bm mr d"
    and nn: "\<not> Id_is_nil bm" "\<not> Id_is_nil mr"
  shows "\<exists>m wd'. client_request (world_env cx wx) (validate_req d bm mr) wd = (m, wd') \<and> m_ok m \<and>
     world_at d w c b up e att loaded wd'"
proof -
  obtain cd where cd: "wd_coord wd = Some cd" and fab: "fabric_at d w b up e att loaded (cd_fabric cd)"
    using at by (auto simp: world_at_def)
  define rep where "rep = evaluate_compatibility d (proof_target bm mr)"
  note rep = proof_desc_report [OF d nn, folded rep_def]
  let ?m = "ctl_out\<lparr>m_ok := True, m_text := ''compatible'', m_payload := map byte_of_char (to_json_report rep)\<rparr>"
  have val: "validate (ad_id d) (proof_target bm mr) (cd_fabric cd) = Inr rep"
    using fab by (simp add: validate_def fabric_at_def rep_def)
  have "ctl_validate (validate_req d bm mr) cd = (Inr ?m, cd)"
    by (simp add: ctl_validate_def validate_req_def must_parse_def Let_def val [unfolded proof_target_def, simplified] rep)
  moreover have ty: "m_type (validate_req d bm mr) = MT_ctl_validate" by (simp add: validate_req_def)
  ultimately have pc: "process_control id (world_forward (wd_live wd)) (validate_req d bm mr) cd = (Some ?m, cd)"
    by (simp add: process_control_def dispatch_def)
  have ok: "message_ok (validate_req d bm mr)" "message_ok ?m"
    using rep(3) by (simp_all add: validate_req_def ctl_out_def message_ok_def string_ok_def Message_default_def)
  have "client_request (world_env cx wx) (validate_req d bm mr) wd =
      (?m, wd\<lparr>wd_coord := Some cd, wd_reply := None\<rparr>)"
    by (rule client_request_control [OF cd ok(1) _ pc ok(2)]) (simp add: ty)
  moreover have "world_at d w c b up e att loaded (wd\<lparr>wd_coord := Some cd, wd_reply := None\<rparr>)"
    using at cd by (simp add: world_at_def)
  ultimately show ?thesis by (intro exI [of _ ?m]) simp
qed


section \<open>The run\<close>

text \<open>One step of the driver, from what the request does.\<close>

lemma driver_steps:
  "client_request env req s = (m, s') \<Longrightarrow> m_ok m \<Longrightarrow> must_accept env ps msg req s = (Inr m, s')"
  "client_request env req s = (m, s') \<Longrightarrow> \<not> m_ok m \<Longrightarrow> must_refuse env msg req s = (Inr (), s')"
  by (simp_all add: must_accept_def must_refuse_def dbind_def dcall_def dreturn_def)

lemma world_at_reply [simp]:
  "world_at d w c b up e att loaded (wd\<lparr>wd_reply := r\<rparr>) = world_at d w c b up e att loaded wd"
  by (simp add: world_at_def)

lemma stale_refused:
  assumes at: "world_at d w c b up e att loaded wd" and f: "f_adapter f = ad_id d" "f_worker f = w"
    and stale: "\<not> up \<or> f_boot f \<noteq> b \<or> f_epoch f \<noteq> Generation e \<or> f_adapter_generation f \<noteq> ad_generation d \<or>
      (\<exists>a. att = Some a \<and> a \<noteq> f_attempt f) \<or> \<not> gens_one f"
  shows "\<exists>wd'. must_refuse (world_env cx wx) msg (fence_req MT_ctl_activate d w f) wd = (Inr (), wd') \<and>
     world_at d w c b up e att loaded wd'"
proof -
  have "\<not> fence_current f fb" if "fabric_at d w b up e att loaded fb" for fb
    using stale by (auto simp: fence_at [OF that f] split: option.splits)
  then obtain m where "client_request (world_env cx wx) (fence_req MT_ctl_activate d w f) wd =
      (m, wd\<lparr>wd_reply := None\<rparr>)" "\<not> m_ok m"
    using stale_activation [OF at, of f] by blast
  with at show ?thesis by (auto simp: driver_steps(2))
qed

lemma stale_part:
  assumes at: "world_at d w c b True e (Some (f_attempt f)) True wd" and g: "ad_generation d = Generation 1"
    and f: "f_adapter f = ad_id d" "f_worker f = w" "f_adapter_generation f = Generation 1" "gens_one f"
    and ne: "f_attempt f \<noteq> attempt_for 9999"
  shows "\<exists>wd'. proof_stale (world_env cx wx) d w f wd = (Inr (), wd') \<and>
     world_at d w c b True e (Some (f_attempt f)) True wd'"
proof -
  let ?env = "world_env cx wx" and ?at = "world_at d w c b True e (Some (f_attempt f)) True"
  have step: "\<exists>wd'. must_refuse ?env msg (fence_req MT_ctl_activate d w f') wd = (Inr (), wd') \<and> ?at wd'"
    if "?at wd" "f_adapter f' = ad_id d" "f_worker f' = w"
      "f_adapter_generation f' \<noteq> Generation 1 \<or> f_attempt f' \<noteq> f_attempt f \<or> \<not> gens_one f'" for f' msg wd
    by (rule stale_refused [OF that(1-3)]) (use that(4) g in auto)
  obtain wd1 where 1: "must_refuse ?env ''stale attempt accepted''
      (fence_req MT_ctl_activate d w (f\<lparr>f_attempt := attempt_for 9999\<rparr>)) wd = (Inr (), wd1)" "?at wd1"
    using step [OF at, of "f\<lparr>f_attempt := attempt_for 9999\<rparr>"] f ne by auto
  obtain wd2 where 2: "must_refuse ?env ''stale adapter generation accepted'' (fence_req MT_ctl_activate d w
      (f\<lparr>f_adapter_generation := Generation (gen_value (f_adapter_generation f) + 1)\<rparr>)) wd1 = (Inr (), wd2)" "?at wd2"
    using step [OF 1(2), of "f\<lparr>f_adapter_generation := Generation (gen_value (f_adapter_generation f) + 1)\<rparr>"] f
    by auto
  obtain wd3 where 3: "must_refuse ?env ''stale residency generation accepted''
      (fence_req MT_ctl_activate d w (f\<lparr>f_residency_generation := Generation 2\<rparr>)) wd2 = (Inr (), wd3)" "?at wd3"
    using step [OF 2(2), of "f\<lparr>f_residency_generation := Generation 2\<rparr>"] f by (auto simp: gens_one_def)
  obtain wd4 where 4: "must_refuse ?env ''stale composition generation accepted''
      (fence_req MT_ctl_activate d w (f\<lparr>f_composition_generation := Generation 2\<rparr>)) wd3 = (Inr (), wd4)" "?at wd4"
    using step [OF 3(2), of "f\<lparr>f_composition_generation := Generation 2\<rparr>"] f by (auto simp: gens_one_def)
  show ?thesis
    using 4(2) by (simp add: proof_stale_def dbind_def 1(1) 2(1) 3(1) 4(1))
qed

lemma make_fence_simps [simp]:
  "f_adapter (make_fence d w b dev e n) = ad_id d" "f_worker (make_fence d w b dev e n) = w"
  "f_boot (make_fence d w b dev e n) = b" "f_epoch (make_fence d w b dev e n) = Generation e"
  "f_adapter_generation (make_fence d w b dev e n) = ad_generation d"
  "f_base_model_revision (make_fence d w b dev e n) = ad_base_model_revision d"
  "f_attempt (make_fence d w b dev e n) = attempt_for n" "gens_one (make_fence d w b dev e n)"
  by (simp_all add: make_fence_def gens_one_def)

lemma made_current:
  assumes "fabric_at d w b True e att loaded fb" and "att = None \<or> att = Some (attempt_for n)"
    and "\<not> Id_is_nil (ad_id d)" and "\<not> Id_is_nil w" and "\<not> Id_is_nil b"
  shows "fence_current (make_fence d w b dev e n) fb"
  using assms(2-5)
  by (subst fence_at [OF assms(1)]) (auto simp: attempt_for_def Id_generate_not_nil)

lemma made_accepted:
  assumes at: "world_at d w c b True e att loaded wd" and att: "att = None \<or> att = Some (attempt_for n)"
    and nn: "\<not> Id_is_nil (ad_id d)" "\<not> Id_is_nil w" "\<not> Id_is_nil b"
  shows "\<exists>m wd'. client_request (world_env cx wx) (fence_req MT_ctl_load d w (make_fence d w b dev e n)) wd = (m, wd') \<and>
       m_ok m \<and> world_at d w c b True e att True wd'" (is ?load)
    and "loaded \<Longrightarrow> \<exists>m wd'. client_request (world_env cx wx)
         (fence_req MT_ctl_activate d w (make_fence d w b dev e n)) wd = (m, wd') \<and>
       m_ok m \<and> world_at d w c b True e (Some (attempt_for n)) True wd'"
proof -
  have cur: "fence_current (make_fence d w b dev e n) fb" if "fabric_at d w b True e att loaded fb" for fb
    by (rule made_current [OF that att nn])
  show ?load by (rule load_accepted [OF at cur]) simp_all
  show "\<exists>m wd'. client_request (world_env cx wx)
         (fence_req MT_ctl_activate d w (make_fence d w b dev e n)) wd = (m, wd') \<and>
       m_ok m \<and> world_at d w c b True e (Some (attempt_for n)) True wd'" if loaded
    using activate_accepted [of d w c b e att wd "make_fence d w b dev e n" cx wx] at cur that by simp
qed

lemma load_activate_part:
  assumes at: "world_at d w c b True e None loaded wd"
    and nn: "\<not> Id_is_nil (ad_id d)" "\<not> Id_is_nil w" "\<not> Id_is_nil b"
  shows "\<exists>m1 wd1 m2 wd2. must_accept (world_env cx wx) ps msg1 (fence_req MT_ctl_load d w (make_fence d w b dev e n)) wd = (Inr m1, wd1) \<and>
     must_accept (world_env cx wx) ps' msg2 (fence_req MT_ctl_activate d w (make_fence d w b dev e n)) wd1 = (Inr m2, wd2) \<and>
     world_at d w c b True e (Some (attempt_for n)) True wd2"
proof -
  let ?f = "make_fence d w b dev e n"
  obtain m1 wd1 where 1: "client_request (world_env cx wx) (fence_req MT_ctl_load d w ?f) wd = (m1, wd1)" "m_ok m1"
    "world_at d w c b True e None True wd1"
    using made_accepted(1) [OF at disjI1 [OF refl] nn] by blast
  obtain m2 wd2 where 2: "client_request (world_env cx wx) (fence_req MT_ctl_activate d w ?f) wd1 = (m2, wd2)" "m_ok m2"
    "world_at d w c b True e (Some (attempt_for n)) True wd2"
    using made_accepted(2) [OF 1(3) disjI1 [OF refl] nn TrueI] by blast
  show ?thesis using 2(3) driver_steps(1) [OF 1(1,2)] driver_steps(1) [OF 2(1,2)] by auto
qed

lemma fresh_part:
  assumes at: "world_at d w c b True e None True wd"
    and nn: "\<not> Id_is_nil (ad_id d)" "\<not> Id_is_nil w" "\<not> Id_is_nil b"
  shows "\<exists>text wd'. proof_fresh (world_env cx wx) d w (make_fence d w b dev e n) wd = (Inr text, wd')"
proof -
  let ?env = "world_env cx wx" and ?f = "make_fence d w b dev e n"
  obtain m1 wd1 m2 wd2 where 1: "must_accept ?env [] ''fresh load failed'' (fence_req MT_ctl_load d w ?f) wd = (Inr m1, wd1)"
    and 2: "must_accept ?env [] ''fresh activate failed'' (fence_req MT_ctl_activate d w ?f) wd1 = (Inr m2, wd2)"
    and at2: "world_at d w c b True e (Some (attempt_for n)) True wd2"
    using load_activate_part [OF at nn] by blast
  obtain m3 wd3 where r3: "client_request ?env (fence_req MT_ctl_activate d w ?f) wd2 = (m3, wd3)" "m_ok m3"
    and at3: "world_at d w c b True e (Some (attempt_for n)) True wd3"
    using made_accepted(2) [OF at2 disjI2 [OF refl] nn TrueI] by blast
  obtain m4 wd4 where r4: "client_request ?env (deactivate_req d w) wd3 = (m4, wd4)" "m_ok m4"
    and at4: "world_at d w c b True e (Some (attempt_for n)) True wd4"
    using deactivate_accepted [OF at3] by blast
  obtain cd where "wd_coord wd4 = Some cd" using at4 by (auto simp: world_at_def)
  then obtain m5 wd5 where r5: "client_request ?env (plain_req MT_ctl_capacity) wd4 = (m5, wd5)" "m_ok m5"
    using capacity_accepted by blast
  show ?thesis
    by (simp add: proof_fresh_def dbind_def 1 2 driver_steps(1) [OF r3] driver_steps(1) [OF r4]
        driver_steps(1) [OF r5] dreturn_def)
qed

lemma register_part:
  assumes at: "ready_at w c b wd" and d: "proof_desc (pi_bm ids) (pi_mr ids) (pi_desc ids)"
    and nn: "\<not> Id_is_nil (pi_bm ids)" "\<not> Id_is_nil (pi_mr ids)"
  shows "\<exists>wd'. proof_register (world_env cx wx) ps ids wd = (Inr (pi_desc ids), wd') \<and>
     world_at (pi_desc ids) w c b True 0 None False wd'"
proof -
  let ?env = "world_env cx wx"
  obtain m1 wd1 where r1: "client_request ?env (register_req (pi_desc ids)) wd = (m1, wd1)" "m_ok m1"
    and des: "deserialize_adapter (m_payload m1) = Inr (pi_desc ids)"
    and at1: "world_at (pi_desc ids) w c b True 0 None False wd1"
    using register_accepted [OF at d nn] by blast
  obtain m2 wd2 where r2: "client_request ?env (validate_req (pi_desc ids) (pi_bm ids) (pi_mr ids)) wd1 = (m2, wd2)"
    "m_ok m2" and at2: "world_at (pi_desc ids) w c b True 0 None False wd2"
    using validate_accepted [OF at1 d nn] by blast
  show ?thesis
    using at2 by (simp add: proof_register_def dbind_def driver_steps(1) [OF r1] driver_steps(1) [OF r2] des dreturn_def)
qed

lemma epoch_part:
  assumes "world_at d w c b up 0 att loaded wd"
  shows "\<exists>wd'. proof_epoch (world_env cx wx) 0 wd = (Inr 1, wd') \<and> world_at d w c b up 1 att loaded wd'"
  using epoch_accepted [OF assms, of cx wx] by (auto simp: proof_epoch_def dbind_def dcall_def dreturn_def)

lemma drawn_ids:
  defines "ids \<equiv> draw_ids rng_instance"
  shows "proof_desc (pi_bm ids) (pi_mr ids) (pi_desc ids)" "\<not> Id_is_nil (pi_bm ids)"
    "\<not> Id_is_nil (pi_mr ids)" "\<not> Id_is_nil (pi_workerA ids)"
  by (auto simp: ids_def draw_ids_def case_prod_beta Let_def proof_desc_def Id_generate_not_nil)

lemma connected_at_once:
  "wd_coord wd = Some cd \<Longrightarrow> connect_retry (world_env cx wx) host port 50 wd = (True, wd)"
  by (simp add: eval_nat_numeral)

definition world_start :: world where
  "world_start = \<lparr>wd_coord = None, wd_live = [], wd_reply = None\<rparr>"

text \<open>The two halves: up to the refusal of the old epoch, and from the death of the worker.\<close>

lemma first_half:
  fixes cx wx port
  defines "env \<equiv> world_env cx wx" and "ids \<equiv> draw_ids rng_instance"
  defines "d \<equiv> pi_desc ids" and "wA \<equiv> pi_workerA ids" and "wB \<equiv> pi_workerB ids"
  defines "f \<equiv> make_fence d wA (boot_of_seed 1) (pi_devA ids) 0 1001"
  assumes exe: "CHR '' '' \<notin> set cx" "CHR '' '' \<notin> set wx" "wx \<noteq> cx"
  obtains c pb wd1 wd2 wd3 wd4 m5 wd5 m6 wd6 wd7 wd8 wd9 where
    "world_spawn cx wx (coord_cmd cx port) world_start = (Some 0, wd1)" "wd_coord wd1 \<noteq> None"
    "world_spawn cx wx (worker_cmd wx port wA ''1'' ''A'') wd1 = (Some (Suc c), wd2)"
    "world_spawn cx wx (worker_cmd wx port wB ''2'' ''B'') wd2 = (Some pb, wd3)"
    "proof_register env [Some (Suc c), Some pb, Some 0] ids wd3 = (Inr d, wd4)"
    "must_accept env [Some (Suc c), Some pb, Some 0] ''load failed'' (fence_req MT_ctl_load d wA f) wd4 = (Inr m5, wd5)"
    "must_accept env [Some (Suc c), Some pb, Some 0] ''activate failed'' (fence_req MT_ctl_activate d wA f) wd5 = (Inr m6, wd6)"
    "proof_stale env d wA f wd6 = (Inr (), wd7)"
    "proof_epoch env 0 wd7 = (Inr 1, wd8)"
    "must_refuse env ''stale epoch accepted'' (fence_req MT_ctl_activate d wA (f\<lparr>f_epoch := Generation 0\<rparr>)) wd8 = (Inr (), wd9)"
    "world_at d wA c (boot_of_seed 1) True 1 (Some (attempt_for 1001)) True wd9"
proof -
  note drawn = drawn_ids [folded ids_def]
  note nn = proof_desc_fields(6) [OF drawn(1), folded d_def] drawn(4) [folded wA_def]
  have boot: "\<not> Id_is_nil (boot_of_seed 1)" by (simp add: boot_of_seed_def Id_generate_not_nil)
  define wd1 where "wd1 = world_start\<lparr>wd_coord := Some ((CoordinatorServer_new [])\<lparr>cd_running := True\<rparr>)\<rparr>"
  have s1: "world_spawn cx wx (coord_cmd cx port) world_start = (Some 0, wd1)"
    by (simp add: spawn_coordinator [OF exe(1)] wd1_def)
  have up: "wd_coord wd1 = Some ((CoordinatorServer_new [])\<lparr>cd_running := True\<rparr>)" by (simp add: wd1_def)
  obtain c pb wd2 wd3 where s2: "world_spawn cx wx (worker_cmd wx port wA ''1'' ''A'') wd1 = (Some (Suc c), wd2)"
    and s3: "world_spawn cx wx (worker_cmd wx port wB ''2'' ''B'') wd2 = (Some pb, wd3)"
    and at3: "ready_at wA c (boot_of_seed 1) wd3"
    using workers_started [OF exe(2,3) proof_workers up] unfolding wA_def wB_def ids_def by blast
  obtain wd4 where s4: "proof_register env [Some (Suc c), Some pb, Some 0] ids wd3 = (Inr d, wd4)"
    and at4: "world_at d wA c (boot_of_seed 1) True 0 None False wd4"
    using register_part [OF at3 drawn(1-3)] unfolding env_def d_def by blast
  obtain m5 wd5 m6 wd6 where
    s5: "must_accept env [Some (Suc c), Some pb, Some 0] ''load failed'' (fence_req MT_ctl_load d wA f) wd4 = (Inr m5, wd5)"
    and s6: "must_accept env [Some (Suc c), Some pb, Some 0] ''activate failed'' (fence_req MT_ctl_activate d wA f) wd5 = (Inr m6, wd6)"
    and at6: "world_at d wA c (boot_of_seed 1) True 0 (Some (attempt_for 1001)) True wd6"
    using load_activate_part [OF at4 nn boot] unfolding env_def f_def by blast
  have gen: "ad_generation d = Generation 1" using proof_desc_fields(3) [OF drawn(1)] by (simp add: d_def)
  have fa: "f_adapter f = ad_id d" "f_worker f = wA" "f_adapter_generation f = Generation 1" "gens_one f"
    "f_attempt f = attempt_for 1001" by (simp_all add: f_def gen)
  obtain wd7 where s7: "proof_stale env d wA f wd6 = (Inr (), wd7)"
    and at7: "world_at d wA c (boot_of_seed 1) True 0 (Some (attempt_for 1001)) True wd7"
    using stale_part [OF at6 [folded fa(5)] gen fa(1-4)] proof_seeds(2) unfolding env_def fa(5) by blast
  obtain wd8 where s8: "proof_epoch env 0 wd7 = (Inr 1, wd8)"
    and at8: "world_at d wA c (boot_of_seed 1) True 1 (Some (attempt_for 1001)) True wd8"
    using epoch_part [OF at7] unfolding env_def by blast
  obtain wd9 where s9: "must_refuse env ''stale epoch accepted''
      (fence_req MT_ctl_activate d wA (f\<lparr>f_epoch := Generation 0\<rparr>)) wd8 = (Inr (), wd9)"
    and at9: "world_at d wA c (boot_of_seed 1) True 1 (Some (attempt_for 1001)) True wd9"
    using stale_refused [OF at8, of "f\<lparr>f_epoch := Generation 0\<rparr>"] fa unfolding env_def by force
  show ?thesis
    using that [OF s1 _ s2 s3 s4 s5 s6 s7 s8 s9 at9] up by simp
qed

lemma second_half:
  assumes at: "world_at d w c (boot_of_seed 1) True 1 (Some att) True wd"
    and exe: "CHR '' '' \<notin> set wx" "wx \<noteq> cx"
    and f: "f_adapter f = ad_id d" "f_worker f = w"
    and nn: "\<not> Id_is_nil (ad_id d)" "\<not> Id_is_nil w"
  obtains c' wd1 wd2 wd3 report wd4 where
    "must_refuse (world_env cx wx) ''activated on a dead worker''
       (fence_req MT_ctl_activate d w (f\<lparr>f_epoch := Generation 1\<rparr>)) (world_terminate (Suc c) wd) = (Inr (), wd1)"
    "world_spawn cx wx (worker_cmd wx port w ''11'' ''A2'') wd1 = (Some (Suc c'), wd2)"
    "must_refuse (world_env cx wx) ''stale boot accepted''
       (fence_req MT_ctl_activate d w (f\<lparr>f_epoch := Generation 1, f_boot := boot_of_seed 1\<rparr>)) wd2 = (Inr (), wd3)"
    "proof_fresh (world_env cx wx) d w (make_fence d w (boot_of_seed 11) dev 1 2001) wd3 = (Inr report, wd4)"
proof -
  let ?env = "world_env cx wx"
  have boot: "\<not> Id_is_nil (boot_of_seed 11)" by (simp add: boot_of_seed_def Id_generate_not_nil)
  have seed: "dec_str (unat (11 :: uint64_t)) = ''11''" by code_simp
  have name: "word_ok ''A2''" "length ''A2'' \<le> 10" by (simp_all add: word_ok_def)
  note dead = killed_worker [OF at]
  obtain wd1 where s1: "must_refuse ?env ''activated on a dead worker''
       (fence_req MT_ctl_activate d w (f\<lparr>f_epoch := Generation 1\<rparr>)) (world_terminate (Suc c) wd) = (Inr (), wd1)"
    and at1: "world_at d w c (boot_of_seed 1) False 1 None True wd1"
    using stale_refused [OF dead, of "f\<lparr>f_epoch := Generation 1\<rparr>"] f by force
  obtain c' wd2 where s2: "world_spawn cx wx (worker_cmd wx port w ''11'' ''A2'') wd1 = (Some (Suc c'), wd2)"
    and at2: "world_at d w c' (boot_of_seed 11) True 1 None True wd2"
    using restarted_worker [OF at1 exe name, where seed = 11 and port = port, unfolded seed] by blast
  obtain wd3 where s3: "must_refuse ?env ''stale boot accepted''
       (fence_req MT_ctl_activate d w (f\<lparr>f_epoch := Generation 1, f_boot := boot_of_seed 1\<rparr>)) wd2 = (Inr (), wd3)"
    and at3: "world_at d w c' (boot_of_seed 11) True 1 None True wd3"
    using stale_refused [OF at2, of "f\<lparr>f_epoch := Generation 1, f_boot := boot_of_seed 1\<rparr>"] f proof_seeds(1)
    by force
  obtain report wd4 where s4: "proof_fresh ?env d w (make_fence d w (boot_of_seed 11) dev 1 2001) wd3 = (Inr report, wd4)"
    using fresh_part [OF at3 nn boot] by blast
  show ?thesis by (rule that [OF s1 s2 s3 s4])
qed

lemma multiprocess_run:
  assumes "CHR '' '' \<notin> set cx" and "CHR '' '' \<notin> set wx" and "wx \<noteq> cx"
  shows "proof_exit (fst (run_multiprocess_proof (world_env cx wx) cx wx port world_start)) = Some 0"
proof -
  let ?ids = "draw_ids rng_instance"
  obtain c pb wd1 wd2 wd3 wd4 m5 wd5 m6 wd6 wd7 wd8 wd9 where first:
    "world_spawn cx wx (coord_cmd cx port) world_start = (Some 0, wd1)" "wd_coord wd1 \<noteq> None"
    "world_spawn cx wx (worker_cmd wx port (pi_workerA ?ids) ''1'' ''A'') wd1 = (Some (Suc c), wd2)"
    "world_spawn cx wx (worker_cmd wx port (pi_workerB ?ids) ''2'' ''B'') wd2 = (Some pb, wd3)"
    "proof_register (world_env cx wx) [Some (Suc c), Some pb, Some 0] ?ids wd3 = (Inr (pi_desc ?ids), wd4)"
    "must_accept (world_env cx wx) [Some (Suc c), Some pb, Some 0] ''load failed'' (fence_req MT_ctl_load (pi_desc ?ids)
       (pi_workerA ?ids) (make_fence (pi_desc ?ids) (pi_workerA ?ids) (boot_of_seed 1) (pi_devA ?ids) 0 1001)) wd4 = (Inr m5, wd5)"
    "must_accept (world_env cx wx) [Some (Suc c), Some pb, Some 0] ''activate failed'' (fence_req MT_ctl_activate (pi_desc ?ids)
       (pi_workerA ?ids) (make_fence (pi_desc ?ids) (pi_workerA ?ids) (boot_of_seed 1) (pi_devA ?ids) 0 1001)) wd5 = (Inr m6, wd6)"
    "proof_stale (world_env cx wx) (pi_desc ?ids) (pi_workerA ?ids)
       (make_fence (pi_desc ?ids) (pi_workerA ?ids) (boot_of_seed 1) (pi_devA ?ids) 0 1001) wd6 = (Inr (), wd7)"
    "proof_epoch (world_env cx wx) 0 wd7 = (Inr 1, wd8)"
    "must_refuse (world_env cx wx) ''stale epoch accepted'' (fence_req MT_ctl_activate (pi_desc ?ids) (pi_workerA ?ids)
       ((make_fence (pi_desc ?ids) (pi_workerA ?ids) (boot_of_seed 1) (pi_devA ?ids) 0 1001)\<lparr>f_epoch := Generation 0\<rparr>)) wd8
       = (Inr (), wd9)"
    and at: "world_at (pi_desc ?ids) (pi_workerA ?ids) c (boot_of_seed 1) True 1 (Some (attempt_for 1001)) True wd9"
    by (rule first_half [OF assms, where port = port]; rule that; assumption)
  note drawn = drawn_ids
  note nn = proof_desc_fields(6) [OF drawn(1)] drawn(4)
  show ?thesis
  proof (rule second_half [OF at assms(2,3), where port = port and dev = "pi_devA ?ids" and
      f = "make_fence (pi_desc ?ids) (pi_workerA ?ids) (boot_of_seed 1) (pi_devA ?ids) 0 1001", OF _ _ nn])
  qed (use first in \<open>auto simp: connected_at_once run_multiprocess_proof_def Let_def dbind_def dcall_def ddo_def dreturn_def
      proof_exit_def\<close>)
qed

text \<open>
  C15: The self-test passes. Run on the modelled coordinator and workers, with executables whose
  paths are different and hold no blank, on any port, every request that must be accepted is
  accepted and every stale fence (attempt, adapter, residency and composition generation, epoch,
  dead worker, old boot) is refused, so the driver returns 0.
\<close>

theorem multiprocess_proof_passes:
  assumes "CHR '' '' \<notin> set cx" and "CHR '' '' \<notin> set wx" and "wx \<noteq> cx"
  shows "proof_exit (fst (run_multiprocess_proof (world_env cx wx) cx wx port world_start)) = Some 0"
  by (rule multiprocess_run [OF assms])

theorem multiprocess_proof_passes_witness:
  "proof_exit (fst (run_multiprocess_proof (world_env ''coordinator'' ''worker'') ''coordinator'' ''worker'' 7070
     world_start)) = Some 0"
  by (rule multiprocess_proof_passes) simp_all

text \<open>The script of this passed run.\<close>

theorem proof_pass_sound_witness:
  "\<exists>coord pa pb pa2 r re desc. m_ok r \<and> deserialize_adapter (m_payload r) = Inr desc \<and>
     went (world_env ''coordinator'' ''worker'') (proof_script ''coordinator'' ''worker'' 7070
       (draw_ids rng_instance) (coord, pa, pb, pa2) r re desc) world_start
       (snd (run_multiprocess_proof (world_env ''coordinator'' ''worker'') ''coordinator'' ''worker'' 7070 world_start))"
proof -
  have run: "proof_exit (fst (run_multiprocess_proof (world_env ''coordinator'' ''worker'') ''coordinator'' ''worker''
      7070 world_start)) = Some 0"
    by (rule multiprocess_run) simp_all
  show ?thesis by (rule proof_pass_sound [THEN iffD1, OF run])
qed

end
