(* ===== verification/AF_Bench.thy ===== *)
theory AF_Bench
  imports AF_SelfTest
begin

text \<open>
  The benchmarks (\<open>run_benchmarks\<close> of \<open>proof_cuda.cpp\<close>): six loops over operations of the library,
  of which the model has everything but the clock and the printed times. A body is a function of
  the index and the state of the process-wide generator; an exception that leaves it ends the
  program. \<open>None\<close> is undefined behaviour (of \<open>builder_build\<close>).
\<close>

definition bench_adapter :: "BaseModelId \<Rightarrow> ModelRevisionId \<Rightarrow> Rng \<Rightarrow> AdapterDescriptor \<times> Rng" where
  "bench_adapter bm mr rng =
    (let (i, rng1) = Id_generate rng; (revision, rng2) = Id_generate rng1;
         (artifact, rng3) = Id_generate rng2
     in (AdapterDescriptor_default
          \<lparr>ad_id := i, ad_revision := revision, ad_artifact := artifact,
           ad_artifact_digest := ''deadbeefdeadbeefdeadbeefdeadbeefdeadbeefdeadbeefdeadbeefdeadbeef'',
           ad_kind := AK_lora, ad_name := ''bench'', ad_base_model := bm,
           ad_base_model_revision := mr, ad_targets := [q_proj], ad_rank := 8, ad_dtype := DT_f16,
           ad_memory_bytes := 8192, ad_format := ''lora/v1'', ad_format_version := 1,
           ad_generation := Generation 1, ad_validation := VS_valid,
           ad_capabilities := [\<lparr>cap_name = ''sm_120'', cap_value = ''supported'', cap_required = True\<rparr>]\<rparr>,
         rng3))"

type_synonym bench_body = "nat \<Rightarrow> Rng \<Rightarrow> (Error + unit) option \<times> Rng"

text \<open>The bodies, in the order of the source.\<close>

definition bench_identity :: bench_body where
  "bench_identity i rng =
    (let (u, _) = Uuid_generate \<lparr>rng_state = of_nat (i + 1)\<rparr>; p = Uuid_parse (Uuid_str u)
     in (Some (Inr ()), rng))"

definition bench_register :: bench_body where
  "bench_register i rng =
    (let (bm, rng1) = Id_generate rng; (mr, rng2) = Id_generate rng1; (d, rng3) = bench_adapter bm mr rng2
     in (Some (bindE (fst (register_adapter d Fabric_default)) (\<lambda>_. Inr ())), rng3))"

definition bench_evaluate :: bench_body where
  "bench_evaluate i rng =
    (let (bm, rng1) = Id_generate rng; (mr, rng2) = Id_generate rng1; (d, rng3) = bench_adapter bm mr rng2;
         t = \<lparr>ct_base_model = bm, ct_base_model_revision = mr, ct_architecture = [], ct_device_arch = [],
              ct_device = Id_nil, ct_runtime_capabilities =
                smap_set ''sm_120'' ''supported'' (smap_set ''fp16'' ''supported'' []),
              ct_policy = [], ct_policy_generation = Generation 1\<rparr>;
         rep = evaluate_compatibility d t
     in (Some (Inr ()), rng3))"

definition rename_target :: "string \<Rightarrow> AdapterDescriptor \<Rightarrow> AdapterDescriptor" where
  "rename_target name d =
     d\<lparr>ad_targets := (case ad_targets d of [] \<Rightarrow> [] | t # ts \<Rightarrow> t\<lparr>tm_name := name\<rparr> # ts)\<rparr>"

definition bench_compose :: bench_body where
  "bench_compose i rng =
    (let (bm, rng1) = Id_generate rng; (mr, rng2) = Id_generate rng1;
         (d1, rng3) = bench_adapter bm mr rng2; (d2, rng4) = bench_adapter bm mr rng3
     in case bindE (builder_add d1 (CompositionBuilder_new bm mr ''p'' (Generation 1)))
               (builder_add (rename_target ''v_proj'' d2)) of
          Inl _ \<Rightarrow> (Some (Inr ()), rng4)
        | Inr b \<Rightarrow> (case builder_build b rng4 of
              (None, rng5) \<Rightarrow> (None, rng5) | (Some _, rng5) \<Rightarrow> (Some (Inr ()), rng5)))"

definition bench_residency :: bench_body where
  "bench_residency i rng =
    (let (bm, rng1) = Id_generate rng; (mr, rng2) = Id_generate rng1; (d, rng3) = bench_adapter bm mr rng2
     in case register_adapter d Fabric_default of
          (Inl e, fb) \<Rightarrow> (Some (Inl e), rng3)
        | (Inr reg, fb) \<Rightarrow>
          let (w, rng4) = Id_generate rng3; (boot, rng5) = Id_generate rng4; (device, rng6) = Id_generate rng5;
              fb1 = register_worker \<lparr>wr_id = w, wr_boot = boot, wr_address = [], wr_node = Id_nil,
                 wr_device = device, wr_connected = True, wr_epoch = gen_none, wr_capabilities = [],
                 wr_device_memory_bytes = 0, wr_local_adapters = []\<rparr> fb
          in case create_instance (ad_id d) w boot device (ad_memory_bytes d) rng6 fb1 of
               (Inl e, rng7, fb2) \<Rightarrow> (Some (Inl e), rng7)
             | (Inr inst, rng7, fb2) \<Rightarrow> (let found = has_instance inst fb2 in (Some (Inr ()), rng7)))"

definition bench_persist :: bench_body where
  "bench_persist i rng =
    (let (bm, rng1) = Id_generate rng; (mr, rng2) = Id_generate rng1; (d, rng3) = bench_adapter bm mr rng2
     in case register_adapter d Fabric_default of
          (Inl e, fb) \<Rightarrow> (Some (Inl e), rng3)
        | (Inr reg, fb) \<Rightarrow>
          (Some (bindE (deserialize_snapshot (serialize_snapshot (snapshot fb))) (\<lambda>back. Inr ())), rng3))"

text \<open>\<open>bench\<close>: \<open>ops\<close> calls from the index \<open>i\<close> on.\<close>

fun bench_from :: "nat \<Rightarrow> bench_body \<Rightarrow> nat \<Rightarrow> Rng \<Rightarrow> (Error + unit) option \<times> Rng" where
  "bench_from i fn 0 rng = (Some (Inr ()), rng)"
| "bench_from i fn (Suc n) rng =
     (case fn i rng of
        (Some (Inr _), rng1) \<Rightarrow> bench_from (Suc i) fn n rng1
      | r \<Rightarrow> r)"

definition bench :: "nat \<Rightarrow> bench_body \<Rightarrow> Rng \<Rightarrow> (Error + unit) option \<times> Rng" where
  "bench ops fn rng = bench_from 0 fn ops rng"

fun run_benches :: "(nat \<times> bench_body) list \<Rightarrow> Rng \<Rightarrow> (Error + int) option \<times> Rng" where
  "run_benches [] rng = (Some (Inr 0), rng)"
| "run_benches ((ops, fn) # bs) rng =
     (case bench ops fn rng of
        (Some (Inr _), rng1) \<Rightarrow> run_benches bs rng1
      | (Some (Inl e), rng1) \<Rightarrow> (Some (Inl e), rng1)
      | (None, rng1) \<Rightarrow> (None, rng1))"

definition run_benchmarks :: "Rng \<Rightarrow> (Error + int) option \<times> Rng" where
  "run_benchmarks = run_benches
     [(200000, bench_identity), (20000, bench_register), (50000, bench_evaluate), (20000, bench_compose),
      (200000, bench_residency), (5000, bench_persist)]"

section \<open>The benchmarks complete\<close>

lemma bench_adapter_fields:
  "\<not> Id_is_nil (ad_id (fst (bench_adapter bm mr rng)))" "ad_base_model (fst (bench_adapter bm mr rng)) = bm"
  "ad_base_model_revision (fst (bench_adapter bm mr rng)) = mr"
  "ad_artifact_digest (fst (bench_adapter bm mr rng)) \<noteq> []" "ad_memory_bytes (fst (bench_adapter bm mr rng)) \<noteq> 0"
  "descriptor_ok (fst (bench_adapter bm mr rng))"
  by (simp_all add: bench_adapter_def case_prod_beta Let_def Id_generate_not_nil descriptor_ok_def
      AdapterDescriptor_default_def q_proj_def string_ok_def vec_ok_def is_kind_ok_def is_dtype_ok_def
      is_validation_ok_def target_ok_def capability_ok_def provenance_ok_def gen_is_none_def)

lemma bench_registered:
  assumes "\<not> Id_is_nil bm" and "\<not> Id_is_nil mr"
  obtains d' fb where "register_adapter (fst (bench_adapter bm mr rng)) Fabric_default = (Inr d', fb)"
    and "adapter (ad_id (fst (bench_adapter bm mr rng))) fb = Some d'" and "fabric_reachable fb" and "snapshot_fits fb"
proof -
  let ?d = "fst (bench_adapter bm mr rng)"
  have acc: "register_accepts ?d" using assms by (simp add: register_accepts_def bench_adapter_fields)
  obtain d' where reg: "register_adapter ?d Fabric_default = (Inr d', Fabric_default\<lparr>
      fb_next_adapter_gen := gen_next (fb_next_adapter_gen Fabric_default),
      fb_adapters := smap_set (Id_str (ad_id ?d)) d' (fb_adapters Fabric_default)\<rparr>)"
    using acc by (cases rule: register_effect [of ?d Fabric_default]) blast+
  have "fabric_reachable (snd (register_adapter ?d Fabric_default))"
    by (rule reach_step [OF reach_default step_register]) (rule bench_adapter_fields(6))
  with reg show ?thesis
    by (intro that) (auto simp: adapter_def snapshot_fits_def Fabric_default_def Fabric_empty_def smap_values_def)
qed

definition completes :: "bench_body \<Rightarrow> bool" where
  "completes fn \<longleftrightarrow> (\<forall>i rng. fst (fn i rng) = Some (Inr ()))"

lemma bench_from_completes: "completes fn \<Longrightarrow> fst (bench_from i fn n rng) = Some (Inr ())"
proof (induction n arbitrary: i rng)
  case (Suc n)
  then have "fst (fn i rng) = Some (Inr ())" by (simp add: completes_def)
  then show ?case using Suc by (cases "fn i rng") simp
qed simp

text \<open>What the first draws of a body are.\<close>

lemma bench_drawn:
  obtains bm mr d rng1 rng2 rng3 d' fb where
    "Id_generate rng = (bm :: BaseModelId, rng1)" and "Id_generate rng1 = (mr :: ModelRevisionId, rng2)"
    and "bench_adapter bm mr rng2 = (d, rng3)" and "register_adapter d Fabric_default = (Inr d', fb)"
    and "adapter (ad_id d) fb = Some d'" and "fabric_reachable fb" and "snapshot_fits fb"
proof -
  obtain bm :: BaseModelId and rng1 where bm: "Id_generate rng = (bm, rng1)" by fastforce
  obtain mr :: ModelRevisionId and rng2 where mr: "Id_generate rng1 = (mr, rng2)" by fastforce
  obtain d rng3 where d: "bench_adapter bm mr rng2 = (d, rng3)" by fastforce
  have "\<not> Id_is_nil bm" "\<not> Id_is_nil mr"
    using Id_generate_not_nil [of rng, where 'a = base_model_id] Id_generate_not_nil [of rng1, where 'a = model_revision_id] bm mr
    by simp_all
  then obtain d' fb where reg: "register_adapter (fst (bench_adapter bm mr rng2)) Fabric_default = (Inr d', fb)"
    and fb: "adapter (ad_id (fst (bench_adapter bm mr rng2))) fb = Some d'" "fabric_reachable fb" "snapshot_fits fb"
    by (rule bench_registered)
  show ?thesis by (rule that [OF bm mr d]) (use reg fb d in simp_all)
qed

lemma builder_two_inv:
  "bindE (builder_add d1 (CompositionBuilder_new bm mr policy g)) (builder_add d2) = Inr b \<Longrightarrow> builder_inv b"
  by (cases "builder_add d1 (CompositionBuilder_new bm mr policy g)")
    (auto dest: builder_add_inv [OF builder_inv_new] intro: builder_add_inv)

lemma compose_part:
  "fst (case bindE (builder_add d1 (CompositionBuilder_new bm mr policy g)) (builder_add d2) of
      Inl _ \<Rightarrow> (Some (Inr ()), rng)
    | Inr b \<Rightarrow> (case builder_build b rng of
          (None, rng1) \<Rightarrow> (None, rng1) | (Some _, rng1) \<Rightarrow> (Some (Inr ()), rng1))) = Some (Inr ())"
proof (cases "bindE (builder_add d1 (CompositionBuilder_new bm mr policy g)) (builder_add d2)")
  case (Inr b)
  then have "builder_inv b" by (rule builder_two_inv)
  then show ?thesis using Inr by (cases rule: builder_build_cases [where b = b and rng = rng]) simp_all
qed simp

lemma bodies_complete:
  "completes bench_identity" "completes bench_register" "completes bench_evaluate" "completes bench_compose"
  "completes bench_residency" "completes bench_persist"
proof -
  show "completes bench_identity" by (simp add: completes_def bench_identity_def case_prod_beta Let_def)
  show "completes bench_evaluate" by (simp add: completes_def bench_evaluate_def case_prod_beta Let_def)
  have "fst (bench_register i rng) = Some (Inr ())" for i rng
    by (rule bench_drawn [of rng]) (simp add: bench_register_def)
  then show "completes bench_register" by (simp add: completes_def)
  have "fst (bench_residency i rng) = Some (Inr ())" for i rng
    by (rule bench_drawn [of rng])
      (simp add: bench_residency_def case_prod_beta Let_def create_instance_def register_worker_def adapter_def)
  then show "completes bench_residency" by (simp add: completes_def)
  have "fst (bench_persist i rng) = Some (Inr ())" for i rng
    by (rule bench_drawn [of rng]) (simp add: bench_persist_def snapshot_roundtrip snapshot_ok_reachable)
  then show "completes bench_persist" by (simp add: completes_def)
  show "completes bench_compose"
    by (simp add: completes_def bench_compose_def Let_def compose_part split: prod.split)
qed

text \<open>
  The benchmarks complete with exit code 0 from every state of the generator: no body throws
  and none reaches undefined behaviour, whatever identities are drawn.
\<close>

theorem benchmarks_complete: "fst (run_benchmarks rng) = Some (Inr 0)"
proof -
  have step: "fst (run_benches ((ops, fn) # bs) r) = Some (Inr 0)"
    if "completes fn" "\<And>r. fst (run_benches bs r) = Some (Inr 0)" for ops fn bs r
    using bench_from_completes [OF that(1), of 0 ops r] that(2)
    by (cases "bench_from 0 fn ops r") (simp add: bench_def)
  show ?thesis
    unfolding run_benchmarks_def by (intro step bodies_complete) simp
qed

end
