(* ===== verification/AF_Examples.thy ===== *)
theory AF_Examples
  imports AF_CudaProof AF_Cli AF_Bench
begin

text \<open>
  The example programs (\<open>examples/\<close>) and the downstream consumer (\<open>consumer/main.cpp\<close>): small
  clients of the library that print what they did. A program is a function of the state of the
  process-wide generator; its result is what it prints and returns, \<open>Inl\<close> the exception that
  leaves \<open>main\<close>, and \<open>None\<close> undefined behaviour (the read through a null pointer). The
  statements say what each of them prints and returns, for every state of the generator.
\<close>

type_synonym example = "Rng \<Rightarrow> (Error + int \<times> string) option"

section \<open>What the programs share\<close>

text \<open>
  The function \<open>mk\<close> of the examples, over what differs between them: name, target module,
  footprint and capabilities.
\<close>

definition example_adapter ::
    "string \<Rightarrow> string \<Rightarrow> uint64_t \<Rightarrow> RuntimeCapability list \<Rightarrow> BaseModelId \<Rightarrow> ModelRevisionId \<Rightarrow> Rng \<Rightarrow>
     AdapterDescriptor \<times> Rng" where
  "example_adapter name target mem caps bm mr rng =
    (let (i, rng1) = Id_generate rng; (revision, rng2) = Id_generate rng1;
         (artifact, rng3) = Id_generate rng2
     in (AdapterDescriptor_default
          \<lparr>ad_id := i, ad_revision := revision, ad_artifact := artifact,
           ad_artifact_digest := ''aaa'', ad_kind := AK_lora, ad_name := name,
           ad_base_model := bm, ad_base_model_revision := mr,
           ad_targets := [\<lparr>tm_name = target, tm_in_features = 4096, tm_out_features = 4096,
             tm_shape = [4096, 4096]\<rparr>],
           ad_rank := 8, ad_dtype := DT_f16, ad_memory_bytes := mem, ad_format := ''lora/v1'',
           ad_format_version := 1, ad_validation := VS_valid, ad_capabilities := caps\<rparr>, rng3))"

text \<open>The first lines of the programs: the two identities, the adapter, its registration.\<close>

definition with_registered ::
    "string \<Rightarrow> RuntimeCapability list \<Rightarrow>
     (BaseModelId \<Rightarrow> ModelRevisionId \<Rightarrow> AdapterDescriptor \<Rightarrow> Rng \<Rightarrow> Fabric \<Rightarrow> (Error + int \<times> string) option) \<Rightarrow>
     example" where
  "with_registered name caps main rng =
    (let (bm, rng1) = Id_generate rng; (mr, rng2) = Id_generate rng1;
         (desc, rng3) = example_adapter name ''q_proj'' 8192 caps bm mr rng2
     in case register_adapter desc Fabric_default of
          (Inl e, f) \<Rightarrow> Some (Inl e)
        | (Inr d, f) \<Rightarrow> main bm mr d rng3 f)"

definition example_target :: "BaseModelId \<Rightarrow> ModelRevisionId \<Rightarrow> (string, string) smap \<Rightarrow> CompatibilityTarget" where
  "example_target bm mr caps =
     \<lparr>ct_base_model = bm, ct_base_model_revision = mr, ct_architecture = [], ct_device_arch = [],
      ct_device = Id_nil, ct_runtime_capabilities = caps, ct_policy = [],
      ct_policy_generation = Generation 1\<rparr>"

definition example_worker :: "Rng \<Rightarrow> WorkerRecord \<times> Rng" where
  "example_worker rng =
    (let (w, rng1) = Id_generate rng; (b, rng2) = Id_generate rng1; (d, rng3) = Id_generate rng2
     in (\<lparr>wr_id = w, wr_boot = b, wr_address = [], wr_node = Id_nil, wr_device = d,
          wr_connected = True, wr_epoch = gen_none, wr_capabilities = [],
          wr_device_memory_bytes = 0, wr_local_adapters = []\<rparr>, rng3))"

definition example_fence ::
    "AdapterDescriptor \<Rightarrow> WorkerRecord \<Rightarrow> AttemptId \<Rightarrow> Fabric \<Rightarrow> AuthorityFence" where
  "example_fence d w attempt f = AuthorityFence_default
     \<lparr>f_adapter := ad_id d, f_adapter_generation := ad_generation d,
      f_base_model_revision := ad_base_model_revision d, f_epoch := fb_epoch f,
      f_worker := wr_id w, f_boot := wr_boot w, f_device := wr_device w, f_attempt := attempt,
      f_residency_generation := Generation 1, f_composition_generation := Generation 1,
      f_artifact_generation := Generation 1\<rparr>"

section \<open>The programs\<close>

definition verdict_line :: "CompatibilityReport \<Rightarrow> string" where
  "verdict_line rep =
     (if cr_compatible rep then ''compatible'' else ''incompatible'') @ '': '' @ cr_summary rep @ nl"

definition ex_register :: example where
  "ex_register = with_registered ''lora-a'' [] (\<lambda>bm mr a rng f.
     let t = example_target bm mr (smap_set ''fp16'' ''supported'' []) in
     case validate (ad_id a) t f of
       Inl e \<Rightarrow> Some (Inl e)
     | Inr rep \<Rightarrow>
         let (other, rng1) = Id_generate rng;
             bad = example_target bm other (smap_set ''fp16'' ''supported'' [])
         in case validate (ad_id a) bad f of
              Inl e \<Rightarrow> Some (Inl e)
            | Inr rep2 \<Rightarrow> Some (Inr (0,
                ''registered '' @ ad_name a @ '' id='' @ Id_str (ad_id a) @ '' gen='' @ gen_str (ad_generation a)
                @ nl @ verdict_line rep @ to_json_report rep @ nl @ verdict_line rep2)))"

definition ex_compat :: example where
  "ex_compat = with_registered ''lora''
     [\<lparr>cap_name = ''sm_120'', cap_value = ''supported'', cap_required = True\<rparr>] (\<lambda>bm mr d rng f.
     let t = example_target bm mr (smap_set ''sm_120'' ''supported'' (smap_set ''fp16'' ''supported'' []))
     in case validate (ad_id d) t f of
          Inl e \<Rightarrow> Some (Inl e)
        | Inr rep \<Rightarrow>
            let ex = explain_compatibility rep
            in Some (Inr (0, ''text: '' @ ex_text ex @ nl @ ''json: '' @ ex_json ex @ nl)))"

definition ex_compose :: example where
  "ex_compose rng =
    (let (bm, rng1) = Id_generate rng; (mr, rng2) = Id_generate rng1;
         (d1, rng3) = example_adapter ''attn'' ''q_proj'' 4000 [] bm mr rng2
     in case register_adapter d1 Fabric_default of
          (Inl e, f) \<Rightarrow> Some (Inl e)
        | (Inr a, f1) \<Rightarrow>
          let (d2, rng4) = example_adapter ''v'' ''v_proj'' 2000 [] bm mr rng3
          in case register_adapter d2 f1 of
               (Inl e, f) \<Rightarrow> Some (Inl e)
             | (Inr b, f2) \<Rightarrow>
                (case publish_composition [ad_id a, ad_id b] ''policy-x'' rng4 f2 of
                   (None, _) \<Rightarrow> None
                 | (Some (Inl e), _) \<Rightarrow> Some (Inl e)
                 | (Some (Inr c), _) \<Rightarrow> Some (Inr (0,
                     ''composition gen='' @ gen_str (co_generation c) @ '' digest='' @ co_digest c
                     @ '' totalMem='' @ dec_str (unat (co_total_memory_bytes c)) @ nl))))"

definition ex_invalidate :: example where
  "ex_invalidate = with_registered ''lora'' [] (\<lambda>bm mr d rng f.
     let (r, f1) = invalidate (ad_id d) IT_base_model_revision_change
           ''model revision changed underneath'' f
     in Some (Inr (0, ''invalidated: '' @ iv_reason r @ '' prior_gen=''
           @ gen_str (iv_prior_generation r) @ nl)))"

text \<open>The instance is marked as loaded through the pointer that \<open>residency\<close> returns.\<close>

definition mark_loaded :: "AdapterInstanceId \<Rightarrow> uint64_t \<Rightarrow> Fabric \<Rightarrow> Fabric" where
  "mark_loaded inst n f =
    (case residency inst f of
       None \<Rightarrow> f
     | Some r \<Rightarrow> f\<lparr>fb_residencies := smap_set (Id_str inst) (r\<lparr>rr_ready := True, rr_bytes := n\<rparr>)
         (fb_residencies f)\<rparr>)"

definition ex_load_activate :: example where
  "ex_load_activate = with_registered ''lora'' [] (\<lambda>bm mr d rng f.
     let (w, rng1) = example_worker rng; f1 = register_worker w f in
     case create_instance (ad_id d) (wr_id w) (wr_boot w) (wr_device w) (ad_memory_bytes d) rng1 f1 of
       (Inl e, _) \<Rightarrow> Some (Inl e)
     | (Inr inst, rng2, f2) \<Rightarrow>
         let f3 = mark_loaded inst (ad_memory_bytes d) f2;
             (attempt, rng3) = Id_generate rng2
         in case bind_authority (ad_id d) (example_fence d w attempt f3) f3 of
              (Inl e, _) \<Rightarrow> Some (Inl e)
            | (Inr chk, f4) \<Rightarrow>
              (case authority_record (ad_id d) f4 of
                 None \<Rightarrow> None
               | Some ar \<Rightarrow>
                 let f5 = f4\<lparr>fb_authority := smap_set (Id_str (ad_id d))
                            (ar\<lparr>ar_active := False, ar_lifecycle := set_state L_ready (ar_lifecycle ar)\<rparr>)
                            (fb_authority f4)\<rparr>;
                     ((ev, reason), f6) = evict inst f5
                 in Some (Inr (0,
                      ''activate: '' @ (if authorized chk then ''OK'' else ''DENIED'') @ '' state=''
                      @ LifecycleState_to_string (lc_state (ar_lifecycle ar)) @ nl
                      @ ''evict: '' @ (if ev then ''OK'' else ''DENIED'') @ '' ('' @ reason @ '')'' @ nl))))"

definition ex_migrate :: "int \<times> string" where
  "ex_migrate =
    (let m0 = MigrationStateMachine_new False;
         m1 = snd (advance P_source_validated m0);
         m2 = snd (advance P_destination_reserved m1);
         m3 = snd (advance P_transferring m2);
         m4 = snd (advance P_verifying m3);
         m5 = snd (advance P_destination_ready m4);
         (ok, m6) = advance P_authority_promoted m5;
         m7 = snd (advance P_source_retired m6);
         m8 = snd (advance P_source_released m7)
     in (0, ''migration phase before authority transfer: '' @ MigrationPhase_to_string (ms_phase m5) @ nl
          @ ''authority promoted: '' @ (if ok then ''1'' else ''0'') @ '' phase=''
          @ MigrationPhase_to_string (ms_phase m6) @ nl
          @ ''source released: '' @ MigrationPhase_to_string (ms_phase m8) @ nl))"

definition ex_persist :: example where
  "ex_persist = with_registered ''lora'' [] (\<lambda>bm mr d rng f.
     let snap = snapshot f; data = serialize_snapshot snap in
     case deserialize_snapshot data of
       Inl e \<Rightarrow> Some (Inl e)
     | Inr s \<Rightarrow>
         let f2 = recover s Fabric_default
         in Some (Inr (0, ''recovered adapters='' @ dec_str (length (adapters f2))
              @ '' (canonical metadata only, no process-local authority)'' @ nl)))"

definition ex_restart :: example where
  "ex_restart = with_registered ''lora'' [] (\<lambda>bm mr d rng f.
     let (w, rng1) = example_worker rng; f1 = register_worker w f in
     case create_instance (ad_id d) (wr_id w) (wr_boot w) (wr_device w) (ad_memory_bytes d) rng1 f1 of
       (Inl e, _) \<Rightarrow> Some (Inl e)
     | (Inr inst, rng2, f2) \<Rightarrow>
         let (attempt, rng3) = Id_generate rng2; fe = example_fence d w attempt f2
         in case bind_authority (ad_id d) fe f2 of
              (Inl e, _) \<Rightarrow> Some (Inl e)
            | (Inr _, f3) \<Rightarrow>
              let (new_boot, rng4) = Id_generate rng3;
                  f4 = on_worker_restart (wr_id w) new_boot f3;
                  f5 = register_worker (w\<lparr>wr_boot := new_boot\<rparr>) f4;
                  chk = check_fence fe f5
              in Some (Inr (if authorized chk then 1 else 0,
                   ''stale boot after restart: ''
                   @ (if authorized chk then ''ACCEPTED(bad)'' else ''rejected'')
                   @ '' ('' @ ac_reason chk @ '')'' @ nl)))"

text \<open>
  \<open>run\<close> is \<open>run_cuda_proof\<close> on the device; what it prints is not part of the model.
\<close>

definition ex_cuda :: "'f detail \<Rightarrow> ('f device \<Rightarrow> (int \<times> 'f device) option) \<Rightarrow> 'f device \<Rightarrow>
    (int \<times> string \<times> 'f device) option" where
  "ex_cuda det run g =
    (if \<not> det_available det g then Some (0, ''CUDA unavailable: '' @ det_reason det g @ nl, g)
     else map_option (\<lambda>(code, g'). (code, [], g')) (run g))"

definition consumer_main :: example where
  "consumer_main rng =
    (let (bm, rng1) = Id_generate rng; (mr, rng2) = Id_generate rng1;
         (i, rng3) = Id_generate rng2; (revision, rng4) = Id_generate rng3;
         (artifact, rng5) = Id_generate rng4;
         d = AdapterDescriptor_default
          \<lparr>ad_id := i, ad_revision := revision, ad_artifact := artifact,
           ad_artifact_digest := ''cccc'', ad_kind := AK_lora, ad_name := ''consumer-lora'',
           ad_base_model := bm, ad_base_model_revision := mr,
           ad_targets := [\<lparr>tm_name = ''q_proj'', tm_in_features = 8, tm_out_features = 8,
             tm_shape = [8, 8]\<rparr>],
           ad_rank := 4, ad_dtype := DT_f16, ad_memory_bytes := 256, ad_format := ''lora/v1'',
           ad_format_version := 1, ad_validation := VS_valid\<rparr>
     in case register_adapter d Fabric_default of
          (Inl e, _) \<Rightarrow> Some (Inl e)
        | (Inr reg, _) \<Rightarrow> Some (Inr (0,
            ''consumer registered '' @ ad_name reg @ '' id='' @ Id_str (ad_id reg) @ '' gen=''
            @ gen_str (ad_generation reg) @ nl @ ''Adapter Fabric consumer OK'' @ nl)))"

text \<open>
  The driver of the benchmarks (\<open>benchmarks/af_bench.cpp\<close>): exit code and what goes to
  \<open>std::cerr\<close>; an exception of the library ends in code 1.
\<close>

definition bench_main :: "Rng \<Rightarrow> (int \<times> string) option \<times> Rng" where
  "bench_main rng =
    (case run_benchmarks rng of
       (None, rng') \<Rightarrow> (None, rng')
     | (Some (Inl e), rng') \<Rightarrow> (Some (1, ''benchmark exception: '' @ err_what e @ nl), rng')
     | (Some (Inr code), rng') \<Rightarrow> (Some (code, []), rng'))"

section \<open>What they print\<close>

declare Id_generate_not_nil [simp]

text \<open>The registration of the examples succeeds, whatever the generator gives.\<close>

definition example_start :: "string \<Rightarrow> RuntimeCapability list \<Rightarrow> Rng \<Rightarrow> AdapterDescriptor \<times> Rng" where
  "example_start name caps rng =
    (let (bm :: BaseModelId, rng1) = Id_generate rng; (mr :: ModelRevisionId, rng2) = Id_generate rng1;
         (desc, rng3) = example_adapter name ''q_proj'' 8192 caps bm mr rng2
     in (desc\<lparr>ad_generation := Generation 1\<rparr>, rng3))"

definition example_desc :: "string \<Rightarrow> RuntimeCapability list \<Rightarrow> Rng \<Rightarrow> AdapterDescriptor" where
  "example_desc name caps rng = fst (example_start name caps rng)"

definition example_fabric :: "AdapterDescriptor \<Rightarrow> Fabric" where
  "example_fabric d = Fabric_default\<lparr>fb_next_adapter_gen := Generation 2,
     fb_adapters := [(Id_str (ad_id d), d)]\<rparr>"

lemma with_registered_run:
  "with_registered name caps main rng =
     main (ad_base_model (example_desc name caps rng)) (ad_base_model_revision (example_desc name caps rng))
       (example_desc name caps rng) (snd (example_start name caps rng))
       (example_fabric (example_desc name caps rng))"
  by (simp add: with_registered_def example_desc_def example_start_def example_adapter_def Let_def
      case_prod_beta register_adapter_def example_fabric_def Fabric_default_def Fabric_empty_def
      gen_next_def AdapterDescriptor_default_def uint64_max_def)

lemma example_desc_simps [simp]:
  "\<not> Id_is_nil (ad_id (example_desc name caps rng))"
  "\<not> Id_is_nil (ad_base_model (example_desc name caps rng))"
  "\<not> Id_is_nil (ad_base_model_revision (example_desc name caps rng))"
  "ad_generation (example_desc name caps rng) = Generation 1"
  "ad_memory_bytes (example_desc name caps rng) = 8192" "ad_name (example_desc name caps rng) = name"
  by (simp_all add: example_desc_def example_start_def example_adapter_def Let_def case_prod_beta)

lemma example_fabric_adapter [simp]:
  "adapter (ad_id d) (example_fabric d) = Some d" "fb_epoch (example_fabric d) = gen_none"
  "fb_authority (example_fabric d) = []" "fb_current_attempt (example_fabric d) = []"
  "fb_active_fence (example_fabric d) = None" "fb_workers (example_fabric d) = []"
  "fb_residencies (example_fabric d) = []"
  by (simp_all add: example_fabric_def adapter_def Fabric_default_def Fabric_empty_def)

lemma gen_str_one [simp]: "gen_str (Generation 1) = ''1''"
  by code_simp

lemma ex_invalidate_run:
  "ex_invalidate rng = Some (Inr (0,
     ''invalidated: model revision changed underneath prior_gen=1'' @ nl))"
  by (simp add: ex_invalidate_def with_registered_run invalidate_def Let_def)

lemma ex_migrate_run:
  "ex_migrate = (0,
     ''migration phase before authority transfer: destination_ready'' @ nl
     @ ''authority promoted: 1 phase=authority_promoted'' @ nl
     @ ''source released: source_released'' @ nl)"
  by (simp add: ex_migrate_def MigrationStateMachine_new_def advance_def can_advance_def
      phase_terminal_def Let_def)

lemma example_worker_simps [simp]:
  "\<not> Id_is_nil (wr_id (fst (example_worker rng)))" "\<not> Id_is_nil (wr_boot (fst (example_worker rng)))"
  "wr_connected (fst (example_worker rng))"
  by (simp_all add: example_worker_def Let_def case_prod_beta)

text \<open>The fabric after the worker has been registered and the instance created.\<close>

definition example_loaded :: "AdapterDescriptor \<Rightarrow> WorkerRecord \<Rightarrow> AdapterInstanceId \<Rightarrow> Fabric" where
  "example_loaded d w inst = (register_worker w (example_fabric d))
     \<lparr>fb_residencies := [(Id_str inst, fresh_residency (ad_id d) d inst (wr_id w) (wr_boot w) (wr_device w)
          (ad_memory_bytes d) gen_none)],
      fb_authority := [(Id_str (ad_id d), fresh_authority (ad_id d) d inst (wr_id w) (wr_boot w)
          (wr_device w) gen_none)]\<rparr>"

lemma example_created:
  "create_instance (ad_id d) (wr_id w) (wr_boot w) (wr_device w) (ad_memory_bytes d) rng
     (register_worker w (example_fabric d)) =
   (Inr (fst (Id_generate rng)), snd (Id_generate rng :: AdapterInstanceId \<times> Rng),
    example_loaded d w (fst (Id_generate rng)))"
proof -
  have "adapter (ad_id d) (register_worker w (example_fabric d)) = Some d"
    using example_fabric_adapter(1) [of d] by (simp add: adapter_def register_worker_def)
  then show ?thesis
    by (simp add: create_instance_def case_prod_beta Let_def example_loaded_def register_worker_def)
qed

lemma example_fence_current:
  assumes "\<not> Id_is_nil (ad_id d)" "\<not> Id_is_nil (wr_id w)" "\<not> Id_is_nil (wr_boot w)" "wr_connected w"
    and "\<not> Id_is_nil attempt" and "ad_generation d = Generation 1"
  shows "fence_current (example_fence d w attempt (example_loaded d w inst))
    ((example_loaded d w inst)\<lparr>fb_residencies := rs\<rparr>)"
  using assms example_fabric_adapter [of d]
  by (simp add: fence_current_def example_fence_def AuthorityFence_default_def example_loaded_def
      adapter_def worker_def register_worker_def authority_record_def fresh_authority_def)

lemma example_bound:
  assumes "fence_current fe f" "fb_active_fence f = None" "authority_record i f = Some ar"
  shows "bind_authority i fe f = (Inr (verdict AV_authorized ''fence current''),
    f\<lparr>fb_authority := smap_set (Id_str i)
         (ar\<lparr>ar_fence := fe, ar_has_authority := True, ar_active := True,
             ar_lifecycle := set_state L_active (ar_lifecycle ar)\<rparr>) (fb_authority f),
       fb_current_attempt := smap_set (Id_str i) (f_attempt fe) (fb_current_attempt f),
       fb_active_fence := Some fe\<rparr>)"
  using assms by (simp add: bind_authority_def check_fence_authorized authority_record_def Let_def)

lemma example_loaded_simps [simp]:
  "fb_active_fence (example_loaded d w inst) = None"
  "authority_record (ad_id d) (example_loaded d w inst) =
     Some (fresh_authority (ad_id d) d inst (wr_id w) (wr_boot w) (wr_device w) gen_none)"
  "residency inst (example_loaded d w inst) = Some (fresh_residency (ad_id d) d inst (wr_id w)
     (wr_boot w) (wr_device w) (ad_memory_bytes d) gen_none)"
  "fb_epoch (example_loaded d w inst) = gen_none"
  by (simp_all add: example_loaded_def authority_record_def residency_def register_worker_def)

text \<open>The worker and the adapter of an example, as the generator gives them.\<close>

definition example_ok :: "AdapterDescriptor \<Rightarrow> WorkerRecord \<Rightarrow> bool" where
  "example_ok d w \<longleftrightarrow> \<not> Id_is_nil (ad_id d) \<and> ad_generation d = Generation 1 \<and>
     \<not> Id_is_nil (wr_id w) \<and> \<not> Id_is_nil (wr_boot w) \<and> wr_connected w"

lemma example_activated:
  assumes "example_ok d w" and "\<not> Id_is_nil attempt"
  obtains f4 ar where
    "bind_authority (ad_id d) (example_fence d w attempt (mark_loaded inst n (example_loaded d w inst)))
       (mark_loaded inst n (example_loaded d w inst)) = (Inr (verdict AV_authorized ''fence current''), f4)"
    "authority_record (ad_id d) f4 = Some ar" "lc_state (ar_lifecycle ar) = L_active"
    "\<forall>a. fst (evict inst (f4\<lparr>fb_authority := a\<rparr>)) = (True, ''evicted'')"
proof -
  let ?f2 = "example_loaded d w inst"
  let ?r = "(fresh_residency (ad_id d) d inst (wr_id w) (wr_boot w) (wr_device w) (ad_memory_bytes d) gen_none)
    \<lparr>rr_ready := True, rr_bytes := n\<rparr>"
  let ?f3 = "?f2\<lparr>fb_residencies := smap_set (Id_str inst) ?r (fb_residencies ?f2)\<rparr>"
  let ?ar = "fresh_authority (ad_id d) d inst (wr_id w) (wr_boot w) (wr_device w) gen_none"
  have f3: "mark_loaded inst n ?f2 = ?f3" by (simp add: mark_loaded_def)
  have cur: "fence_current (example_fence d w attempt ?f3) ?f3"
    using example_fence_current [of d w attempt inst] assms by (simp add: example_ok_def example_fence_def)
  have auth: "authority_record (ad_id d) ?f3 = Some ?ar"
    using example_loaded_simps(2) [of d w inst] by (simp add: authority_record_def)
  note bound = example_bound [OF cur _ auth]
  show ?thesis
  proof (rule that)
    show "bind_authority (ad_id d) (example_fence d w attempt (mark_loaded inst n ?f2)) (mark_loaded inst n ?f2)
        = (Inr (verdict AV_authorized ''fence current''), snd (bind_authority (ad_id d)
             (example_fence d w attempt ?f3) ?f3))"
      unfolding f3 by (simp add: bound)
    show "authority_record (ad_id d) (snd (bind_authority (ad_id d) (example_fence d w attempt ?f3) ?f3)) =
        Some (?ar\<lparr>ar_fence := example_fence d w attempt ?f3, ar_has_authority := True, ar_active := True,
             ar_lifecycle := set_state L_active (ar_lifecycle ?ar)\<rparr>)"
      by (simp add: bound authority_record_def)
    show "\<forall>a. fst (evict inst ((snd (bind_authority (ad_id d) (example_fence d w attempt ?f3) ?f3))
        \<lparr>fb_authority := a\<rparr>)) = (True, ''evicted'')"
      by (simp add: bound evict_def) (simp add: fresh_residency_def)
  qed (simp add: set_state_def)
qed

lemma example_ok_start: "example_ok (example_desc name caps rng) (fst (example_worker rng'))"
  by (simp add: example_ok_def)

lemma ex_load_activate_run:
  "ex_load_activate rng = Some (Inr (0, ''activate: OK state=active'' @ nl @ ''evict: OK (evicted)'' @ nl))"
proof -
  let ?d = "example_desc ''lora'' [] rng"
  obtain w rng1 where w: "example_worker (snd (example_start ''lora'' [] rng)) = (w, rng1)" by fastforce
  obtain inst :: AdapterInstanceId and rng2 where inst: "Id_generate rng1 = (inst, rng2)" by fastforce
  obtain attempt :: AttemptId and rng3 where att: "Id_generate rng2 = (attempt, rng3)" by fastforce
  have ok: "example_ok ?d w"
    using example_ok_start [of "''lora''" "[]" rng "snd (example_start ''lora'' [] rng)"] w by simp
  have at: "\<not> Id_is_nil attempt" using Id_generate_not_nil [of rng2] att by (metis fst_conv)
  have cr: "create_instance (ad_id ?d) (wr_id w) (wr_boot w) (wr_device w) 8192 rng1
      (register_worker w (example_fabric ?d)) = (Inr inst, rng2, example_loaded ?d w inst)"
    using example_created [of ?d w rng1] by (simp add: inst)
  obtain f4 ar where f4: "bind_authority (ad_id ?d) (example_fence ?d w attempt
      (mark_loaded inst 8192 (example_loaded ?d w inst))) (mark_loaded inst 8192 (example_loaded ?d w inst))
      = (Inr (verdict AV_authorized ''fence current''), f4)"
    "authority_record (ad_id ?d) f4 = Some ar" "lc_state (ar_lifecycle ar) = L_active"
    "\<forall>a. fst (evict inst (f4\<lparr>fb_authority := a\<rparr>)) = (True, ''evicted'')"
    by (rule example_activated [OF ok at, of inst 8192])
  show ?thesis
    using f4(4)
    by (simp add: ex_load_activate_def with_registered_run w cr
        att f4(1-3) case_prod_beta Let_def)
qed

text \<open>The worker restarts with \<open>new\<close> as its boot after the fence has been bound.\<close>

lemma example_restarted:
  fixes d w attempt inst new
  assumes ok: "example_ok d w" and at: "\<not> Id_is_nil attempt"
  defines "fe \<equiv> example_fence d w attempt (example_loaded d w inst)"
  obtains f3 where
    "bind_authority (ad_id d) fe (example_loaded d w inst) = (Inr (verdict AV_authorized ''fence current''), f3)"
    "check_fence fe (register_worker (w\<lparr>wr_boot := new\<rparr>) (on_worker_restart (wr_id w) new f3)) =
       (if new = wr_boot w then verdict AV_authorized ''fence current''
        else verdict AV_stale_boot ''worker boot mismatch'')"
proof -
  let ?f2 = "example_loaded d w inst"
  let ?ar = "fresh_authority (ad_id d) d inst (wr_id w) (wr_boot w) (wr_device w) gen_none"
  have cur: "fence_current fe ?f2"
    using example_fence_current [of d w attempt inst "fb_residencies ?f2"] ok at
    by (simp add: example_ok_def fe_def)
  note bound = example_bound [OF cur example_loaded_simps(1,2)]
  let ?f3 = "snd (bind_authority (ad_id d) fe ?f2)"
  let ?f5 = "register_worker (w\<lparr>wr_boot := new\<rparr>) (on_worker_restart (wr_id w) new ?f3)"
  have fe: "f_adapter fe = ad_id d" "f_epoch fe = gen_none" "f_adapter_generation fe = Generation 1"
    "f_base_model_revision fe = ad_base_model_revision d" "f_worker fe = wr_id w" "f_boot fe = wr_boot w"
    "f_attempt fe = attempt" "f_residency_generation fe = Generation 1"
    "f_composition_generation fe = Generation 1" "f_artifact_generation fe = Generation 1"
    using ok by (simp_all add: fe_def example_fence_def AuthorityFence_default_def example_ok_def)
  have ad: "adapter (ad_id d) ?f5 = Some d" "fb_epoch ?f5 = gen_none"
    "worker (wr_id w) ?f5 = Some (w\<lparr>wr_boot := new\<rparr>)"
    using example_fabric_adapter(1) [of d]
    unfolding bound
    by (simp_all add: adapter_def worker_def register_worker_def on_worker_restart_fields
        example_loaded_def)
  show ?thesis
  proof (rule that)
    show "bind_authority (ad_id d) fe ?f2 = (Inr (verdict AV_authorized ''fence current''), ?f3)"
      by (simp add: bound)
    show "check_fence fe ?f5 = (if new = wr_boot w then verdict AV_authorized ''fence current''
        else verdict AV_stale_boot ''worker boot mismatch'')"
    proof (cases "new = wr_boot w")
      case False
      then show ?thesis using ok at by (auto simp: check_fence_def fe ad example_ok_def)
    next
      case True
      have "map_of (fb_current_attempt ?f5) (Id_str (ad_id d)) = Some attempt"
        "authority_record (ad_id d) ?f5 = Some (?ar\<lparr>ar_fence := fe, ar_has_authority := True,
           ar_active := True, ar_lifecycle := set_state L_active (ar_lifecycle ?ar)\<rparr>)"
        using True unfolding bound
        by (simp_all add: register_worker_def on_worker_restart_fields authority_record_def
            revoke_matching_def example_loaded_def fe)
      then have "fence_current fe ?f5"
        using ok at by (simp add: fence_current_def fe ad example_ok_def True [symmetric])
      then show ?thesis using True by (simp add: check_fence_authorized)
    qed
  qed
qed

text \<open>The boot of the first registration and that of the restart, as the generator gives them.\<close>

definition restart_boots :: "Rng \<Rightarrow> WorkerBootId \<times> WorkerBootId" where
  "restart_boots rng =
    (let (w, rng1) = example_worker (snd (example_start ''lora'' [] rng));
         (inst :: AdapterInstanceId, rng2) = Id_generate rng1; (attempt :: AttemptId, rng3) = Id_generate rng2
     in (wr_boot w, fst (Id_generate rng3)))"

lemma ex_restart_run:
  "ex_restart rng = Some (Inr
     (if snd (restart_boots rng) = fst (restart_boots rng)
      then (1, ''stale boot after restart: ACCEPTED(bad) (fence current)'' @ nl)
      else (0, ''stale boot after restart: rejected (worker boot mismatch)'' @ nl)))"
proof -
  let ?d = "example_desc ''lora'' [] rng"
  obtain w rng1 where w: "example_worker (snd (example_start ''lora'' [] rng)) = (w, rng1)" by fastforce
  obtain inst :: AdapterInstanceId and rng2 where inst: "Id_generate rng1 = (inst, rng2)" by fastforce
  obtain attempt :: AttemptId and rng3 where att: "Id_generate rng2 = (attempt, rng3)" by fastforce
  obtain new :: WorkerBootId and rng4 where new: "Id_generate rng3 = (new, rng4)" by fastforce
  have ok: "example_ok ?d w"
    using example_ok_start [of "''lora''" "[]" rng "snd (example_start ''lora'' [] rng)"] w by simp
  have at: "\<not> Id_is_nil attempt" using Id_generate_not_nil [of rng2] att by (metis fst_conv)
  have cr: "create_instance (ad_id ?d) (wr_id w) (wr_boot w) (wr_device w) 8192 rng1
      (register_worker w (example_fabric ?d)) = (Inr inst, rng2, example_loaded ?d w inst)"
    using example_created [of ?d w rng1] by (simp add: inst)
  obtain f3 where f3: "bind_authority (ad_id ?d) (example_fence ?d w attempt (example_loaded ?d w inst))
      (example_loaded ?d w inst) = (Inr (verdict AV_authorized ''fence current''), f3)"
    "check_fence (example_fence ?d w attempt (example_loaded ?d w inst))
       (register_worker (w\<lparr>wr_boot := new\<rparr>) (on_worker_restart (wr_id w) new f3)) =
       (if new = wr_boot w then verdict AV_authorized ''fence current''
        else verdict AV_stale_boot ''worker boot mismatch'')"
    by (rule example_restarted [OF ok at, of inst new])
  have "ex_restart rng = Some (Inr
     (if new = wr_boot w then (1, ''stale boot after restart: ACCEPTED(bad) (fence current)'' @ nl)
      else (0, ''stale boot after restart: rejected (worker boot mismatch)'' @ nl)))"
    by (simp add: ex_restart_def with_registered_run w att new cr f3 case_prod_beta Let_def)
      (simp add: verdict_def)
  moreover have "restart_boots rng = (wr_boot w, new)" by (simp add: restart_boots_def w inst att new)
  ultimately show ?thesis by simp
qed

lemma example_descriptor_ok: "string_ok name \<Longrightarrow> descriptor_ok (example_desc name [] rng)"
  by (simp add: example_desc_def example_start_def example_adapter_def case_prod_beta Let_def
      descriptor_ok_def AdapterDescriptor_default_def string_ok_def vec_ok_def is_kind_ok_def
      is_dtype_ok_def is_validation_ok_def target_ok_def capability_ok_def provenance_ok_def gen_is_none_def)

lemma ex_persist_run:
  "ex_persist rng = Some (Inr (0,
     ''recovered adapters=1 (canonical metadata only, no process-local authority)'' @ nl))"
proof -
  let ?d = "example_desc ''lora'' [] rng"
  have ok: "snapshot_ok (snapshot (example_fabric ?d))"
    using example_descriptor_ok [of "''lora''" rng]
    by (simp add: snapshot_ok_def snapshot_def example_fabric_def Fabric_default_def Fabric_empty_def
        smap_values_def vec_ok_def string_ok_def)
  have "adapters (recover (snapshot (example_fabric ?d)) fb) = [?d]" for fb
    by (simp add: adapters_def recover_def snapshot_def example_fabric_def smap_values_def)
  then have "length (adapters (recover (snapshot (example_fabric ?d)) Fabric_default)) = 1" by simp
  moreover have "dec_str 1 = ''1''" by code_simp
  ultimately show ?thesis
    unfolding ex_persist_def with_registered_run Let_def snapshot_roundtrip [OF ok] by simp
qed

lemma example_capabilities [simp]:
  "ad_capabilities (example_desc name caps rng) = caps" "ad_dependencies (example_desc name caps rng) = []"
  "ad_kind (example_desc name caps rng) = AK_lora" "ad_rank (example_desc name caps rng) = 8"
  "ad_dtype (example_desc name caps rng) = DT_f16" "ad_artifact_digest (example_desc name caps rng) = ''aaa''"
  "ad_targets (example_desc name caps rng) = [\<lparr>tm_name = ''q_proj'', tm_in_features = 4096,
     tm_out_features = 4096, tm_shape = [4096, 4096]\<rparr>]"
  "ad_validation (example_desc name caps rng) = VS_valid"
  by (simp_all add: example_desc_def example_start_def example_adapter_def Let_def case_prod_beta
      AdapterDescriptor_default_def)

text \<open>The report on an adapter of the examples, for a target of its own base model and revision.\<close>

definition report_factors :: "CompatibilityFactor list \<Rightarrow> CompatibilityFactor list" where
  "report_factors capabilities =
     [acc ''base_model'' ''adapter base model matches target'',
      acc ''base_model_revision'' ''adapter revision matches target'',
      acc ''targets'' ''adapter declares 1 target module(s)'', acc ''rank'' ''adapter rank 8>0'',
      acc ''dtype'' ''half precision supported by target''] @ capabilities @
     [acc ''dependencies'' ''no dependencies declared'', acc ''artifact'' ''artifact digest present'',
      acc ''validation'' ''adapter artifact validated'']"

lemma digits [simp]: "dec_str 1 = ''1''" "dec_str (Suc 0) = ''1''" "dec_str 8 = ''8''" "dec_str 0 = ''0''"
  by code_simp+

lemma example_factors:
  assumes "map_of cs ''fp16'' = Some ''supported''"
  shows "compat_factors (example_desc name caps rng) (example_target (ad_base_model (example_desc name caps rng))
      (ad_base_model_revision (example_desc name caps rng)) cs) =
    report_factors (if caps = [] then [miss ''device_capability'' ''adapter declares no runtime capabilities'']
      else map (capability_factor (example_target (ad_base_model (example_desc name caps rng))
        (ad_base_model_revision (example_desc name caps rng)) cs)) caps)"
  using assms
  by (simp add: compat_factors_def report_factors_def base_model_factor_def base_model_revision_factor_def
      targets_factor_def rank_factor_def dtype_factor_def capability_factors_def dependency_factors_def
      artifact_factor_def validation_factor_def) (simp add: example_target_def)

lemma report_factors_simps [simp]:
  "has_rejections (report_factors cs) \<longleftrightarrow> has_rejections cs"
  "factor_reasons (report_factors [acc n d]) = []"
  by (auto simp: report_factors_def has_rejections_iff acc_def)

lemma escape_compatible: "json_escape ''compatible'' = ''compatible''"
  by code_simp

definition compat_json :: string where
  "compat_json = ''{'' @ jstr ''kind'' @ '':'' @ jstr ''0'' @ '','' @ jstr ''ok'' @ '':true,'' @ jstr ''text'' @ '':''
     @ jstr ''compatible'' @ '','' @ jstr ''reasons'' @ '':[]}''"

lemma ex_compat_run:
  "ex_compat rng = Some (Inr (0, ''text: compatible'' @ nl @ ''json: '' @ compat_json @ nl))"
proof -
  let ?caps = "[\<lparr>cap_name = ''sm_120'', cap_value = ''supported'', cap_required = True\<rparr>]"
  let ?d = "example_desc ''lora'' ?caps rng"
  let ?cs = "smap_set ''sm_120'' ''supported'' (smap_set ''fp16'' ''supported'' [])"
  let ?t = "example_target (ad_base_model ?d) (ad_base_model_revision ?d) ?cs"
  have fs: "compat_factors ?d ?t = report_factors [acc ''device_capability'' ''capability sm_120 satisfied'']"
    by (subst example_factors) (simp_all add: capability_factor_def example_target_def)
  define rep where "rep = evaluate_compatibility ?d ?t"
  have rep: "cr_compatible rep" "cr_summary rep = ''compatible''" "factor_reasons (cr_factors rep) = []"
    unfolding rep_def evaluate_compatibility_def fs Let_def by simp_all
  have "explain_compatibility rep = make_explanation EK_compatibility True ''compatible'' []"
    unfolding explain_compatibility_def rep by (simp add: rep)
  moreover have "ex_text (make_explanation EK_compatibility True ''compatible'' []) = ''compatible''"
    "ex_json (make_explanation EK_compatibility True ''compatible'' []) = compat_json"
    unfolding make_explanation_def compat_json_def by (simp_all only: escape_compatible) (simp_all add: jbool_def)
  moreover have "validate (ad_id ?d) ?t (example_fabric ?d) = Inr rep" by (simp add: validate_def rep_def)
  ultimately show ?thesis unfolding ex_compat_def with_registered_run Let_def by simp
qed

text \<open>The second target of \<open>ex_register\<close> has another revision, unless the generator repeats one.\<close>

definition register_report :: CompatibilityReport where
  "register_report = \<lparr>cr_compatible = True,
     cr_factors = report_factors [miss ''device_capability'' ''adapter declares no runtime capabilities''],
     cr_adapter_generation = Generation 1, cr_policy_generation = Generation 1, cr_base_model_revision = Id_nil,
     cr_summary = ''compatible''\<rparr>"

definition other_revision :: "Rng \<Rightarrow> ModelRevisionId" where
  "other_revision rng = fst (Id_generate (snd (example_start ''lora-a'' [] rng)))"

lemma ex_register_run:
  "ex_register rng = Some (Inr (0,
     ''registered lora-a id='' @ Id_str (ad_id (example_desc ''lora-a'' [] rng)) @ '' gen=1'' @ nl
     @ ''compatible: compatible'' @ nl @ to_json_report register_report @ nl
     @ (if other_revision rng = ad_base_model_revision (example_desc ''lora-a'' [] rng)
        then ''compatible: compatible''
        else ''incompatible: incompatible: adapter is pinned to a different model revision'') @ nl))"
proof -
  let ?d = "example_desc ''lora-a'' [] rng" and ?caps = "[(''fp16'', ''supported'')] :: (string, string) smap"
  obtain other rng1 where o: "Id_generate (snd (example_start ''lora-a'' [] rng)) = (other :: ModelRevisionId, rng1)"
    by fastforce
  then have other: "other_revision rng = other" by (simp add: other_revision_def)
  have spec: "compatible_spec ?d (example_target (ad_base_model ?d) mr ?caps) \<longleftrightarrow>
      mr = ad_base_model_revision ?d" for mr
    by (auto simp: compatible_spec_def example_target_def dtype_supported_def)
  have rejected: "first_rejection_reason (compat_factors ?d (example_target (ad_base_model ?d) mr ?caps)) =
      ''adapter is pinned to a different model revision''" if "mr \<noteq> ad_base_model_revision ?d" for mr
    using that by (simp add: compat_factors_def base_model_factor_def base_model_revision_factor_def
        example_target_def acc_def rej_def)
  have fs: "compat_factors ?d (example_target (ad_base_model ?d) (ad_base_model_revision ?d) ?caps) =
      report_factors [miss ''device_capability'' ''adapter declares no runtime capabilities'']"
    by (subst example_factors) simp_all
  have "cr_compatible (evaluate_compatibility ?d (example_target (ad_base_model ?d) (ad_base_model_revision ?d) ?caps)) =
      cr_compatible register_report \<and>
    cr_summary (evaluate_compatibility ?d (example_target (ad_base_model ?d) (ad_base_model_revision ?d) ?caps)) =
      cr_summary register_report \<and>
    cr_factors (evaluate_compatibility ?d (example_target (ad_base_model ?d) (ad_base_model_revision ?d) ?caps)) =
      cr_factors register_report"
    unfolding evaluate_compatibility_def fs Let_def register_report_def by (simp add: miss_def)
  then have json: "to_json_report (evaluate_compatibility ?d (example_target (ad_base_model ?d)
      (ad_base_model_revision ?d) ?caps)) = to_json_report register_report"
    unfolding to_json_report_def by presburger
  show ?thesis
    by (simp add: ex_register_def with_registered_run o other validate_def verdict_line_def json Let_def)
      (auto simp: evaluate_compatibility_def compat_factors_spec spec rejected Let_def)
qed

text \<open>
  The two adapters of \<open>ex_compose\<close>. Where the generator gives both the same identity the second
  replaces the first in the registry, and the composition is refused.
\<close>

definition compose_descs :: "Rng \<Rightarrow> AdapterDescriptor \<times> AdapterDescriptor" where
  "compose_descs rng =
    (let (bm, rng1) = Id_generate rng; (mr, rng2) = Id_generate rng1;
         (d1, rng3) = example_adapter ''attn'' ''q_proj'' 4000 [] bm mr rng2;
         (d2, rng4) = example_adapter ''v'' ''v_proj'' 2000 [] bm mr rng3
     in (d1\<lparr>ad_generation := Generation 1\<rparr>, d2\<lparr>ad_generation := Generation 2\<rparr>))"

lemma compose_registered:
  "register_adapter (fst (example_adapter name target mem caps bm mr rng)) fb =
     (let d = (fst (example_adapter name target mem caps bm mr rng))\<lparr>ad_generation := fb_next_adapter_gen fb\<rparr>
      in (Inr d, fb\<lparr>fb_next_adapter_gen := gen_next (fb_next_adapter_gen fb),
                    fb_adapters := smap_set (Id_str (ad_id d)) d (fb_adapters fb)\<rparr>))"
  if "\<not> Id_is_nil bm" "\<not> Id_is_nil mr" "mem \<noteq> 0"
  using that by (simp add: register_adapter_def example_adapter_def case_prod_beta Let_def)

lemma compose_published:
  assumes a: "adapter (ad_id a) fb = Some a" and b: "adapter (ad_id b) fb = Some b" and differ: "ad_id a \<noteq> ad_id b"
    and gens: "\<not> gen_is_none (ad_generation a)" "\<not> gen_is_none (ad_generation b)"
    and base: "ad_base_model a = ad_base_model b" "ad_base_model_revision a = ad_base_model_revision b"
    and modules: "map tm_name (ad_targets a) = [ta]" "map tm_name (ad_targets b) = [tb]" "ta \<noteq> tb"
  shows "\<exists>c rng' fb'. publish_composition [ad_id a, ad_id b] policy rng fb = (Some (Inr c), rng', fb') \<and>
     co_generation c = fb_next_composition_gen fb \<and> co_digest c = compute_digest [member_of a, member_of b] policy \<and>
     co_total_memory_bytes c = ad_memory_bytes a + ad_memory_bytes b"
proof -
  from modules obtain ma mb where "ad_targets a = [ma]" "tm_name ma = ta" "ad_targets b = [mb]" "tm_name mb = tb" by auto
  with modules(3) gens base differ show ?thesis
    by (simp add: publish_composition_def a b builder_add_def CompositionBuilder_new_def bindE_def member_of_def
        builder_build_def case_prod_beta Let_def)
qed

lemma ex_compose_run:
  "case compose_descs rng of (a, b) \<Rightarrow> ex_compose rng =
     (if ad_id a = ad_id b then Some (throw EC_invalid_composition ''duplicate adapter member'')
      else Some (Inr (0, ''composition gen=1 digest='' @ compute_digest [member_of a, member_of b] ''policy-x''
        @ '' totalMem=6000'' @ nl)))"
proof -
  obtain bm rng1 where bm: "Id_generate rng = (bm :: BaseModelId, rng1)" by fastforce
  obtain mr rng2 where mr: "Id_generate rng1 = (mr :: ModelRevisionId, rng2)" by fastforce
  obtain d1 rng3 where d1: "example_adapter ''attn'' ''q_proj'' 4000 [] bm mr rng2 = (d1, rng3)" by fastforce
  obtain d2 rng4 where d2: "example_adapter ''v'' ''v_proj'' 2000 [] bm mr rng3 = (d2, rng4)" by fastforce
  have nn: "\<not> Id_is_nil bm" "\<not> Id_is_nil mr"
    using Id_generate_not_nil [of rng] Id_generate_not_nil [of rng1] by (metis bm mr fst_conv)+
  define a where "a = d1\<lparr>ad_generation := Generation 1\<rparr>"
  define b where "b = d2\<lparr>ad_generation := Generation 2\<rparr>"
  have descs: "compose_descs rng = (a, b)" by (simp add: compose_descs_def bm mr d1 d2 a_def b_def)
  have ids: "\<not> Id_is_nil (ad_id d1)" "\<not> Id_is_nil (ad_id d2)"
    using d1 [symmetric] d2 [symmetric] by (simp_all add: example_adapter_def case_prod_beta Let_def)
  have fields: "ad_base_model d1 = bm" "ad_base_model d2 = bm" "ad_base_model_revision d1 = mr"
      "ad_base_model_revision d2 = mr" "ad_artifact_digest d1 = ''aaa''" "ad_artifact_digest d2 = ''aaa''"
      "ad_memory_bytes d1 = 4000" "ad_memory_bytes d2 = 2000"
      "map tm_name (ad_targets d1) = [''q_proj'']" "map tm_name (ad_targets d2) = [''v_proj'']"
    using d1 [symmetric] d2 [symmetric] by (simp_all add: example_adapter_def case_prod_beta Let_def)
  define f2 where "f2 = Fabric_default\<lparr>fb_next_adapter_gen := Generation 3,
    fb_adapters := smap_set (Id_str (ad_id b)) b [(Id_str (ad_id a), a)]\<rparr>"
  define f1 where "f1 = Fabric_default\<lparr>fb_next_adapter_gen := Generation 2, fb_adapters := [(Id_str (ad_id a), a)]\<rparr>"
  have regs: "register_adapter d1 Fabric_default = (Inr a, f1)" "register_adapter d2 f1 = (Inr b, f2)"
    using ids nn by (simp_all add: register_adapter_def fields a_def b_def f1_def f2_def Fabric_default_def
        Fabric_empty_def gen_next_def uint64_max_def Let_def)
  have run: "ex_compose rng = (case publish_composition [ad_id a, ad_id b] ''policy-x'' rng4 f2 of
       (None, _) \<Rightarrow> None | (Some (Inl e), _) \<Rightarrow> Some (Inl e)
     | (Some (Inr c), _) \<Rightarrow> Some (Inr (0, ''composition gen='' @ gen_str (co_generation c) @ '' digest='' @ co_digest c
         @ '' totalMem='' @ dec_str (unat (co_total_memory_bytes c)) @ nl)))"
    by (simp add: ex_compose_def bm mr d1 d2 regs)
  have total: "dec_str (unat (6000 :: uint64_t)) = ''6000''"
    by (simp add: dec_str.simps [of 6000] dec_str.simps [of 600] dec_str.simps [of 60] dec_str.simps [of 6]
        dec_str.simps [of 0]) (code_simp)
  show ?thesis
  proof (cases "ad_id a = ad_id b")
    case True
    have "adapter (ad_id b) f2 = Some b" by (simp add: adapter_def f2_def True)
    then have "publish_composition [ad_id a, ad_id b] ''policy-x'' rng4 f2 =
        (Some (throw EC_invalid_composition ''duplicate adapter member''), rng4, f2)"
      by (simp add: True publish_composition_def builder_add_def CompositionBuilder_new_def bindE_def throw_def
          member_of_def b_def gen_is_none_def)
    then show ?thesis by (simp add: descs run True throw_def)
  next
    case False
    then have look: "adapter (ad_id a) f2 = Some a" "adapter (ad_id b) f2 = Some b"
      by (simp_all add: adapter_def f2_def)
    obtain c rng' fb' where c: "publish_composition [ad_id a, ad_id b] ''policy-x'' rng4 f2 = (Some (Inr c), rng', fb')"
      "co_generation c = fb_next_composition_gen f2"
      "co_digest c = compute_digest [member_of a, member_of b] ''policy-x''"
      "co_total_memory_bytes c = ad_memory_bytes a + ad_memory_bytes b"
    proof -
      have "\<not> gen_is_none (ad_generation a)" "\<not> gen_is_none (ad_generation b)"
        by (simp_all add: a_def b_def gen_is_none_def)
      moreover have "ad_base_model a = ad_base_model b" "ad_base_model_revision a = ad_base_model_revision b"
        "map tm_name (ad_targets a) = [''q_proj'']" "map tm_name (ad_targets b) = [''v_proj'']"
        by (simp_all add: a_def b_def fields)
      ultimately show ?thesis
        using compose_published [OF look False, of "''q_proj''" "''v_proj''" "''policy-x''" rng4] that by auto
    qed
    have "fb_next_composition_gen f2 = Generation 1" by (simp add: f2_def Fabric_default_def Fabric_empty_def)
    with False c total show ?thesis by (simp add: descs run a_def b_def fields)
  qed
qed

definition consumer_id :: "Rng \<Rightarrow> AdapterId" where
  "consumer_id rng = fst (Id_generate (snd (Id_generate (snd (Id_generate rng :: BaseModelId \<times> Rng)) :: ModelRevisionId \<times> Rng)))"

lemma consumer_run:
  "consumer_main rng = Some (Inr (0,
     ''consumer registered consumer-lora id='' @ Id_str (consumer_id rng) @ '' gen=1'' @ nl
     @ ''Adapter Fabric consumer OK'' @ nl))"
  by (simp add: consumer_main_def consumer_id_def case_prod_beta Let_def register_adapter_def Fabric_default_def
      Fabric_empty_def AdapterDescriptor_default_def)

lemma bench_main_run: "fst (bench_main rng) = Some (0, [])"
  using benchmarks_complete [of rng] by (simp add: bench_main_def case_prod_beta)

text \<open>
  C39: What the example programs do, for every state of the generator: a load with a current fence
  activates and, once idle, evicts; a snapshot brings back the metadata; a migration ends with the
  source released; an invalidation reports the generation it hit; and the restart example returns 0
  with the verdict of the boot check, or 1 exactly when the generator repeats the old boot. The
  benchmark driver always returns 0.
\<close>

text \<open>
  C39: What the example programs and the consumer print and return, for every state of the generator.
  A load with a current fence activates and, once idle, evicts; a snapshot brings back the metadata; a
  migration ends with the source released; an invalidation reports the generation it hit; the text
  and the JSON of the two compatibility examples; the composition of two adapters has generation 1,
  the digest of its members and the sum of their memory; the restart example returns 0 with the
  verdict of the boot check. Where the generator repeats a draw, the other outcome of three examples
  is stated too: the composition is refused as a duplicate, the other revision is the adapter's own,
  the old boot is accepted and the return value is 1. The benchmark driver returns 0 and prints
  nothing to \<open>std::cerr\<close>; its lines of measured times are not modelled. The CUDA example, which runs
  the CUDA proof where there is a device, is not part of this.
\<close>

theorem examples_outcome:
  "ex_load_activate rng = Some (Inr (0, ''activate: OK state=active'' @ nl @ ''evict: OK (evicted)'' @ nl)) \<and>
   ex_invalidate rng = Some (Inr (0,
     ''invalidated: model revision changed underneath prior_gen=1'' @ nl)) \<and>
   ex_persist rng = Some (Inr (0,
     ''recovered adapters=1 (canonical metadata only, no process-local authority)'' @ nl)) \<and>
   ex_migrate = (0, ''migration phase before authority transfer: destination_ready'' @ nl
     @ ''authority promoted: 1 phase=authority_promoted'' @ nl
     @ ''source released: source_released'' @ nl) \<and>
   ex_compat rng = Some (Inr (0, ''text: compatible'' @ nl @ ''json: '' @ compat_json @ nl)) \<and>
   ex_register rng = Some (Inr (0,
     ''registered lora-a id='' @ Id_str (ad_id (example_desc ''lora-a'' [] rng)) @ '' gen=1'' @ nl
     @ ''compatible: compatible'' @ nl @ to_json_report register_report @ nl
     @ (if other_revision rng = ad_base_model_revision (example_desc ''lora-a'' [] rng)
        then ''compatible: compatible''
        else ''incompatible: incompatible: adapter is pinned to a different model revision'') @ nl)) \<and>
   (case compose_descs rng of (a, b) \<Rightarrow> ex_compose rng =
     (if ad_id a = ad_id b then Some (throw EC_invalid_composition ''duplicate adapter member'')
      else Some (Inr (0, ''composition gen=1 digest='' @ compute_digest [member_of a, member_of b] ''policy-x''
        @ '' totalMem=6000'' @ nl)))) \<and>
   ex_restart rng = Some (Inr
     (if snd (restart_boots rng) = fst (restart_boots rng)
      then (1, ''stale boot after restart: ACCEPTED(bad) (fence current)'' @ nl)
      else (0, ''stale boot after restart: rejected (worker boot mismatch)'' @ nl))) \<and>
   consumer_main rng = Some (Inr (0,
     ''consumer registered consumer-lora id='' @ Id_str (consumer_id rng) @ '' gen=1'' @ nl
     @ ''Adapter Fabric consumer OK'' @ nl)) \<and>
   fst (bench_main rng) = Some (0, [])"
  by (intro conjI ex_load_activate_run ex_invalidate_run ex_persist_run ex_migrate_run ex_compat_run
      ex_register_run ex_compose_run ex_restart_run consumer_run bench_main_run)

end
