(* ===== verification/AF_TestKit.thy ===== *)
theory AF_TestKit
  imports AF_Limits AF_Examples
begin

text \<open>
  The test harness and the fixtures (\<open>tests/test.hpp\<close>, \<open>tests/fixtures.hpp\<close>). A test case is a
  function of the state of the process-wide generator; it gives the results of its checks in order,
  whether an exception has left it, and the state of the generator. \<open>run_all\<close> runs the cases of one
  test program and gives its exit code and what it prints to \<open>std::cout\<close>; the text of failed checks
  on \<open>std::cerr\<close> is not part of the model. The counters stay far below the range of an \<open>int\<close>. The unused
  function \<open>current\<close> of \<open>test.hpp\<close> is left out: its body, \<open>return static std::string();\<close>, is not C++, so
  the header has to lose it before a test program compiles. No test passes a format version to
  \<open>make_lora\<close>, so it is the default 1 here.
\<close>

section \<open>The harness\<close>

record TestRun =
  tr_checks :: "bool list"
  tr_uncaught :: bool
  tr_rng :: Rng

type_synonym test = "Rng \<Rightarrow> TestRun"

definition ran :: "bool list \<Rightarrow> Rng \<Rightarrow> TestRun" where
  "ran checks rng = \<lparr>tr_checks = checks, tr_uncaught = False, tr_rng = rng\<rparr>"

definition threw :: "bool list \<Rightarrow> Rng \<Rightarrow> TestRun" where
  "threw checks rng = \<lparr>tr_checks = checks, tr_uncaught = True, tr_rng = rng\<rparr>"

text \<open>\<open>AF_CHECK_THROWS\<close>.\<close>

definition throws :: "Error + 'a \<Rightarrow> bool" where
  "throws r \<longleftrightarrow> (case r of Inl _ \<Rightarrow> True | Inr _ \<Rightarrow> False)"

record Tally =
  ta_checks :: nat
  ta_failures :: nat
  ta_passed :: nat
  ta_out :: string

definition run_case :: "string \<times> test \<Rightarrow> Tally \<times> Rng \<Rightarrow> Tally \<times> Rng" where
  "run_case tc st =
    (let r = snd tc (snd st); t = fst st;
         failed = length (filter Not (tr_checks r)) + (if tr_uncaught r then 1 else 0);
         t1 = t\<lparr>ta_checks := ta_checks t + length (tr_checks r), ta_failures := ta_failures t + failed\<rparr>
     in (if failed = 0
         then t1\<lparr>ta_passed := ta_passed t1 + 1,
                ta_out := ta_out t1 @ ''[PASS] '' @ fst tc @ ''  ('' @ dec_str (length (tr_checks r))
                  @ '' checks)'' @ nl\<rparr>
         else t1\<lparr>ta_out := ta_out t1 @ ''[FAIL] '' @ fst tc @ nl\<rparr>, tr_rng r))"

definition tally_all :: "(string \<times> test) list \<Rightarrow> Rng \<Rightarrow> Tally" where
  "tally_all cases rng =
     fst (fold run_case cases (\<lparr>ta_checks = 0, ta_failures = 0, ta_passed = 0, ta_out = []\<rparr>, rng))"

definition run_all :: "(string \<times> test) list \<Rightarrow> Rng \<Rightarrow> int \<times> string" where
  "run_all cases rng =
    (let t = tally_all cases rng
     in (if ta_failures t = 0 then 0 else 1,
         ta_out t @ nl @ ''TOTAL: '' @ dec_str (ta_checks t) @ '' checks, '' @ dec_str (ta_failures t)
         @ '' failure(s), '' @ dec_str (ta_passed t) @ ''/'' @ dec_str (length cases)
         @ '' test cases passed.'' @ nl))"

section \<open>The fixtures\<close>

definition make_lora ::
    "string \<Rightarrow> BaseModelId \<Rightarrow> ModelRevisionId \<Rightarrow> uint64_t \<Rightarrow> uint32_t \<Rightarrow> Rng \<Rightarrow> AdapterDescriptor \<times> Rng" where
  "make_lora name bm mr mem rank rng =
    (let (i, rng1) = Id_generate rng; (revision, rng2) = Id_generate rng1;
         (artifact, rng3) = Id_generate rng2
     in (AdapterDescriptor_default
          \<lparr>ad_id := i, ad_revision := revision, ad_artifact := artifact,
           ad_artifact_digest := ''0123456789abcdef0123456789abcdef'', ad_kind := AK_lora, ad_name := name,
           ad_base_model := bm, ad_base_model_revision := mr,
           ad_targets := [\<lparr>tm_name = ''q_proj'', tm_in_features = 4096, tm_out_features = 4096,
             tm_shape = [4096, 4096]\<rparr>],
           ad_rank := rank, ad_dtype := DT_f16, ad_param_count := mem div 2, ad_param_bytes := mem div 2,
           ad_memory_bytes := mem, ad_format := ''lora/v1'', ad_format_version := 1,
           ad_generation := Generation 1, ad_validation := VS_valid,
           ad_capabilities := [\<lparr>cap_name = ''sm_120'', cap_value = ''supported'', cap_required = True\<rparr>]\<rparr>,
         rng3))"

definition fixture_target :: "BaseModelId \<Rightarrow> ModelRevisionId \<Rightarrow> CompatibilityTarget" where
  "fixture_target bm mr =
     \<lparr>ct_base_model = bm, ct_base_model_revision = mr, ct_architecture = ''llama'',
      ct_device_arch = ''sm_120'', ct_device = Id_nil,
      ct_runtime_capabilities = smap_set ''sm_120'' ''supported'' (smap_set ''fp16'' ''supported'' []),
      ct_policy = [], ct_policy_generation = Generation 1\<rparr>"

text \<open>\<open>d.targets[0].name = module\<close>.\<close>

definition retarget :: "string \<Rightarrow> AdapterDescriptor \<Rightarrow> AdapterDescriptor" where
  "retarget module d =
     d\<lparr>ad_targets := (case ad_targets d of [] \<Rightarrow> [] | t # ts \<Rightarrow> t\<lparr>tm_name := module\<rparr> # ts)\<rparr>"

section \<open>Draws\<close>

text \<open>
  An identity takes two draws of the generator; \<open>drawn n rng\<close> is the one that starts at draw \<open>n\<close>
  from \<open>rng\<close>.
\<close>

definition drawn :: "nat \<Rightarrow> Rng \<Rightarrow> 'tag Id" where
  "drawn n rng = fst (Id_generate (rng_after n rng))"

lemma rng_after_add [simp]: "rng_after m (rng_after n rng) = rng_after (n + m) rng"
  by (rule Rng.equality) (simp_all add: rng_state_after algebra_simps)

lemma drawn_after [simp]: "drawn m (rng_after n rng) = drawn (n + m) rng"
  by (simp add: drawn_def)

lemma Id_generate_drawn: "Id_generate rng = (drawn 0 rng, rng_after 2 rng)"
  by (rule prod_eqI) (auto simp: drawn_def generate_byte(2) rng_state_after intro!: Rng.equality)

lemma drawn_not_nil [simp]: "\<not> Id_is_nil (drawn n rng)"
  by (simp add: drawn_def Id_generate_not_nil)

lemma drawn_distinct:
  assumes "(ucast (splitmix (rng_state rng + of_nat (Suc m) * 0x9E3779B97F4A7C15)) :: byte) \<noteq>
    ucast (splitmix (rng_state rng + of_nat (Suc n) * 0x9E3779B97F4A7C15))"
  shows "drawn m rng \<noteq> drawn n rng"
  unfolding drawn_def by (rule generate_distinct) (use assms in \<open>simp add: rng_state_after algebra_simps\<close>)

text \<open>The fixture adapter made at \<open>rng\<close>.\<close>

definition lora :: "string \<Rightarrow> BaseModelId \<Rightarrow> ModelRevisionId \<Rightarrow> uint64_t \<Rightarrow> uint32_t \<Rightarrow> Rng \<Rightarrow> AdapterDescriptor" where
  "lora name bm mr mem rank rng = fst (make_lora name bm mr mem rank rng)"

lemma make_lora_lora: "make_lora name bm mr mem rank rng = (lora name bm mr mem rank rng, rng_after 6 rng)"
  by (simp add: lora_def make_lora_def Id_generate_drawn)

lemma lora_simps [simp]:
  "ad_id (lora name bm mr mem rank rng) = drawn 0 rng"
  "ad_base_model (lora name bm mr mem rank rng) = bm"
  "ad_base_model_revision (lora name bm mr mem rank rng) = mr"
  "ad_targets (lora name bm mr mem rank rng) = [\<lparr>tm_name = ''q_proj'', tm_in_features = 4096,
     tm_out_features = 4096, tm_shape = [4096, 4096]\<rparr>]"
  "ad_rank (lora name bm mr mem rank rng) = rank" "ad_kind (lora name bm mr mem rank rng) = AK_lora"
  "ad_dtype (lora name bm mr mem rank rng) = DT_f16"
  "ad_capabilities (lora name bm mr mem rank rng) =
     [\<lparr>cap_name = ''sm_120'', cap_value = ''supported'', cap_required = True\<rparr>]"
  "ad_dependencies (lora name bm mr mem rank rng) = []"
  "ad_artifact_digest (lora name bm mr mem rank rng) = ''0123456789abcdef0123456789abcdef''"
  "ad_memory_bytes (lora name bm mr mem rank rng) = mem"
  "ad_generation (lora name bm mr mem rank rng) = Generation 1"
  by (simp_all add: lora_def make_lora_def Id_generate_drawn AdapterDescriptor_default_def)

section \<open>Runs that pass\<close>

text \<open>
  \<open>passes n k rng t\<close>: from \<open>rng\<close> the case \<open>t\<close> makes \<open>n\<close> checks that all hold, no exception leaves
  it, and it takes \<open>k\<close> draws.
\<close>

definition passes :: "nat \<Rightarrow> nat \<Rightarrow> Rng \<Rightarrow> test \<Rightarrow> bool" where
  "passes n k rng t \<longleftrightarrow> (\<exists>cs. t rng = ran cs (rng_after k rng) \<and> length cs = n \<and> (\<forall>c \<in> set cs. c))"

fun all_pass :: "(nat \<times> nat \<times> string \<times> test) list \<Rightarrow> Rng \<Rightarrow> bool" where
  "all_pass [] rng \<longleftrightarrow> True"
| "all_pass ((n, k, name, t) # cs) rng \<longleftrightarrow> passes n k rng t \<and> all_pass cs (rng_after k rng)"

lemma ran_simps [simp]:
  "tr_checks (ran cs rng) = cs" "tr_uncaught (ran cs rng) = False" "tr_rng (ran cs rng) = rng"
  "ran cs rng = ran cs' rng' \<longleftrightarrow> cs = cs' \<and> rng = rng'"
  by (simp_all add: ran_def)

lemma passesI: "t rng = ran cs (rng_after k rng) \<Longrightarrow> length cs = n \<Longrightarrow> \<forall>c \<in> set cs. c \<Longrightarrow> passes n k rng t"
  by (auto simp: passes_def)

definition pass_line :: "nat \<times> nat \<times> string \<times> test \<Rightarrow> string" where
  "pass_line c = ''[PASS] '' @ fst (snd (snd c)) @ ''  ('' @ dec_str (fst c) @ '' checks)'' @ nl"

lemma run_case_passes:
  assumes "passes n k (snd st) t"
  shows "run_case (name, t) st =
    ((fst st)\<lparr>ta_checks := ta_checks (fst st) + n, ta_passed := ta_passed (fst st) + 1,
       ta_out := ta_out (fst st) @ pass_line (n, k, name, t)\<rparr>, rng_after k (snd st))"
proof -
  obtain cs where "t (snd st) = ran cs (rng_after k (snd st))" "length cs = n" "\<forall>c \<in> set cs. c"
    using assms by (auto simp: passes_def)
  moreover from this have "filter Not cs = []" by (simp add: filter_empty_conv)
  ultimately show ?thesis by (simp add: run_case_def pass_line_def Let_def)
qed

lemma fold_run_case:
  "all_pass cs rng \<Longrightarrow> \<exists>rng'. fold run_case (map (\<lambda>c. snd (snd c)) cs) (t, rng) =
    (t\<lparr>ta_checks := ta_checks t + sum_list (map fst cs), ta_passed := ta_passed t + length cs,
       ta_out := ta_out t @ concat (map pass_line cs)\<rparr>, rng')"
proof (induction cs rng arbitrary: t rule: all_pass.induct)
  case (2 n k name tst cs rng)
  let ?t = "t\<lparr>ta_checks := ta_checks t + n, ta_passed := ta_passed t + 1,
    ta_out := ta_out t @ pass_line (n, k, name, tst)\<rparr>"
  have "run_case (name, tst) (t, rng) = (?t, rng_after k rng)"
    using 2 run_case_passes [of n k "(t, rng)" tst name] by simp
  moreover obtain rng' where "fold run_case (map (\<lambda>c. snd (snd c)) cs) (?t, rng_after k rng) =
      (?t\<lparr>ta_checks := ta_checks ?t + sum_list (map fst cs), ta_passed := ta_passed ?t + length cs,
        ta_out := ta_out ?t @ concat (map pass_line cs)\<rparr>, rng')"
    using "2.IH" [of ?t] 2 by auto
  ultimately show ?case by (simp add: ac_simps)
qed simp

lemma tally_all_passes:
  assumes "all_pass cs rng"
  shows "tally_all (map (\<lambda>c. snd (snd c)) cs) rng = \<lparr>ta_checks = sum_list (map fst cs), ta_failures = 0,
    ta_passed = length cs, ta_out = concat (map pass_line cs)\<rparr>"
  using fold_run_case [OF assms, of "\<lparr>ta_checks = 0, ta_failures = 0, ta_passed = 0, ta_out = []\<rparr>"]
  by (auto simp: tally_all_def)

text \<open>The exit code and what the tally of a program says in short.\<close>

definition outcome :: "(string \<times> test) list \<Rightarrow> Rng \<Rightarrow> int \<times> nat \<times> nat \<times> nat" where
  "outcome cases rng = (let t = tally_all cases rng
     in (fst (run_all cases rng), ta_checks t, ta_failures t, ta_passed t))"

lemma outcome_passes:
  "all_pass cs rng \<Longrightarrow> outcome (map (\<lambda>c. snd (snd c)) cs) rng = (0, sum_list (map fst cs), 0, length cs)"
  by (simp add: outcome_def run_all_def tally_all_passes Let_def)

lemma throws_simps [simp]: "throws (Inl e)" "\<not> throws (Inr x)" "throws (throw code what)"
  by (simp_all add: throws_def throw_def)

end
