(* ===== verification/AF_Tests.thy ===== *)
theory AF_Tests
  imports AF_TestKit
begin

text \<open>
  The test programs of the components that need no fabric (\<open>tests/test_identity.cpp\<close>,
  \<open>test_generation.cpp\<close>, \<open>test_lifecycle.cpp\<close>, \<open>test_compatibility.cpp\<close>,
  \<open>test_composition.cpp\<close>, \<open>test_migration.cpp\<close>, \<open>test_capacity.cpp\<close>, \<open>test_property.cpp\<close>), case by
  case. Each case is shown to pass, for every state of the generator or under the condition that the
  identities it draws differ.
\<close>

section \<open>Identities\<close>

definition identity_roundtrip_checks :: "AdapterId \<Rightarrow> bool list" where
  "identity_roundtrip_checks i =
    (let parsed = (Id_parse (Id_str i) :: string + AdapterId)
     in [\<not> Id_is_nil i, \<not> isl parsed] @ (case parsed of Inl _ \<Rightarrow> [] | Inr j \<Rightarrow> [j = i]))"

definition identity_non_nil_and_roundtrip :: test where
  "identity_non_nil_and_roundtrip rng =
    (let (i, rng1) = Id_generate rng in ran (identity_roundtrip_checks i @ [length (Id_str i) = 36]) rng1)"

definition identity_deterministic_generation :: test where
  "identity_deterministic_generation rng =
    (let (u1, a) = Uuid_generate \<lparr>rng_state = 42\<rparr>; (u2, b) = Uuid_generate \<lparr>rng_state = 42\<rparr>
     in ran [u1 = u2, \<not> Uuid_is_nil u1] rng)"

definition identity_never_reuse_after_generation_change :: test where
  "identity_never_reuse_after_generation_change rng =
    (let (id1 :: AdapterId, rng1) = Id_generate rng; (id2, rng2) = Id_generate rng1
     in ran [id1 \<noteq> id2, \<not> Id_is_nil id1 \<and> \<not> Id_is_nil id2] rng2)"

definition identity_nil_is_distinct :: test where
  "identity_nil_is_distinct rng =
    (let n = Id_nil :: AdapterId
     in ran [Id_is_nil n, \<not> isl (Id_parse (Id_str n) :: string + AdapterId)] rng)"

definition uuid_parse_rejects_bad :: test where
  "uuid_parse_rejects_bad rng =
     ran [isl (Uuid_parse ''not-a-uuid-no-way''), isl (Uuid_parse ''1234567890abcdef1234567890abcdef'')] rng"

definition test_identity :: "(string \<times> test) list" where
  "test_identity =
    [(''identity_non_nil_and_roundtrip'', identity_non_nil_and_roundtrip),
     (''identity_deterministic_generation'', identity_deterministic_generation),
     (''identity_never_reuse_after_generation_change'', identity_never_reuse_after_generation_change),
     (''identity_nil_is_distinct'', identity_nil_is_distinct),
     (''uuid_parse_rejects_bad'', uuid_parse_rejects_bad)]"

section \<open>Generations\<close>

definition generation_starts_none :: test where
  "generation_starts_none rng =
    (let g = gen_none :: AdapterGeneration in ran [gen_is_none g, gen_value g = 0] rng)"

text \<open>The loops of two tests: a step up is later and never none.\<close>

fun climb :: "nat \<Rightarrow> AdapterGeneration \<Rightarrow> bool list" where
  "climb 0 g = []"
| "climb (Suc k) g = (let n = gen_next g in [gen_less g n, \<not> gen_is_none n] @ climb k n)"

definition generation_next_never_returns_to_none :: test where
  "generation_next_never_returns_to_none rng =
    (let g1 = gen_next (gen_none :: AdapterGeneration)
     in ran ([gen_value g1 = 1, \<not> gen_is_none g1] @ climb 1000 g1) rng)"

definition generation_wraps_max_but_not_to_zero :: test where
  "generation_wraps_max_but_not_to_zero rng =
    (let n = gen_next (Generation uint64_max :: AdapterGeneration)
     in ran [gen_value n = uint64_max, \<not> gen_is_none n] rng)"

definition test_generation :: "(string \<times> test) list" where
  "test_generation =
    [(''generation_starts_none'', generation_starts_none),
     (''generation_next_never_returns_to_none'', generation_next_never_returns_to_none),
     (''generation_wraps_max_but_not_to_zero'', generation_wraps_max_but_not_to_zero)]"

section \<open>Lifecycle\<close>

text \<open>Transitions one after the other, each of which may throw.\<close>

fun transitions :: "LifecycleState list \<Rightarrow> Lifecycle \<Rightarrow> (Error + unit) \<times> Lifecycle" where
  "transitions [] lc = (Inr (), lc)"
| "transitions (s # ss) lc =
     (case transition_to s lc of (Inl e, lc') \<Rightarrow> (Inl e, lc') | (Inr _, lc') \<Rightarrow> transitions ss lc')"

definition lifecycle_hashmap_transitions :: test where
  "lifecycle_hashmap_transitions rng =
    (let c0 = [lc_state Lifecycle_init = L_declared] in
     case transitions [L_validating, L_valid, L_loading, L_loaded, L_ready, L_active, L_deactivating,
         L_ready] Lifecycle_init of
       (Inl e, lc) \<Rightarrow> threw c0 rng
     | (Inr _, lc) \<Rightarrow> ran (c0 @ [lc_state lc = L_ready]) rng)"

definition lifecycle_invalid_transition_rejected :: test where
  "lifecycle_invalid_transition_rejected rng =
    (let (r1, lc1) = transition_to L_active Lifecycle_init;
         c1 = [throws r1, lc_state lc1 = L_declared]
     in case transition_to L_validating lc1 of
          (Inl e, lc2) \<Rightarrow> threw c1 rng
        | (Inr _, lc2) \<Rightarrow>
            let (r3, lc3) = transition_to L_active lc2
            in ran (c1 @ [throws r3, lc_state lc3 = L_validating]) rng)"

definition lifecycle_deterministic_table :: test where
  "lifecycle_deterministic_table rng = ran
    [lifecycle_can_transition L_ready L_active, \<not> lifecycle_can_transition L_active L_declared,
     lifecycle_can_transition L_active L_deactivating, lifecycle_can_transition L_stale L_validating,
     lifecycle_can_transition L_invalidated L_declared, \<not> lifecycle_can_transition L_retired L_active] rng"

definition test_lifecycle :: "(string \<times> test) list" where
  "test_lifecycle =
    [(''lifecycle_hashmap_transitions'', lifecycle_hashmap_transitions),
     (''lifecycle_invalid_transition_rejected'', lifecycle_invalid_transition_rejected),
     (''lifecycle_deterministic_table'', lifecycle_deterministic_table)]"

section \<open>Migration\<close>

text \<open>The results of advances one after the other.\<close>

fun advances :: "MigrationPhase list \<Rightarrow> MigrationStateMachine \<Rightarrow> bool list \<times> MigrationStateMachine" where
  "advances [] m = ([], m)"
| "advances (p # ps) m = (let (good, m1) = advance p m; (goods, m2) = advances ps m1 in (good # goods, m2))"

definition migration_valid_sequence :: test where
  "migration_valid_sequence rng =
    (let m = MigrationStateMachine_new False;
         (goods, m1) = advances [P_source_validated, P_destination_reserved, P_transferring, P_verifying,
           P_destination_ready, P_authority_promoted, P_source_retired, P_source_released] m
     in ran ([ms_phase m = P_not_started] @ goods @ [\<not> fst (advance P_not_started m1)]) rng)"

definition before_promotion :: "bool \<Rightarrow> MigrationStateMachine" where
  "before_promotion destructive = snd (advances [P_source_validated, P_destination_reserved,
     P_transferring, P_verifying] (MigrationStateMachine_new destructive))"

definition migration_skipping_dest_ready_blocked :: test where
  "migration_skipping_dest_ready_blocked rng =
    (let (skipped, m1) = advance P_authority_promoted (before_promotion False);
         (goods, m2) = advances [P_destination_ready, P_authority_promoted] m1
     in ran ((\<not> skipped) # goods) rng)"

definition migration_destructive_skips_dest_ready :: test where
  "migration_destructive_skips_dest_ready rng =
     ran [fst (advance P_authority_promoted (before_promotion True))] rng"

definition migration_abort_allowed_early :: test where
  "migration_abort_allowed_early rng =
    (let (goods, m) = advances [P_source_validated, P_aborted] (MigrationStateMachine_new False)
     in ran (goods @ [\<not> fst (advance P_destination_reserved m)]) rng)"

definition test_migration :: "(string \<times> test) list" where
  "test_migration =
    [(''migration_valid_sequence'', migration_valid_sequence),
     (''migration_skipping_dest_ready_blocked'', migration_skipping_dest_ready_blocked),
     (''migration_destructive_skips_dest_ready'', migration_destructive_skips_dest_ready),
     (''migration_abort_allowed_early'', migration_abort_allowed_early)]"

section \<open>Compatibility\<close>

text \<open>An adapter for \<open>bm\<close>, \<open>mr\<close> against a target made from both.\<close>

definition compat_case ::
    "(BaseModelId \<Rightarrow> ModelRevisionId \<Rightarrow> Rng \<Rightarrow> CompatibilityTarget \<times> Rng) \<Rightarrow> uint32_t \<Rightarrow>
     (CompatibilityReport \<Rightarrow> bool list) \<Rightarrow> test" where
  "compat_case target rank checks rng =
    (let (bm, rng1) = Id_generate rng; (mr, rng2) = Id_generate rng1;
         (t, rng3) = target bm mr rng2; (d, rng4) = make_lora ''a'' bm mr 4096 rank rng3
     in ran (checks (evaluate_compatibility d t)) rng4)"

definition own_target :: "BaseModelId \<Rightarrow> ModelRevisionId \<Rightarrow> Rng \<Rightarrow> CompatibilityTarget \<times> Rng" where
  "own_target bm mr rng = (fixture_target bm mr, rng)"

definition compat_compatible_is_accepted :: test where
  "compat_compatible_is_accepted = compat_case own_target 8 (\<lambda>rep.
     [cr_compatible rep, \<not> has_rejections (cr_factors rep), cr_summary rep = ''compatible''])"

definition compat_wrong_revision_rejected_with_reason :: test where
  "compat_wrong_revision_rejected_with_reason = compat_case
     (\<lambda>bm mr rng. let (other, rng1) = Id_generate rng in (fixture_target bm other, rng1)) 8 (\<lambda>rep.
     [\<not> cr_compatible rep, has_rejections (cr_factors rep),
      cr_summary rep = ''incompatible: adapter is pinned to a different model revision''])"

text \<open>Here the other base model is drawn between the two identities.\<close>

definition compat_wrong_base_model_rejected :: test where
  "compat_wrong_base_model_rejected rng =
    (let (bm, rng1) = Id_generate rng; (other_bm, rng2) = Id_generate rng1; (mr, rng3) = Id_generate rng2;
         (d, rng4) = make_lora ''a'' bm mr 4096 8 rng3;
         rep = evaluate_compatibility d (fixture_target other_bm mr)
     in ran [\<not> cr_compatible rep, has_rejections (cr_factors rep)] rng4)"

definition compat_missing_half_precision_rejected :: test where
  "compat_missing_half_precision_rejected = compat_case
     (\<lambda>bm mr rng. let t = fixture_target bm mr in
        (t\<lparr>ct_runtime_capabilities := smap_set ''fp16'' ''unsupported'' (ct_runtime_capabilities t)\<rparr>, rng)) 8
     (\<lambda>rep. [\<not> cr_compatible rep, has_rejections (cr_factors rep),
             first_rejection_reason (cr_factors rep) \<noteq> []])"

definition compat_zero_rank_rejected :: test where
  "compat_zero_rank_rejected = compat_case own_target 0 (\<lambda>rep.
     [\<not> cr_compatible rep, has_rejections (cr_factors rep)])"

text \<open>\<open>std::string::find\<close> gives a position.\<close>

fun occurs_in :: "string \<Rightarrow> string \<Rightarrow> bool" where
  "occurs_in s [] \<longleftrightarrow> s = []"
| "occurs_in s (c # cs) \<longleftrightarrow> take (length s) (c # cs) = s \<or> occurs_in s cs"

definition compat_json_escapes_deterministically :: test where
  "compat_json_escapes_deterministically = compat_case own_target 8 (\<lambda>rep.
     let j1 = to_json_report rep; j2 = to_json_report rep
     in [j1 = j2, occurs_in (CHR 0x22 # ''compatible'' @ [CHR 0x22] @ '':true'') j1 \<or> occurs_in ''compatible'' j1])"

definition test_compatibility :: "(string \<times> test) list" where
  "test_compatibility =
    [(''compat_compatible_is_accepted'', compat_compatible_is_accepted),
     (''compat_wrong_revision_rejected_with_reason'', compat_wrong_revision_rejected_with_reason),
     (''compat_wrong_base_model_rejected'', compat_wrong_base_model_rejected),
     (''compat_missing_half_precision_rejected'', compat_missing_half_precision_rejected),
     (''compat_zero_rank_rejected'', compat_zero_rank_rejected),
     (''compat_json_escapes_deterministically'', compat_json_escapes_deterministically)]"

section \<open>Composition\<close>

text \<open>A builder, two members, \<open>build\<close>; undefined behaviour would count as an exception.\<close>

definition build_two ::
    "string \<Rightarrow> BaseModelId \<Rightarrow> ModelRevisionId \<Rightarrow> AdapterDescriptor \<Rightarrow> AdapterDescriptor \<Rightarrow> Rng \<Rightarrow>
     (Error + Composition) option \<times> Rng" where
  "build_two policy bm mr d1 d2 rng =
    (case bindE (builder_add d1 (CompositionBuilder_new bm mr policy (Generation 1))) (builder_add d2) of
       Inl e \<Rightarrow> (Some (Inl e), rng)
     | Inr b \<Rightarrow> builder_build b rng)"

definition compose_valid_is_deterministic :: test where
  "compose_valid_is_deterministic rng =
    (let (bm, rng1) = Id_generate rng; (mr, rng2) = Id_generate rng1;
         (d1, rng3) = make_lora ''a'' bm mr 4096 8 rng2; (d2', rng4) = make_lora ''b'' bm mr 4096 8 rng3;
         d2 = (retarget ''v_proj'' d2')\<lparr>ad_memory_bytes := 2048\<rparr>
     in case build_two ''policy-x'' bm mr d1 d2 rng4 of
          (Some (Inr c), rng5) \<Rightarrow>
            let checks = [co_is_valid c, length (co_members c) = 2,
                          co_total_memory_bytes c = ad_memory_bytes d1 + ad_memory_bytes d2]
            in (case build_two ''policy-x'' bm mr d1 d2 rng5 of
                  (Some (Inr c2), rng6) \<Rightarrow> ran (checks @ [co_digest c = co_digest c2]) rng6
                | (_, rng6) \<Rightarrow> threw checks rng6)
        | (_, rng5) \<Rightarrow> threw [] rng5)"

definition compose_duplicate_member_rejected :: test where
  "compose_duplicate_member_rejected rng =
    (let (bm, rng1) = Id_generate rng; (mr, rng2) = Id_generate rng1;
         (d1, rng3) = make_lora ''a'' bm mr 4096 8 rng2
     in case builder_add d1 (CompositionBuilder_new bm mr ''p'' (Generation 1)) of
          Inl e \<Rightarrow> threw [] rng3
        | Inr b \<Rightarrow> ran [throws (builder_add d1 b)] rng3)"

definition compose_base_model_mismatch_rejected :: test where
  "compose_base_model_mismatch_rejected rng =
    (let (bm, rng1) = Id_generate rng; (mr, rng2) = Id_generate rng1; (other, rng3) = Id_generate rng2;
         (d1, rng4) = make_lora ''a'' bm mr 4096 8 rng3; (d2, rng5) = make_lora ''b'' other mr 4096 8 rng4
     in case builder_add d1 (CompositionBuilder_new bm mr ''p'' (Generation 1)) of
          Inl e \<Rightarrow> threw [] rng5
        | Inr b \<Rightarrow> ran [throws (builder_add (retarget ''v_proj'' d2) b)] rng5)"

definition compose_conflicting_target_module_rejected :: test where
  "compose_conflicting_target_module_rejected rng =
    (let (bm, rng1) = Id_generate rng; (mr, rng2) = Id_generate rng1;
         (d1, rng3) = make_lora ''a'' bm mr 4096 8 rng2; (d2, rng4) = make_lora ''b'' bm mr 4096 8 rng3
     in case bindE (builder_add d1 (CompositionBuilder_new bm mr ''p'' (Generation 1))) (builder_add d2) of
          Inl e \<Rightarrow> threw [] rng4
        | Inr b \<Rightarrow> (case builder_build b rng4 of
            (None, rng5) \<Rightarrow> threw [] rng5 | (Some r, rng5) \<Rightarrow> ran [throws r] rng5))"

definition compose_empty_rejected :: test where
  "compose_empty_rejected rng =
    (let (bm, rng1) = Id_generate rng; (mr, rng2) = Id_generate rng1
     in case builder_build (CompositionBuilder_new bm mr ''p'' (Generation 1)) rng2 of
          (None, rng3) \<Rightarrow> threw [] rng3 | (Some r, rng3) \<Rightarrow> ran [throws r] rng3)"

definition test_composition :: "(string \<times> test) list" where
  "test_composition =
    [(''compose_valid_is_deterministic'', compose_valid_is_deterministic),
     (''compose_duplicate_member_rejected'', compose_duplicate_member_rejected),
     (''compose_base_model_mismatch_rejected'', compose_base_model_mismatch_rejected),
     (''compose_conflicting_target_module_rejected'', compose_conflicting_target_module_rejected),
     (''compose_empty_rejected'', compose_empty_rejected)]"

section \<open>Capacity\<close>

abbreviation "on_device \<equiv> LOC_device_memory"

definition device_limit :: "uint64_t \<Rightarrow> CapacityAccountant" where
  "device_limit n = CapacityAccountant_new [(on_device, n)]"

definition capacity_reserve_release_clean :: test where
  "capacity_reserve_release_clean rng =
    (let cap = device_limit 1024; c0 = [is_clean cap] in
     case reserve on_device 512 ''a'' cap of
       (Inl e, _) \<Rightarrow> threw c0 rng
     | (Inr _, cap1) \<Rightarrow>
         let c1 = c0 @ [\<not> is_clean cap1, used cap1 on_device = 512, free cap1 on_device = 512] in
         (case release on_device 512 ''a'' cap1 of
            (Inl e, _) \<Rightarrow> threw c1 rng
          | (Inr _, cap2) \<Rightarrow> ran (c1 @ [is_clean cap2, used cap2 on_device = 0]) rng))"

definition capacity_overcommit_rejected :: test where
  "capacity_overcommit_rejected rng =
    (case reserve on_device 100 ''a'' (device_limit 100) of
       (Inl e, _) \<Rightarrow> threw [] rng
     | (Inr _, cap) \<Rightarrow>
         let (r, cap1) = reserve on_device 1 ''b'' cap in ran [throws r, over_limit cap1 on_device = False] rng)"

definition capacity_double_reservation_rejected :: test where
  "capacity_double_reservation_rejected rng =
    (case reserve on_device 100 ''a'' (device_limit 200) of
       (Inl e, _) \<Rightarrow> threw [] rng
     | (Inr _, cap) \<Rightarrow> ran [throws (fst (reserve on_device 100 ''a'' cap))] rng)"

definition capacity_double_release_rejected :: test where
  "capacity_double_release_rejected rng =
    (case reserve on_device 100 ''a'' (device_limit 200) of
       (Inl e, _) \<Rightarrow> threw [] rng
     | (Inr _, cap) \<Rightarrow>
       (case release on_device 100 ''a'' cap of
          (Inl e, _) \<Rightarrow> threw [] rng
        | (Inr _, cap1) \<Rightarrow> ran [throws (fst (release on_device 100 ''a'' cap1))] rng))"

definition capacity_underflow_rejected :: test where
  "capacity_underflow_rejected rng =
    (case reserve on_device 50 ''a'' (device_limit 200) of
       (Inl e, _) \<Rightarrow> threw [] rng
     | (Inr _, cap) \<Rightarrow> ran [throws (fst (release on_device 100 ''a'' cap))] rng)"

definition test_capacity :: "(string \<times> test) list" where
  "test_capacity =
    [(''capacity_reserve_release_clean'', capacity_reserve_release_clean),
     (''capacity_overcommit_rejected'', capacity_overcommit_rejected),
     (''capacity_double_reservation_rejected'', capacity_double_reservation_rejected),
     (''capacity_double_release_rejected'', capacity_double_release_rejected),
     (''capacity_underflow_rejected'', capacity_underflow_rejected)]"

section \<open>Properties over many draws\<close>

fun identity_rounds :: "nat \<Rightarrow> Rng \<Rightarrow> bool list" where
  "identity_rounds 0 r = []"
| "identity_rounds (Suc k) r = (let (i, r1) = Id_generate r in identity_roundtrip_checks i @ identity_rounds k r1)"

definition property_identities_roundtrip_always_non_nil :: test where
  "property_identities_roundtrip_always_non_nil rng = ran (identity_rounds 2000 \<lparr>rng_state = 0xC0FFEE\<rparr>) rng"

definition property_generation_monotonic :: test where
  "property_generation_monotonic rng = ran (climb 5000 (Generation 1)) rng"

text \<open>The rounds from number \<open>i\<close> on; \<open>None\<close> is an exception.\<close>

fun capacity_rounds :: "nat \<Rightarrow> nat \<Rightarrow> Rng \<Rightarrow> CapacityAccountant \<Rightarrow> CapacityAccountant option" where
  "capacity_rounds 0 i r cap = Some cap"
| "capacity_rounds (Suc k) i r cap =
    (let (v, r1) = rng_next r; n = 1 + v mod 4096; owner = ''owner'' @ dec_str i in
     case reserve on_device n owner cap of
       (Inl e, _) \<Rightarrow> None
     | (Inr _, cap1) \<Rightarrow>
       (case release on_device n owner cap1 of
          (Inl e, _) \<Rightarrow> None
        | (Inr _, cap2) \<Rightarrow> capacity_rounds k (Suc i) r1 cap2))"

definition property_capacity_returns_to_baseline :: test where
  "property_capacity_returns_to_baseline rng =
    (case capacity_rounds 2000 0 \<lparr>rng_state = 7\<rparr> (device_limit (push_bit 20 1)) of
       None \<Rightarrow> threw [] rng
     | Some cap \<Rightarrow> ran [is_clean cap, used cap on_device = 0] rng)"

text \<open>The digests of one build after the other, each compared with the first.\<close>

fun digest_rounds ::
    "nat \<Rightarrow> (Rng \<Rightarrow> (Error + Composition) option \<times> Rng) \<Rightarrow> string option \<Rightarrow> bool list \<Rightarrow> test" where
  "digest_rounds 0 build first checks rng = ran checks rng"
| "digest_rounds (Suc k) build first checks rng =
    (case build rng of
       (Some (Inr c), rng1) \<Rightarrow>
         (case first of
            None \<Rightarrow> digest_rounds k build (Some (co_digest c)) checks rng1
          | Some d \<Rightarrow> digest_rounds k build first (checks @ [co_digest c = d]) rng1)
     | (_, rng1) \<Rightarrow> threw checks rng1)"

definition property_composition_digest_idempotent :: test where
  "property_composition_digest_idempotent rng =
    (let (bm, rng1) = Id_generate rng; (mr, rng2) = Id_generate rng1;
         (d1, rng3) = make_lora ''a'' bm mr 4096 8 rng2; (d2, rng4) = make_lora ''b'' bm mr 4096 8 rng3
     in digest_rounds 50 (build_two ''policy'' bm mr d1 (retarget ''v_proj'' d2)) None [] rng4)"

definition test_property :: "(string \<times> test) list" where
  "test_property =
    [(''property_identities_roundtrip_always_non_nil'', property_identities_roundtrip_always_non_nil),
     (''property_generation_monotonic'', property_generation_monotonic),
     (''property_capacity_returns_to_baseline'', property_capacity_returns_to_baseline),
     (''property_composition_digest_idempotent'', property_composition_digest_idempotent)]"

section \<open>These pass\<close>

lemma identity_checks_pass:
  "\<not> Id_is_nil i \<Longrightarrow> identity_roundtrip_checks i = [True, True, True]"
  by (simp add: identity_roundtrip_checks_def)

lemma climb_passes:
  "unat (gen_value g) + k < 2 ^ 64 - 1 \<Longrightarrow> climb k g = replicate (2 * k) True"
proof (induction k arbitrary: g)
  case (Suc k)
  then have n: "unat (gen_value (gen_next g)) = unat (gen_value g) + 1" by (simp add: gen_next_value)
  then have "gen_less g (gen_next g)" "\<not> gen_is_none (gen_next g)"
    by (auto simp: gen_less_def word_less_nat_alt gen_is_none_def)
  with Suc n show ?case by (simp add: Let_def)
qed simp

text \<open>Evaluation of a case: its draws, its lets and its shape.\<close>

lemmas case_run = passes_def Id_generate_drawn make_lora_lora Let_def

lemma identity_passes:
  "passes 4 2 rng identity_non_nil_and_roundtrip" "passes 2 0 rng identity_deterministic_generation"
  "passes 2 0 rng identity_nil_is_distinct" "passes 2 0 rng uuid_parse_rejects_bad"
  "drawn 0 rng \<noteq> (drawn 2 rng :: AdapterId) \<Longrightarrow> passes 2 4 rng identity_never_reuse_after_generation_change"
proof -
  have "isl (Uuid_parse ''not-a-uuid-no-way'')" "isl (Uuid_parse ''1234567890abcdef1234567890abcdef'')"
    by code_simp+
  then show "passes 2 0 rng uuid_parse_rejects_bad" by (simp add: passes_def uuid_parse_rejects_bad_def)
qed (simp_all add: case_run identity_non_nil_and_roundtrip_def identity_checks_pass
    identity_deterministic_generation_def identity_nil_is_distinct_def Uuid_generate_not_nil split_beta
    identity_never_reuse_after_generation_change_def)

lemma generation_passes:
  "passes 2 0 rng generation_starts_none" "passes 2002 0 rng generation_next_never_returns_to_none"
  "passes 2 0 rng generation_wraps_max_but_not_to_zero"
  by (simp_all add: case_run generation_starts_none_def generation_next_never_returns_to_none_def
      generation_wraps_max_but_not_to_zero_def climb_passes gen_next_def gen_none_def gen_is_none_def
      uint64_max_def del: climb.simps)

lemma lifecycle_passes:
  "passes 2 0 rng lifecycle_hashmap_transitions" "passes 4 0 rng lifecycle_invalid_transition_rejected"
  "passes 6 0 rng lifecycle_deterministic_table"
  by (simp_all add: case_run lifecycle_hashmap_transitions_def lifecycle_invalid_transition_rejected_def
      lifecycle_deterministic_table_def Lifecycle_init_def transition_to_def
      lifecycle_validate_transition_def lifecycle_can_transition_def throw_def)

lemma migration_passes:
  "passes 10 0 rng migration_valid_sequence" "passes 3 0 rng migration_skipping_dest_ready_blocked"
  "passes 1 0 rng migration_destructive_skips_dest_ready" "passes 3 0 rng migration_abort_allowed_early"
  by (simp_all add: case_run migration_valid_sequence_def migration_skipping_dest_ready_blocked_def
      migration_destructive_skips_dest_ready_def migration_abort_allowed_early_def before_promotion_def
      MigrationStateMachine_new_def advance_def can_advance_def phase_terminal_def)

section \<open>Compatibility and composition pass\<close>

text \<open>What a fixture adapter is compatible with.\<close>

lemma lora_compatible:
  assumes "\<not> Id_is_nil bm" and "\<not> Id_is_nil mr"
  shows "compatible_spec (lora name bm mr mem rank rng) (fixture_target bm' mr') \<longleftrightarrow>
      bm = bm' \<and> mr = mr' \<and> rank \<noteq> 0"
    "\<not> compatible_spec (lora name bm mr mem rank rng)
      ((fixture_target bm mr)\<lparr>ct_runtime_capabilities := smap_set ''fp16'' ''unsupported''
         (ct_runtime_capabilities (fixture_target bm mr))\<rparr>)"
  using assms
  by (auto simp: compatible_spec_def fixture_target_def dtype_supported_def capability_supported_def)

lemma report_of:
  "cr_compatible (evaluate_compatibility d t) \<longleftrightarrow> compatible_spec d t"
  "has_rejections (cr_factors (evaluate_compatibility d t)) \<longleftrightarrow> \<not> compatible_spec d t"
  "cr_summary (evaluate_compatibility d t) = (if compatible_spec d t then ''compatible''
     else ''incompatible: '' @ first_rejection_reason (compat_factors d t))"
  "first_rejection_reason (cr_factors (evaluate_compatibility d t)) = first_rejection_reason (compat_factors d t)"
  by (simp_all add: evaluate_compatibility_def Let_def compat_factors_spec)

text \<open>The reasons the tests read.\<close>

lemma rejection_reasons:
  assumes "\<not> Id_is_nil bm" and "\<not> Id_is_nil mr"
  shows "mr \<noteq> mr' \<Longrightarrow> first_rejection_reason (compat_factors (lora name bm mr mem rank rng)
      (fixture_target bm mr')) = ''adapter is pinned to a different model revision''"
    "first_rejection_reason (compat_factors (lora name bm mr mem rank rng)
      ((fixture_target bm mr)\<lparr>ct_runtime_capabilities := smap_set ''fp16'' ''unsupported''
         (ct_runtime_capabilities (fixture_target bm mr))\<rparr>)) \<noteq> []"
  using assms
  by (simp_all add: compat_factors_def base_model_factor_def base_model_revision_factor_def acc_def rej_def
      fixture_target_def targets_factor_def rank_factor_def dtype_factor_def)

lemma occurs_in_append: "occurs_in s (xs @ s @ ys)"
proof (induction xs)
  case Nil
  have "take (length s) (s @ ys) = s" by simp
  then show ?case by (cases "s @ ys") auto
qed simp

lemma json_names_compatible: "occurs_in ''compatible'' (to_json_report rep)"
proof -
  have "to_json_report rep = (''{'' @ [CHR 0x22]) @ ''compatible'' @ drop 12 (to_json_report rep)"
    by (simp add: to_json_report_def jstr_def)
  then show ?thesis by (metis occurs_in_append)
qed

lemma compat_passes:
  "passes 3 10 rng compat_compatible_is_accepted" "passes 3 10 rng compat_missing_half_precision_rejected"
  "passes 2 10 rng compat_zero_rank_rejected" "passes 2 10 rng compat_json_escapes_deterministically"
  "drawn 2 rng \<noteq> (drawn 4 rng :: ModelRevisionId) \<Longrightarrow> passes 3 12 rng compat_wrong_revision_rejected_with_reason"
  "drawn 0 rng \<noteq> (drawn 2 rng :: BaseModelId) \<Longrightarrow> passes 2 12 rng compat_wrong_base_model_rejected"
  by (simp_all add: case_run compat_compatible_is_accepted_def compat_missing_half_precision_rejected_def
      compat_zero_rank_rejected_def compat_json_escapes_deterministically_def
      compat_wrong_revision_rejected_with_reason_def compat_wrong_base_model_rejected_def compat_case_def
      own_target_def report_of lora_compatible rejection_reasons json_names_compatible)

text \<open>The builder with two members, which it takes and builds when no module is theirs twice.\<close>

definition two_members ::
    "string \<Rightarrow> BaseModelId \<Rightarrow> ModelRevisionId \<Rightarrow> AdapterDescriptor \<Rightarrow> AdapterDescriptor \<Rightarrow> CompositionBuilder" where
  "two_members p bm mr d1 d2 = \<lparr>cb_base = bm, cb_rev = mr, cb_policy = p, cb_gen = Generation 1,
     cb_descriptors = [d1, d2], cb_members = [member_of d1, member_of d2]\<rparr>"

definition both_fit :: "BaseModelId \<Rightarrow> ModelRevisionId \<Rightarrow> AdapterDescriptor \<Rightarrow> AdapterDescriptor \<Rightarrow> bool" where
  "both_fit bm mr d1 d2 \<longleftrightarrow> ad_id d1 \<noteq> ad_id d2 \<and> (\<forall>d \<in> {d1, d2}. ad_base_model d = bm \<and>
     ad_base_model_revision d = mr \<and> \<not> gen_is_none (ad_generation d))"

lemma two_added:
  assumes "both_fit bm mr d1 d2"
  shows "bindE (builder_add d1 (CompositionBuilder_new bm mr p (Generation 1))) (builder_add d2) =
      Inr (two_members p bm mr d1 d2)"
    and "builder_inv (two_members p bm mr d1 d2)"
  using assms
  by (auto simp: both_fit_def builder_add_def two_members_def CompositionBuilder_new_def builder_inv_def
      member_ok_def)

lemma two_built:
  assumes "both_fit bm mr d1 d2"
  obtains (built) "distinct (module_names [d1, d2])" "builder_build (two_members p bm mr d1 d2) rng =
      (Some (Inr (composition_of (two_members p bm mr d1 d2) (drawn 0 rng))), rng_after 2 rng)"
    | (rejected) e where "\<not> distinct (module_names [d1, d2])"
      "builder_build (two_members p bm mr d1 d2) rng = (Some (Inl e), rng_after 2 rng)"
  using builder_build_cases [OF two_added(2) [OF assms], of p rng] that
  unfolding Id_generate_drawn by (auto simp: two_members_def)

lemma build_two_built:
  assumes "both_fit bm mr d1 d2" and "distinct (module_names [d1, d2])"
  shows "build_two p bm mr d1 d2 rng =
    (Some (Inr (composition_of (two_members p bm mr d1 d2) (drawn 0 rng))), rng_after 2 rng)"
  by (cases rule: two_built [OF assms(1), of p rng]) (use assms in \<open>simp_all add: build_two_def two_added\<close>)

lemma composition_of_simps [simp]:
  "co_is_valid (composition_of b i)" "co_members (composition_of b i) = map member_of (cb_descriptors b)"
  "co_total_memory_bytes (composition_of b i) = sum_list (map ad_memory_bytes (cb_descriptors b))"
  "co_digest (composition_of b i) = compute_digest (map member_of (cb_descriptors b)) (cb_policy b)"
  by (simp_all add: composition_of_def Let_def)

lemma retarget_simps [simp]:
  "ad_id (retarget m d) = ad_id d" "ad_base_model (retarget m d) = ad_base_model d"
  "ad_base_model_revision (retarget m d) = ad_base_model_revision d"
  "ad_generation (retarget m d) = ad_generation d" "ad_memory_bytes (retarget m d) = ad_memory_bytes d"
  "ad_targets (retarget m d) = (case ad_targets d of [] \<Rightarrow> [] | t # ts \<Rightarrow> t\<lparr>tm_name := m\<rparr> # ts)"
  by (simp_all add: retarget_def)

lemma composition_passes:
  "(drawn 4 rng :: AdapterId) \<noteq> drawn 10 rng \<Longrightarrow> passes 4 20 rng compose_valid_is_deterministic"
  "passes 1 10 rng compose_duplicate_member_rejected" "passes 1 6 rng compose_empty_rejected"
  "(drawn 0 rng :: BaseModelId) \<noteq> drawn 4 rng \<Longrightarrow> passes 1 18 rng compose_base_model_mismatch_rejected"
  by (simp_all add: case_run compose_valid_is_deterministic_def build_two_built both_fit_def two_members_def
      compose_duplicate_member_rejected_def compose_base_model_mismatch_rejected_def
      compose_empty_rejected_def builder_add_def builder_build_def CompositionBuilder_new_def gen_is_none_def)

lemma compose_conflict_passes:
  assumes "(drawn 4 rng :: AdapterId) \<noteq> drawn 10 rng"
  shows "passes 1 18 rng compose_conflicting_target_module_rejected"
proof -
  let ?bm = "drawn 0 rng :: BaseModelId" and ?mr = "drawn 2 rng :: ModelRevisionId"
  let ?d1 = "lora ''a'' ?bm ?mr 4096 8 (rng_after 4 rng)" and ?d2 = "lora ''b'' ?bm ?mr 4096 8 (rng_after 10 rng)"
  have fit: "both_fit ?bm ?mr ?d1 ?d2" using assms by (simp add: both_fit_def gen_is_none_def)
  obtain e where "builder_build (two_members ''p'' ?bm ?mr ?d1 ?d2) (rng_after 16 rng) = (Some (Inl e), rng_after 18 rng)"
    by (cases rule: two_built [OF fit, of "''p''" "rng_after 16 rng"]) simp_all
  with two_added(1) [OF fit] show ?thesis
    by (simp add: case_run compose_conflicting_target_module_rejected_def)
qed

lemma digest_rounds_pass:
  assumes "\<And>r. build r = (Some (Inr (c r)), rng_after 2 r) \<and> co_digest (c r) = d"
  shows "digest_rounds k build (Some d) cs rng = ran (cs @ replicate k True) (rng_after (2 * k) rng)"
  using assms
  by (induction k arbitrary: cs rng) (simp_all add: replicate_app_Cons_same)

lemma digest_rounds_start:
  assumes "\<And>r. build r = (Some (Inr (c r)), rng_after 2 r)" and "\<And>r. co_digest (c r) = d"
  shows "digest_rounds (Suc k) build None [] rng = ran (replicate k True) (rng_after (2 + 2 * k) rng)"
  using digest_rounds_pass [of build c d k "[]"] assms by simp

section \<open>Capacity passes\<close>

lemma capacity_passes:
  "passes 6 0 rng capacity_reserve_release_clean" "passes 2 0 rng capacity_overcommit_rejected"
  "passes 1 0 rng capacity_double_reservation_rejected" "passes 1 0 rng capacity_double_release_rejected"
  "passes 1 0 rng capacity_underflow_rejected"
  by (simp_all add: case_run capacity_reserve_release_clean_def capacity_overcommit_rejected_def
      capacity_double_reservation_rejected_def capacity_double_release_rejected_def
      capacity_underflow_rejected_def device_limit_def CapacityAccountant_new_def all_locations_def
      reserve_def release_def used_def limit_def free_def over_limit_def is_clean_def smap_values_def
      smap_at_def split_beta smap_emplace_def less_ResidencyLocation_def)

text \<open>The rounds of reserve and release leave the accounts empty.\<close>

definition empty_device :: "uint64_t \<Rightarrow> CapacityAccountant \<Rightarrow> bool" where
  "empty_device most cap \<longleftrightarrow> capacity_inv cap \<and> limit cap on_device = most \<and> used cap on_device = 0 \<and>
     (\<forall>loc owner. held cap loc owner = 0)"

lemma round_keeps_empty:
  assumes "empty_device most cap" and "n \<noteq> 0" and "n \<le> most"
  obtains cap1 cap2 where "reserve on_device n owner cap = (Inr (), cap1)"
    "release on_device n owner cap1 = (Inr (), cap2)" "empty_device most cap2"
proof -
  note e = assms(1) [unfolded empty_device_def]
  obtain cap1 where r: "reserve on_device n owner cap = (Inr (), cap1)"
    by (cases rule: reserve_cases [of cap on_device owner n]) (use e assms in auto)
  note g = acct.reserve_granted [OF r]
  have "held cap1 on_device owner = n" using g by simp
  from acct.release_granted [OF assms(2) this] obtain cap2 where
    c: "release on_device n owner cap1 = (Inr (), cap2)" "limit cap2 = limit cap1"
      "used cap2 = (used cap1)(on_device := used cap1 on_device - n)"
      "held cap2 = (\<lambda>l' o'. if l' = on_device \<and> o' = owner then 0 else held cap1 l' o')" by blast
  have "capacity_inv cap2"
    using release_inv [OF reserve_inv, of cap on_device n owner on_device n owner] e r c(1) by simp
  with c g e have "empty_device most cap2" by (auto simp: empty_device_def)
  with r c that show thesis by blast
qed

lemma capacity_rounds_empty:
  "empty_device 0x100000 cap \<Longrightarrow> \<exists>cap'. capacity_rounds k i r cap = Some cap' \<and> empty_device 0x100000 cap'"
proof (induction k arbitrary: i r cap)
  case (Suc k)
  obtain v r1 where v: "rng_next r = (v, r1)" by fastforce
  have "unat (1 + v mod 4096) = Suc (unat v mod 4096)" "unat v mod 4096 < 4096"
    by (simp_all add: unat_word_ariths unat_mod)
  then have "1 + v mod 4096 \<noteq> 0 \<and> 1 + v mod 4096 \<le> (0x100000 :: uint64_t)"
    unfolding word_le_nat_alt by (auto simp flip: unat_eq_0)
  with Suc.prems obtain cap1 cap2 where
    "reserve on_device (1 + v mod 4096) (''owner'' @ dec_str i) cap = (Inr (), cap1)"
    "release on_device (1 + v mod 4096) (''owner'' @ dec_str i) cap1 = (Inr (), cap2)" "empty_device 0x100000 cap2"
    using round_keeps_empty by metis
  with Suc.IH v show ?case by simp
qed simp

lemma identity_rounds_pass: "identity_rounds k r = replicate (3 * k) True"
  by (induction k arbitrary: r) (simp_all add: Id_generate_drawn identity_checks_pass eval_nat_numeral)

lemma property_passes:
  "passes 6000 0 rng property_identities_roundtrip_always_non_nil"
  "passes 10000 0 rng property_generation_monotonic"
  "passes 2 0 rng property_capacity_returns_to_baseline"
  "(drawn 4 rng :: AdapterId) \<noteq> drawn 10 rng \<Longrightarrow> passes 49 116 rng property_composition_digest_idempotent"
proof -
  show "passes 6000 0 rng property_identities_roundtrip_always_non_nil"
    by (simp add: passes_def property_identities_roundtrip_always_non_nil_def identity_rounds_pass
        del: identity_rounds.simps)
  show "passes 10000 0 rng property_generation_monotonic"
    by (simp add: passes_def property_generation_monotonic_def climb_passes del: climb.simps)
  have "empty_device 0x100000 (device_limit 0x100000)"
    by (simp add: empty_device_def device_limit_def capacity_inv_new capacity_new_simps)
      (simp add: CapacityAccountant_new_def all_locations_def limit_def)
  then obtain cap where "capacity_rounds 2000 0 \<lparr>rng_state = 7\<rparr> (device_limit (push_bit 20 1)) = Some cap"
    "empty_device 0x100000 cap" using capacity_rounds_empty by fastforce
  then show "passes 2 0 rng property_capacity_returns_to_baseline"
    by (simp add: passes_def property_capacity_returns_to_baseline_def empty_device_def is_clean_held)
  assume "(drawn 4 rng :: AdapterId) \<noteq> drawn 10 rng"
  then have "both_fit (drawn 0 rng) (drawn 2 rng) (lora ''a'' (drawn 0 rng) (drawn 2 rng) 4096 8 (rng_after 4 rng))
      (retarget ''v_proj'' (lora ''b'' (drawn 0 rng) (drawn 2 rng) 4096 8 (rng_after 10 rng)))"
    by (simp add: both_fit_def gen_is_none_def)
  note built = build_two_built [OF this, of "''policy''"]
  from digest_rounds_start [OF built, of _ 49]
  show "passes 49 116 rng property_composition_digest_idempotent"
    by (simp add: case_run property_composition_digest_idempotent_def del: digest_rounds.simps)
qed

end
