(* ===== verification/AF_FabricTests.thy ===== *)
theory AF_FabricTests
  imports AF_Tests
begin

text \<open>
  The test programs over a fabric and over the document formats (\<open>tests/test_authority.cpp\<close>,
  \<open>test_invalidation.cpp\<close>, \<open>test_persistence.cpp\<close>, \<open>test_adversarial.cpp\<close>). A read through the
  null pointer that a lookup gives would count as an exception.
\<close>

section \<open>Authority\<close>

definition test_fence ::
    "Fabric \<Rightarrow> AdapterDescriptor \<Rightarrow> WorkerRecord \<Rightarrow> AttemptId \<Rightarrow> DeviceId \<Rightarrow> AuthorityFence" where
  "test_fence f d w attempt dev = AuthorityFence_default
     \<lparr>f_adapter := ad_id d, f_adapter_generation := ad_generation d,
      f_base_model_revision := ad_base_model_revision d, f_epoch := fb_epoch f, f_worker := wr_id w,
      f_boot := wr_boot w, f_attempt := attempt, f_device := dev,
      f_residency_generation := Generation 1, f_composition_generation := Generation 1,
      f_artifact_generation := Generation 1\<rparr>"

text \<open>The first lines of the cases: an adapter, a worker, an instance of one on the other, a fence.\<close>

definition with_fence ::
    "(AdapterDescriptor \<Rightarrow> WorkerRecord \<Rightarrow> AuthorityFence \<Rightarrow> Rng \<Rightarrow> Fabric \<Rightarrow> TestRun) \<Rightarrow> test" where
  "with_fence body rng =
    (let (bm, rng1) = Id_generate rng; (mr, rng2) = Id_generate rng1;
         (desc, rng3) = make_lora ''a'' bm mr 4096 8 rng2
     in case register_adapter desc Fabric_default of
          (Inl e, f) \<Rightarrow> threw [] rng3
        | (Inr d, f) \<Rightarrow>
          let (w, rng4) = example_worker rng3; f1 = register_worker w f; (dev, rng5) = Id_generate rng4
          in (case create_instance (ad_id d) (wr_id w) (wr_boot w) dev (ad_memory_bytes d) rng5 f1 of
                (Inl e, rng6, f2) \<Rightarrow> threw [] rng6
              | (Inr inst, rng6, f2) \<Rightarrow>
                  let (attempt, rng7) = Id_generate rng6
                  in body d w (test_fence f2 d w attempt dev) rng7 f2))"

text \<open>And its authority bound.\<close>

definition with_authority ::
    "(AdapterDescriptor \<Rightarrow> WorkerRecord \<Rightarrow> AuthorityFence \<Rightarrow> Rng \<Rightarrow> Fabric \<Rightarrow> TestRun) \<Rightarrow> test" where
  "with_authority body = with_fence (\<lambda>d w fence rng f.
     case bind_authority (ad_id d) fence f of
       (Inl e, f1) \<Rightarrow> threw [] rng
     | (Inr check, f1) \<Rightarrow> body d w fence rng f1)"

text \<open>A check of the record that \<open>authority_record\<close> points to.\<close>

definition on_record :: "AdapterId \<Rightarrow> Fabric \<Rightarrow> bool list \<Rightarrow> Rng \<Rightarrow> (AdapterAuthorityRecord \<Rightarrow> TestRun) \<Rightarrow> TestRun" where
  "on_record i f checks rng cont =
     (case authority_record i f of None \<Rightarrow> threw checks rng | Some ar \<Rightarrow> cont ar)"

definition authority_current_fence_authorized :: test where
  "authority_current_fence_authorized = with_fence (\<lambda>d w fence rng f.
     let c1 = [authorized (check_fence fence f)] in
     case bind_authority (ad_id d) fence f of
       (Inl e, f1) \<Rightarrow> threw c1 rng
     | (Inr bind, f1) \<Rightarrow>
         let c2 = c1 @ [authorized bind]
         in on_record (ad_id d) f1 c2 rng (\<lambda>ar. ran (c2 @ [ar_active ar]) rng))"

definition authority_stale_epoch_rejected :: test where
  "authority_stale_epoch_rejected = with_authority (\<lambda>d w fence rng f.
     let (epoch, f1) = advance_epoch f; check = check_fence fence f1
     in ran [\<not> authorized check, ac_verdict check = AV_stale_epoch \<or> ac_verdict check = AV_stale_boot \<or>
          ac_verdict check = AV_stale_attempt \<or> ac_verdict check = AV_stale_adapter_generation] rng)"

definition authority_stale_boot_rejected :: test where
  "authority_stale_boot_rejected = with_authority (\<lambda>d w fence rng f.
     let (boot, rng1) = Id_generate rng
     in ran [\<not> authorized (check_fence (fence\<lparr>f_boot := boot\<rparr>) f)] rng1)"

definition authority_stale_attempt_rejected :: test where
  "authority_stale_attempt_rejected = with_authority (\<lambda>d w fence rng f.
     let (attempt, rng1) = Id_generate rng
     in ran [\<not> authorized (check_fence (fence\<lparr>f_attempt := attempt\<rparr>) f)] rng1)"

definition authority_worker_restart_clears_authority :: test where
  "authority_worker_restart_clears_authority = with_authority (\<lambda>d w fence rng f.
     on_record (ad_id d) f [] rng (\<lambda>ar.
       let c1 = [ar_active ar]; (new_boot, rng1) = Id_generate rng;
           f1 = on_worker_restart (wr_id w) new_boot f
       in on_record (ad_id d) f1 c1 rng1 (\<lambda>ar1.
            let f2 = register_worker (w\<lparr>wr_boot := new_boot\<rparr>) f1; check = check_fence fence f2
            in ran (c1 @ [\<not> ar_active ar1, \<not> authorized check, ac_verdict check = AV_stale_boot]) rng1)))"

definition authority_exclusivity_conflict_throws :: test where
  "authority_exclusivity_conflict_throws rng =
    (let (bm, rng1) = Id_generate rng; (mr, rng2) = Id_generate rng1;
         (desc1, rng3) = make_lora ''a'' bm mr 4096 8 rng2
     in case register_adapter desc1 Fabric_default of
          (Inl e, f) \<Rightarrow> threw [] rng3
        | (Inr d1, f1) \<Rightarrow>
          let (desc2, rng4) = make_lora ''b'' bm mr 4096 8 rng3
          in (case register_adapter desc2 f1 of
                (Inl e, f) \<Rightarrow> threw [] rng4
              | (Inr d2, f2) \<Rightarrow>
                let (w, rng5) = example_worker rng4; f3 = register_worker w f2; (dev, rng6) = Id_generate rng5
                in (case create_instance (ad_id d1) (wr_id w) (wr_boot w) dev (ad_memory_bytes d1) rng6 f3 of
                      (Inl e, rng7, f) \<Rightarrow> threw [] rng7
                    | (Inr inst1, rng7, f4) \<Rightarrow>
                      (case create_instance (ad_id d2) (wr_id w) (wr_boot w) dev (ad_memory_bytes d2) rng7 f4 of
                         (Inl e, rng8, f) \<Rightarrow> threw [] rng8
                       | (Inr inst2, rng8, f5) \<Rightarrow>
                         let (attempt1, rng9) = Id_generate rng8
                         in (case bind_authority (ad_id d1) (test_fence f5 d1 w attempt1 dev) f5 of
                               (Inl e, f) \<Rightarrow> threw [] rng9
                             | (Inr check, f6) \<Rightarrow>
                               let (attempt2, rng10) = Id_generate rng9
                               in ran [throws (fst (bind_authority (ad_id d2)
                                    (test_fence f6 d2 w attempt2 dev) f6))] rng10)))))"

definition test_authority :: "(string \<times> test) list" where
  "test_authority =
    [(''authority_current_fence_authorized'', authority_current_fence_authorized),
     (''authority_stale_epoch_rejected'', authority_stale_epoch_rejected),
     (''authority_stale_boot_rejected'', authority_stale_boot_rejected),
     (''authority_stale_attempt_rejected'', authority_stale_attempt_rejected),
     (''authority_worker_restart_clears_authority'', authority_worker_restart_clears_authority),
     (''authority_exclusivity_conflict_throws'', authority_exclusivity_conflict_throws)]"

section \<open>Invalidation\<close>

definition invalidation_clears_authority_and_logs :: test where
  "invalidation_clears_authority_and_logs = with_authority (\<lambda>d w fence rng f.
     let (r, f1) = invalidate (ad_id d) IT_base_model_revision_change ''model revision changed'' f;
         c1 = [iv_trigger r = IT_base_model_revision_change, length (fb_invalidation_log f1) = 1]
     in on_record (ad_id d) f1 c1 rng (\<lambda>ar.
          ran (c1 @ [\<not> ar_active ar, iv_reason r = ''model revision changed'']) rng))"

definition test_invalidation :: "(string \<times> test) list" where
  "test_invalidation = [(''invalidation_clears_authority_and_logs'', invalidation_clears_authority_and_logs)]"

section \<open>They pass\<close>

lemma example_worker_drawn: "example_worker rng = (\<lparr>wr_id = drawn 0 rng, wr_boot = drawn 2 rng, wr_address = [],
    wr_node = Id_nil, wr_device = drawn 4 rng, wr_connected = True, wr_epoch = gen_none, wr_capabilities = [],
    wr_device_memory_bytes = 0, wr_local_adapters = []\<rparr>, rng_after 6 rng)"
  by (simp add: example_worker_def Id_generate_drawn)

lemma lora_generation [simp]:
  "(lora name bm mr mem rank rng)\<lparr>ad_generation := Generation 1\<rparr> = lora name bm mr mem rank rng"
  by (simp add: lora_def make_lora_def Id_generate_drawn)

text \<open>What the first lines of the cases leave.\<close>

definition the_adapter :: "Rng \<Rightarrow> AdapterDescriptor" where
  "the_adapter rng = lora ''a'' (drawn 0 rng) (drawn 2 rng) 4096 8 (rng_after 4 rng)"

definition the_worker :: "Rng \<Rightarrow> WorkerRecord" where
  "the_worker rng = fst (example_worker (rng_after 10 rng))"

definition the_fabric :: "Rng \<Rightarrow> Fabric" where
  "the_fabric rng = Fabric_default
     \<lparr>fb_next_adapter_gen := Generation 2,
      fb_adapters := [(Id_str (ad_id (the_adapter rng)), the_adapter rng)],
      fb_workers := [(Id_str (wr_id (the_worker rng)), the_worker rng)],
      fb_residencies := [(Id_str (drawn 18 rng :: AdapterInstanceId), fresh_residency (ad_id (the_adapter rng)) (the_adapter rng)
        (drawn 18 rng) (wr_id (the_worker rng)) (wr_boot (the_worker rng)) (drawn 16 rng) 4096 gen_none)],
      fb_authority := [(Id_str (ad_id (the_adapter rng)), fresh_authority (ad_id (the_adapter rng)) (the_adapter rng)
        (drawn 18 rng) (wr_id (the_worker rng)) (wr_boot (the_worker rng)) (drawn 16 rng) gen_none)]\<rparr>"

definition the_fence :: "Rng \<Rightarrow> AuthorityFence" where
  "the_fence rng = test_fence (the_fabric rng) (the_adapter rng) (the_worker rng) (drawn 20 rng) (drawn 16 rng)"

lemma with_fence_run:
  "with_fence body rng = body (the_adapter rng) (the_worker rng) (the_fence rng) (rng_after 22 rng) (the_fabric rng)"
  by (simp add: with_fence_def Id_generate_drawn make_lora_lora example_worker_drawn register_adapter_def
      Fabric_default_def Fabric_empty_def gen_next_def uint64_max_def create_instance_def adapter_def
      register_worker_def Let_def the_adapter_def the_worker_def the_fabric_def the_fence_def)

lemma the_simps [simp]:
  "ad_id (the_adapter rng) = drawn 4 rng" "wr_id (the_worker rng) = drawn 10 rng"
  "wr_boot (the_worker rng) = drawn 12 rng" "wr_connected (the_worker rng)"
  "ad_generation (the_adapter rng) = Generation 1" "ad_base_model_revision (the_adapter rng) = drawn 2 rng"
  "fb_epoch (the_fabric rng) = gen_none" "adapter (drawn 4 rng) (the_fabric rng) = Some (the_adapter rng)"
  "worker (drawn 10 rng) (the_fabric rng) = Some (the_worker rng)"
  "fb_current_attempt (the_fabric rng) = []" "fb_active_fence (the_fabric rng) = None"
  by (simp_all add: the_adapter_def the_worker_def the_fabric_def example_worker_drawn adapter_def worker_def
      Fabric_default_def Fabric_empty_def)

lemma the_fence_simps [simp]:
  "f_adapter (the_fence rng) = drawn 4 rng" "f_worker (the_fence rng) = drawn 10 rng"
  "f_boot (the_fence rng) = drawn 12 rng" "f_attempt (the_fence rng) = drawn 20 rng"
  "f_adapter_generation (the_fence rng) = Generation 1" "f_epoch (the_fence rng) = gen_none"
  "f_base_model_revision (the_fence rng) = drawn 2 rng" "f_residency_generation (the_fence rng) = Generation 1"
  "f_composition_generation (the_fence rng) = Generation 1" "f_artifact_generation (the_fence rng) = Generation 1"
  by (simp_all add: the_fence_def test_fence_def)

definition the_record :: "Rng \<Rightarrow> AdapterAuthorityRecord" where
  "the_record rng = fresh_authority (drawn 4 rng) (the_adapter rng) (drawn 18 rng) (drawn 10 rng) (drawn 12 rng)
     (drawn 16 rng) gen_none"

lemma the_fabric_authority [simp]: "fb_authority (the_fabric rng) = [(Id_str (drawn 4 rng :: AdapterId), the_record rng)]"
  by (simp add: the_fabric_def the_record_def)

lemma the_record_fence [simp]:
  "f_residency_generation (ar_fence (the_record rng)) = Generation 1"
  "f_composition_generation (ar_fence (the_record rng)) = Generation 1"
  "f_artifact_generation (ar_fence (the_record rng)) = Generation 1"
  by (simp_all add: the_record_def fresh_authority_def)

lemma the_fence_current: "check_fence (the_fence rng) (the_fabric rng) = verdict AV_authorized ''fence current''"
  by (simp add: check_fence_def authority_record_def Let_def)

text \<open>The fabric once the authority is bound.\<close>

definition bound_fabric :: "Rng \<Rightarrow> Fabric" where
  "bound_fabric rng = (the_fabric rng)
     \<lparr>fb_authority := [(Id_str (drawn 4 rng :: AdapterId), (the_record rng)\<lparr>ar_fence := the_fence rng, ar_has_authority := True,
        ar_active := True, ar_lifecycle := set_state L_active (ar_lifecycle (the_record rng))\<rparr>)],
      fb_current_attempt := [(Id_str (drawn 4 rng :: AdapterId), drawn 20 rng)],
      fb_active_fence := Some (the_fence rng)\<rparr>"

lemma the_fence_binds:
  "bind_authority (drawn 4 rng) (the_fence rng) (the_fabric rng) =
     (Inr (verdict AV_authorized ''fence current''), bound_fabric rng)"
  by (simp add: bind_authority_def the_fence_current authorized_def verdict_def Let_def bound_fabric_def)

lemma with_authority_run:
  "with_authority body rng = body (the_adapter rng) (the_worker rng) (the_fence rng) (rng_after 22 rng) (bound_fabric rng)"
  by (simp add: with_authority_def with_fence_run the_fence_binds)

lemma bound_simps [simp]:
  "fb_epoch (bound_fabric rng) = gen_none" "adapter (drawn 4 rng) (bound_fabric rng) = Some (the_adapter rng)"
  "adapter (drawn 4 rng) (bound_fabric rng\<lparr>fb_epoch := e\<rparr>) = Some (the_adapter rng)"
  "worker (drawn 10 rng) (bound_fabric rng) = Some (the_worker rng)"
  "map_of (fb_current_attempt (bound_fabric rng)) (Id_str (drawn 4 rng :: AdapterId)) = Some (drawn 20 rng)"
  "fb_active_fence (bound_fabric rng) = Some (the_fence rng)" "fb_invalidation_log (bound_fabric rng) = []"
  using the_simps(7-9) [of rng]
  by (simp_all add: bound_fabric_def adapter_def worker_def the_fabric_def Fabric_default_def Fabric_empty_def)

lemma authority_passes:
  "passes 3 22 rng authority_current_fence_authorized"
  "passes 2 22 rng authority_stale_epoch_rejected"
  "(drawn 12 rng :: WorkerBootId) \<noteq> drawn 22 rng \<Longrightarrow> passes 1 24 rng authority_stale_boot_rejected"
  "(drawn 20 rng :: AttemptId) \<noteq> drawn 22 rng \<Longrightarrow> passes 1 24 rng authority_stale_attempt_rejected"
  subgoal
    by (simp add: passes_def authority_current_fence_authorized_def with_fence_run the_fence_current the_fence_binds
        authorized_def verdict_def on_record_def authority_record_def bound_fabric_def Let_def)
  subgoal
    by (simp add: passes_def authority_stale_epoch_rejected_def with_authority_run advance_epoch_def check_fence_def
        authorized_def verdict_def Let_def gen_next_def gen_none_def uint64_max_def)
  subgoal
    by (simp add: case_run authority_stale_boot_rejected_def with_authority_run check_fence_def authorized_def verdict_def)
  subgoal
    by (simp add: case_run authority_stale_attempt_rejected_def with_authority_run check_fence_def authorized_def verdict_def)
  done

lemma restart_passes:
  assumes "(drawn 12 rng :: WorkerBootId) \<noteq> drawn 22 rng"
  shows "passes 4 24 rng authority_worker_restart_clears_authority"
proof -
  let ?old = "bound_fabric rng" and ?new = "on_worker_restart (drawn 10 rng) (drawn 22 rng) (bound_fabric rng)"
  have old: "map_option ar_active (authority_record (drawn 4 rng) ?old) = Some True"
    by (simp add: authority_record_def bound_fabric_def)
  have new: "map_option ar_active (authority_record (drawn 4 rng) ?new) = Some False"
    using assms by (simp add: authority_record_def bound_fabric_def on_worker_restart_def revoke_matching_def
        revoke_def smap_mapi_def Let_def)
  have "fb_epoch ?new = gen_none" "adapter (drawn 4 rng) (register_worker r ?new) = Some (the_adapter rng)" for r
    using bound_simps(2) [of rng]
    by (simp_all add: on_worker_restart_fields adapter_def register_worker_def)
  then have "check_fence (the_fence rng) (register_worker ((the_worker rng)\<lparr>wr_boot := drawn 22 rng\<rparr>) ?new) =
      verdict AV_stale_boot ''worker boot mismatch''"
    using assms by (simp add: check_fence_def worker_def) (simp add: register_worker_def)
  with old new show ?thesis
    by (auto simp: case_run authority_worker_restart_clears_authority_def with_authority_run on_record_def
        authorized_def verdict_def)
qed

lemma invalidation_passes: "passes 4 22 rng invalidation_clears_authority_and_logs"
  by (simp add: passes_def invalidation_clears_authority_and_logs_def with_authority_run invalidate_def Let_def
      on_record_def authority_record_def)
    (simp add: bound_fabric_def the_fabric_def Fabric_default_def Fabric_empty_def)

lemma exclusivity_passes:
  assumes "(drawn 4 rng :: AdapterId) \<noteq> drawn 10 rng"
  shows "passes 1 32 rng authority_exclusivity_conflict_throws"
  using assms
  by (simp add: case_run authority_exclusivity_conflict_throws_def register_adapter_def Fabric_default_def
    Fabric_empty_def gen_next_def uint64_max_def example_worker_drawn register_worker_def create_instance_def
    adapter_def test_fence_def bind_authority_def check_fence_def worker_def authority_record_def authorized_def verdict_def
    fresh_authority_def)

section \<open>Persistence\<close>

text \<open>A default-constructed snapshot.\<close>

definition FabricSnapshot_default :: FabricSnapshot where
  "FabricSnapshot_default = \<lparr>fs_epoch = gen_none, fs_next_adapter_generation = gen_none,
     fs_next_composition_generation = gen_none, fs_adapters = [], fs_compositions = [], fs_workers = []\<rparr>"

definition rechecksum :: "byte list \<Rightarrow> byte list" where
  "rechecksum data =
    (let body = take (length data - 8) data in body @ store_le 8 (fnv1a_64 1469598103934665603 body))"

definition persistence_roundtrip :: test where
  "persistence_roundtrip rng =
    (let (bm, rng1) = Id_generate rng; (mr, rng2) = Id_generate rng1;
         (d1, rng3) = make_lora ''a'' bm mr 4096 8 rng2
     in case register_adapter d1 Fabric_default of
          (Inl e, f) \<Rightarrow> threw [] rng3
        | (Inr r1, f1) \<Rightarrow>
          let (d2, rng4) = make_lora ''b'' bm mr 4096 8 rng3
          in (case register_adapter (retarget ''v_proj'' d2) f1 of
                (Inl e, f) \<Rightarrow> threw [] rng4
              | (Inr r2, f2) \<Rightarrow>
                let (w, rng5) = example_worker rng4; snap = snapshot (register_worker w f2)
                in (case deserialize_snapshot (serialize_snapshot snap) of
                      Inl e \<Rightarrow> threw [] rng5
                    | Inr back \<Rightarrow> ran [length (fs_adapters back) = length (fs_adapters snap),
                        length (fs_workers back) = length (fs_workers snap)] rng5)))"

definition persistence_checksum_mismatch_rejected :: test where
  "persistence_checksum_mismatch_rejected rng =
    (let data = serialize_snapshot (FabricSnapshot_default\<lparr>fs_epoch := Generation 2,
           fs_next_adapter_generation := Generation 3, fs_next_composition_generation := Generation 4\<rparr>)
     in ran [throws (deserialize_snapshot (data[10 := data ! 10 XOR 0xFF]))] rng)"

definition persistence_truncation_rejected :: test where
  "persistence_truncation_rejected rng =
    (let data = serialize_snapshot (FabricSnapshot_default\<lparr>fs_epoch := Generation 2\<rparr>)
     in ran [throws (deserialize_snapshot (take (length data - 3) data))] rng)"

definition persistence_trailing_garbage_rejected :: test where
  "persistence_trailing_garbage_rejected rng =
    (let data = serialize_snapshot FabricSnapshot_default @ [0xAB, 0xCD]
     in ran [throws (deserialize_snapshot (rechecksum data))] rng)"

definition persistence_unsupported_version_rejected :: test where
  "persistence_unsupported_version_rejected rng =
    (let fixed = rechecksum (serialize_snapshot FabricSnapshot_default);
         fixed2 = rechecksum (fixed[0 := 0xFF, 1 := 0xFF, 2 := 0xFF, 3 := 0xFF])
     in ran [throws (deserialize_snapshot fixed2)] rng)"

definition persistence_duplicate_id_rejected :: test where
  "persistence_duplicate_id_rejected rng =
    (let (bm, rng1) = Id_generate rng; (mr, rng2) = Id_generate rng1;
         (d, rng3) = make_lora ''a'' bm mr 4096 8 rng2;
         data = serialize_snapshot (FabricSnapshot_default\<lparr>fs_adapters := [d, d]\<rparr>)
     in ran [throws (deserialize_snapshot data)] rng3)"

definition test_persistence :: "(string \<times> test) list" where
  "test_persistence =
    [(''persistence_roundtrip'', persistence_roundtrip),
     (''persistence_checksum_mismatch_rejected'', persistence_checksum_mismatch_rejected),
     (''persistence_truncation_rejected'', persistence_truncation_rejected),
     (''persistence_trailing_garbage_rejected'', persistence_trailing_garbage_rejected),
     (''persistence_unsupported_version_rejected'', persistence_unsupported_version_rejected),
     (''persistence_duplicate_id_rejected'', persistence_duplicate_id_rejected)]"

text \<open>A body with its checksum, as \<open>rechecksum\<close> makes it, reaches the reader of the body.\<close>

definition sealed :: "byte list \<Rightarrow> byte list" where
  "sealed body = body @ store_le 8 (fnv1a_64 fnv_basis body)"

lemma rechecksum_sealed: "length rest = 8 \<Longrightarrow> rechecksum (body @ rest) = sealed body"
  by (simp add: rechecksum_def sealed_def fnv_basis_def Let_def)

lemma rechecksum_again: "rechecksum (sealed body) = sealed body"
  using rechecksum_sealed [of "store_le 8 (fnv1a_64 fnv_basis body)" body] by (simp add: sealed_def)

lemma reader_of_sealed: "BinReader_new (sealed body) = Inr (Rd [] body (store_le 8 (fnv1a_64 fnv_basis body)))"
  using reader_of_finish [of "\<lparr>bw_buf = body\<rparr>"] by (simp add: finish_layout sealed_def)

lemma snapshot_sealed: "serialize_snapshot s = sealed (out write_snapshot s)"
  by (simp add: serialize_document write_document_layout sealed_def)

lemma length_sealed [simp]: "length (sealed body) = length body + 8"
  by (simp add: sealed_def)

lemma out_snapshot: "out write_snapshot s = out w_u32 1 @ out w_gen (fs_epoch s) @ out w_gen (fs_next_adapter_generation s)
    @ out w_gen (fs_next_composition_generation s) @ out (w_vec write_desc) (fs_adapters s)
    @ out (w_vec write_composition) (fs_compositions s) @ out (w_vec write_worker) (fs_workers s)"
  by (simp add: out_def [of write_snapshot] write_snapshot_def BinWriter_empty_def kFormat_def)

lemma lora_ok: "descriptor_ok (lora ''a'' bm mr mem rank rng)" "descriptor_ok (lora ''b'' bm mr mem rank rng)"
  by (simp_all add: lora_def make_lora_def Id_generate_drawn descriptor_ok_def AdapterDescriptor_default_def
      string_ok_def vec_ok_def is_kind_ok_def is_dtype_ok_def is_validation_ok_def target_ok_def capability_ok_def
      provenance_ok_def gen_is_none_def)

lemma duplicate_refused:
  assumes "descriptor_ok d" and "fs_adapters s = [d, d]"
  shows "\<exists>e. deserialize_snapshot (serialize_snapshot s) = Inl e"
proof -
  have "r_unique (\<lambda>d. Id_str (ad_id d)) ''duplicate adapter id'' read_desc 2 {}
      (Rd pre (out write_desc d @ out write_desc d @ suf) tail) = throw EC_duplicate ''duplicate adapter id''" for pre suf tail
    using assms(1) by (simp add: numeral_2_eq_2 desc.get_put rfail_def throw_def)
  then have "r_unique_vec 100000 ''adapter count too large'' (\<lambda>d. Id_str (ad_id d)) ''duplicate adapter id'' read_desc
      (Rd pre (out (w_vec write_desc) [d, d] @ suf) tail) = throw EC_duplicate ''duplicate adapter id''" for pre suf tail
    by (simp add: r_unique_vec_def desc.out_vec throw_def)
  then show ?thesis
    using assms(2)
    by (simp add: deserialize_snapshot_def snapshot_sealed reader_of_sealed out_snapshot read_snapshot_def kFormat_def
        throw_def)
qed

lemma version_refused:
  assumes "length rest = 36"
  shows "\<exists>e. deserialize_snapshot (sealed ([0xFF, 0xFF, 0xFF, 0xFF] @ rest)) = Inl e"
proof -
  have "[0xFF, 0xFF, 0xFF, 0xFF] = out w_u32 0xFFFFFFFF" by (simp add: out_prims) code_simp
  then show ?thesis
    by (simp add: deserialize_snapshot_def reader_of_sealed read_snapshot_def kFormat_def rfail_def throw_def)
qed

lemma trailing_refused:
  assumes "snapshot_ok s" and "rest \<noteq> []"
  shows "\<exists>e. deserialize_snapshot (sealed (out write_snapshot s @ rest)) = Inl e"
  using snap.get_put [OF assms(1), of "[]" rest] assms(2)
  by (simp add: deserialize_snapshot_def reader_of_sealed r_expect_end_def throw_def)

lemma empty_snapshot_ok: "snapshot_ok (FabricSnapshot_default\<lparr>fs_epoch := e, fs_next_adapter_generation := a,
    fs_next_composition_generation := c\<rparr>)"
  by (simp add: snapshot_ok_def FabricSnapshot_default_def vec_ok_def)

lemma length_empty_snapshot:
  assumes "fs_adapters s = []" "fs_compositions s = []" "fs_workers s = []"
  shows "length (out write_snapshot s) = 40"
  by (simp add: out_snapshot assms desc.out_vec composition.out_vec worker.out_vec out_prims)

lemma version_test_refused: "\<exists>e. deserialize_snapshot (rechecksum
    ((rechecksum (serialize_snapshot FabricSnapshot_default))[0 := 0xFF, 1 := 0xFF, 2 := 0xFF, 3 := 0xFF])) = Inl e"
proof -
  let ?body = "out write_snapshot FabricSnapshot_default" and ?sum = "\<lambda>b. store_le 8 (fnv1a_64 fnv_basis b)"
  have "length ?body = 40" by (rule length_empty_snapshot) (simp_all add: FabricSnapshot_default_def)
  then obtain a b c d rest where body: "?body = a # b # c # d # rest" and rest: "length rest = 36"
    by (auto simp: eval_nat_numeral length_Suc_conv)
  have "rechecksum (serialize_snapshot FabricSnapshot_default) = sealed ?body"
    by (simp add: snapshot_sealed rechecksum_again)
  also have "\<dots>[0 := 0xFF, 1 := 0xFF, 2 := 0xFF, 3 := 0xFF] = ([0xFF, 0xFF, 0xFF, 0xFF] @ rest) @ ?sum ?body"
    by (simp add: sealed_def body eval_nat_numeral)
  finally have "rechecksum ((rechecksum (serialize_snapshot FabricSnapshot_default))
      [0 := 0xFF, 1 := 0xFF, 2 := 0xFF, 3 := 0xFF]) = sealed ([0xFF, 0xFF, 0xFF, 0xFF] @ rest)"
    by (simp only: rechecksum_sealed length_store_le)
  with version_refused [OF rest] show ?thesis by simp
qed

lemma trailing_test_refused:
  "\<exists>e. deserialize_snapshot (rechecksum (serialize_snapshot FabricSnapshot_default @ [x, y])) = Inl e"
proof -
  let ?body = "out write_snapshot FabricSnapshot_default"
  obtain a c where sum: "store_le 8 (fnv1a_64 fnv_basis ?body) = a @ c" "length a = 2" "length c = 6"
    by (rule that [of "take 2 (store_le 8 (fnv1a_64 fnv_basis ?body))" "drop 2 (store_le 8 (fnv1a_64 fnv_basis ?body))"])
      simp_all
  have "serialize_snapshot FabricSnapshot_default @ [x, y] = (?body @ a) @ (c @ [x, y])"
    by (simp add: snapshot_sealed sealed_def sum(1))
  then have "rechecksum (serialize_snapshot FabricSnapshot_default @ [x, y]) = sealed (?body @ a)"
    using rechecksum_sealed [of "c @ [x, y]" "?body @ a"] sum by simp
  moreover have "a \<noteq> []" using sum(2) by auto
  ultimately show ?thesis
    using trailing_refused [of FabricSnapshot_default a] by (simp add: snapshot_ok_def FabricSnapshot_default_def vec_ok_def)
qed

lemma throws_iff: "throws r \<longleftrightarrow> (\<exists>e. r = Inl e)"
  by (cases r) simp_all

lemma persistence_passes:
  "passes 1 0 rng persistence_checksum_mismatch_rejected" "passes 1 0 rng persistence_truncation_rejected"
  "passes 1 0 rng persistence_trailing_garbage_rejected" "passes 1 0 rng persistence_unsupported_version_rejected"
  "passes 1 10 rng persistence_duplicate_id_rejected"
proof -
  let ?s = "FabricSnapshot_default\<lparr>fs_epoch := Generation 2, fs_next_adapter_generation := Generation 3,
    fs_next_composition_generation := Generation 4\<rparr>"
  have "10 < length (serialize_snapshot ?s)"
    by (simp add: snapshot_sealed length_empty_snapshot FabricSnapshot_default_def)
  moreover have "x XOR 0xFF \<noteq> x" for x :: byte
  proof
    assume "x XOR 0xFF = x"
    then have "x XOR (x XOR 0xFF) = 0" by simp
    then show False by (simp flip: xor.assoc)
  qed
  ultimately have "throws (deserialize_snapshot ((serialize_snapshot ?s)[10 := serialize_snapshot ?s ! 10 XOR 0xFF]))"
    unfolding serialize_document by (simp add: document_corruption)
  then show "passes 1 0 rng persistence_checksum_mismatch_rejected"
    by (simp add: passes_def persistence_checksum_mismatch_rejected_def Let_def)
  let ?t = "serialize_snapshot (FabricSnapshot_default\<lparr>fs_epoch := Generation 2\<rparr>)"
  have "length (take (length ?t - 3) ?t) < 48"
    by (simp add: snapshot_sealed length_empty_snapshot FabricSnapshot_default_def)
  then show "passes 1 0 rng persistence_truncation_rejected"
    using short_snapshot by (simp add: passes_def persistence_truncation_rejected_def throws_iff Let_def)
  have "\<exists>e. deserialize_snapshot (serialize_snapshot (FabricSnapshot_default
      \<lparr>fs_adapters := [lora ''a'' bm mr mem rank r, lora ''a'' bm mr mem rank r]\<rparr>)) = Inl e" for bm mr mem rank r
    by (rule duplicate_refused [OF lora_ok(1)]) simp
  then show "passes 1 10 rng persistence_duplicate_id_rejected"
    by (simp add: case_run throws_iff persistence_duplicate_id_rejected_def)
qed (use version_test_refused trailing_test_refused in \<open>simp_all add: case_run throws_iff
  persistence_trailing_garbage_rejected_def persistence_unsupported_version_rejected_def\<close>)

lemma roundtrip_passes: "passes 2 22 rng persistence_roundtrip"
proof -
  have "descriptor_ok ((retarget ''v_proj'' (lora ''b'' bm mr mem rank r))\<lparr>ad_generation := Generation 2\<rparr>)" for bm mr mem rank r
    using lora_ok(2) [of bm mr mem rank r]
    by (auto simp: descriptor_ok_def retarget_def vec_ok_def target_ok_def string_ok_def gen_is_none_def)
  moreover have "ad_artifact_digest (retarget m d) = ad_artifact_digest d" for m d by (simp add: retarget_def)
  ultimately show ?thesis
    by (simp add: case_run persistence_roundtrip_def register_adapter_def Fabric_default_def Fabric_empty_def
      gen_next_def uint64_max_def example_worker_drawn snapshot_def register_worker_def smap_values_def
      snapshot_roundtrip snapshot_ok_def vec_ok_def lora_ok worker_ok_def string_ok_def)
qed

section \<open>Malformed input\<close>

text \<open>
  \<open>std::mt19937_64\<close>, as the standard defines it: 312 words of state, seeded from one number, twisted as
  a whole when all of them have been read.
\<close>

record mt19937_64 =
  mt_words :: "uint64_t list"
  mt_index :: nat

fun mt_fill :: "nat \<Rightarrow> nat \<Rightarrow> uint64_t \<Rightarrow> uint64_t list" where
  "mt_fill 0 i x = []"
| "mt_fill (Suc k) i x =
     x # mt_fill k (Suc i) (6364136223846793005 * (x XOR drop_bit 62 x) + of_nat (Suc i))"

definition mt_seed :: "uint64_t \<Rightarrow> mt19937_64" where
  "mt_seed s = \<lparr>mt_words = mt_fill 312 0 s, mt_index = 312\<rparr>"

definition mt_twist_at :: "nat \<Rightarrow> uint64_t list \<Rightarrow> uint64_t list" where
  "mt_twist_at i ws =
    (let x = (ws ! i AND 0xFFFFFFFF80000000) OR (ws ! (Suc i mod 312) AND 0x7FFFFFFF);
         y = drop_bit 1 x; z = (if bit x 0 then y XOR 0xB5026F5AA96619E9 else y)
     in ws[i := ws ! ((i + 156) mod 312) XOR z])"

definition mt_temper :: "uint64_t \<Rightarrow> uint64_t" where
  "mt_temper y0 =
    (let y1 = y0 XOR (drop_bit 29 y0 AND 0x5555555555555555);
         y2 = y1 XOR (push_bit 17 y1 AND 0x71D67FFFEDA60000);
         y3 = y2 XOR (push_bit 37 y2 AND 0xFFF7EEE000000000)
     in y3 XOR drop_bit 43 y3)"

definition mt_next :: "mt19937_64 \<Rightarrow> uint64_t \<times> mt19937_64" where
  "mt_next g =
    (let g1 = (if mt_index g < 312 then g
               else \<lparr>mt_words = fold mt_twist_at [0..<312] (mt_words g), mt_index = 0\<rparr>)
     in (mt_temper (mt_words g1 ! mt_index g1), g1\<lparr>mt_index := Suc (mt_index g1)\<rparr>))"

fun draw_bytes :: "nat \<Rightarrow> mt19937_64 \<Rightarrow> byte list \<times> mt19937_64" where
  "draw_bytes 0 g = ([], g)"
| "draw_bytes (Suc n) g = (let (v, g1) = mt_next g; (bs, g2) = draw_bytes n g1 in (ucast v # bs, g2))"

text \<open>
  The loops of the three tests on random bytes: an input of fewer than \<open>most\<close> bytes each round, and a
  check when it has fewer than \<open>short\<close> of them.
\<close>

fun fuzz :: "nat \<Rightarrow> uint64_t \<Rightarrow> nat \<Rightarrow> (byte list \<Rightarrow> bool) \<Rightarrow> mt19937_64 \<Rightarrow> bool list" where
  "fuzz 0 most short refuses g = []"
| "fuzz (Suc k) most short refuses g =
    (let (v, g1) = mt_next g; n = unat (v mod most); (bs, g2) = draw_bytes n g1; threw = refuses bs
     in (if n < short then [threw] else []) @ fuzz k most short refuses g2)"

definition adversarial_decode_message_random_bytes :: test where
  "adversarial_decode_message_random_bytes rng =
     ran (fuzz 200 64 40 (\<lambda>bs. throws (decode_message bs)) (mt_seed 1234)) rng"

definition adversarial_decode_message_truncated_valid :: test where
  "adversarial_decode_message_truncated_valid rng =
    (let data = encode_message (Message_default\<lparr>m_type := MT_ctl_list, m_text := ''abc'', m_a := 42\<rparr>)
     in ran [throws (decode_message (take (length data - 9) data))] rng)"

definition adversarial_deserialize_snapshot_random_bytes :: test where
  "adversarial_deserialize_snapshot_random_bytes rng =
     ran (fuzz 200 80 40 (\<lambda>bs. throws (deserialize_snapshot bs)) (mt_seed 99)) rng"

text \<open>The last loop looks at no result.\<close>

definition adversarial_deserialize_adapter_random_bytes :: test where
  "adversarial_deserialize_adapter_random_bytes rng =
     ran (fuzz 200 100 0 (\<lambda>bs. throws (deserialize_adapter bs)) (mt_seed 55)) rng"

definition test_adversarial :: "(string \<times> test) list" where
  "test_adversarial =
    [(''adversarial_decode_message_random_bytes'', adversarial_decode_message_random_bytes),
     (''adversarial_decode_message_truncated_valid'', adversarial_decode_message_truncated_valid),
     (''adversarial_deserialize_snapshot_random_bytes'', adversarial_deserialize_snapshot_random_bytes),
     (''adversarial_deserialize_adapter_random_bytes'', adversarial_deserialize_adapter_random_bytes)]"

lemma length_draw_bytes: "length (fst (draw_bytes n g)) = n"
  by (induction n arbitrary: g) (simp_all add: split_beta Let_def)

lemma fuzz_refused:
  assumes "\<And>bs. length bs < short \<Longrightarrow> refuses bs"
  shows "\<forall>c \<in> set (fuzz k most short refuses g). c"
proof (induction k arbitrary: g)
  case (Suc k)
  then show ?case using assms by (auto simp: split_beta Let_def length_draw_bytes)
qed simp

lemma adversarial_passes:
  "\<exists>n. passes n 0 rng adversarial_decode_message_random_bytes"
  "passes 1 0 rng adversarial_decode_message_truncated_valid"
  "\<exists>n. passes n 0 rng adversarial_deserialize_snapshot_random_bytes"
  "\<exists>n. passes n 0 rng adversarial_deserialize_adapter_random_bytes"
proof -
  have short: "throws (decode_message bs)" if "length bs < 62" for bs using short_message [OF that] by auto
  have "\<forall>c \<in> set (fuzz k most 40 (\<lambda>bs. throws (decode_message bs)) g). c" for k most g
    by (rule fuzz_refused) (simp add: short)
  then show "\<exists>n. passes n 0 rng adversarial_decode_message_random_bytes"
    by (auto simp: passes_def adversarial_decode_message_random_bytes_def)
  show "passes 1 0 rng adversarial_decode_message_truncated_valid"
    by (simp add: passes_def short Let_def adversarial_decode_message_truncated_valid_def message_size_def
        Message_default_def)
  have "throws (deserialize_snapshot bs)" if "length bs < 40" for bs using short_snapshot [of bs] that by auto
  then have "\<forall>c \<in> set (fuzz k most 40 (\<lambda>bs. throws (deserialize_snapshot bs)) g). c" for k most g
    by (rule fuzz_refused)
  then show "\<exists>n. passes n 0 rng adversarial_deserialize_snapshot_random_bytes"
    by (auto simp: passes_def adversarial_deserialize_snapshot_random_bytes_def)
  have "\<forall>c \<in> set (fuzz k most 0 (\<lambda>bs. throws (deserialize_adapter bs)) g). c" for k most g
    by (rule fuzz_refused) simp
  then show "\<exists>n. passes n 0 rng adversarial_deserialize_adapter_random_bytes"
    by (auto simp: passes_def adversarial_deserialize_adapter_random_bytes_def)
qed

end
