(* ===== verification/AF_Writers.thy ===== *)
theory AF_Writers
  imports AF_Transport "HOL-Library.Multiset"
begin

text \<open>
  Several threads that send frames on one socket (\<open>transport.cpp\<close>, \<open>send_frame\<close> and its
  \<open>write_lock_\<close>): every call of \<open>::send\<close> is a step, so the steps of the threads interleave. A
  writer holds the lock from the start of a frame to the return of \<open>send_frame\<close>. What is shown is
  that the frames do not mix: the receiver gets every payload whole, in the order in which the
  writers held the lock.
\<close>

section \<open>The steps of \<open>send_frame\<close>\<close>

text \<open>
  A writer waits for the lock, or is inside \<open>send_all\<close> with what is left of the pieces of its
  frame, or has returned.
\<close>

datatype writer =
    W_waiting "byte list"
  | W_writing "byte list list"
  | W_returned bool

definition frame_pieces :: "byte list \<Rightarrow> byte list list" where
  "frame_pieces payload =
     frame_header payload # (if payload = [] then [] else [payload]) @ [frame_check payload]"

text \<open>
  One step with the lock held: the end of a piece, the end of the frame, or a call of \<open>::send\<close>
  with its result (\<open>None\<close> is \<open>SOCKET_ERROR\<close>); with the bytes that go out.
\<close>

fun writer_next :: "nat option \<Rightarrow> byte list list \<Rightarrow> byte list \<times> writer" where
  "writer_next res [] = ([], W_returned True)"
| "writer_next res ([] # ps) = ([], W_writing ps)"
| "writer_next None (p # ps) = ([], W_returned False)"
| "writer_next (Some sent) (p # ps) =
     (if sent = 0 then ([], W_returned False) else (take sent p, W_writing (drop sent p # ps)))"

record Wire =
  wi_valid :: bool
  wi_lock :: "nat option"
  wi_bytes :: "byte list"
  wi_writers :: "writer list"

definition Wire_start :: "byte list list \<Rightarrow> Wire" where
  "Wire_start ps = \<lparr>wi_valid = True, wi_lock = None, wi_bytes = [], wi_writers = map W_waiting ps\<rparr>"

inductive wire_step :: "Wire \<Rightarrow> Wire \<Rightarrow> bool" where
  wire_lock: "wi_lock w = None \<Longrightarrow> i < length (wi_writers w) \<Longrightarrow> wi_writers w ! i = W_waiting payload \<Longrightarrow>
    wi_valid w \<Longrightarrow>
    wire_step w (w\<lparr>wi_lock := Some i,
      wi_writers := (wi_writers w)[i := W_writing (frame_pieces payload)]\<rparr>)"
| wire_invalid: "wi_lock w = None \<Longrightarrow> i < length (wi_writers w) \<Longrightarrow> wi_writers w ! i = W_waiting payload \<Longrightarrow>
    \<not> wi_valid w \<Longrightarrow> wire_step w (w\<lparr>wi_writers := (wi_writers w)[i := W_returned False]\<rparr>)"
| wire_write: "wi_lock w = Some i \<Longrightarrow> i < length (wi_writers w) \<Longrightarrow> wi_writers w ! i = W_writing pieces \<Longrightarrow>
    writer_next res pieces = (bs, next_writer) \<Longrightarrow>
    wire_step w (w\<lparr>wi_lock := (case next_writer of W_returned ok \<Rightarrow> None | _ \<Rightarrow> Some i),
      wi_bytes := wi_bytes w @ bs, wi_writers := (wi_writers w)[i := next_writer]\<rparr>)"

section \<open>A writer alone is \<open>send_frame\<close>\<close>

text \<open>The steps of one writer against the socket call \<open>snd_fn\<close>.\<close>

lemma writer_next_smaller:
  assumes "snd (writer_next res pieces) = W_writing rest"
  shows "length (concat rest) + length rest < length (concat pieces) + length pieces"
  using assms by (induction res pieces rule: writer_next.induct) (auto split: if_splits)

function writer_run :: "'s send_call \<Rightarrow> byte list list \<Rightarrow> 's \<Rightarrow> bool \<times> 's" where
  "writer_run snd_fn pieces s =
    (case pieces of
       [] \<Rightarrow> (True, s)
     | p # ps \<Rightarrow>
       if p = [] then writer_run snd_fn ps s
       else case snd_fn p s of
         (res, s') \<Rightarrow>
           (case snd (writer_next res pieces) of
              W_writing rest \<Rightarrow> writer_run snd_fn rest s'
            | _ \<Rightarrow> (False, s')))"
  by pat_completeness auto
termination
  by (relation "measure (\<lambda>(f, ps, s). length (concat ps) + length ps)")
    (auto dest!: writer_next_smaller)

declare writer_run.simps [simp del]

lemma writer_run_simps [simp]:
  "writer_run snd_fn [] s = (True, s)" "writer_run snd_fn ([] # ps) s = writer_run snd_fn ps s"
  by (simp_all add: writer_run.simps)

lemma writer_run_cons:
  "p \<noteq> [] \<Longrightarrow> writer_run snd_fn (p # ps) s =
     (case snd_fn p s of
        (None, s') \<Rightarrow> (False, s')
      | (Some k, s') \<Rightarrow> if k = 0 then (False, s') else writer_run snd_fn (drop k p # ps) s')"
  by (cases p) (auto simp: writer_run.simps [of snd_fn "_ # _"] split: prod.splits option.splits)

lemma writer_run_piece:
  "writer_run snd_fn (p # ps) s =
     (case send_all snd_fn p s of (good, s') \<Rightarrow> if good then writer_run snd_fn ps s' else (False, s'))"
proof (induction snd_fn p s rule: send_all.induct)
  case (1 snd_fn p s)
  show ?case
  proof (cases "p = []")
    case True
    then show ?thesis by (simp add: send_all.simps)
  next
    case False
    obtain res s' where res: "snd_fn p s = (res, s')" by force
    show ?thesis
    proof (cases res)
      case None
      with False res show ?thesis by (simp add: writer_run_cons send_all.simps [of snd_fn p s])
    next
      case (Some k)
      with False res 1 [OF False res [symmetric] Some] show ?thesis
        by (simp add: writer_run_cons send_all.simps [of snd_fn p s])
    qed
  qed
qed

lemma writer_run_frame: "writer_run snd_fn (frame_pieces payload) s = send_frame True snd_fn payload s"
  by (cases "payload = []")
    (auto simp: frame_pieces_def send_frame_def writer_run_piece split: prod.splits)

section \<open>Frames do not mix\<close>

lemma concat_frame_pieces: "concat (frame_pieces payload) = frame payload"
  by (simp add: frame_pieces_def frame_def)

lemma writer_next_bytes:
  "writer_next res pieces = (bs, W_writing rest) \<Longrightarrow> bs @ concat rest = concat pieces"
  "writer_next res pieces = (bs, W_returned True) \<Longrightarrow> bs = [] \<and> pieces = []"
  "writer_next res pieces \<noteq> (bs, W_waiting p)"
  by (induction res pieces rule: writer_next.induct) (auto split: if_splits)

text \<open>
  The writers that have returned, in the order of their locks; what the holder of the lock has
  written of its frame; and with both, what is on the wire, as long as no call of \<open>::send\<close> has
  failed.
\<close>

definition lock_order :: "byte list list \<Rightarrow> writer list \<Rightarrow> nat list \<Rightarrow> bool" where
  "lock_order ps ws order \<longleftrightarrow>
     distinct order \<and> (\<forall>j. j \<in> set order \<longleftrightarrow> j < length ps \<and> ws ! j = W_returned True)"

definition holder_part :: "byte list list \<Rightarrow> writer list \<Rightarrow> nat option \<Rightarrow> byte list \<Rightarrow> bool" where
  "holder_part ps ws lock part \<longleftrightarrow>
     (case lock of
        None \<Rightarrow> part = []
      | Some i \<Rightarrow> i < length ps \<and>
          (case ws ! i of W_writing pieces \<Rightarrow> part @ concat pieces = frame (ps ! i) | _ \<Rightarrow> False))"

definition wire_bytes_ok :: "byte list list \<Rightarrow> Wire \<Rightarrow> bool" where
  "wire_bytes_ok ps w \<longleftrightarrow> (\<exists>order part. lock_order ps (wi_writers w) order \<and>
     holder_part ps (wi_writers w) (wi_lock w) part \<and>
     wi_bytes w = concat (map (\<lambda>j. frame (ps ! j)) order) @ part)"

definition wire_inv :: "byte list list \<Rightarrow> Wire \<Rightarrow> bool" where
  "wire_inv ps w \<longleftrightarrow> wi_valid w \<and> length (wi_writers w) = length ps \<and>
     (\<forall>j < length ps. \<forall>p. wi_writers w ! j = W_waiting p \<longrightarrow> p = ps ! j) \<and>
     (\<forall>j < length ps. \<forall>pieces. wi_writers w ! j = W_writing pieces \<longrightarrow> wi_lock w = Some j) \<and>
     (W_returned False \<in> set (wi_writers w) \<or> wire_bytes_ok ps w)"

lemma wire_inv_start: "wire_inv ps (Wire_start ps)"
  unfolding wire_inv_def wire_bytes_ok_def
  by (auto simp: lock_order_def holder_part_def Wire_start_def intro!: exI [of _ "[]"])

lemma lock_order_update:
  assumes "lock_order ps ws order" and "ws ! i \<noteq> W_returned True" and "x \<noteq> W_returned True"
  shows "lock_order ps (ws[i := x]) order"
proof -
  have "ws[i := x] ! j = W_returned True \<longleftrightarrow> ws ! j = W_returned True" for j
    using assms(2,3) by (cases "i = j"; cases "j < length ws") (simp_all add: list_update_beyond)
  with assms(1) show ?thesis by (simp add: lock_order_def)
qed

lemma lock_order_returned:
  assumes "lock_order ps ws order" and "ws ! i \<noteq> W_returned True" and "i < length ps"
    and "length ws = length ps"
  shows "lock_order ps (ws[i := W_returned True]) (order @ [i])"
  using assms by (auto simp: lock_order_def nth_list_update)

lemma returned_stays:
  assumes "wire_step w w'" and "W_returned ok \<in> set (wi_writers w)"
  shows "W_returned ok \<in> set (wi_writers w')"
proof -
  obtain j where j: "j < length (wi_writers w)" "wi_writers w ! j = W_returned ok"
    using assms(2) by (auto simp: in_set_conv_nth)
  from assms(1) have "j < length (wi_writers w') \<and> wi_writers w' ! j = W_returned ok"
    using j by cases (auto simp: nth_list_update)
  then show ?thesis by (auto simp: in_set_conv_nth)
qed

lemma wire_shape_step:
  assumes "wire_step w w'" and "wi_valid w" and "length (wi_writers w) = n"
    and "\<forall>j < n. \<forall>p. wi_writers w ! j = W_waiting p \<longrightarrow> p = ps ! j"
  shows "wi_valid w' \<and> length (wi_writers w') = n \<and>
    (\<forall>j < n. \<forall>p. wi_writers w' ! j = W_waiting p \<longrightarrow> p = ps ! j)"
  using assms by cases (auto simp: nth_list_update dest: writer_next_bytes(3) [THEN notE])

lemma wire_bytes_lock:
  assumes "wire_bytes_ok ps w" and "wi_lock w = None" and "i < length ps"
    and "length (wi_writers w) = length ps" and "wi_writers w ! i = W_waiting (ps ! i)"
  shows "wire_bytes_ok ps (w\<lparr>wi_lock := Some i,
    wi_writers := (wi_writers w)[i := W_writing (frame_pieces (ps ! i))]\<rparr>)"
proof -
  obtain order where "lock_order ps (wi_writers w) order"
    and "wi_bytes w = concat (map (\<lambda>j. frame (ps ! j)) order)"
    using assms(1,2) by (auto simp: wire_bytes_ok_def holder_part_def)
  with assms show ?thesis unfolding wire_bytes_ok_def
    by (intro exI [of _ order] exI [of _ "[]"])
      (simp add: lock_order_update holder_part_def concat_frame_pieces)
qed

lemma wire_bytes_holder:
  assumes "wire_bytes_ok ps w" and "wi_lock w = Some i" and "wi_writers w ! i = W_writing pieces"
  obtains order part where "lock_order ps (wi_writers w) order" "i < length ps"
    "part @ concat pieces = frame (ps ! i)" "wi_bytes w = concat (map (\<lambda>j. frame (ps ! j)) order) @ part"
  using assms by (auto simp: wire_bytes_ok_def holder_part_def)

lemma wire_bytes_write:
  assumes "wire_bytes_ok ps w" and "wi_lock w = Some i" and "wi_writers w ! i = W_writing pieces"
    and "length (wi_writers w) = length ps" and "writer_next res pieces = (bs, W_writing rest)"
  shows "wire_bytes_ok ps (w\<lparr>wi_lock := Some i, wi_bytes := wi_bytes w @ bs,
    wi_writers := (wi_writers w)[i := W_writing rest]\<rparr>)"
proof -
  obtain order part where *: "lock_order ps (wi_writers w) order" "i < length ps"
    "part @ concat pieces = frame (ps ! i)" "wi_bytes w = concat (map (\<lambda>j. frame (ps ! j)) order) @ part"
    using assms(1-3) by (rule wire_bytes_holder)
  then show ?thesis unfolding wire_bytes_ok_def
    using assms(3,4) writer_next_bytes(1) [OF assms(5)]
    by (intro exI [of _ order] exI [of _ "part @ bs"]) (simp add: lock_order_update holder_part_def)
qed

lemma wire_bytes_unlock:
  assumes "wire_bytes_ok ps w" and "wi_lock w = Some i" and "wi_writers w ! i = W_writing []"
    and "length (wi_writers w) = length ps"
  shows "wire_bytes_ok ps (w\<lparr>wi_lock := None,
    wi_writers := (wi_writers w)[i := W_returned True]\<rparr>)"
proof -
  obtain order part where *: "lock_order ps (wi_writers w) order" "i < length ps"
    "part @ concat [] = frame (ps ! i)" "wi_bytes w = concat (map (\<lambda>j. frame (ps ! j)) order) @ part"
    using assms(1-3) by (rule wire_bytes_holder)
  then show ?thesis unfolding wire_bytes_ok_def using assms(3,4)
    by (intro exI [of _ "order @ [i]"] exI [of _ "[]"]) (simp add: lock_order_returned holder_part_def)
qed

lemma wire_bytes_step:
  assumes "wire_step w w'" and "wire_bytes_ok ps w" and "wi_valid w" and "length (wi_writers w) = length ps"
    and "\<forall>j < length ps. \<forall>p. wi_writers w ! j = W_waiting p \<longrightarrow> p = ps ! j"
  shows "W_returned False \<in> set (wi_writers w') \<or> wire_bytes_ok ps w'"
  using assms(1)
proof cases
  case (wire_lock i payload)
  then show ?thesis using wire_bytes_lock [OF assms(2), of i] assms(4,5) by simp
next
  case (wire_invalid i payload)
  then show ?thesis using assms(3) by simp
next
  case (wire_write i pieces res bs next_writer)
  show ?thesis
  proof (cases next_writer)
    case (W_waiting p)
    then show ?thesis using wire_write(5) writer_next_bytes(3) by simp
  next
    case (W_writing rest)
    then show ?thesis using wire_write wire_bytes_write [OF assms(2) wire_write(2,4) assms(4)] by simp
  next
    case (W_returned ok)
    show ?thesis
    proof (cases ok)
      case True
      then have "bs = []" "pieces = []" using W_returned wire_write(5) writer_next_bytes(2) by auto
      then show ?thesis
        using wire_bytes_unlock [OF assms(2) wire_write(2) _ assms(4)] wire_write W_returned True by simp
    next
      case False
      then show ?thesis using wire_write W_returned by (simp add: set_update_memI)
    qed
  qed
qed

lemma wire_holder_step:
  assumes "wire_step w w'" and "length (wi_writers w) = n"
    and "\<forall>j < n. \<forall>pieces. wi_writers w ! j = W_writing pieces \<longrightarrow> wi_lock w = Some j"
  shows "\<forall>j < n. \<forall>pieces. wi_writers w' ! j = W_writing pieces \<longrightarrow> wi_lock w' = Some j"
  using assms(1)
proof cases
  case (wire_lock i payload)
  then show ?thesis using assms(2,3) by (auto simp: nth_list_update)
next
  case (wire_invalid i payload)
  then show ?thesis using assms(2,3) by (auto simp: nth_list_update)
next
  case (wire_write i pieces res bs next_writer)
  have other: "j = i" if "j < n" "wi_writers w ! j = W_writing p" for j p
  proof -
    from that assms(3) have "wi_lock w = Some j" by blast
    with wire_write(2) show ?thesis by simp
  qed
  show ?thesis
  proof (intro allI impI)
    fix j p assume "j < n" "wi_writers w' ! j = W_writing p"
    with other [of j] wire_write assms(2) show "wi_lock w' = Some j" by (cases "j = i") auto
  qed
qed

lemma wire_inv_step: "wire_step w w' \<Longrightarrow> wire_inv ps w \<Longrightarrow> wire_inv ps w'"
  using wire_shape_step [of w w' "length ps" ps] wire_holder_step [of w w' "length ps"] wire_bytes_step [of w w' ps] returned_stays [of w w' False]
  unfolding wire_inv_def by blast

lemma wire_inv_steps: "wire_step\<^sup>*\<^sup>* (Wire_start ps) w \<Longrightarrow> wire_inv ps w"
  by (induction rule: rtranclp_induct) (auto intro: wire_inv_start wire_inv_step)

lemma mset_map_nth:
  assumes "distinct order" and "set order = {..<length ps}"
  shows "mset (map ((!) ps) order) = mset ps"
proof -
  have "set order = set [0..<length ps]" by (simp only: assms(2) set_upt lessThan_atLeast0)
  then have "mset order = mset [0..<length ps]"
    by (rule set_eq_iff_mset_eq_distinct [OF assms(1) distinct_upt, THEN iffD1])
  then have "mset (map ((!) ps) order) = mset (map ((!) ps) [0..<length ps])" by simp
  then show ?thesis by (simp only: map_nth)
qed

lemma wire_all_returned:
  assumes "wire_step\<^sup>*\<^sup>* (Wire_start ps) w" and "\<forall>x \<in> set (wi_writers w). x = W_returned True"
  shows "\<exists>qs. mset qs = mset ps \<and> wi_bytes w = concat (map frame qs)"
proof -
  have inv: "wire_inv ps w" using assms(1) by (rule wire_inv_steps)
  then have all: "wi_writers w ! j = W_returned True" if "j < length ps" for j
    using assms(2) that by (simp add: wire_inv_def)
  obtain order part where order: "lock_order ps (wi_writers w) order"
    "holder_part ps (wi_writers w) (wi_lock w) part"
    "wi_bytes w = concat (map (\<lambda>j. frame (ps ! j)) order) @ part"
    using inv assms(2) by (auto simp: wire_inv_def wire_bytes_ok_def)
  have "part = []" using order(2) all by (auto simp: holder_part_def split: option.splits)
  then have "wi_bytes w = concat (map frame (map ((!) ps) order))"
    using order(3) by (simp add: comp_def)
  moreover have "distinct order" "set order = {..<length ps}"
    using order(1) all by (auto simp: lock_order_def)
  ultimately show ?thesis using mset_map_nth [of order ps] by blast
qed

text \<open>A writer that gets the lock can finish: every call takes all the bytes.\<close>

lemma holder_finishes:
  assumes "wi_lock w = Some i" and "i < length (wi_writers w)" and "wi_writers w ! i = W_writing pieces"
  shows "wire_step\<^sup>*\<^sup>* w (w\<lparr>wi_lock := None, wi_bytes := wi_bytes w @ concat pieces,
    wi_writers := (wi_writers w)[i := W_returned True]\<rparr>)"
  using assms
proof (induction "length (concat pieces) + length pieces" arbitrary: w pieces rule: less_induct)
  case less
  show ?case
  proof (cases pieces)
    case Nil
    then show ?thesis using wire_write [OF less.prems, of None "[]" "W_returned True"] by auto
  next
    case (Cons p ps)
    define res where "res = Some (length p)"
    obtain bs rest where nx: "writer_next res pieces = (bs, W_writing rest)"
      by (cases p) (auto simp: Cons res_def)
    define u where "u = w\<lparr>wi_lock := Some i, wi_bytes := wi_bytes w @ bs,
      wi_writers := (wi_writers w)[i := W_writing rest]\<rparr>"
    have "wire_step w u" using wire_write [OF less.prems nx] by (simp add: u_def)
    also have "wire_step\<^sup>*\<^sup>* u (u\<lparr>wi_lock := None, wi_bytes := wi_bytes u @ concat rest,
        wi_writers := (wi_writers u)[i := W_returned True]\<rparr>)"
      using less.hyps [of rest u] writer_next_smaller [of res pieces rest] nx less.prems by (simp add: u_def)
    finally show ?thesis using writer_next_bytes(1) [OF nx] by (simp add: u_def)
  qed
qed

lemma waiting_finishes:
  assumes "wi_lock w = None" and "wi_valid w" and "i < length (wi_writers w)"
    and "wi_writers w ! i = W_waiting payload"
  shows "wire_step\<^sup>*\<^sup>* w (w\<lparr>wi_lock := None, wi_bytes := wi_bytes w @ frame payload,
    wi_writers := (wi_writers w)[i := W_returned True]\<rparr>)"
proof -
  let ?u = "w\<lparr>wi_lock := Some i, wi_writers := (wi_writers w)[i := W_writing (frame_pieces payload)]\<rparr>"
  have "wire_step w ?u" using assms by (auto intro: wire_lock)
  also have "wire_step\<^sup>*\<^sup>* ?u (?u\<lparr>wi_lock := None, wi_bytes := wi_bytes ?u @ concat (frame_pieces payload),
      wi_writers := (wi_writers ?u)[i := W_returned True]\<rparr>)"
    by (rule holder_finishes) (use assms in simp_all)
  finally show ?thesis by (simp add: concat_frame_pieces)
qed

lemma wire_writing_holder:
  assumes "wire_inv ps w" and "j < length (wi_writers w)" and "wi_writers w ! j = W_writing pieces"
  shows "wi_lock w = Some j"
  using assms by (auto simp: wire_inv_def)

text \<open>The lock is never stuck: unless every writer has returned, a step is possible.\<close>

lemma wire_progress:
  assumes "wire_inv ps w" and "W_returned False \<notin> set (wi_writers w)" and "\<nexists>w'. wire_step w w'"
  shows "\<forall>x \<in> set (wi_writers w). x = W_returned True"
proof -
  have free: "wi_lock w = None"
  proof (rule ccontr)
    assume "wi_lock w \<noteq> None"
    then obtain i where i: "wi_lock w = Some i" by blast
    have "wire_bytes_ok ps w" using assms(1,2) by (simp add: wire_inv_def)
    then obtain order part where "holder_part ps (wi_writers w) (wi_lock w) part"
      by (auto simp: wire_bytes_ok_def)
    then obtain pieces where "i < length ps" "wi_writers w ! i = W_writing pieces"
      using i by (auto simp: holder_part_def split: writer.splits)
    moreover have "length (wi_writers w) = length ps" using assms(1) by (simp add: wire_inv_def)
    ultimately show False using wire_write [OF i, of pieces None] assms(3) by (metis surj_pair)
  qed
  have "wi_writers w ! j = W_returned True" if j: "j < length (wi_writers w)" for j
  proof (cases "wi_writers w ! j")
    case (W_waiting p)
    then show ?thesis using wire_lock [OF free j W_waiting] assms(1,3) by (auto simp: wire_inv_def)
  next
    case (W_writing pieces)
    then show ?thesis using wire_writing_holder [OF assms(1) j W_writing] free by simp
  next
    case (W_returned ok)
    then show ?thesis using assms(2) j by (cases ok) (auto simp: in_set_conv_nth)
  qed
  then show ?thesis by (auto simp: in_set_conv_nth)
qed

section \<open>Properties\<close>

text \<open>
  C27: \<open>write_lock_\<close> keeps the frames of concurrent senders apart: threads call \<open>send_frame\<close>
  with the payloads \<open>ps\<close> on one socket, each call of \<open>::send\<close> taking as many bytes as it likes and
  the steps of the threads interleaving in any way that the lock allows. Where no thread can
  make a further step and no call has failed, a receiver of the stream gets each payload once and
  whole, and nothing is left over; only the order is that of the lock. In particular no thread is
  left waiting for the lock.
\<close>

theorem writers_serialized:
  assumes "wire_step\<^sup>*\<^sup>* (Wire_start ps) w" and "\<nexists>w'. wire_step w w'"
    and "W_returned False \<notin> set (wi_writers w)"
    and "recv_stream pending rcv" and "pending s = wi_bytes w" and "\<forall>p \<in> set ps. length p \<le> frame_cap"
  shows "(\<forall>x \<in> set (wi_writers w). x = W_returned True) \<and>
    (\<exists>qs s'. mset qs = mset ps \<and> recv_frames rcv (length ps) s = (Some qs, s') \<and> pending s' = [])"
proof -
  have all: "\<forall>x \<in> set (wi_writers w). x = W_returned True"
    using wire_progress [OF wire_inv_steps [OF assms(1)] assms(3,2)] .
  then obtain qs where qs: "mset qs = mset ps" "wi_bytes w = concat (map frame qs)"
    using wire_all_returned [OF assms(1)] by blast
  then have "set qs = set ps" "length qs = length ps" by (auto dest: mset_eq_setD mset_eq_length)
  moreover obtain s' where "recv_frames rcv (length qs) s = (Some qs, s')" "pending s' = []"
    using recv_frames_stream [OF assms(4), of qs s "[]"] assms(5,6) qs(2) calculation by auto
  ultimately show ?thesis using qs(1) all by auto
qed

text \<open>Two writers, the second of which gets the lock first.\<close>

definition two_frames :: Wire where
  "two_frames = \<lparr>wi_valid = True, wi_lock = None, wi_bytes = frame [2, 3] @ frame [1],
     wi_writers = [W_returned True, W_returned True]\<rparr>"

lemma two_frames_reached: "wire_step\<^sup>*\<^sup>* (Wire_start [[1], [2, 3]]) two_frames"
proof (rule rtranclp_trans)
  show "wire_step\<^sup>*\<^sup>* (Wire_start [[1], [2, 3]]) \<lparr>wi_valid = True, wi_lock = None,
      wi_bytes = frame [2, 3], wi_writers = [W_waiting [1], W_returned True]\<rparr>"
    using waiting_finishes [of "Wire_start [[1], [2, 3]]" 1 "[2, 3]"] by (simp add: Wire_start_def)
  show "wire_step\<^sup>*\<^sup>* \<lparr>wi_valid = True, wi_lock = None,
      wi_bytes = frame [2, 3], wi_writers = [W_waiting [1], W_returned True]\<rparr> two_frames"
    using waiting_finishes [of "\<lparr>wi_valid = True, wi_lock = None, wi_bytes = frame [2, 3],
        wi_writers = [W_waiting [1], W_returned True]\<rparr>" 0 "[1]"] by (simp add: two_frames_def)
qed

lemma two_frames_over: "\<nexists>w'. wire_step two_frames w'"
  by (auto simp: two_frames_def less_Suc_eq numeral_2_eq_2 elim!: wire_step.cases)

lemma writers_serialized_witness:
  "\<exists>qs s'. mset qs = mset [[1], [2, 3 :: byte]] \<and>
     recv_frames byte_recv 2 (frame [2, 3] @ frame [1]) = (Some qs, s') \<and> s' = []"
proof -
  have "\<exists>qs s'. mset qs = mset [[1], [2, 3 :: byte]] \<and>
      recv_frames byte_recv (length [[1], [2, 3 :: byte]]) (wi_bytes two_frames) = (Some qs, s') \<and> s' = []"
    by (rule writers_serialized [OF two_frames_reached two_frames_over _ byte_stream(2), THEN conjunct2])
      (simp_all add: two_frames_def frame_cap_def)
  then show ?thesis by (simp only: two_frames_def Wire.simps list.size numeral_2_eq_2 One_nat_def add_0 add_Suc)
qed

text \<open>
  What the hypothesis on failures is for: a call that fails inside a frame leaves its first bytes on
  the wire and the socket open, so the next sender, whose \<open>send_frame\<close> returns true, is not
  understood.
\<close>

lemma recv_exact_short: "length s < n \<Longrightarrow> fst (recv_exact byte_recv n s) = None"
proof (induction "length s" arbitrary: n s rule: less_induct)
  case less
  show ?case
  proof (cases "s = []")
    case True
    with less.prems show ?thesis by (simp add: recv_exact.simps [of byte_recv n] byte_recv_def)
  next
    case False
    have "fst (recv_exact byte_recv (n - length (take (min 2 n) s)) (drop (min 2 n) s)) = None"
      by (rule less.hyps) (use less.prems False in auto)
    with less.prems False show ?thesis
      by (auto simp: recv_exact.simps [of byte_recv n] byte_recv_def split: prod.splits option.splits)
  qed
qed

lemma torn_bytes: "fst (recv_frame True byte_recv (1 # frame [2, 3])) = None"
proof -
  have hd: "frame_header [2, 3] = [2, 0, 0, 0]" by code_simp
  have ld: "load_le 4 [1, 2, 0, 0] 0 = (513 :: uint32_t)" by code_simp
  have ex: "recv_exact byte_recv 4 ([1, 2, 0, 0] @ rest) = (Some [1, 2, 0, 0], rest)" for rest
    using recv_exact_stream [OF byte_stream(2), of "[1, 2, 0, 0] @ rest" "[1, 2, 0, 0]" rest]
    by (simp add: numeral_eq_Suc)
  obtain s' where "recv_exact byte_recv 513 (0 # [2, 3] @ frame_check [2, 3]) = (None, s')"
    using recv_exact_short [of "0 # [2, 3] @ frame_check [2, 3]" 513]
    by (cases "recv_exact byte_recv 513 (0 # [2, 3] @ frame_check [2, 3])") (simp add: frame_check_def)
  then show ?thesis using ex [of "0 # [2, 3] @ frame_check [2, 3]"]
    by (simp add: recv_frame_def frame_def hd ld frame_cap_def split: prod.splits option.splits)
qed

lemma torn_frame:
  "\<exists>w. wire_step\<^sup>*\<^sup>* (Wire_start [[1], [2, 3]]) w \<and>
     wi_writers w = [W_returned False, W_returned True] \<and> wi_bytes w = 1 # frame [2, 3] \<and>
     fst (recv_frame True byte_recv (wi_bytes w)) = None"
proof -
  let ?q = "W_waiting [2, 3]"
  let ?rest = "drop 1 (frame_header [1]) # [1] # [frame_check [1]]"
  have hd: "frame_header [1] = [1, 0, 0, 0]" by code_simp
  have 1: "wire_step (Wire_start [[1], [2, 3]]) \<lparr>wi_valid = True, wi_lock = Some 0, wi_bytes = [],
      wi_writers = [W_writing (frame_pieces [1]), ?q]\<rparr>"
    using wire_lock [of "Wire_start [[1], [2, 3]]" 0 "[1]"] by (simp add: Wire_start_def)
  have 2: "wire_step \<lparr>wi_valid = True, wi_lock = Some 0, wi_bytes = [],
      wi_writers = [W_writing (frame_pieces [1]), ?q]\<rparr> \<lparr>wi_valid = True, wi_lock = Some 0, wi_bytes = [1],
      wi_writers = [W_writing ?rest, ?q]\<rparr>"
    using wire_write [of "\<lparr>wi_valid = True, wi_lock = Some 0, wi_bytes = [],
      wi_writers = [W_writing (frame_pieces [1]), ?q]\<rparr>" 0 "frame_pieces [1]" "Some 1" "[1]" "W_writing ?rest"]
    by (simp add: frame_pieces_def hd)
  have 3: "wire_step \<lparr>wi_valid = True, wi_lock = Some 0, wi_bytes = [1], wi_writers = [W_writing ?rest, ?q]\<rparr>
      \<lparr>wi_valid = True, wi_lock = None, wi_bytes = [1], wi_writers = [W_returned False, ?q]\<rparr>"
    using wire_write [of "\<lparr>wi_valid = True, wi_lock = Some 0, wi_bytes = [1],
      wi_writers = [W_writing ?rest, ?q]\<rparr>" 0 ?rest None "[]" "W_returned False"] by (simp add: hd)
  have 4: "wire_step\<^sup>*\<^sup>* \<lparr>wi_valid = True, wi_lock = None, wi_bytes = [1], wi_writers = [W_returned False, ?q]\<rparr>
      \<lparr>wi_valid = True, wi_lock = None, wi_bytes = 1 # frame [2, 3],
       wi_writers = [W_returned False, W_returned True]\<rparr>"
    using waiting_finishes [of "\<lparr>wi_valid = True, wi_lock = None, wi_bytes = [1],
      wi_writers = [W_returned False, ?q]\<rparr>" 1 "[2, 3]"] by simp
  have "wire_step\<^sup>*\<^sup>* (Wire_start [[1], [2, 3]]) \<lparr>wi_valid = True, wi_lock = None,
      wi_bytes = 1 # frame [2, 3], wi_writers = [W_returned False, W_returned True]\<rparr>"
    by (rule converse_rtranclp_into_rtranclp [OF 1 converse_rtranclp_into_rtranclp
        [OF 2 converse_rtranclp_into_rtranclp [OF 3 4]]])
  then show ?thesis using torn_bytes by (intro exI conjI) (assumption | simp)+
qed

end
