(* ===== verification/AF_ThreadTests.thy ===== *)
theory AF_ThreadTests
  imports AF_FabricTests AF_Writers
begin

text \<open>
  The test programs with threads, processes and the device (\<open>tests/test_concurrency.cpp\<close>,
  \<open>test_multiprocess.cpp\<close>, \<open>test_cuda.cpp\<close>), and what all test programs together report.
\<close>

section \<open>A fabric under one lock\<close>

text \<open>
  One round of a thread: the adapter made at \<open>rng1\<close> before the lock is taken, everything else under
  the lock, at \<open>rng2\<close>. \<open>Inl\<close> is an exception, \<open>Inr\<close> the verdict on the fence.
\<close>

definition locked_round ::
    "BaseModelId \<Rightarrow> ModelRevisionId \<Rightarrow> nat \<Rightarrow> nat \<Rightarrow> Rng \<Rightarrow> Rng \<Rightarrow> Fabric \<Rightarrow> (Error + bool) \<times> Fabric" where
  "locked_round bm mr t i rng1 rng2 f =
    (let d = fst (make_lora (''adapter_'' @ dec_str t @ ''_'' @ dec_str i) bm mr 4096 8 rng1);
         owner = ''t'' @ dec_str t @ ''_'' @ dec_str i in
     case register_adapter d f of
       (Inl e, f1) \<Rightarrow> (Inl e, f1)
     | (Inr r, f1) \<Rightarrow>
     (case validate (ad_id r) (fixture_target bm mr) f1 of
       Inl e \<Rightarrow> (Inl e, f1)
     | Inr rep \<Rightarrow>
       let (w, rng3) = example_worker rng2; f2 = register_worker w f1; (dev, rng4) = Id_generate rng3 in
     (case create_instance (ad_id r) (wr_id w) (wr_boot w) dev (ad_memory_bytes r) rng4 f2 of
       (Inl e, rng5, f3) \<Rightarrow> (Inl e, f3)
     | (Inr inst, rng5, f3) \<Rightarrow>
       let (attempt, rng6) = Id_generate rng5; check = check_fence (test_fence f3 r w attempt dev) f3 in
     (case reserve on_device (ad_memory_bytes r) owner (fb_capacity f3) of
       (Inl e, cap) \<Rightarrow> (Inl e, f3\<lparr>fb_capacity := cap\<rparr>)
     | (Inr _, cap) \<Rightarrow>
     (case release on_device (ad_memory_bytes r) owner cap of
       (Inl e, cap1) \<Rightarrow> (Inl e, f3\<lparr>fb_capacity := cap1\<rparr>)
     | (Inr _, cap1) \<Rightarrow> (Inr (authorized check), f3\<lparr>fb_capacity := cap1\<rparr>))))))"

text \<open>
  The threads: the rounds each has done, the threads an exception has ended, and the failures. A
  schedule says which thread takes the lock next; \<open>rng1\<close> and \<open>rng2\<close> are whatever the generator that
  all of them share has come to.
\<close>

record LockRun =
  lr_fabric :: Fabric
  lr_rounds :: "nat \<Rightarrow> nat"
  lr_ended :: "nat set"
  lr_failures :: nat

definition lock_step ::
    "BaseModelId \<Rightarrow> ModelRevisionId \<Rightarrow> nat \<times> Rng \<times> Rng \<Rightarrow> LockRun \<Rightarrow> LockRun" where
  "lock_step bm mr s st =
    (case s of (t, rng1, rng2) \<Rightarrow>
     if t < 8 \<and> lr_rounds st t < 200 \<and> t \<notin> lr_ended st then
       (case locked_round bm mr t (lr_rounds st t) rng1 rng2 (lr_fabric st) of
          (Inl e, f) \<Rightarrow> st\<lparr>lr_fabric := f, lr_ended := insert t (lr_ended st), lr_failures := lr_failures st + 1\<rparr>
        | (Inr good, f) \<Rightarrow> st\<lparr>lr_fabric := f, lr_rounds := (lr_rounds st)(t := lr_rounds st t + 1),
            lr_failures := lr_failures st + (if good then 0 else 1)\<rparr>)
     else st)"

definition concurrency_fabric_operations_locked :: "(nat \<times> Rng \<times> Rng) list \<Rightarrow> test" where
  "concurrency_fabric_operations_locked schedule rng =
    (let (bm, rng1) = Id_generate rng; (mr, rng2) = Id_generate rng1;
         st = fold (lock_step bm mr) schedule
           \<lparr>lr_fabric = Fabric_default, lr_rounds = \<lambda>_. 0, lr_ended = {}, lr_failures = 0\<rparr>
     in ran [lr_failures st = 0, is_clean (fb_capacity (lr_fabric st))] rng2)"

text \<open>What every round finds and leaves.\<close>

definition between_rounds :: "Fabric \<Rightarrow> bool" where
  "between_rounds f \<longleftrightarrow> fb_current_attempt f = [] \<and> empty_device 0x10000000000 (fb_capacity f)"

lemma locked_round_clean:
  assumes "between_rounds f" and "\<not> Id_is_nil bm" and "\<not> Id_is_nil mr"
  shows "\<exists>f'. locked_round bm mr t i rng1 rng2 f = (Inr True, f') \<and> between_rounds f'"
proof -
  let ?owner = "''t'' @ dec_str t @ ''_'' @ dec_str i"
  obtain cap1 cap2 where cap: "reserve on_device 4096 ?owner (fb_capacity f) = (Inr (), cap1)"
    "release on_device 4096 ?owner cap1 = (Inr (), cap2)" "empty_device 0x10000000000 cap2"
    using round_keeps_empty [of "0x10000000000" "fb_capacity f" 4096 ?owner] assms(1)
    by (auto simp: between_rounds_def word_le_nat_alt)
  show ?thesis
    using assms cap
    by (simp add: locked_round_def make_lora_lora register_adapter_def validate_def adapter_def example_worker_drawn
        register_worker_def Id_generate_drawn create_instance_def test_fence_def check_fence_def worker_def
        authority_record_def fresh_authority_def authorized_def verdict_def between_rounds_def Let_def)
qed

lemma default_limits:
  fixes c :: CapacityAccountant and locs :: "ResidencyLocation list"
  assumes "ca_used c = []" and "ca_held c = []"
  defines "d \<equiv> foldl (\<lambda>c loc. if limit c loc = 0 then set_limit loc (push_bit 40 1) c else c) c locs"
  shows "ca_used d = [] \<and> ca_held d = [] \<and>
    limit d l = (if limit c l = 0 \<and> l \<in> set locs then 0x10000000000 else limit c l)"
  using assms(1,2) unfolding d_def
  by (induction locs arbitrary: c) (auto simp: set_limit_def limit_def)

lemma default_between_rounds: "between_rounds Fabric_default"
proof -
  let ?d = "fb_capacity Fabric_default"
  have "on_device \<in> set all_locations" by (simp add: all_locations_def)
  then have d: "ca_used ?d = []" "ca_held ?d = []" "limit ?d on_device = 0x10000000000"
    using default_limits [of CapacityAccountant_default all_locations on_device]
    by (simp_all add: Fabric_default_def Fabric_empty_def CapacityAccountant_default_def limit_def)
  then have "used ?d loc = 0" "held ?d loc owner = 0" for loc owner by (simp_all add: used_def held_def)
  with d have "empty_device 0x10000000000 ?d"
    by (simp add: empty_device_def capacity_inv_def total_held_def smap_ok_def)
  then show ?thesis by (simp add: between_rounds_def Fabric_default_def Fabric_empty_def)
qed

lemma locked_pass: "passes 2 4 rng (concurrency_fabric_operations_locked schedule)"
proof -
  let ?bm = "drawn 0 rng :: BaseModelId" and ?mr = "drawn 2 rng :: ModelRevisionId"
  have "between_rounds (lr_fabric st) \<and> lr_failures st = 0 \<Longrightarrow>
      between_rounds (lr_fabric (fold (lock_step ?bm ?mr) schedule st)) \<and>
      lr_failures (fold (lock_step ?bm ?mr) schedule st) = 0" for st
  proof (induction schedule arbitrary: st)
    case (Cons s schedule)
    obtain t rng1 rng2 where s: "s = (t, rng1, rng2)" by (cases s)
    obtain f' where "locked_round ?bm ?mr t (lr_rounds st t) rng1 rng2 (lr_fabric st) = (Inr True, f')" "between_rounds f'"
      using locked_round_clean [of "lr_fabric st" ?bm ?mr t "lr_rounds st t" rng1 rng2] Cons.prems by auto
    with Cons show ?case by (simp add: s lock_step_def)
  qed simp
  from this [of "\<lparr>lr_fabric = Fabric_default, lr_rounds = \<lambda>_. 0, lr_ended = {}, lr_failures = 0\<rparr>"]
  show ?thesis
    by (simp add: case_run concurrency_fabric_operations_locked_def default_between_rounds)
      (simp add: between_rounds_def empty_device_def is_clean_held)
qed

section \<open>Frames of several threads on one socket\<close>

text \<open>The messages of the four senders, and the thread that receives and counts mismatches.\<close>

definition numbered_message :: "nat \<Rightarrow> nat \<Rightarrow> Message" where
  "numbered_message t i = Message_default
     \<lparr>m_type := MT_ctl_list, m_text := ''t'' @ dec_str t, m_a := of_nat (t * 50 + i)\<rparr>"

definition sent_messages :: "Message list" where
  "sent_messages = concat (map (\<lambda>t. map (numbered_message t) [0..<50]) [0..<4])"

text \<open>An exception of \<open>decode_message\<close> would leave the thread and end the process: \<open>None\<close>.\<close>

fun count_mismatches ::
    "'s recv_call \<Rightarrow> nat \<Rightarrow> bool list \<Rightarrow> nat \<Rightarrow> 's \<Rightarrow> nat option \<times> 's" where
  "count_mismatches rcv 0 seen n s = (Some n, s)"
| "count_mismatches rcv (Suc k) seen n s =
    (case recv_frame True rcv s of
       (None, s1) \<Rightarrow> (Some (n + 1), s1)
     | (Some buf, s1) \<Rightarrow>
       (case decode_message buf of
          Inl e \<Rightarrow> (None, s1)
        | Inr m \<Rightarrow>
          if m_a m < 200
          then count_mismatches rcv k (seen[unat (m_a m) := True])
            (n + (if seen ! unat (m_a m) then 1 else 0)) s1
          else count_mismatches rcv k seen (n + 1) s1))"

text \<open>
  The case, once the threads are joined: \<open>w\<close> is where the senders have come to, each of the 200 calls
  of \<open>send_frame\<close> a writer (the order in which one thread makes its calls is one of the orders), and
  \<open>s\<close> is the receiving end, of which \<open>pending\<close> is what has arrived. \<open>listening\<close> and \<open>connected\<close> are
  the answers of the operating system.
\<close>

definition concurrency_transport_frame_integrity ::
    "bool \<Rightarrow> bool \<Rightarrow> Wire \<Rightarrow> 's recv_call \<Rightarrow> 's \<Rightarrow> test" where
  "concurrency_transport_frame_integrity listening connected w rcv s rng =
    (let c0 = [listening, connected];
         unsent = length (filter ((=) (W_returned False)) (wi_writers w))
     in case count_mismatches rcv 200 (replicate 200 False) 0 s of
          (None, s1) \<Rightarrow> threw c0 rng
        | (Some n, s1) \<Rightarrow> ran (c0 @ [unsent + n = 0]) rng)"

lemma numbers: "map (\<lambda>m. unat (m_a m)) sent_messages = [0..<200]"
  by code_simp

lemma sent_size: "m \<in> set sent_messages \<Longrightarrow> message_size m < 70"
proof -
  have "list_all (\<lambda>m. message_size m < 70) sent_messages" by code_simp
  then show "m \<in> set sent_messages \<Longrightarrow> message_size m < 70" by (simp add: list_all_iff)
qed

lemma count_mismatches_none:
  assumes "recv_stream pending rcv"
  shows "pending s = concat (map (\<lambda>m. frame (encode_message m)) ms) @ rest \<Longrightarrow>
     \<forall>m \<in> set ms. message_size m < 70 \<and> unat (m_a m) < 200 \<and> \<not> seen ! unat (m_a m) \<Longrightarrow>
     distinct (map (\<lambda>m. unat (m_a m)) ms) \<Longrightarrow>
     \<exists>s'. count_mismatches rcv (length ms) seen n s = (Some n, s')"
proof (induction ms arbitrary: seen s)
  case (Cons m ms)
  have m: "message_size m < 70" "unat (m_a m) < 200" "\<not> seen ! unat (m_a m)" using Cons.prems by simp_all
  obtain s1 where s1: "recv_frame True rcv s = (Some (encode_message m), s1)"
    "pending s1 = concat (map (\<lambda>m. frame (encode_message m)) ms) @ rest"
    using recv_frame_stream [OF assms, of s "encode_message m"] Cons.prems(1) m(1) by (auto simp: frame_cap_def)
  have "m_a m < 200" using m(2) by (simp add: word_less_nat_alt)
  moreover have "decode_message (encode_message m) = Inr m"
    using message_roundtrip [OF message_size_ok, of m] m(1) by simp
  moreover have "\<forall>x \<in> set ms. \<not> (seen[unat (m_a m) := True]) ! unat (m_a x)"
  proof
    fix x assume "x \<in> set ms"
    moreover have "unat (m_a m) \<notin> (\<lambda>m. unat (m_a m)) ` set ms" using Cons.prems(3) by simp
    ultimately have "unat (m_a x) \<noteq> unat (m_a m)" by (metis imageI)
    then show "\<not> (seen[unat (m_a m) := True]) ! unat (m_a x)" using Cons.prems(2) \<open>x \<in> set ms\<close> by simp
  qed
  ultimately show ?case
    using Cons.IH [OF s1(2), of "seen[unat (m_a m) := True]"] Cons.prems m s1(1) by simp
qed simp

lemma sent_again:
  assumes "mset qs = mset (map encode_message sent_messages)"
  obtains ms where "qs = map encode_message ms" "mset ms = mset sent_messages"
proof -
  let ?dec = "\<lambda>b. projr (decode_message b)"
  have dec: "?dec (encode_message m) = m" if "m \<in> set sent_messages" for m
    using message_roundtrip [OF message_size_ok, of m] sent_size [OF that] by simp
  have "set qs = encode_message ` set sent_messages" using mset_eq_setD [OF assms] by simp
  then have "map encode_message (map ?dec qs) = qs" using dec by (auto intro!: map_idI)
  moreover have "mset (map ?dec qs) = image_mset (\<lambda>m. ?dec (encode_message m)) (mset sent_messages)"
    using arg_cong [OF assms, of "image_mset ?dec"] by (simp add: multiset.map_comp comp_def)
  moreover have "\<dots> = image_mset (\<lambda>m. m) (mset sent_messages)"
    by (rule image_mset_cong) (simp add: dec)
  ultimately show thesis using that [of "map ?dec qs"] by simp
qed

lemma frame_integrity_passes:
  assumes "recv_stream pending rcv"
    and "wire_step\<^sup>*\<^sup>* (Wire_start (map encode_message sent_messages)) w"
    and "\<forall>x \<in> set (wi_writers w). x = W_returned True"
    and "pending s = wi_bytes w"
  shows "passes 3 0 rng (concurrency_transport_frame_integrity True True w rcv s)"
proof -
  obtain qs where perm: "mset qs = mset (map encode_message sent_messages)" and bytes: "wi_bytes w = concat (map frame qs)"
    using wire_all_returned [OF assms(2,3)] by blast
  obtain ms where ms: "qs = map encode_message ms" "mset ms = mset sent_messages"
    by (rule sent_again [OF perm])
  have "mset (map (\<lambda>m. unat (m_a m)) ms) = mset [0..<200]"
    using ms(2) by (simp add: numbers [symmetric] del: upt_rec_numeral)
  then have nums: "distinct (map (\<lambda>m. unat (m_a m)) ms)" "set (map (\<lambda>m. unat (m_a m)) ms) = {0..<200}" "length ms = 200"
    by (metis distinct_upt mset_eq_imp_distinct_iff, metis mset_eq_setD set_upt,
      metis diff_zero length_map length_upt mset_eq_length)
  have "\<forall>m \<in> set ms. message_size m < 70 \<and> unat (m_a m) < 200 \<and> \<not> replicate 200 False ! unat (m_a m)"
  proof
    fix m assume m: "m \<in> set ms"
    then have "unat (m_a m) \<in> {0..<200}" unfolding nums(2) [symmetric] by simp
    with m sent_size mset_eq_setD [OF ms(2)] show "message_size m < 70 \<and> unat (m_a m) < 200 \<and>
        \<not> replicate 200 False ! unat (m_a m)" by simp
  qed
  then obtain s' where "count_mismatches rcv (length ms) (replicate 200 False) 0 s = (Some 0, s')"
    using count_mismatches_none [OF assms(1), of s ms "[]" "replicate 200 False" 0] nums(1) bytes assms(4)
    by (auto simp: ms(1) comp_def)
  moreover have "filter ((=) (W_returned False)) (wi_writers w) = []"
    using assms(3) by (auto simp: filter_empty_conv)
  ultimately show ?thesis
    by (simp add: passes_def concurrency_transport_frame_integrity_def nums(3))
qed

section \<open>The self-tests\<close>

text \<open>
  A program of one case each: the self-test over processes, and the one on the device, which is skipped
  where there is none (\<open>None\<close> is undefined behaviour). What they do to the generator is not needed.
\<close>

definition multiprocess_real_os_proof :: "'e proof_env \<Rightarrow> string \<Rightarrow> string \<Rightarrow> 'e \<Rightarrow> test" where
  "multiprocess_real_os_proof env coordinator_exe worker_exe s rng =
    (case proof_exit (fst (run_multiprocess_proof env coordinator_exe worker_exe 23001 s)) of
       None \<Rightarrow> threw [] rng
     | Some r \<Rightarrow> ran [r = 0] rng)"

definition cuda_real_proof :: "'f detail \<Rightarrow> ('f device \<Rightarrow> (int \<times> 'f device) option) \<Rightarrow> 'f device \<Rightarrow> test" where
  "cuda_real_proof det run g rng =
    (if \<not> det_available det g then ran [] rng
     else case run g of None \<Rightarrow> threw [] rng | Some (r, g1) \<Rightarrow> ran [r = 0] rng)"

lemma self_tests_pass:
  "CHR '' '' \<notin> set cx \<Longrightarrow> CHR '' '' \<notin> set wx \<Longrightarrow> wx \<noteq> cx \<Longrightarrow>
     passes 1 0 rng (multiprocess_real_os_proof (world_env cx wx) cx wx world_start)"
  "\<not> det_available det g \<Longrightarrow> passes 0 0 rng (cuda_real_proof det run g)"
  "det_available det g \<Longrightarrow> run g = Some (0, g1) \<Longrightarrow> passes 1 0 rng (cuda_real_proof det run g)"
  by (simp_all add: passes_def multiprocess_real_os_proof_def cuda_real_proof_def multiprocess_run)

section \<open>All test programs\<close>

lemma outcome_counted:
  assumes "all_pass (map2 (\<lambda>(n, k) c. (n, k, c)) ns cases) rng" and "length ns = length cases"
    and "sum_list (map fst ns) = tot" and "length cases = m"
  shows "outcome cases rng = (0, tot, 0, m)"
proof -
  have "map (\<lambda>c. snd (snd c)) (map2 (\<lambda>(n, k) c. (n, k, c)) ns cases) = cases"
    "map fst (map2 (\<lambda>(n, k) c. (n, k, c)) ns cases) = map fst ns"
    using assms(2) by (induction ns cases rule: list_induct2) auto
  with outcome_passes [OF assms(1)] assms(2-) show ?thesis by simp
qed

lemma drawn_instance:
  assumes "(ucast (splitmix (rng_instance_seed + of_nat (Suc m) * 0x9E3779B97F4A7C15)) :: byte) \<noteq>
    ucast (splitmix (rng_instance_seed + of_nat (Suc n) * 0x9E3779B97F4A7C15))"
  shows "drawn m rng_instance \<noteq> drawn n rng_instance"
  by (rule drawn_distinct) (use assms in \<open>simp add: rng_instance_def\<close>)

lemmas at_start = drawn_instance rng_instance_seed_def splitmix_def

lemmas programs =
  test_identity_def test_generation_def test_lifecycle_def test_compatibility_def test_composition_def
  test_migration_def test_capacity_def test_property_def test_authority_def test_invalidation_def
  test_persistence_def test_adversarial_def

lemmas cases_pass =
  identity_passes generation_passes lifecycle_passes compat_passes composition_passes compose_conflict_passes
  migration_passes capacity_passes property_passes authority_passes restart_passes exclusivity_passes
  invalidation_passes persistence_passes roundtrip_passes adversarial_passes

lemmas cases_pass_simps = cases_pass [unfolded One_nat_def]

lemma test_identity_pass: "outcome test_identity rng_instance = (0, 12, 0, 5)"
  by (rule outcome_counted [of "[(4, 2), (2, 0), (2, 4), (2, 0), (2, 0)]"])
    (simp_all add: programs cases_pass_simps at_start)

lemma test_generation_pass: "outcome test_generation rng_instance = (0, 2006, 0, 3)"
  by (rule outcome_counted [of "[(2, 0), (2002, 0), (2, 0)]"])
    (simp_all add: programs cases_pass_simps at_start)

lemma test_lifecycle_pass: "outcome test_lifecycle rng_instance = (0, 12, 0, 3)"
  by (rule outcome_counted [of "[(2, 0), (4, 0), (6, 0)]"])
    (simp_all add: programs cases_pass_simps at_start)

lemma test_compatibility_pass: "outcome test_compatibility rng_instance = (0, 15, 0, 6)"
  by (rule outcome_counted [of "[(3, 10), (3, 12), (2, 12), (3, 10), (2, 10), (2, 10)]"])
    (simp_all add: programs cases_pass_simps at_start)

lemma test_composition_pass: "outcome test_composition rng_instance = (0, 8, 0, 5)"
  by (rule outcome_counted [of "[(4, 20), (1, 10), (1, 18), (1, 18), (1, 6)]"])
    (simp_all add: programs cases_pass_simps at_start)

lemma test_authority_pass: "outcome test_authority rng_instance = (0, 12, 0, 6)"
  by (rule outcome_counted [of "[(3, 22), (2, 22), (1, 24), (1, 24), (4, 24), (1, 32)]"])
    (simp_all add: programs cases_pass_simps at_start)

lemma test_migration_pass: "outcome test_migration rng_instance = (0, 17, 0, 4)"
  by (rule outcome_counted [of "[(10, 0), (3, 0), (1, 0), (3, 0)]"])
    (simp_all add: programs cases_pass_simps at_start)

lemma test_invalidation_pass: "outcome test_invalidation rng_instance = (0, 4, 0, 1)"
  by (rule outcome_counted [of "[(4, 22)]"])
    (simp_all add: programs cases_pass_simps at_start)

lemma test_capacity_pass: "outcome test_capacity rng_instance = (0, 11, 0, 5)"
  by (rule outcome_counted [of "[(6, 0), (2, 0), (1, 0), (1, 0), (1, 0)]"])
    (simp_all add: programs cases_pass_simps at_start)

lemma test_property_pass: "outcome test_property rng_instance = (0, 16051, 0, 4)"
  by (rule outcome_counted [of "[(6000, 0), (10000, 0), (2, 0), (49, 116)]"])
    (simp_all add: programs cases_pass_simps at_start)

lemma test_persistence_pass: "outcome test_persistence rng_instance = (0, 7, 0, 6)"
  by (rule outcome_counted [of "[(2, 22), (1, 0), (1, 0), (1, 0), (1, 0), (1, 10)]"])
    (simp_all add: programs cases_pass_simps at_start)

lemma test_adversarial_pass: "\<exists>n. outcome test_adversarial rng = (0, n, 0, 4)"
proof -
  obtain a b c where abc: "passes a 0 rng adversarial_decode_message_random_bytes"
    "passes b 0 rng adversarial_deserialize_snapshot_random_bytes"
    "passes c 0 rng adversarial_deserialize_adapter_random_bytes"
    using adversarial_passes by metis
  have "outcome test_adversarial rng = (0, a + (1 + (b + c)), 0, 4)"
    by (rule outcome_counted [of "[(a, 0), (1, 0), (b, 0), (c, 0)]"])
      (simp_all add: test_adversarial_def adversarial_passes(2) abc del: One_nat_def)
  then show ?thesis by blast
qed

text \<open>
  The test programs, each run from the first state of the process-wide generator, on the modelled
  library: every one makes the listed number of checks in the listed number of cases, none fails, no
  exception leaves a case, and its exit code is 0. The program on malformed input makes as many checks
  as it draws inputs of fewer than 40 bytes; none of them fails, from any state of the generator. The
  test of a fabric under a lock passes in every order in which its eight threads take the lock,
  whatever the generator gives them.
\<close>

theorem unit_tests_pass:
  "map (\<lambda>cases. outcome cases rng_instance)
     [test_identity, test_generation, test_lifecycle, test_compatibility, test_composition, test_authority,
      test_migration, test_invalidation, test_capacity, test_property, test_persistence] =
     [(0, 12, 0, 5), (0, 2006, 0, 3), (0, 12, 0, 3), (0, 15, 0, 6), (0, 8, 0, 5), (0, 12, 0, 6),
      (0, 17, 0, 4), (0, 4, 0, 1), (0, 11, 0, 5), (0, 16051, 0, 4), (0, 7, 0, 6)] \<and>
   (\<exists>n. outcome test_adversarial rng = (0, n, 0, 4)) \<and>
   passes 2 4 rng (concurrency_fabric_operations_locked schedule)"
  by (simp add: test_identity_pass test_generation_pass test_lifecycle_pass test_compatibility_pass
      test_composition_pass test_authority_pass test_migration_pass test_invalidation_pass test_capacity_pass
      test_property_pass test_persistence_pass test_adversarial_pass locked_pass)

end
