(* ===== verification/Spec2Isabelle.thy ===== *)
theory Spec2Isabelle
  imports AF_Schedule AF_Socket AF_ThreadTests
begin

text \<open>
  \<^bold>\<open>Adapter Fabric: a verification development\<close>

  Adapter Fabric registers adapters (LoRA and other fine-tuning artifacts) of base models, loads
  them on worker processes and decides which adapter may execute. A coordinator process holds the
  canonical state, the \<^emph>\<open>fabric\<close>; control clients and workers talk to it over framed TCP. The
  central promise is exclusive, fenced execution authority: at most one adapter is active, the
  active one carries a fence (adapter, generations, epoch, worker, boot, attempt) that is current,
  and whatever went stale (an old boot of a worker, a lost worker, an old epoch) is refused.

  \<^bold>\<open>Parts and their theories.\<close> Names of definitions are those of the source; a record's fields
  carry a prefix of their class. Paths are relative to \<open>src/\<close>, headers to
  \<open>include/adapter_fabric/\<close>.

  \<^item> \<open>AF_Prelude\<close>, \<open>AF_StdMap\<close>: machine integers, little-endian bytes, decimal text; \<open>std::map\<close> as
    a sorted association list with the locale \<open>ordered_map\<close>.
  \<^item> \<open>AF_Error\<close> (\<open>error\<close>): error codes; a throw is \<open>Inl\<close> of an \<open>Error\<close>.
  \<^item> \<open>AF_Identity\<close>, \<open>AF_UuidText\<close>, \<open>AF_Ids\<close> (\<open>rng.hpp\<close>, \<open>uuid\<close>, \<open>identity.hpp\<close>,
    \<open>generation.hpp\<close>): splitmix64, UUIDs, their text, tagged identities, saturating generations.
  \<^item> \<open>AF_Checksum\<close> (\<open>checksum\<close>): FNV-1a and hex digests.
  \<^item> \<open>AF_Lifecycle\<close> (\<open>lifecycle\<close>), \<open>AF_Adapter\<close> (\<open>adapter\<close>, \<open>inventory.hpp\<close>), \<open>AF_Compat\<close>
    (\<open>compatibility\<close>), \<open>AF_Composition\<close> (\<open>composition\<close>), \<open>AF_Capacity\<close> (\<open>residency\<close>,
    \<open>capacity\<close>), \<open>AF_Authority\<close> (\<open>authority\<close>), \<open>AF_Migration\<close> (\<open>migration\<close>,
    \<open>invalidation\<close>): the components the fabric is made of.
  \<^item> \<open>AF_Codec\<close>, \<open>AF_Persistence\<close> (\<open>persistence\<close>), \<open>AF_Protocol\<close> (\<open>protocol\<close>),
    \<open>AF_Transport\<close> (\<open>transport.cpp\<close>): binary codecs under the locales \<open>codec\<close> and
    \<open>strict_codec\<close>, the wire messages, and frames over a stream socket.
  \<^item> \<open>AF_Fabric\<close> (\<open>fabric\<close>): the state and every member function. \<open>AF_FabricInv\<close>,
    \<open>AF_Durable\<close>, \<open>AF_FabricOps\<close>: its invariants over all histories, snapshot and recovery,
    and what its events do to fences, pins and residencies.
  \<^item> \<open>AF_Explain\<close> (\<open>explain\<close>): texts and JSON.
  \<^item> \<open>AF_Coordinator\<close> (\<open>coordinator\<close>), \<open>AF_Worker\<close> (\<open>worker\<close>): the message handlers of the two
    processes. \<open>AF_CoordInv\<close> relates control messages to fabric steps, \<open>AF_System\<close> has the
    histories of a coordinator and the statements that span both processes.
  \<^item> \<open>AF_Server\<close> (\<open>coordinator.cpp\<close>): start, stop, the accept loop and the loop of one connection,
    over any sequence of received frames. \<open>AF_Scenario\<close>: a complete run, from the start of a
    coordinator to an active adapter, as the instance of the histories' statements.
  \<^item> \<open>AF_Threads\<close> (\<open>coordinator.cpp\<close>): the same coordinator as a pool of threads, each handler a
    sequence of critical sections and \<open>forward_to_worker\<close> a sequence of stages. \<open>AF_ThreadsInv\<close>,
    \<open>AF_Requests\<close>, \<open>AF_Stop\<close>: authority, the request table, and \<open>stop\<close> under every
    interleaving; \<open>AF_Stop\<close> has the same steps with any set of socket calls that do not return;
    \<open>AF_Schedule\<close> follows single interleavings.
  \<^item> \<open>AF_Socket\<close> (\<open>transport.cpp\<close>): the class \<open>TcpSocket\<close> over the calls of the operating system.
    \<open>AF_Writers\<close>: several threads in \<open>send_frame\<close> on one socket, each call of \<open>::send\<close> a step.
  \<^item> \<open>AF_Cuda\<close> (\<open>cuda_backend.cpp\<close>, \<open>cuda_impl.cu\<close>): the host wrapper, both layers \<open>detail\<close>, the
    kernel thread by thread, and the CPU reference of \<open>proof_cuda.cpp\<close>.
  \<^item> \<open>AF_Apps\<close>, \<open>AF_Cli\<close> (\<open>apps/\<close>): argument scanning, the three programs and every command.
  \<^item> \<open>AF_Proof\<close> (\<open>proof.cpp\<close>): the control client and the self-test over processes, over any
    environment that creates processes and carries frames, with the script of a run that passes.
    \<open>AF_SelfTest\<close> runs it on the modelled
    programs: an environment made of \<open>coordinator_main\<close>, \<open>worker_args\<close>, \<open>connection_frame\<close> and
    \<open>handle_command\<close>.
  \<^item> \<open>AF_CudaProof\<close>, \<open>AF_Bench\<close> (\<open>proof_cuda.cpp\<close>): the self-test of the accelerator and the
    benchmarks. \<open>AF_Examples\<close>: the programs of \<open>examples/\<close>, \<open>consumer/\<close> and \<open>benchmarks/\<close>.
  \<^item> \<open>AF_Limits\<close>: how many bytes messages and snapshots take, over protocol, transport and
    coordinator. \<open>AF_TestKit\<close>, \<open>AF_Tests\<close>, \<open>AF_FabricTests\<close>, \<open>AF_ThreadTests\<close>
    (\<open>tests/\<close>): the harness, the fixtures, and every case of the test programs.

  \<^bold>\<open>State and concurrency.\<close> The coordinator guards its fabric by one mutex, so a handler is a
  sequence of critical sections. What other threads do between two sections is a parameter: \<open>fw\<close>,
  the wait for a worker's answer, and \<open>gap\<close>, the window between two sections that follow each
  other. The hypotheses \<open>forward_sound\<close> and \<open>gap_sound\<close> say that this is any sequence of the
  fabric steps the coordinator itself can take; \<open>others_sound\<close> says the same of what other
  connections do between two frames of one connection. \<open>AF_Threads\<close> has no such parameter: there
  the others are the other threads of the pool, what arrives on a socket and whether a write
  succeeds is chosen freely at each step, and \<open>control_prog_sequential\<close> shows that the two
  descriptions of a handler agree. Socket calls are parameters too;
  \<open>send_stream\<close> and \<open>recv_stream\<close> state the behaviour of a connected stream socket, and
  \<open>AF_Transport\<close> has a stream that satisfies them; the record \<open>winsock\<close> has the calls that make and
  close sockets, with \<open>winsock_ok\<close> for what they document. The CUDA runtime is the record
  \<open>cuda_rt\<close>: device memory, copies, whether a launch is accepted, and an order in which a grid's
  threads run, of which \<open>schedule_ok\<close> says that every thread runs once; \<open>grid_limits\<close> has the
  documented limits of a grid, beyond which no launch is accepted. The float operations are the
  parameters of the kernel. The process-wide generator is passed explicitly.

  \<^bold>\<open>What is shown.\<close>

  \<^item> Authority: after every history the authority is exclusive and live (\<open>AF_System\<close>); the fence
    check and binding are characterised exactly (\<open>AF_FabricInv\<close>); restart, loss and epoch changes
    fence (\<open>AF_FabricOps\<close>).
  \<^item> Durability: the snapshot of a reachable fabric is accepted exactly when the fabric is within the
    limits of the format, and recovers (\<open>AF_Durable\<close>);
    codecs are exact on their limits, and any changed byte is refused (\<open>AF_Persistence\<close>,
    \<open>AF_Protocol\<close>, \<open>AF_Transport\<close>).
  \<^item> Accounting: usage equals holdings (modulo 2^64, and exactly as long as no limit is cut below
    what is in use), and batches return to the baseline, by the locale \<open>ledger\<close>
    (\<open>AF_Capacity\<close>).
  \<^item> Processes: a connection keeps the coordinator's authority safe whatever is sent on it, and the
    first frame that does not decode or parse decides whether its end takes its worker down
    (\<open>AF_Server\<close>); every open socket handle has one owner, or was overwritten by a second connect
    (\<open>AF_Socket\<close>); the kernel computes the CPU reference in every schedule, where it is launched
    (\<open>AF_Cuda\<close>); what the client saves it recovers (\<open>AF_Cli\<close>); the self-test passes on
    the modelled processes (\<open>AF_SelfTest\<close>), and where it passes, its run is the script, every
    request of it sent and answered in order and no stale one accepted (\<open>AF_Proof\<close>). The
    accelerator's self-test on a working runtime passes exactly when the results agree, and what it
    then releases (\<open>AF_CudaProof\<close>), and no benchmark throws (\<open>AF_Bench\<close>);
    the examples print and return what they announce (\<open>AF_Examples\<close>), and the test programs pass
    with the number of checks they print, the one with threads on a fabric in every order of its lock,
    the one with threads on a socket in every interleaving of calls that
    succeed (\<open>AF_ThreadTests\<close>).
  \<^item> Sizes: a message has exactly 62 bytes and its texts and payload, nothing shorter decodes, and a
    snapshot request is answered whatever the size but received only up to the cap of
    \<open>recv_frame\<close> (\<open>AF_Limits\<close>).
  \<^item> Threads: frames of concurrent senders do not mix (\<open>AF_Writers\<close>); every interleaving acts on
    the fabric through its operations and keeps authority exclusive (\<open>AF_ThreadsInv\<close>); open
    requests have distinct numbers, answers reach the request they name, and a completed request
    stays completed (\<open>AF_Requests\<close>); after a shutdown every schedule is short, and \<open>stop\<close> is held up
    exactly by a socket call that does not return and by an unanswered request (\<open>AF_Stop\<close>); an idle
    client and a disconnection in the middle of a request are runs of the two (\<open>AF_Schedule\<close>).
  \<^item> Decisions: compatibility, composition, eviction, pinning, lifecycle and migration against
    declarative statements; the text under a composition's digest determines the composition.
  \<^item> Departures from what comments and documents say are stated as theorems about the code: an
    invalidated fence binds again, a disconnection forgets attempts and may hit a newer
    registration, deactivation keeps the authority, a load is recorded as one byte, a lowered limit
    lets the head room wrap.

  \<^bold>\<open>Bounds and termination.\<close> Loops over containers are structural recursion. The byte loops of
  \<open>Uuid::parse\<close>, \<open>Rng::fill\<close>, \<open>send_all\<close> and \<open>recv_exact\<close> are total functions with a measure:
  each round consumes at least one byte. The only fuel is that of \<open>stage_run\<close>, which the theorem on it fixes at six;
  the statements on request numbers are about runs of fewer than 2^64 - 1 steps, as the counter
  has 64 bits. Integers keep the width of the source;
  the wrap-around of the capacity head room, the composition total and the pin count is that of the
  machine words. Values the source leaves undefined (indexing a cleared builder) are \<open>None\<close>.

  \<^bold>\<open>Not modelled.\<close> The bodies of calls of the operating system and of the CUDA runtime, which are
  parameters; the interleaving of threads below a critical section or a single unlocked access (a data race is
  undefined behaviour in the source, and listed as a finding); clocks, and text printed by
  the self-tests, the benchmarks and failed checks. Floating point payloads are handled as their bit patterns, and
  the arithmetic of the kernel and of the host by parameters.
\<close>

end
